(* ===== verification/Prelude.thy ===== *)
theory Prelude
  imports Main "HOL-Library.Word"
begin

unbundle bit_operations_syntax

text \<open>
  Shared vocabulary of the development: the fixed-width integers of the C code, the
  little-endian view of byte sequences (the tracer runs on little-endian x86-64 and arm64),
  stores into and slices of byte buffers, and the collections of simplification rules the
  component theories use.
\<close>

named_theorems buf_simps \<open>lengths and slices of byte buffers\<close>

type_synonym u8 = "8 word"
type_synonym u16 = "16 word"
type_synonym u32 = "32 word"
type_synonym u64 = "64 word"
text \<open>Signed integers are words too; the places that compare them read them with \<open>sint\<close>.\<close>
type_synonym s32 = "32 word"
type_synonym s64 = "64 word"

section \<open>Little-endian words\<close>

fun le_word :: "u8 list \<Rightarrow> 'a::len word" where
  "le_word [] = 0"
| "le_word (b # bs) = ucast b OR push_bit 8 (le_word bs)"

definition le_bytes :: "nat \<Rightarrow> 'a::len word \<Rightarrow> u8 list" where
  "le_bytes n w = map (\<lambda>i. ucast (drop_bit (8 * i) w)) [0..<n]"

lemma length_le_bytes [simp]: "length (le_bytes n w) = n"
  by (simp add: le_bytes_def)

lemma bit_le_word:
  "bit (le_word bs :: 'a::len word) i \<longleftrightarrow>
     i < LENGTH('a) \<and> i div 8 < length bs \<and> bit (bs ! (i div 8)) (i mod 8)"
proof (induction bs arbitrary: i)
  case Nil
  then show ?case by simp
next
  case (Cons b bs)
  show ?case
  proof (cases "i < 8")
    case True
    then show ?thesis by (auto simp: bit_simps dest: bit_imp_le_length)
  next
    case False
    then obtain j where i: "i = j + 8" by (metis add.commute le_Suc_ex linorder_not_less)
    have "\<not> bit b (j + 8)" by (auto dest: bit_imp_le_length)
    moreover have "(j + 8) div 8 = Suc (j div 8)" by simp
    ultimately show ?thesis using i by (auto simp: bit_simps Cons.IH)
  qed
qed

lemma le_word_le_bytes:
  "LENGTH('a) \<le> 8 * n \<Longrightarrow> le_word (le_bytes n (w :: 'a::len word)) = w"
  by (rule bit_word_eqI) (auto simp: bit_le_word le_bytes_def bit_simps)

lemma le_bytes_le_word:
  assumes "length bs = n" "8 * n \<le> LENGTH('a)"
  shows "le_bytes n (le_word bs :: 'a::len word) = bs"
proof (rule nth_equalityI)
  show "length (le_bytes n (le_word bs :: 'a word)) = length bs" using assms by simp
next
  fix i assume "i < length (le_bytes n (le_word bs :: 'a word))"
  then have i: "i < n" by simp
  show "le_bytes n (le_word bs :: 'a word) ! i = bs ! i"
  proof (rule bit_word_eqI)
    fix k assume "k < LENGTH(8)"
    then have "k < 8" by simp
    then show "bit (le_bytes n (le_word bs :: 'a word) ! i) k = bit (bs ! i) k"
      using i assms by (simp add: le_bytes_def bit_simps bit_le_word div_add1_eq)
  qed
qed

lemma le_word_append:
  "le_word (xs @ ys) = le_word xs OR push_bit (8 * length xs) (le_word ys :: 'a::len word)"
  by (induction xs) (simp_all add: push_bit_or or.assoc)

lemma le_word_inj:
  assumes "le_word xs = (le_word ys :: 'a::len word)" "length xs = length ys"
    and "8 * length xs \<le> LENGTH('a)"
  shows "xs = ys"
  using assms le_bytes_le_word [of xs "length xs", where 'a = 'a] le_bytes_le_word [of ys "length xs", where 'a = 'a]
  by simp

lemma le_bytes_inj:
  "le_bytes n a = le_bytes n b \<Longrightarrow> LENGTH('a) \<le> 8 * n \<Longrightarrow> a = (b :: 'a::len word)"
  by (metis le_word_le_bytes)

section \<open>Byte buffers\<close>

text \<open>
  A slice \<open>[off, off + n)\<close> of a buffer, and a store of \<open>bs\<close> at offset \<open>off\<close>. A store that
  does not fit leaves the bytes that fall outside out; the properties show that the stores
  of the programs always fit.
\<close>

definition bslice :: "nat \<Rightarrow> nat \<Rightarrow> 'a list \<Rightarrow> 'a list" where
  "bslice off n buf = take n (drop off buf)"

definition store :: "nat \<Rightarrow> 'a list \<Rightarrow> 'a list \<Rightarrow> 'a list" where
  "store off bs buf =
     take off buf @ take (length buf - off) bs @ drop (off + length bs) buf"

lemma length_store [simp]: "length (store off bs buf) = length buf"
  by (auto simp: store_def min_def)

lemma length_slice [buf_simps]: "off + n \<le> length buf \<Longrightarrow> length (bslice off n buf) = n"
  by (simp add: bslice_def)

lemma slice_store_same [buf_simps]:
  "n = length bs \<Longrightarrow> off + n \<le> length buf \<Longrightarrow> bslice off n (store off bs buf) = bs"
  by (simp add: bslice_def store_def)

lemma nth_store:
  "i < length buf \<Longrightarrow>
     store off bs buf ! i = (if off \<le> i \<and> i < off + length bs then bs ! (i - off) else buf ! i)"
  by (auto simp: store_def nth_append min_def)

lemma slice_eqI:
  "length a = length b \<Longrightarrow> (\<And>i. off \<le> i \<Longrightarrow> i < off + n \<Longrightarrow> i < length b \<Longrightarrow> a ! i = b ! i)
     \<Longrightarrow> bslice off n a = bslice off n b"
  by (rule nth_equalityI) (auto simp: bslice_def)

lemma slice_store_other [buf_simps]:
  "off + n \<le> off' \<or> off' + length bs \<le> off \<Longrightarrow> bslice off n (store off' bs buf) = bslice off n buf"
  by (rule slice_eqI) (auto simp: nth_store)

lemma slice_all: "bslice 0 (length xs) xs = xs"
  by (simp add: bslice_def)

lemma slice_map_upt: "off + n \<le> m \<Longrightarrow> bslice off n (map f [0..<m]) = map f [off..<off + n]"
  by (simp add: bslice_def drop_map take_map)

section \<open>Words of a byte buffer\<close>

definition load_le :: "nat \<Rightarrow> nat \<Rightarrow> u8 list \<Rightarrow> 'a::len word" where
  "load_le off n buf = le_word (bslice off n buf)"

lemma load_store_same [buf_simps]:
  "LENGTH('a) \<le> 8 * n \<Longrightarrow> off + n \<le> length buf
     \<Longrightarrow> load_le off n (store off (le_bytes n (w :: 'a::len word)) buf) = w"
  by (simp add: load_le_def buf_simps le_word_le_bytes)

lemma load_store_other [buf_simps]:
  "off + n \<le> off' \<or> off' + length bs \<le> off
     \<Longrightarrow> load_le off n (store off' bs buf) = load_le off n buf"
  by (simp add: load_le_def buf_simps)

section \<open>Loops that fill an array\<close>

text \<open>
  The loop \<^verbatim>\<open>for (; i < cap; i++) { if (i >= nr) break; out[i] = f(i); }\<close>, with the iterations left
  up to \<^verbatim>\<open>cap\<close> as its first number.
\<close>

fun fill_loop :: "nat \<Rightarrow> (nat \<Rightarrow> 'a) \<Rightarrow> nat \<Rightarrow> nat \<Rightarrow> 'a list \<Rightarrow> 'a list" where
  "fill_loop nr f 0 i out = out"
| "fill_loop nr f (Suc n) i out = (if nr \<le> i then out else fill_loop nr f n (Suc i) (out[i := f i]))"

lemma length_fill_loop [simp]: "length (fill_loop nr f n i out) = length out"
  by (induction n arbitrary: i out) simp_all

lemma nth_fill_loop:
  "j < length out \<Longrightarrow> fill_loop nr f n i out ! j = (if i \<le> j \<and> j < i + n \<and> j < nr then f j else out ! j)"
proof (induction n arbitrary: i out)
  case (Suc n)
  show ?case
  proof (cases "nr \<le> i")
    case False
    then show ?thesis using Suc.IH [of "out[i := f i]" "Suc i"] Suc.prems
      by (cases "i = j") (auto simp: nth_list_update)
  qed auto
qed auto

section \<open>C conditions\<close>

text \<open>C reads an integer as a condition by comparing it with zero.\<close>

definition truthy :: "'a::len word \<Rightarrow> bool" where
  "truthy w \<longleftrightarrow> w \<noteq> 0"

definition of_cbool :: "bool \<Rightarrow> 'a::len word" where
  "of_cbool b = (if b then 1 else 0)"

lemma truthy_of_cbool [simp]: "truthy (of_cbool b :: 'a::len word) = b"
  by (simp add: truthy_def of_cbool_def)

end
