(* ===== verification/Errno.thy ===== *)
theory Errno
  imports Prelude
begin

text \<open>
  The error numbers of \<^verbatim>\<open>bpf/headers/errno.h\<close>: one constructor per macro, the number each macro
  stands for, and the negated form in which the kernel helpers return it.
\<close>

datatype errno =
    EPERM | ENOENT | ESRCH | EINTR | EIO | ENXIO | E2BIG | ENOEXEC
  | EBADF | ECHILD | EAGAIN | ENOMEM | EACCES | EFAULT | ENOTBLK | EBUSY
  | EEXIST | EXDEV | ENODEV | ENOTDIR | EISDIR | EINVAL | ENFILE | EMFILE
  | ENOTTY | ETXTBSY | EFBIG | ENOSPC | ESPIPE | EROFS | EMLINK | EPIPE
  | EDOM | ERANGE

fun errno_code :: "errno \<Rightarrow> nat" where
  "errno_code EPERM = 1"
| "errno_code ENOENT = 2"
| "errno_code ESRCH = 3"
| "errno_code EINTR = 4"
| "errno_code EIO = 5"
| "errno_code ENXIO = 6"
| "errno_code E2BIG = 7"
| "errno_code ENOEXEC = 8"
| "errno_code EBADF = 9"
| "errno_code ECHILD = 10"
| "errno_code EAGAIN = 11"
| "errno_code ENOMEM = 12"
| "errno_code EACCES = 13"
| "errno_code EFAULT = 14"
| "errno_code ENOTBLK = 15"
| "errno_code EBUSY = 16"
| "errno_code EEXIST = 17"
| "errno_code EXDEV = 18"
| "errno_code ENODEV = 19"
| "errno_code ENOTDIR = 20"
| "errno_code EISDIR = 21"
| "errno_code EINVAL = 22"
| "errno_code ENFILE = 23"
| "errno_code EMFILE = 24"
| "errno_code ENOTTY = 25"
| "errno_code ETXTBSY = 26"
| "errno_code EFBIG = 27"
| "errno_code ENOSPC = 28"
| "errno_code ESPIPE = 29"
| "errno_code EROFS = 30"
| "errno_code EMLINK = 31"
| "errno_code EPIPE = 32"
| "errno_code EDOM = 33"
| "errno_code ERANGE = 34"

text \<open>A helper reports failure \<open>e\<close> as the negative number \<open>-e\<close>.\<close>

definition neg_errno :: "errno \<Rightarrow> s64" where
  "neg_errno e = - of_nat (errno_code e)"

text \<open>Every error number of the header, in the header's order.\<close>

definition all_errno :: "errno list" where
  "all_errno =
     [EPERM, ENOENT, ESRCH, EINTR, EIO, ENXIO, E2BIG, ENOEXEC,
      EBADF, ECHILD, EAGAIN, ENOMEM, EACCES, EFAULT, ENOTBLK, EBUSY,
      EEXIST, EXDEV, ENODEV, ENOTDIR, EISDIR, EINVAL, ENFILE, EMFILE,
      ENOTTY, ETXTBSY, EFBIG, ENOSPC, ESPIPE, EROFS, EMLINK, EPIPE,
      EDOM, ERANGE]"

lemma errno_in_all: "e \<in> set all_errno"
  by (cases e) (simp_all add: all_errno_def)

lemma all_errno_codes: "map errno_code all_errno = [1..<35]"
  by (simp add: all_errno_def upt_rec)

lemma errno_code_range: "errno_code e \<in> {1..34}"
  by (cases e) simp_all

lemma errno_code_inj: "errno_code a = errno_code b \<Longrightarrow> a = b"
proof -
  have "inj_on errno_code (set all_errno)"
    by (rule distinct_map [THEN iffD1, THEN conjunct2]) (simp add: all_errno_codes)
  then show "errno_code a = errno_code b \<Longrightarrow> a = b"
    by (simp add: inj_on_eq_iff errno_in_all)
qed

lemma neg_errno_inj: "neg_errno a = neg_errno b \<longleftrightarrow> a = b"
proof
  assume "neg_errno a = neg_errno b"
  then have "(of_nat (errno_code a) :: s64) = of_nat (errno_code b)" by (simp add: neg_errno_def)
  then have "unat (of_nat (errno_code a) :: s64) = unat (of_nat (errno_code b) :: s64)" by simp
  moreover have "errno_code e < 2 ^ 64" for e using errno_code_range [of e] by auto
  ultimately have "errno_code a = errno_code b" by (simp add: unat_of_nat take_bit_nat_eq_self)
  then show "a = b" by (rule errno_code_inj)
qed simp

lemma neg_errno_not_0 [simp]: "neg_errno e \<noteq> 0"
  by (cases e) (simp_all add: neg_errno_def)

end
