(* ===== verification/Bpf_Runtime.thy ===== *)
theory Bpf_Runtime
  imports Errno
begin

text \<open>
  The interface between the BPF programs and the kernel. The kernel's helpers are not part of
  the repository, so they are arguments of the model: a record of the results one program
  invocation gets from the helpers it calls, and a record of operations for each BPF map the
  programs share. What the programs rely on is stated by the locales of this theory; a
  reference kernel satisfies them, so the hypotheses of the properties can hold.
\<close>

section \<open>Helper results of one invocation\<close>

text \<open>
  A \<^verbatim>\<open>struct perf_branch_entry\<close>; the seven bit-fields after the two addresses are one word.
\<close>

record perf_branch_entry =
  br_from :: u64
  br_to :: u64
  br_flags :: u64

text \<open>
  \<open>bpf_probe_read_kernel a n\<close> is the error code of the read and, for each index of the
  destination, the byte found there after the call. \<open>bpf_ringbuf_reserve n\<close> is \<open>None\<close> for
  NULL, else the stale bytes of the reserved record. \<open>uninit\<close> are the contents of a
  local array before its first write. \<open>pt_regs\<close> reads a register of the traced context.
\<close>

record helpers =
  bpf_probe_read_kernel :: "u64 \<Rightarrow> nat \<Rightarrow> s64 \<times> (nat \<Rightarrow> u8)"
  bpf_probe_read_kernel_str :: "u64 \<Rightarrow> nat \<Rightarrow> s64 \<times> (nat \<Rightarrow> u8)"
  bpf_get_smp_processor_id :: u32
  bpf_get_current_pid_tgid :: u64
  bpf_get_prandom_u32 :: u32
  bpf_ktime_get_ns :: u64
  bpf_get_current_comm :: "nat \<Rightarrow> u8"
  bpf_get_stackid :: "u64 \<Rightarrow> s64"
  bpf_get_branch_snapshot :: "perf_branch_entry list \<Rightarrow> perf_branch_entry list \<times> s64"
  bpf_ringbuf_reserve :: "nat \<Rightarrow> (nat \<Rightarrow> u8) option"
  bpf_get_func_arg_cnt :: "u64 \<Rightarrow> u64"
  bpf_get_func_ip :: "u64 \<Rightarrow> u64"
  pt_regs_fp :: "u64 \<Rightarrow> u64"
  pt_regs_rc :: "u64 \<Rightarrow> u64"
  pt_regs_parm :: "u64 \<Rightarrow> nat \<Rightarrow> u64"
  uninit :: "nat \<Rightarrow> u64"

definition probe_err :: "helpers \<Rightarrow> u64 \<Rightarrow> nat \<Rightarrow> s64" where
  "probe_err h a n = fst (bpf_probe_read_kernel h a n)"

definition probe_bytes :: "helpers \<Rightarrow> u64 \<Rightarrow> nat \<Rightarrow> u8 list" where
  "probe_bytes h a n = map (snd (bpf_probe_read_kernel h a n)) [0..<n]"

definition probe_word :: "helpers \<Rightarrow> u64 \<Rightarrow> nat \<Rightarrow> 'a::len word" where
  "probe_word h a n = le_word (probe_bytes h a n)"

definition probe_str :: "helpers \<Rightarrow> u64 \<Rightarrow> nat \<Rightarrow> u8 list" where
  "probe_str h a n = map (snd (bpf_probe_read_kernel_str h a n)) [0..<n]"

lemma length_probe_bytes [simp]: "length (probe_bytes h a n) = n"
  by (simp add: probe_bytes_def)

lemma length_probe_str [simp]: "length (probe_str h a n) = n"
  by (simp add: probe_str_def)

text \<open>
  Field offsets of the running kernel's types: \<^verbatim>\<open>BPF_CORE_READ(p, f)\<close> reads the field \<open>f\<close>
  of the \<open>s\<close> at \<open>p\<close>, at the offset the loader relocated it to.
\<close>

type_synonym layout = "string \<Rightarrow> string \<Rightarrow> nat"

definition core_read :: "helpers \<Rightarrow> layout \<Rightarrow> nat \<Rightarrow> string \<Rightarrow> string \<Rightarrow> u64 \<Rightarrow> 'a::len word" where
  "core_read h L n s f p = probe_word h (p + of_nat (L s f)) n"

text \<open>The helpers whose buffers are sized by the caller.\<close>

definition ringbuf_record :: "helpers \<Rightarrow> nat \<Rightarrow> u8 list option" where
  "ringbuf_record h n = map_option (\<lambda>f. map f [0..<n]) (bpf_ringbuf_reserve h n)"

definition current_comm :: "helpers \<Rightarrow> nat \<Rightarrow> u8 list" where
  "current_comm h n = map (bpf_get_current_comm h) [0..<n]"

lemma length_ringbuf_record: "ringbuf_record h n = Some buf \<Longrightarrow> length buf = n"
  by (auto simp: ringbuf_record_def)

lemma length_current_comm [simp]: "length (current_comm h n) = n"
  by (simp add: current_comm_def)

section \<open>Reading kernel memory\<close>

text \<open>
  What \<^verbatim>\<open>bpf_probe_read_kernel\<close> promises: it copies mapped bytes and returns 0, and it
  returns an error when a byte of the range is not mapped.
\<close>

locale kernel_memory =
  fixes probe :: "u64 \<Rightarrow> nat \<Rightarrow> s64 \<times> (nat \<Rightarrow> u8)"
    and mem :: "u64 \<Rightarrow> u8 option"
  assumes probe_mapped:
      "(\<And>i. i < n \<Longrightarrow> mem (a + of_nat i) \<noteq> None) \<Longrightarrow>
         fst (probe a n) = 0 \<and> (\<forall>i<n. snd (probe a n) i = the (mem (a + of_nat i)))"
    and probe_fault: "i < n \<Longrightarrow> mem (a + of_nat i) = None \<Longrightarrow> fst (probe a n) \<noteq> 0"
begin

text \<open>A range whose bytes are \<open>bs\<close> reads as \<open>bs\<close>.\<close>

lemma probe_reads:
  assumes "\<And>i. i < length bs \<Longrightarrow> mem (a + of_nat i) = Some (bs ! i)"
  shows "fst (probe a (length bs)) = 0" "map (snd (probe a (length bs))) [0..<length bs] = bs"
proof -
  have "fst (probe a (length bs)) = 0 \<and>
     (\<forall>i<length bs. snd (probe a (length bs)) i = the (mem (a + of_nat i)))"
    by (rule probe_mapped) (simp add: assms)
  then show "fst (probe a (length bs)) = 0" "map (snd (probe a (length bs))) [0..<length bs] = bs"
    by (auto intro: nth_equalityI simp: assms)
qed

lemma probe_ok_iff: "fst (probe a n) = 0 \<longleftrightarrow> (\<forall>i<n. mem (a + of_nat i) \<noteq> None)"
  using probe_mapped [of n a] probe_fault by blast

end

text \<open>A reference memory: faulting reads fill the destination with zeroes.\<close>

definition mem_probe :: "(u64 \<Rightarrow> u8 option) \<Rightarrow> u64 \<Rightarrow> nat \<Rightarrow> s64 \<times> (nat \<Rightarrow> u8)" where
  "mem_probe mem a n =
     (if list_all (\<lambda>i. mem (a + of_nat i) \<noteq> None) [0..<n]
      then (0, \<lambda>i. the (mem (a + of_nat i))) else (neg_errno EFAULT, \<lambda>_. 0))"

interpretation refmem: kernel_memory "mem_probe mem" mem
  by unfold_locales (auto simp: mem_probe_def list_all_iff)

text \<open>A memory that holds the given byte strings at the given addresses.\<close>

fun mem_of :: "(u64 \<times> u8 list) list \<Rightarrow> u64 \<Rightarrow> u8 option" where
  "mem_of [] a = None"
| "mem_of ((b, bs) # rest) a =
     (if unat (a - b) < length bs then Some (bs ! unat (a - b)) else mem_of rest a)"

text \<open>\<open>bytes_at mem a bs\<close>: the bytes \<open>bs\<close> are mapped at address \<open>a\<close>.\<close>

definition bytes_at :: "(u64 \<Rightarrow> u8 option) \<Rightarrow> u64 \<Rightarrow> u8 list \<Rightarrow> bool" where
  "bytes_at mem a bs \<longleftrightarrow> (\<forall>i<length bs. mem (a + of_nat i) = Some (bs ! i))"

lemma bytes_at_slice:
  assumes "bytes_at mem a bs" "off + n \<le> length bs"
  shows "bytes_at mem (a + of_nat off) (bslice off n bs)"
  using assms by (auto simp: bytes_at_def bslice_def add.assoc simp flip: of_nat_add)

text \<open>Where the blocks of a concrete memory lie.\<close>

lemma bytes_at_first:
  assumes "length bs < 2 ^ 64"
  shows "bytes_at (mem_of ((b, bs) # rest)) b bs"
  using assms by (simp add: bytes_at_def unat_of_nat take_bit_nat_eq_self)

lemma bytes_at_later:
  assumes "length cs \<le> unat (a - b)" "unat (a - b) + length bs < 2 ^ 64" "bytes_at (mem_of rest) a bs"
  shows "bytes_at (mem_of ((b, cs) # rest)) a bs"
  unfolding bytes_at_def
proof (intro allI impI)
  fix i assume i: "i < length bs"
  have "a + of_nat i - b = of_nat (unat (a - b) + i)" by simp
  then have "unat (a + of_nat i - b) = unat (a - b) + i"
    using i assms(2) by (simp only: unat_of_nat) (simp add: take_bit_nat_eq_self)
  then show "mem_of ((b, cs) # rest) (a + of_nat i) = Some (bs ! i)"
    using i assms(1,3) by (simp add: bytes_at_def)
qed

lemma bytes_at_append:
  "bytes_at mem a (xs @ ys) \<longleftrightarrow> bytes_at mem a xs \<and> bytes_at mem (a + of_nat (length xs)) ys"
  unfolding bytes_at_def length_append
  by (auto simp: nth_append add.assoc simp flip: of_nat_add) (metis add_diff_inverse_nat nat_add_left_cancel_less)

context kernel_memory
begin

lemma probe_bytes_at:
  assumes "bpf_probe_read_kernel h = probe" "bytes_at mem a bs" "n = length bs"
  shows "probe_bytes h a n = bs"
  using probe_reads [of bs a] assms by (simp add: probe_bytes_def bytes_at_def)

text \<open>Reading a field of a header that lies in mapped memory.\<close>

lemma probe_word_at:
  assumes h: "bpf_probe_read_kernel h = probe" and at: "bytes_at mem a bs"
    and off: "off + n \<le> length bs" and b: "b = a + of_nat off"
  shows "probe_word h b n = load_le off n bs"
  using probe_bytes_at [OF h bytes_at_slice [OF at off]] off b
  by (simp add: probe_word_def load_le_def length_slice)

lemma core_read_at:
  assumes "bpf_probe_read_kernel h = probe" "bytes_at mem a bs" "L s f + n \<le> length bs"
  shows "core_read h L n s f a = load_le (L s f) n bs"
  unfolding core_read_def by (rule probe_word_at) (use assms in auto)

end

section \<open>Hash maps\<close>

definition BPF_ANY :: u64 where "BPF_ANY = 0"
definition BPF_NOEXIST :: u64 where "BPF_NOEXIST = 1"
definition BPF_EXIST :: u64 where "BPF_EXIST = 2"

text \<open>
  The operations of one \<^verbatim>\<open>BPF_MAP_TYPE_HASH\<close> map with 8-byte keys. A lookup returns a pointer to
  the value inside the map, 0 being NULL; \<open>map_value\<close> is a load through such a pointer.
\<close>

record ('m, 'v) bpf_hash =
  bpf_map_lookup_elem :: "'m \<Rightarrow> u64 \<Rightarrow> u64"
  map_value :: "'m \<Rightarrow> u64 \<Rightarrow> 'v"
  bpf_map_update_elem :: "'m \<Rightarrow> u64 \<Rightarrow> 'v \<Rightarrow> u64 \<Rightarrow> 'm \<times> s64"
  bpf_map_delete_elem :: "'m \<Rightarrow> u64 \<Rightarrow> 'm \<times> s64"

text \<open>
  The documented behaviour: \<open>view\<close> is the finite map a map stands for. An update either
  returns 0 and stores the value or returns an error and stores nothing; the value behind a
  pointer obtained before a delete can still be read after it, as long as no other operation
  has touched the map.
\<close>

locale bpf_hash_map =
  fixes H :: "('m, 'v) bpf_hash"
    and view :: "'m \<Rightarrow> u64 \<rightharpoonup> 'v"
    and inv :: "'m \<Rightarrow> bool"
  assumes lookup_null: "inv m \<Longrightarrow> bpf_map_lookup_elem H m k = 0 \<longleftrightarrow> view m k = None"
    and lookup_value: "inv m \<Longrightarrow> view m k = Some v \<Longrightarrow>
        map_value H m (bpf_map_lookup_elem H m k) = v"
    and update_ok: "inv m \<Longrightarrow> bpf_map_update_elem H m k v f = (m', 0) \<Longrightarrow>
        view m' = (view m)(k \<mapsto> v)"
    and update_err: "inv m \<Longrightarrow> bpf_map_update_elem H m k v f = (m', e) \<Longrightarrow> e \<noteq> 0 \<Longrightarrow>
        view m' = view m"
    and update_noexist: "inv m \<Longrightarrow>
        snd (bpf_map_update_elem H m k v BPF_NOEXIST) = neg_errno EEXIST \<longleftrightarrow> view m k \<noteq> None"
    and delete_view: "inv m \<Longrightarrow> view (fst (bpf_map_delete_elem H m k)) = (view m)(k := None)"
    and delete_value: "inv m \<Longrightarrow> view m k = Some v \<Longrightarrow>
        map_value H (fst (bpf_map_delete_elem H m k)) (bpf_map_lookup_elem H m k) = v"
    and inv_update: "inv m \<Longrightarrow> inv (fst (bpf_map_update_elem H m k v f))"
    and inv_delete: "inv m \<Longrightarrow> inv (fst (bpf_map_delete_elem H m k))"
begin

lemma update_view:
  "inv m \<Longrightarrow> view (fst (bpf_map_update_elem H m k v f)) =
     (if snd (bpf_map_update_elem H m k v f) = 0 then (view m)(k \<mapsto> v) else view m)"
  by (cases "bpf_map_update_elem H m k v f") (auto dest: update_ok update_err)

lemma update_view_other:
  "inv m \<Longrightarrow> k' \<noteq> k \<Longrightarrow> view (fst (bpf_map_update_elem H m k v f)) k' = view m k'"
  by (simp add: update_view)

lemma lookup_Some:
  "inv m \<Longrightarrow> bpf_map_lookup_elem H m k \<noteq> 0 \<Longrightarrow>
     view m k = Some (map_value H m (bpf_map_lookup_elem H m k))"
  by (cases "view m k") (auto simp: lookup_null lookup_value)

lemmas map_laws = lookup_null lookup_value update_view delete_view delete_value
  inv_update inv_delete

end

end
