(* ===== verification/Ref_Map.thy ===== *)
theory Ref_Map
  imports Bpf_Runtime
begin

text \<open>
  A reference hash map that meets the contract of \<^theory_text>\<open>bpf_hash_map\<close>: a table of at most
  \<open>cap\<close> slots, each with its key (none when the slot is free) and its value. Deleting frees a
  slot and leaves its value in place, inserting takes the first free slot or grows the table,
  and a full table refuses a new key with \<open>-E2BIG\<close>.
\<close>

type_synonym 'v slots = "(u64 option \<times> 'v) list"

fun find_key :: "u64 option \<Rightarrow> 'v slots \<Rightarrow> nat option" where
  "find_key k [] = None"
| "find_key k ((k', v) # xs) = (if k' = k then Some 0 else map_option Suc (find_key k xs))"

definition slot_ptr :: "nat option \<Rightarrow> u64" where
  "slot_ptr i = (case i of None \<Rightarrow> 0 | Some i \<Rightarrow> of_nat (Suc i))"

definition slots_lookup :: "'v slots \<Rightarrow> u64 \<Rightarrow> u64" where
  "slots_lookup m k = slot_ptr (find_key (Some k) m)"

definition slots_value :: "'v slots \<Rightarrow> u64 \<Rightarrow> 'v" where
  "slots_value m p = snd (m ! (unat p - 1))"

definition slots_update :: "nat \<Rightarrow> 'v slots \<Rightarrow> u64 \<Rightarrow> 'v \<Rightarrow> u64 \<Rightarrow> 'v slots \<times> s64" where
  "slots_update cap m k v f =
     (case find_key (Some k) m of
        Some i \<Rightarrow> (if f = BPF_NOEXIST then (m, neg_errno EEXIST) else (m[i := (Some k, v)], 0))
      | None \<Rightarrow>
          (if f = BPF_EXIST then (m, neg_errno ENOENT)
           else case find_key None m of
              Some i \<Rightarrow> (m[i := (Some k, v)], 0)
            | None \<Rightarrow> (if length m < cap then (m @ [(Some k, v)], 0) else (m, neg_errno E2BIG))))"

definition slots_delete :: "'v slots \<Rightarrow> u64 \<Rightarrow> 'v slots \<times> s64" where
  "slots_delete m k =
     (case find_key (Some k) m of
        Some i \<Rightarrow> (m[i := (None, snd (m ! i))], 0)
      | None \<Rightarrow> (m, neg_errno ENOENT))"

definition ref_hash :: "nat \<Rightarrow> ('v slots, 'v) bpf_hash" where
  "ref_hash cap = \<lparr>bpf_map_lookup_elem = slots_lookup, map_value = slots_value,
     bpf_map_update_elem = slots_update cap, bpf_map_delete_elem = slots_delete\<rparr>"

definition slots_view :: "'v slots \<Rightarrow> u64 \<rightharpoonup> 'v" where
  "slots_view m k = map_option (\<lambda>i. snd (m ! i)) (find_key (Some k) m)"

definition slots_inv :: "nat \<Rightarrow> 'v slots \<Rightarrow> bool" where
  "slots_inv cap m \<longleftrightarrow> length m \<le> cap \<and>
     (\<forall>i<length m. \<forall>j<i. fst (m ! i) \<noteq> None \<longrightarrow> fst (m ! j) \<noteq> fst (m ! i))"

lemma find_key_Some:
  "find_key k m = Some i \<Longrightarrow> i < length m \<and> fst (m ! i) = k"
  by (induction k m arbitrary: i rule: find_key.induct) (auto split: if_splits)

lemma find_key_None: "find_key k m = None \<longleftrightarrow> k \<notin> fst ` set m"
  by (induction k m rule: find_key.induct) auto

lemma slots_inv_unique:
  assumes "slots_inv cap m" "i < length m" "j < length m"
    and "fst (m ! i) = Some k" "fst (m ! j) = Some k"
  shows "i = j"
proof (rule ccontr)
  assume "i \<noteq> j"
  then consider "i < j" | "j < i" by linarith
  then show False using assms by cases (auto simp: slots_inv_def)
qed

lemma slots_invI:
  assumes "length m \<le> cap"
    and "\<And>i j k. i < length m \<Longrightarrow> j < i \<Longrightarrow> fst (m ! i) = Some k \<Longrightarrow> fst (m ! j) = Some k \<Longrightarrow> False"
  shows "slots_inv cap m"
  using assms by (fastforce simp: slots_inv_def)

lemma find_key_unique:
  assumes "slots_inv cap m" "i < length m" "fst (m ! i) = Some k"
  shows "find_key (Some k) m = Some i"
proof -
  have "Some k \<in> fst ` set m" using assms by (metis image_iff nth_mem)
  then obtain j where "find_key (Some k) m = Some j" using find_key_None [of "Some k" m] by blast
  with find_key_Some [OF this] assms show ?thesis
    by (metis slots_inv_unique)
qed

lemma slots_view_iff:
  assumes "slots_inv cap m"
  shows "slots_view m k = Some v \<longleftrightarrow> (\<exists>i<length m. m ! i = (Some k, v))"
proof
  assume "slots_view m k = Some v"
  then obtain i where "find_key (Some k) m = Some i" "snd (m ! i) = v"
    by (auto simp: slots_view_def)
  then show "\<exists>i<length m. m ! i = (Some k, v)" by (metis find_key_Some prod.collapse)
next
  assume "\<exists>i<length m. m ! i = (Some k, v)"
  then show "slots_view m k = Some v"
    using find_key_unique [OF assms] by (fastforce simp: slots_view_def)
qed

lemma slots_view_None: "slots_view m k = None \<longleftrightarrow> Some k \<notin> fst ` set m"
  by (simp add: slots_view_def find_key_None)

text \<open>Writing a slot whose key is absent elsewhere keeps the invariant and sets the view.\<close>

lemma slots_inv_write:
  assumes inv: "slots_inv cap m" and "i < length m"
    and fresh: "\<And>k' j. key = Some k' \<Longrightarrow> j < length m \<Longrightarrow> fst (m ! j) = Some k' \<Longrightarrow> j = i"
  shows "slots_inv cap (m[i := (key, v)])"
proof (rule slots_invI)
  show "length (m[i := (key, v)]) \<le> cap" using inv by (simp add: slots_inv_def)
next
  fix a b k
  assume ab: "a < length (m[i := (key, v)])" "b < a"
    "fst (m[i := (key, v)] ! a) = Some k" "fst (m[i := (key, v)] ! b) = Some k"
  then show False
    using fresh [of k a] fresh [of k b] slots_inv_unique [OF inv, of a b k] assms(2)
    by (auto simp: nth_list_update split: if_splits)
qed

lemma slots_inv_append:
  assumes "slots_inv cap m" "length m < cap" "Some k \<notin> fst ` set m"
  shows "slots_inv cap (m @ [(Some k, v)])"
proof (rule slots_invI)
  show "length (m @ [(Some k, v)]) \<le> cap" using assms by simp
next
  fix a b k'
  assume ab: "a < length (m @ [(Some k, v)])" "b < a"
    "fst ((m @ [(Some k, v)]) ! a) = Some k'" "fst ((m @ [(Some k, v)]) ! b) = Some k'"
  have "fst (m ! j) \<noteq> Some k" if "j < length m" for j
    using assms(3) that by (metis image_iff nth_mem)
  then show False
    using ab slots_inv_unique [OF assms(1), of a b k'] by (auto simp: nth_append split: if_splits)
qed

lemma slots_view_eqI:
  assumes "slots_inv cap m" "\<And>k v. (\<exists>i<length m. m ! i = (Some k, v)) \<longleftrightarrow> f k = Some v"
  shows "slots_view m = f"
proof
  fix k show "slots_view m k = f k"
    using assms(2) [of k] slots_view_iff [OF assms(1), of k]
    by (metis not_None_eq)
qed

text \<open>The view after each operation.\<close>

lemma slots_view_write:
  assumes inv: "slots_inv cap m" and i: "i < length m"
    and fresh: "\<And>j. j < length m \<Longrightarrow> fst (m ! j) = Some k \<Longrightarrow> j = i"
    and free: "fst (m ! i) = None \<or> fst (m ! i) = Some k"
  shows "slots_view (m[i := (Some k, v)]) = (slots_view m)(k \<mapsto> v)"
proof (rule slots_view_eqI)
  show "slots_inv cap (m[i := (Some k, v)])" by (rule slots_inv_write) (use assms in auto)
next
  fix k' v'
  show "(\<exists>j<length (m[i := (Some k, v)]). m[i := (Some k, v)] ! j = (Some k', v')) \<longleftrightarrow>
      ((slots_view m)(k \<mapsto> v)) k' = Some v'"
  proof (cases "k' = k")
    case True
    then show ?thesis using i fresh by (auto simp: nth_list_update)
  next
    case False
    then show ?thesis
      using i free slots_view_iff [OF inv, of k' v'] by (auto simp: nth_list_update) (metis fst_conv option.distinct(1) option.inject)+
  qed
qed

lemma slots_view_append:
  assumes "slots_inv cap m" "length m < cap" "Some k \<notin> fst ` set m"
  shows "slots_view (m @ [(Some k, v)]) = (slots_view m)(k \<mapsto> v)"
proof (rule slots_view_eqI)
  show "slots_inv cap (m @ [(Some k, v)])" by (rule slots_inv_append) fact+
next
  fix k' v'
  have no: "m ! j \<noteq> (Some k, w)" if "j < length m" for j w
    using assms(3) that by (metis fst_conv image_iff nth_mem)
  show "(\<exists>j<length (m @ [(Some k, v)]). (m @ [(Some k, v)]) ! j = (Some k', v')) \<longleftrightarrow>
      ((slots_view m)(k \<mapsto> v)) k' = Some v'"
    using no slots_view_iff [OF assms(1), of k' v']
    by (auto simp: nth_append less_Suc_eq)
qed

lemma slots_view_delete:
  assumes inv: "slots_inv cap m" and i: "find_key (Some k) m = Some i"
  shows "slots_view (m[i := (None, w)]) = (slots_view m)(k := None)"
proof (rule slots_view_eqI)
  show "slots_inv cap (m[i := (None, w)])"
    by (rule slots_inv_write [OF inv]) (use find_key_Some [OF i] in simp_all)
next
  fix k' v'
  have only: "m ! j \<noteq> (Some k, x)" if "j < length m" "j \<noteq> i" for j x
    using slots_inv_unique [OF inv that(1), of i k] find_key_Some [OF i] that by auto
  have "(\<exists>j<length m. m[i := (None, w)] ! j = (Some k', v')) \<longleftrightarrow>
      k' \<noteq> k \<and> (\<exists>j<length m. m ! j = (Some k', v'))"
  proof (cases "k' = k")
    case True
    have "m[i := (None, w)] ! j \<noteq> (Some k, v')" if "j < length m" for j
      using only [OF that] that by (cases "j = i") simp_all
    with True show ?thesis by blast
  next
    case False
    have "m ! i \<noteq> (Some k', v')" using False find_key_Some [OF i] by auto
    then have "m[i := (None, w)] ! j = (Some k', v') \<longleftrightarrow> m ! j = (Some k', v')"
      if "j < length m" for j
      using that by (cases "j = i") simp_all
    with False show ?thesis by blast
  qed
  then show "(\<exists>j<length (m[i := (None, w)]). m[i := (None, w)] ! j = (Some k', v')) \<longleftrightarrow>
      ((slots_view m)(k := None)) k' = Some v'"
    using slots_view_iff [OF inv, of k' v'] by simp
qed

lemma slots_ptr_value:
  assumes "slots_inv cap m" "cap < 2 ^ 64" "find_key (Some k) m = Some i"
  shows "slots_lookup m k \<noteq> 0" "unat (slots_lookup m k) = Suc i"
proof -
  have "Suc i < 2 ^ 64" using assms find_key_Some [OF assms(3)] by (auto simp: slots_inv_def)
  then show "unat (slots_lookup m k) = Suc i"
    by (simp add: slots_lookup_def slot_ptr_def assms(3) unat_of_nat take_bit_nat_eq_self del: of_nat_Suc)
  then show "slots_lookup m k \<noteq> 0" by auto
qed

text \<open>The laws of the contract, one operation at a time.\<close>

lemma slots_lookup_null:
  assumes "slots_inv cap m" "cap < 2 ^ 64"
  shows "slots_lookup m k = 0 \<longleftrightarrow> slots_view m k = None"
proof (cases "find_key (Some k) m")
  case None
  then show ?thesis by (simp add: slots_lookup_def slot_ptr_def slots_view_def)
next
  case (Some i)
  with slots_ptr_value [OF assms Some] show ?thesis by (simp add: slots_view_def)
qed

lemma slots_value_lookup:
  assumes "slots_inv cap m" "cap < 2 ^ 64" "slots_view m k = Some v"
  shows "slots_value m (slots_lookup m k) = v"
    and "slots_value (fst (slots_delete m k)) (slots_lookup m k) = v"
proof -
  obtain i where i: "find_key (Some k) m = Some i" "snd (m ! i) = v"
    using assms(3) by (auto simp: slots_view_def)
  note ptr = slots_ptr_value [OF assms(1,2) i(1)] find_key_Some [OF i(1)]
  show "slots_value m (slots_lookup m k) = v" using i ptr by (simp add: slots_value_def)
  show "slots_value (fst (slots_delete m k)) (slots_lookup m k) = v"
    using i ptr by (simp add: slots_value_def slots_delete_def)
qed

lemma slots_delete_ok:
  assumes inv: "slots_inv cap m"
  shows "slots_inv cap (fst (slots_delete m k))"
    and "slots_view (fst (slots_delete m k)) = (slots_view m)(k := None)"
proof -
  show "slots_inv cap (fst (slots_delete m k))"
    using inv by (cases "find_key (Some k) m")
      (auto simp: slots_delete_def intro!: slots_inv_write dest: find_key_Some)
  show "slots_view (fst (slots_delete m k)) = (slots_view m)(k := None)"
  proof (cases "find_key (Some k) m")
    case None
    then have "slots_view m k = None" by (simp add: slots_view_def)
    with None show ?thesis by (simp add: slots_delete_def fun_upd_idem)
  next
    case (Some i)
    then show ?thesis by (simp add: slots_delete_def slots_view_delete [OF inv])
  qed
qed

lemma slots_write_old:
  assumes inv: "slots_inv cap m" and i: "find_key (Some k) m = Some i"
  shows "slots_inv cap (m[i := (Some k, v)])"
    and "slots_view (m[i := (Some k, v)]) = (slots_view m)(k \<mapsto> v)"
proof -
  note k = find_key_Some [OF i]
  have uniq: "j = i" if "j < length m" "fst (m ! j) = Some k" for j
    using slots_inv_unique [OF inv] k that by blast
  show "slots_inv cap (m[i := (Some k, v)])"
    by (rule slots_inv_write [OF inv]) (use k uniq in blast)+
  show "slots_view (m[i := (Some k, v)]) = (slots_view m)(k \<mapsto> v)"
    by (rule slots_view_write [OF inv]) (use k uniq in blast)+
qed

lemma slots_write_free:
  assumes inv: "slots_inv cap m" and no: "find_key (Some k) m = None"
    and i: "find_key None m = Some i"
  shows "slots_inv cap (m[i := (Some k, v)])"
    and "slots_view (m[i := (Some k, v)]) = (slots_view m)(k \<mapsto> v)"
proof -
  note f = find_key_Some [OF i]
  have absent: "fst (m ! j) \<noteq> Some k" if "j < length m" for j
    using no that by (metis find_key_None image_eqI nth_mem)
  show "slots_inv cap (m[i := (Some k, v)])"
    by (rule slots_inv_write [OF inv]) (use f absent in blast)+
  show "slots_view (m[i := (Some k, v)]) = (slots_view m)(k \<mapsto> v)"
    by (rule slots_view_write [OF inv]) (use f absent in blast)+
qed

lemma slots_update_ok:
  assumes inv: "slots_inv cap m"
  shows "slots_inv cap (fst (slots_update cap m k v f)) \<and>
    slots_view (fst (slots_update cap m k v f)) =
      (if snd (slots_update cap m k v f) = 0 then (slots_view m)(k \<mapsto> v) else slots_view m)"
proof (cases "find_key (Some k) m")
  case (Some i)
  then show ?thesis by (simp add: slots_update_def inv slots_write_old [OF inv Some])
next
  case no: None
  then have absent: "Some k \<notin> fst ` set m" by (simp add: find_key_None)
  show ?thesis
  proof (cases "find_key None m")
    case None
    then show ?thesis
      by (simp add: slots_update_def no inv slots_inv_append [OF inv _ absent]
          slots_view_append [OF inv _ absent])
  next
    case (Some i)
    then show ?thesis
      by (simp add: slots_update_def no inv slots_write_free [OF inv no Some])
  qed
qed

lemma slots_update_noexist:
  "snd (slots_update cap m k v BPF_NOEXIST) = neg_errno EEXIST \<longleftrightarrow> slots_view m k \<noteq> None"
  by (auto simp: slots_update_def slots_view_def neg_errno_inj BPF_NOEXIST_def BPF_EXIST_def
      neg_errno_not_0 [symmetric] split: option.splits)

text \<open>The reference map meets the contract for every capacity that pointers can address.\<close>

lemma ref_hash_ok:
  assumes cap: "cap < 2 ^ 64"
  shows "bpf_hash_map (ref_hash cap) slots_view (slots_inv cap)"
proof (unfold_locales, unfold ref_hash_def bpf_hash.simps)
  fix m :: "'v slots" and k v f m' e
  assume inv: "slots_inv cap m"
  show "(slots_lookup m k = 0) = (slots_view m k = None)"
    by (rule slots_lookup_null [OF inv cap])
  show "slots_view m k = Some v \<Longrightarrow> slots_value m (slots_lookup m k) = v"
    "slots_view m k = Some v \<Longrightarrow> slots_value (fst (slots_delete m k)) (slots_lookup m k) = v"
    by (rule slots_value_lookup [OF inv cap], assumption)+
  show "slots_view (fst (slots_delete m k)) = (slots_view m)(k := None)"
    "slots_inv cap (fst (slots_delete m k))"
    by (rule slots_delete_ok [OF inv])+
  show "(snd (slots_update cap m k v BPF_NOEXIST) = neg_errno EEXIST) = (slots_view m k \<noteq> None)"
    by (rule slots_update_noexist)
  show "slots_update cap m k v f = (m', 0) \<Longrightarrow> slots_view m' = (slots_view m)(k \<mapsto> v)"
    "slots_update cap m k v f = (m', e) \<Longrightarrow> e \<noteq> 0 \<Longrightarrow> slots_view m' = slots_view m"
    "slots_inv cap (fst (slots_update cap m k v f))"
    using slots_update_ok [OF inv, of k v f] by simp_all
qed

text \<open>The capacity of every hash map of the tracer, \<^verbatim>\<open>BPFSNOOP_MAX_ENTRIES\<close>.\<close>

definition BPFSNOOP_MAX_ENTRIES :: nat where
  "BPFSNOOP_MAX_ENTRIES = 65536"

interpretation refmap: bpf_hash_map "ref_hash BPFSNOOP_MAX_ENTRIES" slots_view
    "slots_inv BPFSNOOP_MAX_ENTRIES"
  by (rule ref_hash_ok) (simp add: BPFSNOOP_MAX_ENTRIES_def)

lemma slots_inv_Nil [simp]: "slots_inv cap []"
  by (simp add: slots_inv_def)

end
