(* ===== verification/Sess.thy ===== *)
theory Sess
  imports Ref_Map
begin

text \<open>
  The session map of the function tracer (\<^verbatim>\<open>bpf/bpfsnoop_sess.h\<close>) and the map helpers of
  \<^verbatim>\<open>bpf/headers/bpf_map_helpers.h\<close>. The contract both tracers need of their session map is the
  locale \<open>session_store\<close>; the operations of this file give it for every hash map that
  meets the kernel's contract.
\<close>

section \<open>The session operations\<close>

record bpfsnoop_sess =
  session_id :: u64

definition add_session ::
  "('m, bpfsnoop_sess) bpf_hash \<Rightarrow> u64 \<Rightarrow> bpfsnoop_sess \<Rightarrow> 'm \<Rightarrow> 'm" where
  "add_session H fp sess m = fst (bpf_map_update_elem H m fp sess BPF_ANY)"

definition get_session :: "('m, 'v) bpf_hash \<Rightarrow> u64 \<Rightarrow> 'm \<Rightarrow> u64" where
  "get_session H fp m = bpf_map_lookup_elem H m fp"

text \<open>The result is a pointer into the map, paired with the map after the delete.\<close>

definition get_and_del_session :: "('m, 'v) bpf_hash \<Rightarrow> u64 \<Rightarrow> 'm \<Rightarrow> u64 \<times> 'm" where
  "get_and_del_session H fp m =
     (let sess = bpf_map_lookup_elem H m fp in
      if sess \<noteq> 0 then (sess, fst (bpf_map_delete_elem H m fp)) else (sess, m))"

section \<open>Map helpers\<close>

definition bpf_map_lookup_or_try_init ::
  "('m, 'v) bpf_hash \<Rightarrow> u64 \<Rightarrow> 'v \<Rightarrow> 'm \<Rightarrow> u64 \<times> 'm" where
  "bpf_map_lookup_or_try_init H key init m =
     (let val = bpf_map_lookup_elem H m key in
      if val \<noteq> 0 then (val, m)
      else let (m', err) = bpf_map_update_elem H m key init BPF_NOEXIST in
        if err \<noteq> 0 \<and> err \<noteq> neg_errno EEXIST then (0, m')
        else (bpf_map_lookup_elem H m' key, m'))"

definition bpf_map_lookup_and_delete :: "('m, 'v) bpf_hash \<Rightarrow> u64 \<Rightarrow> 'm \<Rightarrow> u64 \<times> 'm" where
  "bpf_map_lookup_and_delete H key m =
     (let val = bpf_map_lookup_elem H m key in
      if val \<noteq> 0 then (val, fst (bpf_map_delete_elem H m key)) else (val, m))"

section \<open>The contract of a session store\<close>

text \<open>
  What the tracers rely on: an entry either records its session under the frame pointer or
  (a full map) records nothing, an exit takes the session recorded under its frame pointer
  out of the map, and other frame pointers are not affected.
\<close>

locale session_store =
  fixes put :: "u64 \<Rightarrow> 's \<Rightarrow> 'm \<Rightarrow> 'm"
    and take_out :: "u64 \<Rightarrow> 'm \<Rightarrow> 's option \<times> 'm"
    and sview :: "'m \<Rightarrow> u64 \<rightharpoonup> 's"
    and sinv :: "'m \<Rightarrow> bool"
  assumes put_view: "sinv m \<Longrightarrow> sview (put fp s m) = (sview m)(fp \<mapsto> s) \<or> sview (put fp s m) = sview m"
    and take_out_result: "sinv m \<Longrightarrow> fst (take_out fp m) = sview m fp"
    and take_out_view: "sinv m \<Longrightarrow> sview (snd (take_out fp m)) = (sview m)(fp := None)"
    and sinv_put: "sinv m \<Longrightarrow> sinv (put fp s m)"
    and sinv_take_out: "sinv m \<Longrightarrow> sinv (snd (take_out fp m))"
begin

lemma put_other: "sinv m \<Longrightarrow> fp' \<noteq> fp \<Longrightarrow> sview (put fp s m) fp' = sview m fp'"
  using put_view [of m fp s] by auto

lemma put_origin: "sinv m \<Longrightarrow> sview (put fp s m) fp' = Some s' \<Longrightarrow> (fp' = fp \<and> s' = s) \<or> sview m fp' = Some s'"
  using put_view [of m fp s] by (auto split: if_splits)

text \<open>A recorded session is found once: by the first exit at its frame pointer.\<close>

lemma take_out_put:
  "sinv m \<Longrightarrow> sview (put fp s m) \<noteq> sview m \<Longrightarrow> fst (take_out fp (put fp s m)) = Some s"
  using put_view [of m fp s] by (auto simp: take_out_result sinv_put)

lemma take_out_once: "sinv m \<Longrightarrow> fst (take_out fp (snd (take_out fp m))) = None"
  by (simp add: take_out_result take_out_view sinv_take_out)

lemma take_out_other:
  "sinv m \<Longrightarrow> fp' \<noteq> fp \<Longrightarrow> fst (take_out fp' (snd (take_out fp m))) = fst (take_out fp' m)"
  by (simp add: take_out_result take_out_view sinv_take_out)

text \<open>An entry and its exit leave no session behind.\<close>

lemma put_take_out_clean:
  "sinv m \<Longrightarrow> sview (snd (take_out fp (put fp s m))) = (sview m)(fp := None)"
  using put_view [of m fp s] by (auto simp: take_out_view sinv_put)

end

section \<open>The session operations meet the contract\<close>

text \<open>The session behind the pointer an exit gets, read as the tracer reads it, after the delete.\<close>

definition take_session :: "('m, 'v) bpf_hash \<Rightarrow> u64 \<Rightarrow> 'm \<Rightarrow> 'v option \<times> 'm" where
  "take_session H fp m = (case get_and_del_session H fp m of (p, m') \<Rightarrow>
     (if p = 0 then None else Some (map_value H m' p), m'))"

locale session_map = bpf_hash_map H view inv
  for H :: "('m, bpfsnoop_sess) bpf_hash" and view :: "'m \<Rightarrow> u64 \<rightharpoonup> bpfsnoop_sess"
    and inv :: "'m \<Rightarrow> bool"

sublocale session_map \<subseteq> sess: session_store "add_session H" "take_session H" view inv
proof (unfold_locales)
  fix m fp s
  assume inv: "inv m"
  show "view (add_session H fp s m) = (view m)(fp \<mapsto> s) \<or> view (add_session H fp s m) = view m"
    using inv by (simp add: add_session_def update_view)
  show "fst (take_session H fp m) = view m fp"
    using inv by (cases "view m fp")
      (auto simp: take_session_def get_and_del_session_def Let_def lookup_null delete_value)
  show "view (snd (take_session H fp m)) = (view m)(fp := None)"
    using inv by (cases "view m fp")
      (auto simp: take_session_def get_and_del_session_def Let_def lookup_null delete_view fun_upd_idem)
  show "inv (add_session H fp s m)" using inv by (simp add: add_session_def inv_update)
  show "inv (snd (take_session H fp m))"
    using inv by (simp add: take_session_def get_and_del_session_def Let_def inv_delete)
qed

interpretation refsess: session_map "ref_hash BPFSNOOP_MAX_ENTRIES" slots_view
    "slots_inv BPFSNOOP_MAX_ENTRIES"
  by unfold_locales

context bpf_hash_map
begin

lemma get_session_Some:
  "inv m \<Longrightarrow> get_session H fp m \<noteq> 0 \<Longrightarrow> view m fp = Some (map_value H m (get_session H fp m))"
  by (simp add: get_session_def lookup_Some)

lemma get_session_null: "inv m \<Longrightarrow> get_session H fp m = 0 \<longleftrightarrow> view m fp = None"
  by (simp add: get_session_def lookup_null)

lemma lookup_and_delete_eq: "bpf_map_lookup_and_delete H k m = get_and_del_session H k m"
  by (simp add: bpf_map_lookup_and_delete_def get_and_del_session_def)

text \<open>\<open>lookup_or_try_init\<close> keeps a present value, else stores the initial one or reports NULL.\<close>

lemma lookup_or_try_init_view:
  assumes inv: "inv m" and r: "bpf_map_lookup_or_try_init H k v m = (p, m')"
  shows "view m' = view m \<or> (view m k = None \<and> view m' = (view m)(k \<mapsto> v))"
  using assms
  by (auto simp: bpf_map_lookup_or_try_init_def Let_def lookup_null split: if_splits prod.splits
      dest: update_ok update_err)

lemma lookup_or_try_init_value:
  assumes inv: "inv m" and r: "bpf_map_lookup_or_try_init H k v m = (p, m')" and p: "p \<noteq> 0"
  shows "view m' k = Some (map_value H m' p) \<and>
    map_value H m' p = (case view m k of None \<Rightarrow> v | Some w \<Rightarrow> w)"
proof (cases "view m k")
  case (Some w)
  then have "bpf_map_lookup_elem H m k \<noteq> 0" using lookup_null [OF inv, of k] by simp
  with r have "p = bpf_map_lookup_elem H m k" "m' = m"
    by (auto simp: bpf_map_lookup_or_try_init_def Let_def)
  with Some show ?thesis by (simp add: lookup_value [OF inv])
next
  case None
  then have null: "bpf_map_lookup_elem H m k = 0" using lookup_null [OF inv, of k] by simp
  obtain m1 err where u: "bpf_map_update_elem H m k v BPF_NOEXIST = (m1, err)" by force
  have inv1: "inv m1" using inv_update [OF inv, of k v BPF_NOEXIST] u by simp
  have "err \<noteq> neg_errno EEXIST" using update_noexist [OF inv, of k v] u None by simp
  with r u null p have e: "err = 0" "m' = m1" "p = bpf_map_lookup_elem H m1 k"
    by (auto simp: bpf_map_lookup_or_try_init_def split: if_splits)
  with update_ok [OF inv] u have "view m' k = Some v" by simp
  with e inv1 None show ?thesis by (simp add: lookup_value)
qed

end

section \<open>Properties\<close>

text \<open>\<^verbatim>\<open>bpf_map_lookup_or_try_init\<close> returns a pointer to the value present under the key, or
  stores the initial value and returns a pointer to that; no other key is touched, and NULL
  means that nothing was stored and no value was present.\<close>

lemma lookup_or_try_init_spec:
  assumes map: "bpf_hash_map H view ok" and ok: "ok m" and r: "bpf_map_lookup_or_try_init H k v m = (p, m')"
  shows "(if p \<noteq> 0 then
      (let w = (case view m k of None \<Rightarrow> v | Some w \<Rightarrow> w)
       in view m' = (view m)(k \<mapsto> w) \<and> map_value H m' p = w)
    else view m' = view m \<and> view m k = None)"
proof (cases "p \<noteq> 0")
  case True
  note val = bpf_hash_map.lookup_or_try_init_value [OF map ok r True]
  define w where "w = (case view m k of None \<Rightarrow> v | Some w \<Rightarrow> w)"
  have w: "view m' k = Some w" "map_value H m' p = w" using val by (simp_all add: w_def)
  from bpf_hash_map.lookup_or_try_init_view [OF map ok r] have "view m' = (view m)(k \<mapsto> w)"
  proof (elim disjE conjE)
    assume "view m' = view m"
    with w(1) show ?thesis by (simp add: fun_upd_idem)
  next
    assume "view m k = None" "view m' = (view m)(k \<mapsto> v)"
    then show ?thesis by (simp add: w_def)
  qed
  with w True show ?thesis by (simp add: w_def)
next
  case False
  have none: "view m k = None"
    using r False bpf_hash_map.lookup_null [OF map ok, of k]
    by (auto simp: bpf_map_lookup_or_try_init_def Let_def split: if_splits)
  have "view m' = view m"
  proof (rule ccontr)
    assume "view m' \<noteq> view m"
    obtain m1 e where u: "bpf_map_update_elem H m k v BPF_NOEXIST = (m1, e)" by force
    have null: "bpf_map_lookup_elem H m k = 0" using bpf_hash_map.lookup_null [OF map ok] none by simp
    have m1: "m' = m1" using r null u by (auto simp: bpf_map_lookup_or_try_init_def split: if_splits)
    have ok1: "ok m1" using bpf_hash_map.inv_update [OF map ok, of k v BPF_NOEXIST] u by simp
    have e: "e = 0" using bpf_hash_map.update_err [OF map ok u] \<open>view m' \<noteq> view m\<close> m1 by auto
    then have "view m1 k = Some v" using bpf_hash_map.update_ok [OF map ok] u by auto
    then have "bpf_map_lookup_elem H m1 k \<noteq> 0" using bpf_hash_map.lookup_null [OF map ok1, of k] by simp
    with r null u e False show False by (auto simp add: bpf_map_lookup_or_try_init_def)
  qed
  with none False show ?thesis by simp
qed

end
