(* ===== verification/Lbr.thy ===== *)
theory Lbr
  imports Ref_Map
begin

text \<open>
  Last-branch records (\<^verbatim>\<open>bpf/bpfsnoop_lbr.h\<close>): a per-CPU scratch buffer that receives the
  branch snapshot, and the map from session id to the snapshot of that session.
\<close>

definition MAX_LBR_ENTRIES :: nat where
  "MAX_LBR_ENTRIES = 32"

record bpfsnoop_lbr_data =
  lbr_entries :: "perf_branch_entry list"
  nr_bytes :: s64

definition output_lbr_data ::
  "('l, bpfsnoop_lbr_data) bpf_hash \<Rightarrow> bpfsnoop_lbr_data \<Rightarrow> u64 \<Rightarrow> 'l \<Rightarrow> 'l" where
  "output_lbr_data H lbr session_id m =
     (if 0 < sint (nr_bytes lbr) then fst (bpf_map_update_elem H m session_id lbr BPF_ANY) else m)"

text \<open>\<^verbatim>\<open>lbr->nr_bytes = bpf_get_branch_snapshot(lbr->entries, ...)\<close>.\<close>

definition take_snapshot :: "helpers \<Rightarrow> bpfsnoop_lbr_data \<Rightarrow> bpfsnoop_lbr_data" where
  "take_snapshot h lbr = (case bpf_get_branch_snapshot h (lbr_entries lbr) of (es, n) \<Rightarrow>
     \<lparr>lbr_entries = es, nr_bytes = n\<rparr>)"

locale lbr_map = bpf_hash_map H view inv
  for H :: "('l, bpfsnoop_lbr_data) bpf_hash" and view :: "'l \<Rightarrow> u64 \<rightharpoonup> bpfsnoop_lbr_data"
    and inv :: "'l \<Rightarrow> bool"
begin

text \<open>Branch records are stored under their session only, and only when there are any.\<close>

lemma output_lbr_data_other:
  "inv m \<Longrightarrow> k \<noteq> session_id \<Longrightarrow> view (output_lbr_data H lbr session_id m) k = view m k"
  by (simp add: output_lbr_data_def update_view_other)

lemma output_lbr_data_none: "\<not> 0 < sint (nr_bytes lbr) \<Longrightarrow> output_lbr_data H lbr session_id m = m"
  by (simp add: output_lbr_data_def)

lemma inv_output_lbr_data: "inv m \<Longrightarrow> inv (output_lbr_data H lbr session_id m)"
  by (simp add: output_lbr_data_def inv_update)

end

interpretation reflbr: lbr_map "ref_hash BPFSNOOP_MAX_ENTRIES" slots_view
    "slots_inv BPFSNOOP_MAX_ENTRIES"
  by unfold_locales

end
