(* ===== verification/Stack.thy ===== *)
theory Stack
  imports Bpf_Runtime
begin

text \<open>
  Finding the trampoline's frame pointer (\<^verbatim>\<open>bpf/bpfsnoop_stack.h\<close>). On x86-64 it is computed
  from the context pointer; on arm64 it is searched for once and cached as an offset in the
  global \<^verbatim>\<open>tramp_fp_offset\<close>, which the functions take and return.
\<close>

datatype arch = X86 | ARM64

definition get_ptr :: "u64 \<Rightarrow> u32 \<Rightarrow> bool \<Rightarrow> u64" where
  "get_ptr ctx args_nr retval =
     (let offset = (args_nr AND 0xF) * 8;
          offset = offset + (if retval then 8 else 0)
      in ctx + ucast offset)"

text \<open>
  The loop of \<^verbatim>\<open>detect_tramp_fp_offset\<close>: the variable compared with the tracee's IP is
  assigned the \<^emph>\<open>return value\<close> of the read, as in the source.
\<close>

fun detect_scan :: "helpers \<Rightarrow> u64 \<Rightarrow> u64 \<Rightarrow> u32 \<Rightarrow> nat list \<Rightarrow> u64 \<times> u32" where
  "detect_scan h ip ptr off [] = (ptr, off)"
| "detect_scan h ip ptr off (i # is) =
     (let fp = probe_err h (ptr + of_nat (i * 8)) 8 in
      if fp = ip then (fp - 8, of_nat (i * 8) - 8) else detect_scan h ip ptr off is)"

definition detect_tramp_fp_offset :: "helpers \<Rightarrow> u64 \<Rightarrow> bool \<Rightarrow> u32 \<Rightarrow> u64 \<times> u32" where
  "detect_tramp_fp_offset h ctx retval off =
     (let nregs = ucast (bpf_get_func_arg_cnt h ctx) :: u32;
          ip = bpf_get_func_ip h ctx + 8;
          ptr = get_ptr ctx nregs retval + 16
      in detect_scan h ip ptr off [0..<6])"

definition get_tramp_fp_arm64 :: "helpers \<Rightarrow> u64 \<Rightarrow> u32 \<Rightarrow> bool \<Rightarrow> u32 \<Rightarrow> u64 \<times> u32" where
  "get_tramp_fp_arm64 h ctx args_nr retval off =
     (if truthy off then (probe_word h (ctx + ucast off) 8, off)
      else detect_tramp_fp_offset h ctx retval off)"

definition get_tramp_fp_x86 :: "u64 \<Rightarrow> u32 \<Rightarrow> bool \<Rightarrow> u64" where
  "get_tramp_fp_x86 ctx args_nr retval = get_ptr ctx args_nr retval"

definition get_tramp_fp ::
  "arch \<Rightarrow> helpers \<Rightarrow> u64 \<Rightarrow> u32 \<Rightarrow> bool \<Rightarrow> u32 \<Rightarrow> u64 \<times> u32" where
  "get_tramp_fp arch h ctx args_nr retval off =
     (case arch of X86 \<Rightarrow> (get_tramp_fp_x86 ctx args_nr retval, off)
      | ARM64 \<Rightarrow> get_tramp_fp_arm64 h ctx args_nr retval off)"

section \<open>The offset arithmetic\<close>

lemma unat_and_15: "unat (w AND 0xF :: u32) = unat w mod 16"
proof -
  have "w AND 0xF = take_bit 4 w" by (simp only: take_bit_eq_mask) (simp add: mask_eq_exp_minus_1)
  then have "unat (w AND 0xF) = unat (take_bit 4 w)" by (rule arg_cong)
  also have "\<dots> = take_bit 4 (unat w)" by (simp only: unsigned_take_bit_eq)
  finally show ?thesis by (simp add: take_bit_eq_mod)
qed

lemma get_ptr_offset:
  assumes "unat args_nr < 16"
  shows "get_ptr ctx args_nr retval = ctx + of_nat (8 * unat args_nr + (if retval then 8 else 0))"
proof -
  have "unat (args_nr AND 0xF) = unat args_nr" using assms by (simp add: unat_and_15)
  then have "unat ((args_nr AND 0xF) * 8 + (if retval then 8 else 0)) =
      8 * unat args_nr + (if retval then 8 else 0)"
    using assms by (auto simp: unat_word_ariths)
  then show ?thesis
    unfolding get_ptr_def Let_def by (metis of_nat_unat)
qed

text \<open>
  The search compares the tracee's IP with return codes, so it can only succeed when the
  return code of a read is itself that IP. Otherwise it reports the position after the saved
  registers and leaves the cached offset alone.
\<close>

lemma detect_scan_blind:
  "(\<And>i. i \<in> set is \<Longrightarrow> probe_err h (ptr + of_nat (i * 8)) 8 \<noteq> ip) \<Longrightarrow>
     detect_scan h ip ptr off is = (ptr, off)"
  by (induction "is") simp_all

lemma detect_tramp_fp_offset_blind:
  "(\<And>a. probe_err h a 8 \<noteq> bpf_get_func_ip h ctx + 8) \<Longrightarrow>
     detect_tramp_fp_offset h ctx retval off =
       (get_ptr ctx (ucast (bpf_get_func_arg_cnt h ctx)) retval + 16, off)"
  by (simp add: detect_tramp_fp_offset_def Let_def detect_scan_blind)

section \<open>Properties\<close>

text \<open>On x86-64 the trampoline's frame pointer is the address after the saved arguments and the
  return value, for every number of arguments the tracers support; nothing is cached.\<close>

lemma get_tramp_fp_x86_correct:
  assumes "unat args_nr \<le> 12"
  shows "get_tramp_fp X86 h ctx args_nr retval off =
    (ctx + of_nat (8 * unat args_nr + (if retval then 8 else 0)), off)"
  using get_ptr_offset [of args_nr ctx retval] assms by (simp add: get_tramp_fp_def get_tramp_fp_x86_def)

text \<open>On arm64, as long as no read returns a code equal to the tracee's instruction pointer, the
  search for the saved frame pointer never succeeds: the result is the position 16 bytes after
  the saved registers, whatever the stack holds, and no offset is ever cached.\<close>

lemma detect_never_finds:
  assumes "\<And>a. probe_err h a 8 \<noteq> bpf_get_func_ip h ctx + 8"
  shows "get_tramp_fp ARM64 h ctx args_nr retval 0 =
    (get_ptr ctx (ucast (bpf_get_func_arg_cnt h ctx)) retval + 16, 0)"
  using detect_tramp_fp_offset_blind [OF assms]
  by (simp add: get_tramp_fp_def get_tramp_fp_arm64_def truthy_def)

end
