(* ===== verification/Pkt.thy ===== *)
theory Pkt
  imports Bpf_Runtime
begin

text \<open>
  Skipping a VXLAN tunnel header (\<^verbatim>\<open>bpf/bpfsnoop_pkt.h\<close>). Header fields are read with
  \<^verbatim>\<open>BPF_CORE_READ\<close>, at the offsets the layout argument gives.
\<close>

definition bpf_htons :: "u16 \<Rightarrow> u16" where
  "bpf_htons x = le_word (rev (le_bytes 2 x))"

definition VXLAN_PORT :: u16 where "VXLAN_PORT = 4789"
definition VXLAN_HDR_LEN :: u64 where "VXLAN_HDR_LEN = 50"
definition ETH_P_IP :: u16 where "ETH_P_IP = 0x0800"
definition ETH_P_8021Q :: u16 where "ETH_P_8021Q = 0x8100"
definition IPPROTO_ICMP :: u8 where "IPPROTO_ICMP = 1"
definition IPPROTO_TCP :: u8 where "IPPROTO_TCP = 6"
definition IPPROTO_UDP :: u8 where "IPPROTO_UDP = 17"

text \<open>\<open>sizeof\<close> of the two link-layer headers the code steps over.\<close>

definition sizeof_ethhdr :: u64 where "sizeof_ethhdr = 14"
definition sizeof_vlan_hdr :: u64 where "sizeof_vlan_hdr = 4"

definition is_ip_vxlan_pkt :: "helpers \<Rightarrow> layout \<Rightarrow> u64 \<Rightarrow> bool" where
  "is_ip_vxlan_pkt h L ip =
     (if core_read h L 1 ''iphdr'' ''protocol'' ip \<noteq> IPPROTO_UDP then False
      else let b = probe_word h ip 1 :: u8;
               udp = ip + push_bit 2 (ucast (b AND 0xF))
        in core_read h L 2 ''udphdr'' ''dest'' udp = bpf_htons VXLAN_PORT)"

definition is_vxlan_pkt :: "helpers \<Rightarrow> layout \<Rightarrow> u64 \<Rightarrow> bool" where
  "is_vxlan_pkt h L eth =
     (if core_read h L 2 ''ethhdr'' ''h_proto'' eth \<noteq> bpf_htons ETH_P_IP then False
      else is_ip_vxlan_pkt h L (eth + sizeof_ethhdr))"

definition skip_tunnel_hdr :: "helpers \<Rightarrow> layout \<Rightarrow> u32 \<Rightarrow> u64 \<Rightarrow> bool \<Rightarrow> u64" where
  "skip_tunnel_hdr h L SKIP_TUNNEL data iphdr =
     (if \<not> truthy SKIP_TUNNEL then data
      else if iphdr \<and> is_ip_vxlan_pkt h L data then data + VXLAN_HDR_LEN
      else if \<not> iphdr \<and> is_vxlan_pkt h L data then data + VXLAN_HDR_LEN
      else data)"

definition skip_tunnel :: "helpers \<Rightarrow> layout \<Rightarrow> u32 \<Rightarrow> u64 \<Rightarrow> u64" where
  "skip_tunnel h L SKIP_TUNNEL data = skip_tunnel_hdr h L SKIP_TUNNEL data False"

definition skip_tunnel_iph :: "helpers \<Rightarrow> layout \<Rightarrow> u32 \<Rightarrow> u64 \<Rightarrow> u64" where
  "skip_tunnel_iph h L SKIP_TUNNEL iph = skip_tunnel_hdr h L SKIP_TUNNEL iph True"

section \<open>Packets in memory\<close>

text \<open>
  The offsets of the network headers' fields, which the running kernel's types always have:
  they are the wire formats of Ethernet, 802.1Q, IPv4, UDP and TCP.
\<close>

definition net_layout :: "layout \<Rightarrow> bool" where
  "net_layout L \<longleftrightarrow>
     L ''ethhdr'' ''h_proto'' = 12 \<and> L ''vlan_hdr'' ''h_vlan_encapsulated_proto'' = 2 \<and>
     L ''iphdr'' ''protocol'' = 9 \<and> L ''iphdr'' ''saddr'' = 12 \<and>
     L ''udphdr'' ''source'' = 0 \<and> L ''udphdr'' ''dest'' = 2 \<and>
     L ''tcphdr'' ''source'' = 0 \<and> L ''tcphdr'' ''window'' = 14"

end
