(* ===== verification/Pkt_Filter.thy ===== *)
theory Pkt_Filter
  imports Pkt
begin

text \<open>
  The packet filter (\<^verbatim>\<open>bpf/bpfsnoop_pkt_filter.h\<close>): it locates the packet behind an skb or an
  XDP buffer, skips a tunnel header and hands the bounds to a pcap filter. The loader replaces
  the two \<^verbatim>\<open>filter_pcap\<close> stubs by compiled pcap expressions, so they are a parameter;
  \<open>c_pcap\<close> is the stubs as the C file has them.
\<close>

record pcap_hooks =
  pcap_l2 :: "u64 \<Rightarrow> u64 \<Rightarrow> u64 \<Rightarrow> u64 \<Rightarrow> u64 \<Rightarrow> bool"
  pcap_l3 :: "u64 \<Rightarrow> u64 \<Rightarrow> u64 \<Rightarrow> u64 \<Rightarrow> u64 \<Rightarrow> bool"

definition filter_pcap_l2 :: "u64 \<Rightarrow> u64 \<Rightarrow> u64 \<Rightarrow> u64 \<Rightarrow> u64 \<Rightarrow> bool" where
  "filter_pcap_l2 p1 p2 p3 data data_end \<longleftrightarrow> p1 = p2 \<and> p1 = p3 \<and> data \<noteq> data_end"

definition filter_pcap_l3 :: "u64 \<Rightarrow> u64 \<Rightarrow> u64 \<Rightarrow> u64 \<Rightarrow> u64 \<Rightarrow> bool" where
  "filter_pcap_l3 p1 p2 p3 data data_end \<longleftrightarrow> p1 = p2 \<and> p1 = p3 \<and> data \<noteq> data_end"

definition c_pcap :: pcap_hooks where
  "c_pcap = \<lparr>pcap_l2 = filter_pcap_l2, pcap_l3 = filter_pcap_l3\<rparr>"

definition filter_skb :: "helpers \<Rightarrow> layout \<Rightarrow> u32 \<Rightarrow> pcap_hooks \<Rightarrow> u64 \<Rightarrow> bool" where
  "filter_skb h L T P skb =
     (let head = core_read h L 8 ''sk_buff'' ''head'' skb :: u64;
          mac_len = core_read h L 2 ''sk_buff'' ''mac_len'' skb :: u16;
          data = head + (if truthy mac_len
            then ucast (core_read h L 2 ''sk_buff'' ''mac_header'' skb :: u16)
            else ucast (core_read h L 2 ''sk_buff'' ''network_header'' skb :: u16));
          data_end = head + ucast (core_read h L 4 ''sk_buff'' ''tail'' skb :: u32);
          data = (if truthy mac_len then skip_tunnel h L T data else skip_tunnel_iph h L T data)
      in if truthy mac_len then pcap_l2 P skb skb skb data data_end
         else pcap_l3 P skb skb skb data data_end)"

definition filter_xdp_buff :: "helpers \<Rightarrow> layout \<Rightarrow> u32 \<Rightarrow> pcap_hooks \<Rightarrow> u64 \<Rightarrow> bool" where
  "filter_xdp_buff h L T P xdp =
     (let data = core_read h L 8 ''xdp_buff'' ''data'' xdp;
          data_end = core_read h L 8 ''xdp_buff'' ''data_end'' xdp;
          data = skip_tunnel h L T data
      in pcap_l2 P xdp xdp xdp data data_end)"

definition filter_xdp_frame :: "helpers \<Rightarrow> layout \<Rightarrow> u32 \<Rightarrow> pcap_hooks \<Rightarrow> u64 \<Rightarrow> bool" where
  "filter_xdp_frame h L T P xdp =
     (let data = core_read h L 8 ''xdp_frame'' ''data'' xdp;
          data_end = data + ucast (core_read h L 2 ''xdp_frame'' ''len'' xdp :: u16);
          data = skip_tunnel h L T data
      in pcap_l2 P xdp xdp xdp data data_end)"

definition filter_pskb :: "helpers \<Rightarrow> layout \<Rightarrow> u32 \<Rightarrow> pcap_hooks \<Rightarrow> u64 \<Rightarrow> bool" where
  "filter_pskb h L T P pskb =
     (if probe_err h pskb 8 \<noteq> 0 then False else filter_skb h L T P (probe_word h pskb 8))"

text \<open>
  The dispatcher; the constants are the anonymous enumeration \<^verbatim>\<open>FILTER_PKT_*\<close>. In the default
  case the result of \<^verbatim>\<open>filter_pskb\<close> is discarded.
\<close>

definition FILTER_PKT_XDP_BUFF :: s32 where "FILTER_PKT_XDP_BUFF = 1"
definition FILTER_PKT_XDP_FRAME :: s32 where "FILTER_PKT_XDP_FRAME = 2"

definition filter_pkt :: "helpers \<Rightarrow> layout \<Rightarrow> u32 \<Rightarrow> pcap_hooks \<Rightarrow> u64 list \<Rightarrow> s32 \<Rightarrow> bool" where
  "filter_pkt h L T P args flt =
     (if flt = FILTER_PKT_XDP_BUFF then filter_xdp_buff h L T P (args ! 0)
      else if flt = FILTER_PKT_XDP_FRAME then filter_xdp_frame h L T P (args ! 0)
      else let _ = filter_pskb h L T P (args ! 0) in filter_skb h L T P (args ! 0))"

end
