(* ===== verification/Cfg.thy ===== *)
theory Cfg
  imports Prelude
begin

text \<open>
  The tracer's configuration (\<^verbatim>\<open>bpf/bpfsnoop_cfg.h\<close>): the packed C structure, how the program
  reads it from the read-only data section, and how the Go loader fills that section in
  (\<^verbatim>\<open>internal/bpfsnoop/bpfsnoop_config.go\<close>, \<^verbatim>\<open>setBpfsnoopConfig\<close>). The main result: the program
  sees exactly the options the loader was given.
\<close>

definition MAX_FN_ARGS :: nat where
  "MAX_FN_ARGS = 12"

record bpfsnoop_fn_args =
  args_nr :: u32
  with_retval :: bool
  buf_size :: u32
  data_size :: u32

record bpfsnoop_config =
  cfg_output_lbr :: bool
  cfg_output_stack :: bool
  cfg_output_pkt :: bool
  cfg_output_arg :: bool
  cfg_both_entry_exit :: bool
  cfg_is_entry :: bool
  cfg_pid :: u32
  fn_args :: bpfsnoop_fn_args

text \<open>
  Reading the packed structures: the six one-bit fields are the low bits of the first word,
  every other field is at the sum of the sizes before it.
\<close>

definition fn_args_of_bytes :: "u8 list \<Rightarrow> bpfsnoop_fn_args" where
  "fn_args_of_bytes bs =
     \<lparr>args_nr = load_le 0 4 bs, with_retval = truthy (load_le 4 1 bs :: u8),
      buf_size = load_le 8 4 bs, data_size = load_le 12 4 bs\<rparr>"

definition config_of_bytes :: "u8 list \<Rightarrow> bpfsnoop_config" where
  "config_of_bytes bs = (let flags = (load_le 0 4 bs :: u32) in
     \<lparr>cfg_output_lbr = bit flags 0, cfg_output_stack = bit flags 1, cfg_output_pkt = bit flags 2,
      cfg_output_arg = bit flags 3, cfg_both_entry_exit = bit flags 4, cfg_is_entry = bit flags 5,
      cfg_pid = load_le 4 4 bs, fn_args = fn_args_of_bytes (drop 8 bs)\<rparr>)"

text \<open>The loader's structure. Go lays its fields out in order; they need no padding.\<close>

record BpfsnoopConfig =
  Flags :: u32
  FilterPid :: u32
  FnArgsNr :: u32
  WithRet :: bool
  FnArgsBuf :: u32
  ArgDataSz :: u32

definition go_config_bytes :: "BpfsnoopConfig \<Rightarrow> u8 list" where
  "go_config_bytes c = le_bytes 4 (Flags c) @ le_bytes 4 (FilterPid c) @ le_bytes 4 (FnArgsNr c)
     @ le_bytes 1 (of_cbool (WithRet c) :: u8) @ [0, 0, 0] @ le_bytes 4 (FnArgsBuf c)
     @ le_bytes 4 (ArgDataSz c)"

definition go_set_flag :: "nat \<Rightarrow> bool \<Rightarrow> BpfsnoopConfig \<Rightarrow> BpfsnoopConfig" where
  "go_set_flag idx v c = (if v then c\<lparr>Flags := Flags c OR push_bit idx 1\<rparr> else c)"

definition setBpfsnoopConfig ::
  "u32 \<Rightarrow> nat \<Rightarrow> nat \<Rightarrow> nat \<Rightarrow> bool \<Rightarrow> bool \<Rightarrow> bool \<Rightarrow> bool \<Rightarrow> bool \<Rightarrow> BpfsnoopConfig" where
  "setBpfsnoopConfig filterPid fnArgsNr fnArgsBufSize argDataSize lbr stack pkt bothEntryExit
     withRet =
     (let c = \<lparr>Flags = 0, FilterPid = 0, FnArgsNr = 0, WithRet = False, FnArgsBuf = 0, ArgDataSz = 0\<rparr>;
          c = go_set_flag 0 lbr c;
          c = go_set_flag 1 stack c;
          c = go_set_flag 2 pkt c;
          c = go_set_flag 3 (argDataSize \<noteq> 0) c;
          c = go_set_flag 4 bothEntryExit c;
          c = go_set_flag 5 (\<not> withRet) c
      in c\<lparr>FilterPid := filterPid, FnArgsNr := of_nat fnArgsNr, WithRet := withRet,
           FnArgsBuf := of_nat fnArgsBufSize, ArgDataSz := of_nat argDataSize\<rparr>)"

lemma load_le_append1 [buf_simps]:
  "length xs = off \<Longrightarrow> length ys = n \<Longrightarrow> load_le off n (xs @ ys @ zs) = le_word ys"
  by (simp add: load_le_def bslice_def)

lemma slice_append_skip:
  "length xs \<le> off \<Longrightarrow> bslice off n (xs @ ys) = bslice (off - length xs) n ys"
  by (simp add: bslice_def)

lemma slice_append_here:
  "length xs = n \<Longrightarrow> bslice 0 n (xs @ ys) = xs" "length xs = n \<Longrightarrow> bslice 0 n xs = xs"
  by (simp_all add: bslice_def)

lemma slice_Cons_skip: "0 < off \<Longrightarrow> bslice off n (x # xs) = bslice (off - 1) n xs"
  by (cases off) (simp_all add: bslice_def)

lemma le_word_le_bytes_sizes [simp]:
  "le_word (le_bytes 8 (w8 :: u64)) = w8" "le_word (le_bytes 4 (w4 :: u32)) = w4"
  "le_word (le_bytes 2 (w2 :: u16)) = w2" "le_word (le_bytes (Suc 0) (w1 :: u8)) = w1"
  by (simp_all add: le_word_le_bytes)

lemma go_bytes_fields:
  "load_le 0 4 (go_config_bytes c) = Flags c" "load_le 4 4 (go_config_bytes c) = FilterPid c"
  "load_le 0 4 (drop 8 (go_config_bytes c)) = FnArgsNr c"
  "load_le 4 1 (drop 8 (go_config_bytes c)) = (of_cbool (WithRet c) :: u8)"
  "load_le 8 4 (drop 8 (go_config_bytes c)) = FnArgsBuf c"
  "load_le 12 4 (drop 8 (go_config_bytes c)) = ArgDataSz c"
  by (simp_all add: go_config_bytes_def load_le_def slice_append_skip slice_append_here
      slice_Cons_skip)

lemma config_of_go_bytes:
  "config_of_bytes (go_config_bytes c) =
     \<lparr>cfg_output_lbr = bit (Flags c) 0, cfg_output_stack = bit (Flags c) 1,
      cfg_output_pkt = bit (Flags c) 2, cfg_output_arg = bit (Flags c) 3,
      cfg_both_entry_exit = bit (Flags c) 4, cfg_is_entry = bit (Flags c) 5,
      cfg_pid = FilterPid c,
      fn_args = \<lparr>args_nr = FnArgsNr c, with_retval = WithRet c, buf_size = FnArgsBuf c,
        data_size = ArgDataSz c\<rparr>\<rparr>"
  by (simp add: config_of_bytes_def fn_args_of_bytes_def go_bytes_fields [simplified] Let_def)

lemma bit_Flags_go_set_flag:
  "bit (Flags (go_set_flag idx v c)) n \<longleftrightarrow> bit (Flags c) n \<or> (v \<and> n = idx \<and> n < 32)"
  by (auto simp: go_set_flag_def bit_simps)

text \<open>C29: the program reads from its configuration section exactly the options the loader set: each
  flag, the process filter, and the argument counts and sizes (in 32 bits); entry mode is the
  absence of a return probe, argument output a non-zero argument size.\<close>

theorem config_roundtrip:
  "config_of_bytes (go_config_bytes (setBpfsnoopConfig pid nr bufsz argsz lbr stack pkt both ret)) =
     \<lparr>cfg_output_lbr = lbr, cfg_output_stack = stack, cfg_output_pkt = pkt,
      cfg_output_arg = (argsz \<noteq> 0), cfg_both_entry_exit = both, cfg_is_entry = (\<not> ret),
      cfg_pid = pid, fn_args = \<lparr>args_nr = of_nat nr, with_retval = ret,
        buf_size = of_nat bufsz, data_size = of_nat argsz\<rparr>\<rparr>"
proof -
  let ?zero = "\<lparr>Flags = 0, FilterPid = 0, FnArgsNr = 0, WithRet = False, FnArgsBuf = 0, ArgDataSz = 0\<rparr>"
  let ?c = "setBpfsnoopConfig pid nr bufsz argsz lbr stack pkt both ret"
  have "Flags ?c = Flags (go_set_flag 5 (\<not> ret) (go_set_flag 4 both (go_set_flag 3 (argsz \<noteq> 0)
      (go_set_flag 2 pkt (go_set_flag 1 stack (go_set_flag 0 lbr ?zero))))))"
    by (simp add: setBpfsnoopConfig_def Let_def)
  then have flags: "bit (Flags ?c) n \<longleftrightarrow> n < 32 \<and> ((lbr \<and> n = 0) \<or> (stack \<and> n = 1) \<or> (pkt \<and> n = 2) \<or>
      (argsz \<noteq> 0 \<and> n = 3) \<or> (both \<and> n = 4) \<or> (\<not> ret \<and> n = 5))" for n
    by (auto simp: bit_Flags_go_set_flag)
  have rest: "FilterPid ?c = pid" "FnArgsNr ?c = of_nat nr" "WithRet ?c = ret" "FnArgsBuf ?c = of_nat bufsz"
    "ArgDataSz ?c = of_nat argsz"
    by (simp_all add: setBpfsnoopConfig_def Let_def)
  show ?thesis unfolding config_of_go_bytes flags rest by simp
qed

end
