(* ===== verification/Event.thy ===== *)
theory Event
  imports Cfg
begin

text \<open>
  The event header the tracers write at the start of every ring-buffer record
  (\<^verbatim>\<open>bpf/bpfsnoop_event.h\<close>), its byte layout, and the view the Go consumer takes of it
  (\<^verbatim>\<open>internal/bpfsnoop/bpfsnoop.go\<close>, type \<^verbatim>\<open>Event\<close>).
\<close>

text \<open>The anonymous enumeration of event types.\<close>

datatype event_type =
    BPFSNOOP_EVENT_TYPE_UNSPEC
  | BPFSNOOP_EVENT_TYPE_FUNC_ENTRY
  | BPFSNOOP_EVENT_TYPE_FUNC_EXIT
  | BPFSNOOP_EVENT_TYPE_INSN
  | BPFSNOOP_EVENT_TYPE_GRAPH_ENTRY
  | BPFSNOOP_EVENT_TYPE_GRAPH_EXIT

fun event_type_code :: "event_type \<Rightarrow> u16" where
  "event_type_code BPFSNOOP_EVENT_TYPE_UNSPEC = 0"
| "event_type_code BPFSNOOP_EVENT_TYPE_FUNC_ENTRY = 1"
| "event_type_code BPFSNOOP_EVENT_TYPE_FUNC_EXIT = 2"
| "event_type_code BPFSNOOP_EVENT_TYPE_INSN = 3"
| "event_type_code BPFSNOOP_EVENT_TYPE_GRAPH_ENTRY = 4"
| "event_type_code BPFSNOOP_EVENT_TYPE_GRAPH_EXIT = 5"

lemma event_type_code_inj [simp]: "event_type_code a = event_type_code b \<longleftrightarrow> a = b"
  by (cases a; cases b) simp_all

record event =
  evt_type :: u16
  evt_length :: u16
  kernel_ts :: u32
  evt_session_id :: u64
  func_ip :: u64
  evt_cpu :: u32
  evt_pid :: u32
  comm :: "u8 list"
  func_stack_id :: s64

text \<open>\<open>sizeof(struct event)\<close>: the fields need no padding.\<close>

definition sizeof_event :: nat where
  "sizeof_event = 2 + 2 + 4 + 8 + 8 + 4 + 4 + 16 + 8"

text \<open>The assignments to the fields of the record behind \<^verbatim>\<open>evt\<close>, at the start of the buffer.\<close>

definition write_event :: "event \<Rightarrow> u8 list \<Rightarrow> u8 list" where
  "write_event e buf =
     (let buf = store 0 (le_bytes 2 (evt_type e)) buf;
          buf = store 2 (le_bytes 2 (evt_length e)) buf;
          buf = store 4 (le_bytes 4 (kernel_ts e)) buf;
          buf = store 8 (le_bytes 8 (evt_session_id e)) buf;
          buf = store 16 (le_bytes 8 (func_ip e)) buf;
          buf = store 24 (le_bytes 4 (evt_cpu e)) buf;
          buf = store 28 (le_bytes 4 (evt_pid e)) buf;
          buf = store 32 (comm e) buf
      in store 48 (le_bytes 8 (func_stack_id e)) buf)"

text \<open>The Go consumer casts the record's bytes to its \<^verbatim>\<open>Event\<close>.\<close>

definition go_event :: "u8 list \<Rightarrow> event" where
  "go_event bs =
     \<lparr>evt_type = load_le 0 2 bs, evt_length = load_le 2 2 bs, kernel_ts = load_le 4 4 bs,
      evt_session_id = load_le 8 8 bs, func_ip = load_le 16 8 bs, evt_cpu = load_le 24 4 bs,
      evt_pid = load_le 28 4 bs, comm = bslice 32 16 bs, func_stack_id = load_le 48 8 bs\<rparr>"

lemma length_write_event [simp]: "length (write_event e buf) = length buf"
  by (simp add: write_event_def Let_def)

lemma go_event_write_event:
  assumes "sizeof_event \<le> length buf" "length (comm e) = 16"
  shows "go_event (write_event e buf) = e"
  using assms unfolding go_event_def write_event_def sizeof_event_def Let_def
  by (simp add: buf_simps)

lemma slice_write_event:
  "sizeof_event \<le> off \<Longrightarrow> length (comm e) = 16 \<Longrightarrow>
     bslice off n (write_event e buf) = bslice off n buf"
  unfolding write_event_def sizeof_event_def Let_def by (simp add: buf_simps)

text \<open>
  A write confined to \<open>[off, off + n)\<close>: the buffer keeps its length and every byte outside.
\<close>

definition writes_within :: "(u8 list \<Rightarrow> u8 list) \<Rightarrow> nat \<Rightarrow> nat \<Rightarrow> bool" where
  "writes_within f off n \<longleftrightarrow> (\<forall>buf. length (f buf) = length buf \<and>
     (\<forall>i<length buf. i < off \<or> off + n \<le> i \<longrightarrow> f buf ! i = buf ! i))"

lemma writes_withinD:
  "writes_within f off n \<Longrightarrow> length (f buf) = length buf"
  "writes_within f off n \<Longrightarrow> i + m \<le> off \<or> off + n \<le> i \<Longrightarrow> bslice i m (f buf) = bslice i m buf"
  by (auto simp: writes_within_def intro!: slice_eqI)

lemma go_event_within:
  "writes_within f off n \<Longrightarrow> sizeof_event \<le> off \<Longrightarrow> go_event (f buf) = go_event buf"
  by (simp add: go_event_def load_le_def sizeof_event_def writes_withinD)

lemma writes_within_store:
  "off \<le> k \<Longrightarrow> k + length bs \<le> off + n \<Longrightarrow> writes_within (store k bs) off n"
  by (auto simp: writes_within_def nth_store)

lemma writes_within_id [simp]: "writes_within (\<lambda>buf. buf) off n"
  by (simp add: writes_within_def)

lemma writes_within_mono:
  "writes_within f off n \<Longrightarrow> off' \<le> off \<Longrightarrow> off + n \<le> off' + n' \<Longrightarrow> writes_within f off' n'"
  by (auto simp: writes_within_def)

lemma writes_within_comp:
  "writes_within f off n \<Longrightarrow> writes_within g off n \<Longrightarrow> writes_within (\<lambda>buf. g (f buf)) off n"
  by (simp add: writes_within_def)

end
