(* ===== verification/Pkt_Output.thy ===== *)
theory Pkt_Output
  imports Pkt Event
begin

text \<open>
  Reporting a packet's addresses, ports, protocol and TCP flags
  (\<^verbatim>\<open>bpf/bpfsnoop_pkt_output.h\<close>). The functions update the fields of the packet record they
  assign and leave the others as they find them in the ring buffer.
\<close>

record bpfsnoop_pkt_data =
  pkt_addrs :: u64
  pkt_ports :: u32
  pkt_protocol :: u8
  pkt_tcp_flags :: u8
  pkt_pad :: "u8 list"

definition sizeof_pkt_data :: nat where
  "sizeof_pkt_data = 8 + 4 + 1 + 1 + 2"

definition output_tuple ::
  "helpers \<Rightarrow> layout \<Rightarrow> u64 \<Rightarrow> bpfsnoop_pkt_data \<Rightarrow> bpfsnoop_pkt_data" where
  "output_tuple h L iph pkt =
     (let b = probe_word h iph 1 :: u8 in
      if drop_bit 4 b AND 0x7 \<noteq> 4 then pkt
      else let proto = core_read h L 1 ''iphdr'' ''protocol'' iph;
               saddr = iph + of_nat (L ''iphdr'' ''saddr'') in
        if proto = IPPROTO_TCP then
          let pkt = pkt\<lparr>pkt_addrs := probe_word h saddr 8\<rparr>;
              tcp = iph + push_bit 2 (ucast (b AND 0x7));
              pkt = pkt\<lparr>pkt_ports := probe_word h (tcp + of_nat (L ''tcphdr'' ''source'')) 4\<rparr>;
              pkt = pkt\<lparr>pkt_protocol := IPPROTO_TCP\<rparr>
          in pkt\<lparr>pkt_tcp_flags := probe_word h (tcp + of_nat (L ''tcphdr'' ''window'') - 1) 1\<rparr>
        else if proto = IPPROTO_UDP then
          let pkt = pkt\<lparr>pkt_addrs := probe_word h saddr 8\<rparr>;
              udp = iph + push_bit 2 (ucast (b AND 0x7));
              pkt = pkt\<lparr>pkt_ports := probe_word h (udp + of_nat (L ''udphdr'' ''source'')) 4\<rparr>
          in pkt\<lparr>pkt_protocol := IPPROTO_UDP\<rparr>
        else if proto = IPPROTO_ICMP then
          let pkt = pkt\<lparr>pkt_addrs := probe_word h saddr 8\<rparr>
          in pkt\<lparr>pkt_protocol := IPPROTO_ICMP\<rparr>
        else pkt)"

definition output_skb ::
  "helpers \<Rightarrow> layout \<Rightarrow> u32 \<Rightarrow> u64 \<Rightarrow> bpfsnoop_pkt_data \<Rightarrow> bpfsnoop_pkt_data" where
  "output_skb h L T skb pkt =
     (let head = core_read h L 8 ''sk_buff'' ''head'' skb :: u64;
          iph = head + ucast (core_read h L 2 ''sk_buff'' ''network_header'' skb :: u16);
          iph = skip_tunnel_iph h L T iph
      in output_tuple h L iph pkt)"

definition output_pskb ::
  "helpers \<Rightarrow> layout \<Rightarrow> u32 \<Rightarrow> u64 \<Rightarrow> bpfsnoop_pkt_data \<Rightarrow> bpfsnoop_pkt_data" where
  "output_pskb h L T ptr pkt =
     (if probe_err h ptr 8 \<noteq> 0 then pkt else output_skb h L T (probe_word h ptr 8) pkt)"

definition output_xdp_data ::
  "helpers \<Rightarrow> layout \<Rightarrow> u64 \<Rightarrow> bpfsnoop_pkt_data \<Rightarrow> bpfsnoop_pkt_data" where
  "output_xdp_data h L eth pkt =
     (let proto = core_read h L 2 ''ethhdr'' ''h_proto'' eth in
      if proto = bpf_htons ETH_P_IP then output_tuple h L (eth + sizeof_ethhdr) pkt
      else if proto = bpf_htons ETH_P_8021Q then
        let vh = eth + sizeof_ethhdr in
        if core_read h L 2 ''vlan_hdr'' ''h_vlan_encapsulated_proto'' vh \<noteq> bpf_htons ETH_P_IP then pkt
        else output_tuple h L (vh + sizeof_vlan_hdr) pkt
      else pkt)"

definition output_xdp_buff ::
  "helpers \<Rightarrow> layout \<Rightarrow> u32 \<Rightarrow> u64 \<Rightarrow> bpfsnoop_pkt_data \<Rightarrow> bpfsnoop_pkt_data" where
  "output_xdp_buff h L T ptr pkt =
     (let data = core_read h L 8 ''xdp_buff'' ''data'' ptr;
          data = skip_tunnel h L T data
      in output_xdp_data h L data pkt)"

definition output_xdp_frame ::
  "helpers \<Rightarrow> layout \<Rightarrow> u32 \<Rightarrow> u64 \<Rightarrow> bpfsnoop_pkt_data \<Rightarrow> bpfsnoop_pkt_data" where
  "output_xdp_frame h L T ptr pkt =
     (let data = core_read h L 8 ''xdp_frame'' ''data'' ptr;
          data = skip_tunnel h L T data
      in output_xdp_data h L data pkt)"

text \<open>The dispatcher switches on the argument itself, as the C stub does.\<close>

definition output_pkt ::
  "helpers \<Rightarrow> layout \<Rightarrow> u32 \<Rightarrow> u64 list \<Rightarrow> bpfsnoop_pkt_data \<Rightarrow> bpfsnoop_pkt_data" where
  "output_pkt h L T args pkt =
     (let ptr = args ! 0 in
      if ptr = 1 then output_xdp_buff h L T ptr pkt
      else if ptr = 2 then output_xdp_frame h L T ptr pkt
      else output_skb h L T ptr (output_pskb h L T ptr pkt))"

section \<open>The packet record in the ring buffer\<close>

definition pkt_of_bytes :: "u8 list \<Rightarrow> bpfsnoop_pkt_data" where
  "pkt_of_bytes bs = \<lparr>pkt_addrs = load_le 0 8 bs, pkt_ports = load_le 8 4 bs,
     pkt_protocol = load_le 12 1 bs, pkt_tcp_flags = load_le 13 1 bs, pkt_pad = bslice 14 2 bs\<rparr>"

definition pkt_bytes :: "bpfsnoop_pkt_data \<Rightarrow> u8 list" where
  "pkt_bytes p = le_bytes 8 (pkt_addrs p) @ le_bytes 4 (pkt_ports p) @ le_bytes 1 (pkt_protocol p)
     @ le_bytes 1 (pkt_tcp_flags p) @ pkt_pad p"

definition pkt_in_buffer ::
  "(bpfsnoop_pkt_data \<Rightarrow> bpfsnoop_pkt_data) \<Rightarrow> nat \<Rightarrow> u8 list \<Rightarrow> u8 list" where
  "pkt_in_buffer f off buf =
     store off (pkt_bytes (f (pkt_of_bytes (bslice off sizeof_pkt_data buf)))) buf"

lemma length_pkt_bytes: "length (pkt_pad p) = 2 \<Longrightarrow> length (pkt_bytes p) = sizeof_pkt_data"
  by (simp add: pkt_bytes_def sizeof_pkt_data_def)

lemma pkt_of_pkt_bytes: "length (pkt_pad p) = 2 \<Longrightarrow> pkt_of_bytes (pkt_bytes p) = p"
  by (simp add: pkt_of_bytes_def pkt_bytes_def load_le_def slice_append_skip slice_append_here)

text \<open>No output function touches the padding, or writes anything when there is no packet.\<close>

lemma pkt_pad_output_tuple [simp]: "pkt_pad (output_tuple h L iph pkt) = pkt_pad pkt"
  by (simp add: output_tuple_def Let_def)

lemma pkt_pad_output_xdp_data [simp]: "pkt_pad (output_xdp_data h L eth pkt) = pkt_pad pkt"
  by (simp add: output_xdp_data_def Let_def)

lemma pkt_pad_output_pkt [simp]: "pkt_pad (output_pkt h L T args pkt) = pkt_pad pkt"
  by (simp add: output_pkt_def output_skb_def output_pskb_def output_xdp_buff_def
      output_xdp_frame_def Let_def)

section \<open>What a correct report is\<close>

text \<open>
  The reference: an IPv4 header's first byte holds the version and the header length in words,
  byte 9 the protocol, bytes 12 to 19 the addresses; the ports are the first four bytes after
  the header, and byte 13 of a TCP header holds its flags.
\<close>

definition ip_version :: "u8 list \<Rightarrow> nat" where
  "ip_version bs = unat (bs ! 0) div 16"

definition ip_hdr_len :: "u8 list \<Rightarrow> nat" where
  "ip_hdr_len bs = 4 * (unat (bs ! 0) mod 16)"

definition rfc_tuple :: "u8 list \<Rightarrow> bpfsnoop_pkt_data \<Rightarrow> bpfsnoop_pkt_data" where
  "rfc_tuple bs pkt =
     (if bs ! 9 = 6 then pkt\<lparr>pkt_addrs := load_le 12 8 bs, pkt_ports := load_le (ip_hdr_len bs) 4 bs,
        pkt_protocol := 6, pkt_tcp_flags := bs ! (ip_hdr_len bs + 13)\<rparr>
      else if bs ! 9 = 17 then pkt\<lparr>pkt_addrs := load_le 12 8 bs,
        pkt_ports := load_le (ip_hdr_len bs) 4 bs, pkt_protocol := 17\<rparr>
      else if bs ! 9 = 1 then pkt\<lparr>pkt_addrs := load_le 12 8 bs, pkt_protocol := 1\<rparr>
      else pkt)"

end
