(* ===== verification/Tracer.thy ===== *)
theory Tracer
  imports Sess Lbr Stack Pkt_Filter Pkt_Output
begin

text \<open>
  What the function tracers (\<^verbatim>\<open>bpf/bpfsnoop.c\<close> and \<^verbatim>\<open>bpf/bpfsnoop_kprobe.c\<close>) share: the constants
  the loader sets, the state they keep in maps and data sections, the routines the loader
  replaces by generated code, and the layout of a ring-buffer record.
\<close>

definition BPF_OK :: s32 where "BPF_OK = 0"

text \<open>The constants in \<^verbatim>\<open>.rodata\<close>; \<open>rd_arch\<close> is the architecture the object was built for.\<close>

record rodata =
  PID :: u32
  CPU_MASK :: u32
  FUNC_IP :: u64
  rd_cfg :: bpfsnoop_config
  rd_arch :: arch

text \<open>
  The maps and data sections. \<open>events\<close> are the records submitted to the ring buffer, oldest
  first. The loader sizes \<open>lbr_buff\<close> to the number of CPUs.
\<close>

record ('s, 'l) tracer =
  ready :: u32
  sessions :: 's
  lbr_buff :: "bpfsnoop_lbr_data list"
  lbrs :: 'l
  tramp_fp_offset :: u32
  events :: "u8 list list"

section \<open>Routines the loader replaces\<close>

text \<open>
  The loader rewrites the bodies of these subprograms: the filters from the command line's
  expressions, the outputs from the tracee's signature. They are a parameter of the tracers.
  An output routine gets the offset its pointer has in the record's buffer.
\<close>

record hooks =
  hook_filter_arg :: "u64 list \<Rightarrow> bool"
  hook_filter_pkt :: "u64 list \<Rightarrow> u64 \<Rightarrow> bool"
  hook_output_fn_args :: "u64 list \<Rightarrow> u64 \<Rightarrow> nat \<Rightarrow> u8 list \<Rightarrow> u8 list"
  hook_output_pkt :: "u64 list \<Rightarrow> nat \<Rightarrow> u8 list \<Rightarrow> u8 list"
  hook_output_arg :: "u64 list \<Rightarrow> nat \<Rightarrow> u8 list \<Rightarrow> u8 list"

text \<open>The bodies in the C files. The two printing stubs write nothing into the buffer.\<close>

definition filter_arg :: "u64 list \<Rightarrow> bool" where
  "filter_arg args \<longleftrightarrow> args ! 0 \<noteq> 0"

definition output_fn_args :: "u64 list \<Rightarrow> u64 \<Rightarrow> nat \<Rightarrow> u8 list \<Rightarrow> u8 list" where
  "output_fn_args args retval off buf = buf"

definition output_arg :: "u64 list \<Rightarrow> nat \<Rightarrow> u8 list \<Rightarrow> u8 list" where
  "output_arg args off buf = buf"

text \<open>
  The call \<^verbatim>\<open>filter_pkt(args, session_id)\<close> converts the 64-bit session id to the \<^verbatim>\<open>int\<close>
  parameter of the stub.
\<close>

definition c_hooks :: "helpers \<Rightarrow> layout \<Rightarrow> u32 \<Rightarrow> pcap_hooks \<Rightarrow> hooks" where
  "c_hooks h L T P =
     \<lparr>hook_filter_arg = filter_arg,
      hook_filter_pkt = (\<lambda>args sid. filter_pkt h L T P args (ucast sid)),
      hook_output_fn_args = output_fn_args,
      hook_output_pkt = (\<lambda>args off. pkt_in_buffer (output_pkt h L T args) off),
      hook_output_arg = output_arg\<rparr>"

text \<open>
  What the record layout relies on: each output routine writes only into the region the
  configuration reserves for it.
\<close>

definition hooks_within :: "bpfsnoop_config \<Rightarrow> hooks \<Rightarrow> bool" where
  "hooks_within c hk \<longleftrightarrow>
     (\<forall>args retval off. writes_within (hook_output_fn_args hk args retval off) off (unat (buf_size (fn_args c)))) \<and>
     (\<forall>args off. writes_within (hook_output_pkt hk args off) off sizeof_pkt_data) \<and>
     (\<forall>args off. writes_within (hook_output_arg hk args off) off (unat (data_size (fn_args c))))"

section \<open>The ring-buffer record\<close>

text \<open>
  The size is computed in \<^verbatim>\<open>size_t\<close> from two 32-bit numbers and constants, so it does not
  wrap around and is a natural number here.
\<close>

definition record_size :: "bpfsnoop_config \<Rightarrow> nat" where
  "record_size c =
     (let sz = sizeof_event + unat (buf_size (fn_args c)) + unat (data_size (fn_args c))
      in sz + (if cfg_output_pkt c then sizeof_pkt_data else 0))"

definition fill_record :: "hooks \<Rightarrow> bpfsnoop_config \<Rightarrow> u64 list \<Rightarrow> u64 \<Rightarrow> u8 list \<Rightarrow> u8 list" where
  "fill_record hk c args retval buf =
     (let ptr = sizeof_event;
          buf = hook_output_fn_args hk args retval ptr buf;
          ptr = ptr + unat (buf_size (fn_args c));
          (buf, ptr) = (if cfg_output_pkt c
            then (hook_output_pkt hk args ptr buf, ptr + sizeof_pkt_data) else (buf, ptr))
      in if cfg_output_arg c then hook_output_arg hk args ptr buf else buf)"

text \<open>Offsets of the packet and argument areas in the record.\<close>

definition pkt_off :: "bpfsnoop_config \<Rightarrow> nat" where
  "pkt_off c = sizeof_event + unat (buf_size (fn_args c))"

definition arg_off :: "bpfsnoop_config \<Rightarrow> nat" where
  "arg_off c = pkt_off c + (if cfg_output_pkt c then sizeof_pkt_data else 0)"

lemma record_size_bound: "record_size c < 2 ^ 64"
proof -
  have "unat (w :: u32) < 2 ^ 32" for w using unsigned_less [of w] by simp
  from this [of "buf_size (fn_args c)"] this [of "data_size (fn_args c)"] show ?thesis
    by (simp add: record_size_def sizeof_event_def sizeof_pkt_data_def Let_def)
qed

lemma record_areas:
  "sizeof_event \<le> pkt_off c" "pkt_off c \<le> arg_off c"
  "arg_off c + unat (data_size (fn_args c)) = record_size c"
  "cfg_output_pkt c \<Longrightarrow> pkt_off c + sizeof_pkt_data = arg_off c"
  by (auto simp: pkt_off_def arg_off_def record_size_def Let_def)

lemma fill_record_eq:
  "fill_record hk c args retval buf =
     (let buf = hook_output_fn_args hk args retval sizeof_event buf;
          buf = (if cfg_output_pkt c then hook_output_pkt hk args (pkt_off c) buf else buf)
      in if cfg_output_arg c then hook_output_arg hk args (arg_off c) buf else buf)"
  by (simp add: fill_record_def pkt_off_def arg_off_def Let_def)

lemma fill_record_within:
  assumes hk: "hooks_within c hk"
  shows "writes_within (fill_record hk c args retval) sizeof_event (record_size c - sizeof_event)"
proof -
  note ar = record_areas [of c]
  have 1: "writes_within (hook_output_fn_args hk args retval sizeof_event)
      sizeof_event (record_size c - sizeof_event)"
    by (rule writes_within_mono [of _ sizeof_event "unat (buf_size (fn_args c))"])
      (use hk ar in \<open>auto simp: hooks_within_def pkt_off_def\<close>)
  have 2: "writes_within (\<lambda>buf. if cfg_output_pkt c then hook_output_pkt hk args (pkt_off c) buf else buf)
      sizeof_event (record_size c - sizeof_event)"
    by (cases "cfg_output_pkt c", simp_all, rule writes_within_mono [of _ "pkt_off c" sizeof_pkt_data])
      (use hk ar in \<open>auto simp: hooks_within_def\<close>)
  have 3: "writes_within (\<lambda>buf. if cfg_output_arg c then hook_output_arg hk args (arg_off c) buf else buf)
      sizeof_event (record_size c - sizeof_event)"
    by (cases "cfg_output_arg c", simp_all, rule writes_within_mono [of _ "arg_off c" "unat (data_size (fn_args c))"])
      (use hk ar in \<open>auto simp: hooks_within_def\<close>)
  have "fill_record hk c args retval = (\<lambda>buf.
      (\<lambda>buf. if cfg_output_arg c then hook_output_arg hk args (arg_off c) buf else buf)
      ((\<lambda>buf. if cfg_output_pkt c then hook_output_pkt hk args (pkt_off c) buf else buf)
       (hook_output_fn_args hk args retval sizeof_event buf)))"
    by (simp add: fun_eq_iff fill_record_eq Let_def)
  then show ?thesis using writes_within_comp [OF writes_within_comp [OF 1 2] 3] by simp
qed

text \<open>Filling the record keeps its length and its header.\<close>

lemma fill_record_keeps:
  assumes "hooks_within c hk"
  shows "length (fill_record hk c args retval buf) = length buf"
    and "go_event (fill_record hk c args retval buf) = go_event buf"
  using writes_withinD(1) [OF fill_record_within [OF assms]]
    go_event_within [OF fill_record_within [OF assms]] by auto

lemma pkt_in_buffer_within:
  assumes "\<And>p. pkt_pad (f p) = pkt_pad p"
  shows "writes_within (pkt_in_buffer f off) off sizeof_pkt_data"
proof -
  have len: "length (pkt_bytes (f (pkt_of_bytes bs))) \<le> sizeof_pkt_data" for bs
    by (simp add: pkt_bytes_def assms pkt_of_bytes_def bslice_def sizeof_pkt_data_def)
  have "off + length (pkt_bytes (f (pkt_of_bytes bs))) \<le> i"
    if "off + sizeof_pkt_data \<le> i" for bs i
    using len [of bs] that by linarith
  then show ?thesis
    by (auto simp: writes_within_def pkt_in_buffer_def nth_store dest: leD)
qed

text \<open>The C bodies respect their regions, whatever the configuration.\<close>

lemma c_hooks_within: "hooks_within c (c_hooks h L T P)"
proof -
  have "writes_within (pkt_in_buffer (output_pkt h L T args) off) off sizeof_pkt_data" for args off
    by (rule pkt_in_buffer_within) simp
  then show ?thesis
    by (simp add: hooks_within_def c_hooks_def output_fn_args_def [abs_def] output_arg_def [abs_def])
qed

section \<open>Session ids\<close>

text \<open>The random number is the high half, the frame pointer's low half the low half.\<close>

definition gen_session_id :: "helpers \<Rightarrow> u64 \<Rightarrow> u64" where
  "gen_session_id h fp =
     (let rnd = bpf_get_prandom_u32 h in push_bit 32 (ucast rnd) OR (fp AND 0xFFFFFFFF))"

definition current_pid :: "helpers \<Rightarrow> u32" where
  "current_pid h = ucast (drop_bit 32 (bpf_get_current_pid_tgid h))"

lemma mask32: "(0xFFFFFFFF :: u64) = mask 32"
  by (simp add: mask_eq_exp_minus_1)

lemma gen_session_id_low: "gen_session_id h fp AND 0xFFFFFFFF = fp AND 0xFFFFFFFF"
  unfolding gen_session_id_def mask32 Let_def
  by (rule bit_word_eqI) (auto simp: bit_simps)

lemma gen_session_id_high: "drop_bit 32 (gen_session_id h fp) = ucast (bpf_get_prandom_u32 h)"
  unfolding gen_session_id_def mask32 Let_def
  by (rule bit_word_eqI) (auto simp: bit_simps dest: bit_imp_le_length)

section \<open>The branch snapshot\<close>

text \<open>
  The snapshot comes before every other helper call and the filters, so as not to pollute the
  branch records; it fills the scratch buffer of the current CPU. An exit that pairs with an
  entry takes none.
\<close>

definition can_output :: "bpfsnoop_config \<Rightarrow> bool" where
  "can_output c \<longleftrightarrow> \<not> cfg_both_entry_exit c \<or> cfg_is_entry c"

definition record_branches :: "bpfsnoop_config \<Rightarrow> helpers \<Rightarrow> u32 \<Rightarrow> ('s, 'l) tracer \<Rightarrow> ('s, 'l) tracer" where
  "record_branches c h cpu st =
     (if cfg_output_lbr c \<and> can_output c
      then st\<lparr>lbr_buff := (lbr_buff st)[unat cpu := take_snapshot h (lbr_buff st ! unat cpu)]\<rparr>
      else st)"

lemma record_branches_frame [simp]:
  "ready (record_branches c h cpu st) = ready st"
  "sessions (record_branches c h cpu st) = sessions st"
  "lbrs (record_branches c h cpu st) = lbrs st"
  "tramp_fp_offset (record_branches c h cpu st) = tramp_fp_offset st"
  "events (record_branches c h cpu st) = events st"
  "length (lbr_buff (record_branches c h cpu st)) = length (lbr_buff st)"
  by (simp_all add: record_branches_def)

section \<open>Submitting a record\<close>

text \<open>
  The tail of both tracers: reserve the record (NULL drops the event), write its header,
  store the branch records of the session, let the output routines fill the rest, submit.
\<close>

definition submit_record ::
  "('l, bpfsnoop_lbr_data) bpf_hash \<Rightarrow> hooks \<Rightarrow> bpfsnoop_config \<Rightarrow> helpers \<Rightarrow> event \<Rightarrow> u64 list
     \<Rightarrow> u64 \<Rightarrow> ('s, 'l) tracer \<Rightarrow> ('s, 'l) tracer" where
  "submit_record B hk c h evt args retval st =
     (case ringbuf_record h (record_size c) of None \<Rightarrow> st
      | Some buffer \<Rightarrow>
        let buffer = write_event evt buffer;
            st = (if cfg_output_lbr c \<and> can_output c
              then st\<lparr>lbrs := output_lbr_data B (lbr_buff st ! unat (evt_cpu evt))
                (evt_session_id evt) (lbrs st)\<rparr> else st);
            buffer = fill_record hk c args retval buffer
        in st\<lparr>events := events st @ [buffer]\<rparr>)"

lemma submit_record_frame [simp]:
  "sessions (submit_record B hk c h e args rv st) = sessions st"
  "ready (submit_record B hk c h e args rv st) = ready st"
  by (auto simp: submit_record_def Let_def split: option.splits)

text \<open>
  The records an invocation adds: none when the ring buffer is full, else one with the given
  header that fills its reservation exactly.
\<close>

definition adds_record :: "helpers \<Rightarrow> bpfsnoop_config \<Rightarrow> event \<Rightarrow> u8 list list \<Rightarrow> u8 list list \<Rightarrow> bool" where
  "adds_record h c e evs evs' \<longleftrightarrow>
     (case bpf_ringbuf_reserve h (record_size c) of None \<Rightarrow> evs' = evs
      | Some _ \<Rightarrow> \<exists>r. evs' = evs @ [r] \<and> length r = record_size c \<and> go_event r = e)"

lemma record_header:
  assumes hk: "hooks_within c hk" and len: "length buf = record_size c" and cm: "length (comm e) = 16"
  shows "go_event (fill_record hk c args rv (write_event e buf)) = e"
    and "length (fill_record hk c args rv (write_event e buf)) = record_size c"
  using len record_areas [of c] cm
  by (simp_all add: fill_record_keeps [OF hk] go_event_write_event)

lemma submit_record_events:
  "events (submit_record B hk c h e args rv st) =
     (case ringbuf_record h (record_size c) of None \<Rightarrow> events st
      | Some buf \<Rightarrow> events st @ [fill_record hk c args rv (write_event e buf)])"
  by (auto simp: submit_record_def Let_def split: option.splits)

lemma submit_record_adds:
  assumes "hooks_within c hk" "length (comm e) = 16"
  shows "adds_record h c e (events st) (events (submit_record B hk c h e args rv st))"
  using assms by (auto simp: adds_record_def submit_record_events ringbuf_record_def record_header
      split: option.splits)

text \<open>The argument data, which come later, leave the packet area alone.\<close>

lemma fill_record_pkt_area:
  assumes hk: "hooks_within c hk" and pkt: "cfg_output_pkt c"
  shows "bslice (pkt_off c) sizeof_pkt_data (fill_record hk c args rv buf) =
    bslice (pkt_off c) sizeof_pkt_data
      (hook_output_pkt hk args (pkt_off c) (hook_output_fn_args hk args rv sizeof_event buf))"
proof -
  have w: "writes_within (hook_output_arg hk args (arg_off c)) (arg_off c) (unat (data_size (fn_args c)))"
    using hk by (simp add: hooks_within_def)
  have "pkt_off c + sizeof_pkt_data \<le> arg_off c" using record_areas(4) [OF pkt] by simp
  with writes_withinD(2) [OF w] pkt show ?thesis by (simp add: fill_record_eq Let_def)
qed

section \<open>Properties\<close>


end
