(* ===== verification/Protocol.thy ===== *)
theory Protocol
  imports Tracer "HOL-Library.Sublist"
begin

text \<open>
  What a tracer promises over a whole run: the abstract history of the traced calls, in which a
  call is opened under its caller's frame pointer and closed once, and the records the ring
  buffer shows of it. The locale states what one invocation has to satisfy; the tracers'
  theories interpret it.
\<close>

section \<open>Histories of calls\<close>

text \<open>
  An accepted entry opens a session, or the map refuses it; an exit closes an open session. In
  the mode that traces one side only, calls leave no session.
\<close>

datatype call =
    Opened u64 u64          \<comment> \<open>frame pointer, session id\<close>
  | Refused u64
  | Closed u64 u64
  | Lone event_type u64

fun replay :: "(u64 \<rightharpoonup> u64) \<Rightarrow> call list \<Rightarrow> (u64 \<rightharpoonup> u64) option" where
  "replay m [] = Some m"
| "replay m (Opened fp i # es) = replay (m(fp \<mapsto> i)) es"
| "replay m (Refused i # es) = replay m es"
| "replay m (Closed fp i # es) = (if m fp = Some i then replay (m(fp := None)) es else None)"
| "replay m (Lone ty i # es) = replay m es"

text \<open>The type and the id of the record of a call: the exit's id is the session's minus one.\<close>

fun report :: "call \<Rightarrow> u16 \<times> u64" where
  "report (Opened fp i) = (event_type_code BPFSNOOP_EVENT_TYPE_FUNC_ENTRY, i)"
| "report (Refused i) = (event_type_code BPFSNOOP_EVENT_TYPE_FUNC_ENTRY, i)"
| "report (Closed fp i) = (event_type_code BPFSNOOP_EVENT_TYPE_FUNC_EXIT, i - 1)"
| "report (Lone ty i) = (event_type_code ty, i)"

definition record_report :: "u8 list \<Rightarrow> u16 \<times> u64" where
  "record_report r = (evt_type (go_event r), evt_session_id (go_event r))"

fun at_frame :: "u64 \<Rightarrow> call \<Rightarrow> bool" where
  "at_frame fp (Opened fp' i) \<longleftrightarrow> fp = fp'"
| "at_frame fp (Closed fp' i) \<longleftrightarrow> fp = fp'"
| "at_frame fp _ \<longleftrightarrow> False"

text \<open>Every closed call was opened before, with the same id, and not touched in between.\<close>

definition paired :: "call list \<Rightarrow> bool" where
  "paired es \<longleftrightarrow> (\<forall>us fp i vs. es = us @ Closed fp i # vs \<longrightarrow>
     (\<exists>as bs. us = as @ Opened fp i # bs \<and> (\<forall>e\<in>set bs. \<not> at_frame fp e)))"

lemma replay_append: "replay m (xs @ ys) = Option.bind (replay m xs) (\<lambda>m'. replay m' ys)"
proof (induction xs arbitrary: m)
  case (Cons x xs)
  then show ?case by (cases x) (simp_all del: fun_upd_apply)
qed simp

text \<open>Where an open session comes from.\<close>

lemma replay_origin:
  "replay m xs = Some m' \<Longrightarrow> m' fp = Some i \<Longrightarrow>
     (m fp = Some i \<and> (\<forall>e\<in>set xs. \<not> at_frame fp e)) \<or>
     (\<exists>as bs. xs = as @ Opened fp i # bs \<and> (\<forall>e\<in>set bs. \<not> at_frame fp e))"
proof (induction xs arbitrary: m' rule: rev_induct)
  case (snoc x xs)
  from snoc.prems(1) obtain m1 where m1: "replay m xs = Some m1" and x: "replay m1 [x] = Some m'"
    by (auto simp: replay_append bind_eq_Some_conv)
  show ?case
  proof (cases "at_frame fp x")
    case True
    then have "x = Opened fp i" using x snoc.prems(2) by (cases x) (auto split: if_splits)
    then have "xs @ [x] = xs @ Opened fp i # [] \<and> (\<forall>e\<in>set []. \<not> at_frame fp e)" by simp
    then show ?thesis by blast
  next
    case False
    then have "m1 fp = Some i" using x snoc.prems(2) by (cases x) (auto split: if_splits)
    from snoc.IH [OF m1 this] show ?thesis
    proof (elim disjE exE conjE)
      fix as bs assume "xs = as @ Opened fp i # bs" "\<forall>e\<in>set bs. \<not> at_frame fp e"
      with False have "xs @ [x] = as @ Opened fp i # (bs @ [x]) \<and> (\<forall>e\<in>set (bs @ [x]). \<not> at_frame fp e)"
        by auto
      then show ?thesis by blast
    qed (use False in auto)
  qed
qed simp

lemma replay_paired: "replay Map.empty es = Some m \<Longrightarrow> paired es"
  unfolding paired_def
proof (intro allI impI)
  fix us fp i vs
  assume r: "replay Map.empty es = Some m" and es: "es = us @ Closed fp i # vs"
  then obtain m1 where m1: "replay Map.empty us = Some m1" and "m1 fp = Some i"
    by (auto simp: replay_append bind_eq_Some_conv split: if_splits)
  from replay_origin [OF this] show "\<exists>as bs. us = as @ Opened fp i # bs \<and> (\<forall>e\<in>set bs. \<not> at_frame fp e)"
    by simp
qed

text \<open>A session's id carries the lower half of the frame pointer it is opened under.\<close>

definition same_low_half :: "u64 \<Rightarrow> u64 \<Rightarrow> bool" where
  "same_low_half a b \<longleftrightarrow> a AND 0xFFFFFFFF = b AND 0xFFFFFFFF"

fun keyed :: "call \<Rightarrow> bool" where
  "keyed (Opened fp i) \<longleftrightarrow> same_low_half i fp"
| "keyed _ \<longleftrightarrow> True"

lemma replay_keyed:
  assumes "replay Map.empty es = Some m" "list_all keyed es" "m fp = Some i"
  shows "same_low_half i fp"
  using replay_origin [OF assms(1,3)] assms(2) by auto

section \<open>Runs of a tracer\<close>

fun lone :: "call \<Rightarrow> bool" where
  "lone (Lone ty i) \<longleftrightarrow> True"
| "lone _ \<longleftrightarrow> False"

text \<open>
  How the records submitted in a step, or in a run, show its calls: in order, some of them lost
  to a full ring buffer, but all of them when \<open>full\<close>, a run in which the buffer always has room.
  With \<open>both\<close>, entry and exit are traced, and no call is alone.
\<close>

definition records_calls :: "bool \<Rightarrow> bool \<Rightarrow> u8 list list \<Rightarrow> u8 list list \<Rightarrow> call list \<Rightarrow> bool" where
  "records_calls full both evs evs' es \<longleftrightarrow> list_all keyed es \<and> (both \<longrightarrow> list_all (\<lambda>e. \<not> lone e) es) \<and>
     (\<exists>rs. evs' = evs @ rs \<and> list_all (\<lambda>r. sizeof_event \<le> length r) rs \<and>
        subseq (map record_report rs) (map report es) \<and>
        (full \<longrightarrow> map record_report rs = map report es))"

lemma records_calls_none: "records_calls full both evs evs []"
  by (simp add: records_calls_def)

lemma records_calls_trans:
  "records_calls full both a b es \<Longrightarrow> records_calls full both b c fs \<Longrightarrow> records_calls full both a c (es @ fs)"
  unfolding records_calls_def by (auto intro: list_emb_append_mono)

lemma records_calls_one:
  assumes "adds_record h c e evs evs'" "report call = (evt_type e, evt_session_id e)" "keyed call"
    and room: "full \<Longrightarrow> bpf_ringbuf_reserve h (record_size c) \<noteq> None" and mode: "both \<Longrightarrow> \<not> lone call"
  shows "records_calls full both evs evs' [call]"
proof -
  have "sizeof_event \<le> record_size c" by (simp add: record_size_def Let_def)
  with assms(1) have "(evs' = evs \<and> \<not> full) \<or> (\<exists>r. evs' = evs @ [r] \<and> go_event r = e \<and> sizeof_event \<le> length r)"
    using room by (auto simp: adds_record_def split: option.splits)
  then show ?thesis
  proof (elim disjE exE conjE)
    fix r assume "evs' = evs @ [r]" "go_event r = e" "sizeof_event \<le> length r"
    with assms(2,3) mode show ?thesis by (simp add: records_calls_def record_report_def)
  qed (use assms(3) mode in \<open>simp add: records_calls_def\<close>)
qed

text \<open>A step, or a run, is explained by a history that leads from its open sessions to the next.\<close>

definition explained ::
  "bool \<Rightarrow> bool \<Rightarrow> (u64 \<rightharpoonup> u64) \<Rightarrow> u8 list list \<Rightarrow> (u64 \<rightharpoonup> u64) \<Rightarrow> u8 list list \<Rightarrow> bool" where
  "explained full both m evs m' evs' \<longleftrightarrow>
     (\<exists>es. replay m es = Some m' \<and> records_calls full both evs evs' es)"

lemma explained_refl: "explained full both m evs m evs"
  unfolding explained_def by (rule exI [of _ "[]"]) (simp add: records_calls_none)

lemma explained_trans:
  assumes "explained full both m1 evs1 m2 evs2" "explained full both m2 evs2 m3 evs3"
  shows "explained full both m1 evs1 m3 evs3"
proof -
  obtain es fs where "replay m1 es = Some m2" "records_calls full both evs1 evs2 es"
    "replay m2 fs = Some m3" "records_calls full both evs2 evs3 fs"
    using assms by (auto simp: explained_def)
  then have "replay m1 (es @ fs) = Some m3" "records_calls full both evs1 evs3 (es @ fs)"
    by (auto simp: replay_append intro: records_calls_trans)
  then show ?thesis unfolding explained_def by blast
qed

lemma explained_one:
  assumes "replay m [call] = Some m'" "adds_record h c e evs evs'"
    and "report call = (evt_type e, evt_session_id e)" "keyed call"
    and "full \<Longrightarrow> bpf_ringbuf_reserve h (record_size c) \<noteq> None" "both \<Longrightarrow> \<not> lone call"
  shows "explained full both m evs m' evs'"
  unfolding explained_def using assms(1) records_calls_one [OF assms(2-6)] by blast

text \<open>The three kinds of invocation that submit a record.\<close>

lemma explained_entry:
  assumes "adds_record h c e evs evs'" "full \<Longrightarrow> bpf_ringbuf_reserve h (record_size c) \<noteq> None"
    and "evt_type e = event_type_code BPFSNOOP_EVENT_TYPE_FUNC_ENTRY"
    and "same_low_half (evt_session_id e) fp" "m' = m(fp \<mapsto> evt_session_id e) \<or> m' = m"
  shows "explained full both m evs m' evs'"
  using assms(5)
proof
  assume "m' = m(fp \<mapsto> evt_session_id e)"
  then show ?thesis
    by (intro explained_one [where call = "Opened fp (evt_session_id e)", OF _ assms(1)])
      (use assms(2-4) in simp_all)
next
  assume "m' = m"
  then show ?thesis
    by (intro explained_one [where call = "Refused (evt_session_id e)", OF _ assms(1)])
      (use assms(2-4) in simp_all)
qed

lemma explained_exit:
  assumes "adds_record h c e evs evs'" "full \<Longrightarrow> bpf_ringbuf_reserve h (record_size c) \<noteq> None"
    and "evt_type e = event_type_code BPFSNOOP_EVENT_TYPE_FUNC_EXIT"
    and "evt_session_id e = i - 1" "m fp = Some i" "m' = m(fp := None)"
  shows "explained full both m evs m' evs'"
  by (intro explained_one [where call = "Closed fp i", OF _ assms(1)]) (use assms(2-6) in simp_all)

lemma explained_lone:
  assumes "adds_record h c e evs evs'" "full \<Longrightarrow> bpf_ringbuf_reserve h (record_size c) \<noteq> None"
    and "evt_type e = event_type_code ty" "\<not> both"
  shows "explained full both m evs m evs'"
  by (intro explained_one [where call = "Lone ty (evt_session_id e)", OF _ assms(1)])
    (use assms(2-4) in simp_all)

locale session_protocol =
  fixes full both :: bool
    and steps :: "'st \<Rightarrow> 'st \<Rightarrow> bool"
    and open_ids :: "'st \<Rightarrow> u64 \<rightharpoonup> u64"
    and log :: "'st \<Rightarrow> u8 list list"
    and good :: "'st \<Rightarrow> bool"
  assumes step_good: "good st \<Longrightarrow> steps st st' \<Longrightarrow> good st'"
    and step_explained: "good st \<Longrightarrow> steps st st' \<Longrightarrow>
      explained full both (open_ids st) (log st) (open_ids st') (log st')"
begin

lemma run_explained:
  assumes "steps\<^sup>*\<^sup>* st st'" "good st"
  shows "good st' \<and> explained full both (open_ids st) (log st) (open_ids st') (log st')"
  using assms
  by (induction rule: rtranclp_induct)
    (auto intro: explained_refl explained_trans step_explained dest: step_good)

text \<open>A run from a fresh tracer has a history that explains its sessions and its records.\<close>

lemma run_history:
  assumes run: "steps\<^sup>*\<^sup>* st st'" and good: "good st" and fresh: "open_ids st = Map.empty" "log st = []"
  shows "\<exists>es. replay Map.empty es = Some (open_ids st') \<and> paired es \<and> list_all keyed es \<and>
    (both \<longrightarrow> list_all (\<lambda>e. \<not> lone e) es) \<and> subseq (map record_report (log st')) (map report es) \<and>
    (full \<longrightarrow> map record_report (log st') = map report es)"
  using run_explained [OF run good] replay_paired unfolding fresh explained_def records_calls_def by auto

text \<open>Every record of a run is long enough for its header.\<close>

lemma run_lengths:
  assumes "steps\<^sup>*\<^sup>* st st'" "good st" "log st = []"
  shows "list_all (\<lambda>r. sizeof_event \<le> length r) (log st')"
  using run_explained [OF assms(1,2)] assms(3) by (auto simp: explained_def records_calls_def)

lemma run_keyed:
  assumes "steps\<^sup>*\<^sup>* st st'" "good st" "open_ids st = Map.empty" "log st = []" "open_ids st' fp = Some i"
  shows "same_low_half i fp"
proof -
  from run_history [OF assms(1-4)] obtain es
    where "replay Map.empty es = Some (open_ids st')" "list_all keyed es" by blast
  from replay_keyed [OF this assms(5)] show ?thesis .
qed

end

end
