(* ===== verification/Fn_Tracer.thy ===== *)
theory Fn_Tracer
  imports Tracer
begin

text \<open>
  The function tracer (\<^verbatim>\<open>bpf/bpfsnoop.c\<close>), attached with fentry or fexit to a kernel function or
  a BPF program. One invocation takes the snapshot of the branch records, reads the tracee's
  arguments, applies the filters, opens or closes the session and submits one record.
\<close>

definition filter_event :: "hooks \<Rightarrow> u64 list \<Rightarrow> u64 \<Rightarrow> bool" where
  "filter_event hk args sid \<longleftrightarrow> hook_filter_arg hk args \<and> hook_filter_pkt hk args sid"

definition get_tracee_caller_fp ::
  "arch \<Rightarrow> helpers \<Rightarrow> u64 \<Rightarrow> u32 \<Rightarrow> bool \<Rightarrow> u32 \<Rightarrow> u64 \<times> u32" where
  "get_tracee_caller_fp arch h ctx nr retval off =
     (let (fp, off') = get_tramp_fp arch h ctx nr retval off in (probe_word h fp 8, off'))"

text \<open>
  The arguments are read in one call into an array of twelve words; the ones not read keep
  what the array held. The loader never sets more than \<open>MAX_FN_ARGS\<close> arguments.
\<close>

definition read_args :: "helpers \<Rightarrow> u64 \<Rightarrow> u32 \<Rightarrow> u64 list" where
  "read_args h ctx nr =
     (let n = unat (8 * nr); bs = probe_bytes h ctx n in
      map (\<lambda>i. if 8 * i + 8 \<le> n then load_le (8 * i) 8 bs else uninit h i) [0..<MAX_FN_ARGS])"

text \<open>\<open>None\<close>: the invocation returns early.\<close>

definition fn_session ::
  "('s, bpfsnoop_sess) bpf_hash \<Rightarrow> hooks \<Rightarrow> bpfsnoop_config \<Rightarrow> helpers \<Rightarrow> u64 \<Rightarrow> u64 list
     \<Rightarrow> ('s, 'l) tracer \<Rightarrow> (u64 \<times> event_type) option \<times> ('s, 'l) tracer" where
  "fn_session S hk c h fp args st =
     (if cfg_both_entry_exit c then
        if cfg_is_entry c then
          let sid = gen_session_id h fp in
          if \<not> filter_event hk args sid then (None, st)
          else (Some (sid, BPFSNOOP_EVENT_TYPE_FUNC_ENTRY),
                st\<lparr>sessions := add_session S fp \<lparr>session_id = sid\<rparr> (sessions st)\<rparr>)
        else
          let (sess, m) = get_and_del_session S fp (sessions st) in
          if sess = 0 then (None, st\<lparr>sessions := m\<rparr>)
          else (Some (session_id (map_value S m sess) - 1, BPFSNOOP_EVENT_TYPE_FUNC_EXIT),
                st\<lparr>sessions := m\<rparr>)
      else
        let sid = gen_session_id h fp in
        if \<not> filter_event hk args sid then (None, st)
        else (Some (sid, if cfg_is_entry c then BPFSNOOP_EVENT_TYPE_FUNC_ENTRY
                                else BPFSNOOP_EVENT_TYPE_FUNC_EXIT), st))"

text \<open>The header of the record an invocation submits.\<close>

definition fn_header :: "rodata \<Rightarrow> helpers \<Rightarrow> u64 \<Rightarrow> u64 \<Rightarrow> event_type \<Rightarrow> event" where
  "fn_header ro h ctx sid event_type =
     \<lparr>evt_type = event_type_code event_type, evt_length = of_nat sizeof_event,
      kernel_ts = ucast (bpf_ktime_get_ns h), evt_session_id = sid, func_ip = FUNC_IP ro,
      evt_cpu = bpf_get_smp_processor_id h AND CPU_MASK ro, evt_pid = current_pid h,
      comm = current_comm h 16,
      func_stack_id = (if cfg_output_stack (rd_cfg ro) then bpf_get_stackid h ctx else - 1)\<rparr>"

definition emit_bpfsnoop_event ::
  "('s, bpfsnoop_sess) bpf_hash \<Rightarrow> ('l, bpfsnoop_lbr_data) bpf_hash \<Rightarrow> hooks \<Rightarrow> rodata \<Rightarrow> helpers
     \<Rightarrow> u64 \<Rightarrow> ('s, 'l) tracer \<Rightarrow> s32 \<times> ('s, 'l) tracer" where
  "emit_bpfsnoop_event S B hk ro h ctx st =
     (if \<not> truthy (ready st) then (BPF_OK, st)
      else
        let c = rd_cfg ro;
            cpu = bpf_get_smp_processor_id h AND CPU_MASK ro;
            st = record_branches c h cpu st;
            args = read_args h ctx (args_nr (fn_args c));
            retval = (if with_retval (fn_args c)
              then probe_word h (ctx + ucast (8 * args_nr (fn_args c))) 8 else 0);
            pid = current_pid h
        in
        if pid = PID ro then (BPF_OK, st)
        else if truthy (cfg_pid c) \<and> pid \<noteq> cfg_pid c then (BPF_OK, st)
        else
          let (fp, off) = get_tracee_caller_fp (rd_arch ro) h ctx (args_nr (fn_args c))
                (cfg_both_entry_exit c \<or> with_retval (fn_args c)) (tramp_fp_offset st);
              st = st\<lparr>tramp_fp_offset := off\<rparr>;
              (r, st) = fn_session S hk c h fp args st
          in case r of None \<Rightarrow> (BPF_OK, st)
             | Some (sid, event_type) \<Rightarrow>
                 (BPF_OK, submit_record B hk c h (fn_header ro h ctx sid event_type) args retval st))"

definition bpfsnoop_fn ::
  "('s, bpfsnoop_sess) bpf_hash \<Rightarrow> ('l, bpfsnoop_lbr_data) bpf_hash \<Rightarrow> hooks \<Rightarrow> rodata \<Rightarrow> helpers
     \<Rightarrow> u64 \<Rightarrow> ('s, 'l) tracer \<Rightarrow> s32 \<times> ('s, 'l) tracer" where
  "bpfsnoop_fn S B hk ro h ctx st = emit_bpfsnoop_event S B hk ro h ctx st"

section \<open>One invocation, described by its outcome\<close>

text \<open>The frame pointer that identifies the traced call.\<close>

definition fn_fp :: "rodata \<Rightarrow> helpers \<Rightarrow> u64 \<Rightarrow> u32 \<Rightarrow> u64" where
  "fn_fp ro h ctx off = fst (get_tracee_caller_fp (rd_arch ro) h ctx (args_nr (fn_args (rd_cfg ro)))
     (cfg_both_entry_exit (rd_cfg ro) \<or> with_retval (fn_args (rd_cfg ro))) off)"

text \<open>The guards of the invocation: the tracer is ready and the process is one to trace.\<close>

definition fn_active :: "rodata \<Rightarrow> helpers \<Rightarrow> ('s, 'l) tracer \<Rightarrow> bool" where
  "fn_active ro h st \<longleftrightarrow> truthy (ready st) \<and> current_pid h \<noteq> PID ro \<and>
     (truthy (cfg_pid (rd_cfg ro)) \<longrightarrow> current_pid h = cfg_pid (rd_cfg ro))"

definition fn_args_of :: "rodata \<Rightarrow> helpers \<Rightarrow> u64 \<Rightarrow> u64 list" where
  "fn_args_of ro h ctx = read_args h ctx (args_nr (fn_args (rd_cfg ro)))"

lemma fn_inactive:
  assumes "\<not> fn_active ro h st"
  shows "snd (bpfsnoop_fn S B hk ro h ctx st) = st \<or>
    snd (bpfsnoop_fn S B hk ro h ctx st) =
      record_branches (rd_cfg ro) h (bpf_get_smp_processor_id h AND CPU_MASK ro) st"
  using assms by (auto simp: bpfsnoop_fn_def emit_bpfsnoop_event_def fn_active_def Let_def)

lemma comm_fn_header [simp]: "length (comm (fn_header ro h ctx sid ty)) = 16"
  by (simp add: fn_header_def)

text \<open>The state in which the session is looked up, and what follows from the lookup.\<close>

definition fn_start :: "rodata \<Rightarrow> helpers \<Rightarrow> u64 \<Rightarrow> ('s, 'l) tracer \<Rightarrow> ('s, 'l) tracer" where
  "fn_start ro h ctx st =
     (record_branches (rd_cfg ro) h (bpf_get_smp_processor_id h AND CPU_MASK ro) st)
       \<lparr>tramp_fp_offset := snd (get_tracee_caller_fp (rd_arch ro) h ctx (args_nr (fn_args (rd_cfg ro)))
         (cfg_both_entry_exit (rd_cfg ro) \<or> with_retval (fn_args (rd_cfg ro))) (tramp_fp_offset st))\<rparr>"

definition fn_retval :: "rodata \<Rightarrow> helpers \<Rightarrow> u64 \<Rightarrow> u64" where
  "fn_retval ro h ctx = (if with_retval (fn_args (rd_cfg ro))
     then probe_word h (ctx + ucast (8 * args_nr (fn_args (rd_cfg ro)))) 8 else 0)"

lemma fn_start_frame [simp]:
  "ready (fn_start ro h ctx st) = ready st" "sessions (fn_start ro h ctx st) = sessions st"
  "lbrs (fn_start ro h ctx st) = lbrs st" "events (fn_start ro h ctx st) = events st"
  by (simp_all add: fn_start_def)

lemma fn_active_step:
  assumes "fn_active ro h st"
  shows "bpfsnoop_fn S B hk ro h ctx st =
    (BPF_OK, case fn_session S hk (rd_cfg ro) h (fn_fp ro h ctx (tramp_fp_offset st))
        (fn_args_of ro h ctx) (fn_start ro h ctx st) of
       (None, m) \<Rightarrow> m
     | (Some (sid, ty), m) \<Rightarrow> submit_record B hk (rd_cfg ro) h (fn_header ro h ctx sid ty)
         (fn_args_of ro h ctx) (fn_retval ro h ctx) m)"
proof -
  have guards: "(\<not> truthy (ready st)) = False" "(current_pid h = PID ro) = False"
    "(truthy (cfg_pid (rd_cfg ro)) \<and> current_pid h \<noteq> cfg_pid (rd_cfg ro)) = False"
    using assms by (auto simp: fn_active_def)
  show ?thesis
    unfolding bpfsnoop_fn_def emit_bpfsnoop_event_def fn_start_def fn_fp_def
      fn_args_of_def fn_retval_def Let_def guards if_False record_branches_frame split_beta
    by (simp only: split: prod.split option.split) simp
qed

end
