(* ===== verification/Fn_Props.thy ===== *)
theory Fn_Props
  imports Fn_Tracer
begin

text \<open>
  What the function tracer does with its sessions and its records: the outcome of each kind
  of invocation, proved for every hash map that meets the kernel's contract.
\<close>

section \<open>The session lookup of an invocation\<close>

context session_map
begin

lemma fn_session_hit:
  assumes "inv (sessions st)" "cfg_both_entry_exit c" "\<not> cfg_is_entry c"
    and v: "view (sessions st) fp = Some s"
  shows "fn_session H hk c h fp args st =
    (Some (session_id s - 1, BPFSNOOP_EVENT_TYPE_FUNC_EXIT),
     st\<lparr>sessions := snd (take_session H fp (sessions st))\<rparr>)"
proof (cases "get_and_del_session H fp (sessions st)")
  case (Pair p m)
  have "fst (take_session H fp (sessions st)) = Some s"
    using v assms(1) by (simp add: sess.take_out_result)
  with Pair show ?thesis
    using assms by (auto simp: fn_session_def take_session_def split: if_splits)
qed

lemma fn_session_miss:
  assumes "inv (sessions st)" "cfg_both_entry_exit c" "\<not> cfg_is_entry c"
    and v: "view (sessions st) fp = None"
  shows "fn_session H hk c h fp args st = (None, st)"
proof -
  have "get_and_del_session H fp (sessions st) = (0, sessions st)"
    using lookup_null [OF assms(1), of fp] v by (simp add: get_and_del_session_def)
  then show ?thesis using assms by (simp add: fn_session_def)
qed

lemma is_session_store: "session_store (add_session H) (take_session H) view inv"
  by unfold_locales

lemma view_add_session:
  "inv m \<Longrightarrow> view (add_session H fp s m) = (view m)(fp \<mapsto> s) \<or> view (add_session H fp s m) = view m"
  by (rule sess.put_view)

lemma view_take_session: "inv m \<Longrightarrow> view (snd (take_session H fp m)) = (view m)(fp := None)"
  by (rule sess.take_out_view)

lemmas inv_sessions = sess.sinv_put sess.sinv_take_out

end

lemma fn_session_entry:
  "cfg_both_entry_exit c \<Longrightarrow> cfg_is_entry c \<Longrightarrow> fn_session S hk c h fp args st =
     (if filter_event hk args (gen_session_id h fp) then
        (Some (gen_session_id h fp, BPFSNOOP_EVENT_TYPE_FUNC_ENTRY),
         st\<lparr>sessions := add_session S fp \<lparr>session_id = gen_session_id h fp\<rparr> (sessions st)\<rparr>)
      else (None, st))"
  by (simp add: fn_session_def Let_def)

lemma fn_session_single:
  "\<not> cfg_both_entry_exit c \<Longrightarrow> fn_session S hk c h fp args st =
     (if filter_event hk args (gen_session_id h fp) then
        (Some (gen_session_id h fp, if cfg_is_entry c then BPFSNOOP_EVENT_TYPE_FUNC_ENTRY
           else BPFSNOOP_EVENT_TYPE_FUNC_EXIT), st)
      else (None, st))"
  by (simp add: fn_session_def Let_def)

section \<open>The outcome of an invocation\<close>

text \<open>The record stage of an invocation, with the arguments every path gives it.\<close>

definition fn_submit ::
  "('l, bpfsnoop_lbr_data) bpf_hash \<Rightarrow> hooks \<Rightarrow> rodata \<Rightarrow> helpers \<Rightarrow> u64 \<Rightarrow> u64 \<Rightarrow> event_type
     \<Rightarrow> ('s, 'l) tracer \<Rightarrow> ('s, 'l) tracer" where
  "fn_submit B hk ro h ctx sid ty st =
     submit_record B hk (rd_cfg ro) h (fn_header ro h ctx sid ty)
       (fn_args_of ro h ctx) (fn_retval ro h ctx) st"

lemma fn_submit_frame [simp]:
  "sessions (fn_submit B hk ro h ctx sid ty st) = sessions st"
  "ready (fn_submit B hk ro h ctx sid ty st) = ready st"
  by (simp_all add: fn_submit_def)

lemma fn_submit_adds:
  "hooks_within (rd_cfg ro) hk \<Longrightarrow> adds_record h (rd_cfg ro) (fn_header ro h ctx sid ty)
     (events st) (events (fn_submit B hk ro h ctx sid ty st))"
  by (simp add: fn_submit_def submit_record_adds)

lemma fn_accepted_entry:
  assumes act: "fn_active ro h st"
    and mode: "cfg_both_entry_exit (rd_cfg ro)" "cfg_is_entry (rd_cfg ro)"
    and fp: "fp = fn_fp ro h ctx (tramp_fp_offset st)"
    and flt: "filter_event hk (fn_args_of ro h ctx) (gen_session_id h fp)"
  shows "snd (bpfsnoop_fn S B hk ro h ctx st) =
    fn_submit B hk ro h ctx (gen_session_id h fp) BPFSNOOP_EVENT_TYPE_FUNC_ENTRY
      ((fn_start ro h ctx st)\<lparr>sessions :=
         add_session S fp \<lparr>session_id = gen_session_id h fp\<rparr> (sessions st)\<rparr>)"
  using flt by (simp add: fn_active_step [OF act] fn_session_entry [OF mode] fp [symmetric] fn_submit_def)

lemma fn_rejected:
  assumes act: "fn_active ro h st"
    and mode: "cfg_is_entry (rd_cfg ro) \<or> \<not> cfg_both_entry_exit (rd_cfg ro)"
    and flt: "\<not> filter_event hk (fn_args_of ro h ctx)
      (gen_session_id h (fn_fp ro h ctx (tramp_fp_offset st)))"
  shows "snd (bpfsnoop_fn S B hk ro h ctx st) = fn_start ro h ctx st"
  using mode flt by (auto simp: fn_active_step [OF act] fn_session_def Let_def)

lemma fn_accepted_single:
  assumes act: "fn_active ro h st" and mode: "\<not> cfg_both_entry_exit (rd_cfg ro)"
    and fp: "fp = fn_fp ro h ctx (tramp_fp_offset st)"
    and flt: "filter_event hk (fn_args_of ro h ctx) (gen_session_id h fp)"
  shows "snd (bpfsnoop_fn S B hk ro h ctx st) =
    fn_submit B hk ro h ctx (gen_session_id h fp)
      (if cfg_is_entry (rd_cfg ro) then BPFSNOOP_EVENT_TYPE_FUNC_ENTRY else BPFSNOOP_EVENT_TYPE_FUNC_EXIT)
      (fn_start ro h ctx st)"
  using flt by (simp add: fn_active_step [OF act] fn_session_single [OF mode] fp [symmetric] fn_submit_def)

lemma fn_matched_exit:
  assumes map: "session_map S view ok" and inv: "ok (sessions st)" and act: "fn_active ro h st"
    and mode: "cfg_both_entry_exit (rd_cfg ro)" "\<not> cfg_is_entry (rd_cfg ro)"
    and fp: "fp = fn_fp ro h ctx (tramp_fp_offset st)"
    and open_s: "view (sessions st) fp = Some s"
  shows "snd (bpfsnoop_fn S B hk ro h ctx st) =
    fn_submit B hk ro h ctx (session_id s - 1) BPFSNOOP_EVENT_TYPE_FUNC_EXIT
      ((fn_start ro h ctx st)\<lparr>sessions := snd (take_session S fp (sessions st))\<rparr>)"
  using session_map.fn_session_hit [OF map _ mode, of "fn_start ro h ctx st" fp s hk h
      "fn_args_of ro h ctx"] inv open_s
  by (simp add: fn_active_step [OF act] fp [symmetric] fn_submit_def)

lemma fn_unmatched_exit:
  assumes map: "session_map S view ok" and inv: "ok (sessions st)" and act: "fn_active ro h st"
    and mode: "cfg_both_entry_exit (rd_cfg ro)" "\<not> cfg_is_entry (rd_cfg ro)"
    and no_s: "view (sessions st) (fn_fp ro h ctx (tramp_fp_offset st)) = None"
  shows "snd (bpfsnoop_fn S B hk ro h ctx st) = fn_start ro h ctx st"
  using session_map.fn_session_miss [OF map _ mode, of "fn_start ro h ctx st"] inv no_s
  by (simp add: fn_active_step [OF act])

text \<open>Every invocation keeps the session map well formed.\<close>

lemma fn_keeps_inv:
  assumes map: "session_map S view ok" and inv: "ok (sessions st)"
  shows "ok (sessions (snd (bpfsnoop_fn S B hk ro h ctx st)))"
proof (cases "fn_active ro h st")
  case False
  from fn_inactive [OF this, of S B hk ctx] inv show ?thesis by auto
next
  case act: True
  have "ok (sessions (snd (fn_session S hk (rd_cfg ro) h fp (fn_args_of ro h ctx) (fn_start ro h ctx st))))" for fp
  proof (cases "cfg_both_entry_exit (rd_cfg ro)")
    case False
    then show ?thesis using inv by (simp add: fn_session_single)
  next
    case both: True
    show ?thesis
    proof (cases "cfg_is_entry (rd_cfg ro)")
      case True
      then show ?thesis
        using both inv session_map.inv_sessions(1) [OF map] by (simp add: fn_session_entry)
    next
      case False
      then show ?thesis
        using both inv session_map.fn_session_hit [OF map _ both False, of "fn_start ro h ctx st" fp]
          session_map.fn_session_miss [OF map _ both False, of "fn_start ro h ctx st" fp]
          session_map.inv_sessions(2) [OF map inv]
        by (cases "view (sessions st) fp") auto
    qed
  qed
  then show ?thesis
    by (simp add: fn_active_step [OF act] split_beta split: option.split)
qed

section \<open>Properties\<close>

text \<open>An invocation of the function tracer that is not for a traced process (the tracer is
  not ready, the process is the tracer itself, or it is not the selected process) changes
  neither the sessions nor the recorded branches nor the events.\<close>

lemma fn_ignores_untraced:
  assumes "\<not> fn_active ro h st"
  shows "sessions (snd (bpfsnoop_fn S B hk ro h ctx st)) = sessions st \<and>
    lbrs (snd (bpfsnoop_fn S B hk ro h ctx st)) = lbrs st \<and>
    events (snd (bpfsnoop_fn S B hk ro h ctx st)) = events st"
  using fn_inactive [OF assms, of S B hk ctx] by auto

text \<open>An entry invocation whose filters accept the call records a new session under the
  caller's frame pointer, or, when the map refuses it, none, and adds one record with the new
  id and type FUNC_ENTRY.\<close>

lemma fn_entry_opens_session:
  assumes "session_map S view ok" "ok (sessions st)"
    and "hooks_within (rd_cfg ro) hk" "fn_active ro h st"
    and "cfg_both_entry_exit (rd_cfg ro)" "cfg_is_entry (rd_cfg ro)"
    and "fp = fn_fp ro h ctx (tramp_fp_offset st)"
    and "filter_event hk (fn_args_of ro h ctx) (gen_session_id h fp)"
    and "st' = snd (bpfsnoop_fn S B hk ro h ctx st)"
  shows "(view (sessions st') = (view (sessions st))(fp \<mapsto> \<lparr>session_id = gen_session_id h fp\<rparr>)
      \<or> view (sessions st') = view (sessions st)) \<and>
    adds_record h (rd_cfg ro) (fn_header ro h ctx (gen_session_id h fp)
      BPFSNOOP_EVENT_TYPE_FUNC_ENTRY) (events st) (events st')"
  using assms fn_submit_adds [of ro hk h ctx _ _ "(fn_start ro h ctx st)\<lparr>sessions := _\<rparr>"]
    session_map.view_add_session [of S view ok "sessions st"]
  by (simp add: fn_accepted_entry)

text \<open>A call the filters reject leaves no trace: no session, no branch records, no event.\<close>

lemma fn_filter_rejects:
  assumes "fn_active ro h st"
    and "cfg_is_entry (rd_cfg ro) \<or> \<not> cfg_both_entry_exit (rd_cfg ro)"
    and "\<not> filter_event hk (fn_args_of ro h ctx)
      (gen_session_id h (fn_fp ro h ctx (tramp_fp_offset st)))"
    and "st' = snd (bpfsnoop_fn S B hk ro h ctx st)"
  shows "sessions st' = sessions st \<and> lbrs st' = lbrs st \<and> events st' = events st"
  using assms by (simp add: fn_rejected)

text \<open>An exit invocation whose frame pointer has an open session closes that session, leaves
  every other session open, and adds one record of type FUNC_EXIT whose id is the session's id
  minus one.\<close>

lemma fn_exit_closes_session:
  assumes "session_map S view ok" "ok (sessions st)"
    and "hooks_within (rd_cfg ro) hk" "fn_active ro h st"
    and "cfg_both_entry_exit (rd_cfg ro)" "\<not> cfg_is_entry (rd_cfg ro)"
    and "fp = fn_fp ro h ctx (tramp_fp_offset st)" "view (sessions st) fp = Some s"
    and "st' = snd (bpfsnoop_fn S B hk ro h ctx st)"
  shows "view (sessions st') = (view (sessions st))(fp := None) \<and>
    adds_record h (rd_cfg ro) (fn_header ro h ctx (session_id s - 1)
      BPFSNOOP_EVENT_TYPE_FUNC_EXIT) (events st) (events st')"
  using assms fn_submit_adds [of ro hk h ctx _ _ "(fn_start ro h ctx st)\<lparr>sessions := _\<rparr>"]
    session_map.view_take_session [of S view ok "sessions st"]
  by (simp add: fn_matched_exit)

text \<open>An exit invocation whose frame pointer has no open session reports nothing and changes
  no session.\<close>

lemma fn_exit_without_session:
  assumes "session_map S view ok" "ok (sessions st)" "fn_active ro h st"
    and "cfg_both_entry_exit (rd_cfg ro)" "\<not> cfg_is_entry (rd_cfg ro)"
    and "view (sessions st) (fn_fp ro h ctx (tramp_fp_offset st)) = None"
    and "st' = snd (bpfsnoop_fn S B hk ro h ctx st)"
  shows "sessions st' = sessions st \<and> events st' = events st"
  using assms by (simp add: fn_unmatched_exit)

text \<open>In the mode that traces one side of a call only, no session is opened or closed, and an
  accepted call adds one record of the type of that side.\<close>

lemma fn_single_mode:
  assumes "hooks_within (rd_cfg ro) hk" "fn_active ro h st" "\<not> cfg_both_entry_exit (rd_cfg ro)"
    and "fp = fn_fp ro h ctx (tramp_fp_offset st)"
    and "filter_event hk (fn_args_of ro h ctx) (gen_session_id h fp)"
    and "st' = snd (bpfsnoop_fn S B hk ro h ctx st)"
  shows "sessions st' = sessions st \<and>
    adds_record h (rd_cfg ro) (fn_header ro h ctx (gen_session_id h fp)
      (if cfg_is_entry (rd_cfg ro) then BPFSNOOP_EVENT_TYPE_FUNC_ENTRY else BPFSNOOP_EVENT_TYPE_FUNC_EXIT))
      (events st) (events st')"
  using assms fn_submit_adds [of ro hk h ctx _ _ "fn_start ro h ctx st"]
  by (simp add: fn_accepted_single)

text \<open>C9: after an entry that recorded its session, the first exit at the same frame pointer
  reports an id that, incremented as the Go consumer does, is the id the entry reported, and
  the session map holds what it held before, minus that frame pointer.\<close>

theorem fn_entry_exit_roundtrip:
  assumes map: "session_map S view ok" and inv: "ok (sessions st)"
    and hk: "hooks_within (rd_cfg ro1) hk1" "hooks_within (rd_cfg ro2) hk2"
    and act: "fn_active ro1 h1 st" "fn_active ro2 h2 st1"
    and entry: "cfg_both_entry_exit (rd_cfg ro1)" "cfg_is_entry (rd_cfg ro1)"
    and exit: "cfg_both_entry_exit (rd_cfg ro2)" "\<not> cfg_is_entry (rd_cfg ro2)"
    and fp: "fp = fn_fp ro1 h1 ctx1 (tramp_fp_offset st)" "fp = fn_fp ro2 h2 ctx2 (tramp_fp_offset st1)"
    and flt: "filter_event hk1 (fn_args_of ro1 h1 ctx1) (gen_session_id h1 fp)"
    and st1: "st1 = snd (bpfsnoop_fn S B hk1 ro1 h1 ctx1 st)"
    and stored: "view (sessions st1) fp = Some \<lparr>session_id = gen_session_id h1 fp\<rparr>"
    and room: "bpf_ringbuf_reserve h1 (record_size (rd_cfg ro1)) \<noteq> None"
      "bpf_ringbuf_reserve h2 (record_size (rd_cfg ro2)) \<noteq> None"
    and st2: "st2 = snd (bpfsnoop_fn S B hk2 ro2 h2 ctx2 st1)"
  shows "(\<exists>r1 r2. events st2 = events st @ [r1, r2] \<and>
      evt_type (go_event r1) = event_type_code BPFSNOOP_EVENT_TYPE_FUNC_ENTRY \<and>
      evt_type (go_event r2) = event_type_code BPFSNOOP_EVENT_TYPE_FUNC_EXIT \<and>
      evt_session_id (go_event r2) + 1 = evt_session_id (go_event r1)) \<and>
    view (sessions st2) = (view (sessions st))(fp := None)"
proof -
  note s1 = fn_accepted_entry [OF act(1) entry fp(1) flt, of S B, folded st1]
  have inv1: "ok (sessions st1)" unfolding st1 by (rule fn_keeps_inv [OF map inv])
  note s2 = fn_matched_exit [OF map inv1 act(2) exit fp(2) stored, of B hk2, folded st2]
  have "view (sessions st1) = (view (sessions st))(fp \<mapsto> \<lparr>session_id = gen_session_id h1 fp\<rparr>)
      \<or> view (sessions st1) = view (sessions st)"
    using session_map.view_add_session [OF map inv] by (simp add: s1)
  then have v: "view (sessions st2) = (view (sessions st))(fp := None)"
    using session_map.view_take_session [OF map inv1] by (auto simp: s2)
  have "adds_record h1 (rd_cfg ro1) (fn_header ro1 h1 ctx1 (gen_session_id h1 fp)
      BPFSNOOP_EVENT_TYPE_FUNC_ENTRY) (events st) (events st1)"
    using fn_submit_adds [OF hk(1), of h1 ctx1 _ _ "(fn_start ro1 h1 ctx1 st)\<lparr>sessions := _\<rparr>"]
    by (simp add: s1)
  moreover have "adds_record h2 (rd_cfg ro2) (fn_header ro2 h2 ctx2 (gen_session_id h1 fp - 1)
      BPFSNOOP_EVENT_TYPE_FUNC_EXIT) (events st1) (events st2)"
    using fn_submit_adds [OF hk(2), of h2 ctx2 _ _ "(fn_start ro2 h2 ctx2 st1)\<lparr>sessions := _\<rparr>"]
    by (simp add: s2)
  ultimately show ?thesis using v room by (auto simp: adds_record_def fn_header_def)
qed

end
