(* ===== verification/Kprobe_Tracer.thy ===== *)
theory Kprobe_Tracer
  imports Tracer
begin

text \<open>
  The kprobe tracer (\<^verbatim>\<open>bpf/bpfsnoop_kprobe.c\<close>), attached with kprobe and kretprobe. It reads
  the arguments from the registers at entry and saves them in its session, because they are
  gone when the function returns.
\<close>

record bpfsnoop_kprobe_sess =
  ks_session_id :: u64
  ks_args :: "u64 list"

definition add_kprobe_session ::
  "('m, bpfsnoop_kprobe_sess) bpf_hash \<Rightarrow> u64 \<Rightarrow> bpfsnoop_kprobe_sess \<Rightarrow> 'm \<Rightarrow> 'm" where
  "add_kprobe_session H fp sess m = fst (bpf_map_update_elem H m fp sess BPF_ANY)"

definition get_kprobe_session :: "('m, bpfsnoop_kprobe_sess) bpf_hash \<Rightarrow> u64 \<Rightarrow> 'm \<Rightarrow> u64" where
  "get_kprobe_session H fp m = bpf_map_lookup_elem H m fp"

definition delete_kprobe_session :: "('m, bpfsnoop_kprobe_sess) bpf_hash \<Rightarrow> u64 \<Rightarrow> 'm \<Rightarrow> 'm" where
  "delete_kprobe_session H fp m = fst (bpf_map_delete_elem H m fp)"

definition kp_filter_event :: "hooks \<Rightarrow> u64 list \<Rightarrow> u64 \<Rightarrow> bool" where
  "kp_filter_event hk args sid \<longleftrightarrow> hook_filter_arg hk args \<and> hook_filter_pkt hk args sid"

definition kp_tracee_caller_fp :: "helpers \<Rightarrow> u64 \<Rightarrow> u64" where
  "kp_tracee_caller_fp h ctx = pt_regs_fp h ctx"

definition kp_gen_session_id :: "helpers \<Rightarrow> u64 \<Rightarrow> u64" where
  "kp_gen_session_id h fp =
     (let rnd = bpf_get_prandom_u32 h in push_bit 32 (ucast rnd) OR (fp AND 0xFFFFFFFF))"

text \<open>Registers that carry arguments: six on x86-64, eight on arm64.\<close>

fun nr_arg_regs :: "arch \<Rightarrow> nat" where
  "nr_arg_regs X86 = 6"
| "nr_arg_regs ARM64 = 8"

definition kp_read_args :: "arch \<Rightarrow> bpfsnoop_config \<Rightarrow> helpers \<Rightarrow> u64 \<Rightarrow> u64 list" where
  "kp_read_args arch c h ctx =
     (let args = replicate MAX_FN_ARGS 0 in
      if cfg_is_entry c then
        foldl (\<lambda>args i. if i < unat (args_nr (fn_args c)) then args[i := pt_regs_parm h ctx (Suc i)]
                        else args) args [0..<nr_arg_regs arch]
      else args)"

text \<open>The two copy loops, \<^verbatim>\<open>for (i = 0; i < MAX_FN_ARGS && i < args_nr; i++)\<close>.\<close>

fun copy_args :: "u32 \<Rightarrow> u64 list \<Rightarrow> nat list \<Rightarrow> u64 list \<Rightarrow> u64 list" where
  "copy_args nr src [] dst = dst"
| "copy_args nr src (i # is) dst =
     (if i < unat nr then copy_args nr src is (dst[i := src ! i]) else dst)"

definition kp_session ::
  "('s, bpfsnoop_kprobe_sess) bpf_hash \<Rightarrow> hooks \<Rightarrow> bpfsnoop_config \<Rightarrow> helpers \<Rightarrow> u64 \<Rightarrow> u64 list
     \<Rightarrow> ('s, 'l) tracer \<Rightarrow> (u64 \<times> event_type \<times> u64 list) option \<times> ('s, 'l) tracer" where
  "kp_session S hk c h fp args st =
     (if cfg_both_entry_exit c then
        if cfg_is_entry c then
          let sid = kp_gen_session_id h fp in
          if \<not> kp_filter_event hk args sid then (None, st)
          else
            let sess = \<lparr>ks_session_id = sid, ks_args = copy_args (args_nr (fn_args c)) args
                  [0..<MAX_FN_ARGS] (replicate MAX_FN_ARGS 0)\<rparr>
            in (Some (sid, BPFSNOOP_EVENT_TYPE_FUNC_ENTRY, args),
                st\<lparr>sessions := add_kprobe_session S fp sess (sessions st)\<rparr>)
        else
          let sess = get_kprobe_session S fp (sessions st) in
          if sess = 0 then (None, st)
          else
            let sid = ks_session_id (map_value S (sessions st) sess) - 1;
                args = copy_args (args_nr (fn_args c)) (ks_args (map_value S (sessions st) sess))
                  [0..<MAX_FN_ARGS] args
            in (Some (sid, BPFSNOOP_EVENT_TYPE_FUNC_EXIT, args),
                st\<lparr>sessions := delete_kprobe_session S fp (sessions st)\<rparr>)
      else
        let sid = kp_gen_session_id h fp in
        if cfg_is_entry c \<and> \<not> kp_filter_event hk args sid then (None, st)
        else (Some (sid, if cfg_is_entry c then BPFSNOOP_EVENT_TYPE_FUNC_ENTRY
                         else BPFSNOOP_EVENT_TYPE_FUNC_EXIT, args), st))"

definition kp_header :: "rodata \<Rightarrow> helpers \<Rightarrow> u64 \<Rightarrow> u64 \<Rightarrow> event_type \<Rightarrow> event" where
  "kp_header ro h ctx sid event_type =
     \<lparr>evt_type = event_type_code event_type, evt_length = of_nat sizeof_event,
      kernel_ts = ucast (bpf_ktime_get_ns h), evt_session_id = sid, func_ip = FUNC_IP ro,
      evt_cpu = bpf_get_smp_processor_id h AND CPU_MASK ro, evt_pid = current_pid h,
      comm = current_comm h 16,
      func_stack_id = (if cfg_output_stack (rd_cfg ro) \<and> cfg_is_entry (rd_cfg ro)
        then bpf_get_stackid h ctx else - 1)\<rparr>"

definition kp_retval :: "bpfsnoop_config \<Rightarrow> helpers \<Rightarrow> u64 \<Rightarrow> u64" where
  "kp_retval c h ctx = (if \<not> cfg_is_entry c \<and> with_retval (fn_args c) then pt_regs_rc h ctx else 0)"

definition kp_emit_bpfsnoop_event ::
  "('s, bpfsnoop_kprobe_sess) bpf_hash \<Rightarrow> ('l, bpfsnoop_lbr_data) bpf_hash \<Rightarrow> hooks \<Rightarrow> rodata
     \<Rightarrow> helpers \<Rightarrow> u64 \<Rightarrow> ('s, 'l) tracer \<Rightarrow> s32 \<times> ('s, 'l) tracer" where
  "kp_emit_bpfsnoop_event S B hk ro h ctx st =
     (if \<not> truthy (ready st) then (BPF_OK, st)
      else
        let c = rd_cfg ro;
            cpu = bpf_get_smp_processor_id h AND CPU_MASK ro;
            st = record_branches c h cpu st;
            args = kp_read_args (rd_arch ro) c h ctx;
            retval = kp_retval c h ctx;
            pid = current_pid h
        in
        if pid = PID ro then (BPF_OK, st)
        else if truthy (cfg_pid c) \<and> pid \<noteq> cfg_pid c then (BPF_OK, st)
        else
          let fp = kp_tracee_caller_fp h ctx;
              (r, st) = kp_session S hk c h fp args st
          in case r of None \<Rightarrow> (BPF_OK, st)
             | Some (sid, event_type, args) \<Rightarrow>
                 (BPF_OK, submit_record B hk c h (kp_header ro h ctx sid event_type) args retval st))"

text \<open>The two programs of the object.\<close>

definition bpfsnoop_kprobe where
  "bpfsnoop_kprobe S B hk ro h ctx st = kp_emit_bpfsnoop_event S B hk ro h ctx st"

definition bpfsnoop_kretprobe where
  "bpfsnoop_kretprobe S B hk ro h ctx st = kp_emit_bpfsnoop_event S B hk ro h ctx st"

section \<open>Arguments\<close>

lemma length_foldl_update:
  "length (foldl (\<lambda>args i. if P i then args[i := f i] else args) args is) = length args"
  by (induction "is" arbitrary: args) auto

lemma nth_foldl_update:
  "distinct is \<Longrightarrow> j < length args \<Longrightarrow>
     foldl (\<lambda>args i. if P i then args[i := f i] else args) args is ! j =
       (if j \<in> set is \<and> P j then f j else args ! j)"
proof (induction "is" arbitrary: args)
  case (Cons a "is")
  then show ?case by (cases "j = a") (auto simp: nth_list_update)
qed simp

lemma length_kp_read_args [simp]: "length (kp_read_args arch c h ctx) = MAX_FN_ARGS"
  by (simp add: kp_read_args_def Let_def length_foldl_update)

lemma nth_kp_read_args:
  "i < MAX_FN_ARGS \<Longrightarrow> kp_read_args arch c h ctx ! i =
     (if cfg_is_entry c \<and> i < nr_arg_regs arch \<and> i < unat (args_nr (fn_args c))
      then pt_regs_parm h ctx (Suc i) else 0)"
  by (simp add: kp_read_args_def Let_def nth_foldl_update)

lemma length_copy_args [simp]: "length (copy_args nr src is dst) = length dst"
  by (induction nr src "is" dst rule: copy_args.induct) auto

lemma nth_copy_args:
  "j < length dst \<Longrightarrow> copy_args nr src [a..<b] dst ! j =
     (if a \<le> j \<and> j < b \<and> j < unat nr then src ! j else dst ! j)"
proof (induction "b - a" arbitrary: a dst)
  case 0
  then have "b \<le> a" by simp
  then have "[a..<b] = []" "(a \<le> j \<and> j < b) = False" by auto
  then show ?case by (simp only: copy_args.simps) auto
next
  case (Suc d)
  then have "a < b" "d = b - Suc a" by auto
  then show ?case
    using Suc.hyps(1) [of "Suc a" "dst[a := src ! a]"] Suc.prems
    by (auto simp: upt_conv_Cons nth_list_update not_less_eq_eq Suc_le_eq)
qed

text \<open>Saving the arguments and restoring them gives the first \<open>args_nr\<close> of them back.\<close>

lemma copy_args_roundtrip:
  assumes "length args = MAX_FN_ARGS"
  shows "copy_args nr (copy_args nr args [0..<MAX_FN_ARGS] (replicate MAX_FN_ARGS 0))
      [0..<MAX_FN_ARGS] (replicate MAX_FN_ARGS 0)
    = map (\<lambda>i. if i < unat nr then args ! i else 0) [0..<MAX_FN_ARGS]"
  by (rule nth_equalityI) (auto simp: nth_copy_args)

section \<open>The kprobe sessions meet the contract of a session store\<close>

definition take_kprobe_session ::
  "('m, bpfsnoop_kprobe_sess) bpf_hash \<Rightarrow> u64 \<Rightarrow> 'm \<Rightarrow> bpfsnoop_kprobe_sess option \<times> 'm" where
  "take_kprobe_session H fp m =
     (let p = get_kprobe_session H fp m in
      if p = 0 then (None, m) else (Some (map_value H m p), delete_kprobe_session H fp m))"

locale kprobe_map = bpf_hash_map H view inv
  for H :: "('m, bpfsnoop_kprobe_sess) bpf_hash" and view :: "'m \<Rightarrow> u64 \<rightharpoonup> bpfsnoop_kprobe_sess"
    and inv :: "'m \<Rightarrow> bool"

sublocale kprobe_map \<subseteq> ksess: session_store "add_kprobe_session H" "take_kprobe_session H" view inv
proof (unfold_locales)
  fix m fp s
  assume inv: "inv m"
  show "view (add_kprobe_session H fp s m) = (view m)(fp \<mapsto> s) \<or>
      view (add_kprobe_session H fp s m) = view m"
    using inv by (simp add: add_kprobe_session_def update_view)
  show "fst (take_kprobe_session H fp m) = view m fp"
    using inv by (cases "view m fp")
      (auto simp: take_kprobe_session_def get_kprobe_session_def Let_def lookup_null lookup_value)
  show "view (snd (take_kprobe_session H fp m)) = (view m)(fp := None)"
    using inv by (cases "view m fp") (auto simp: take_kprobe_session_def get_kprobe_session_def
        delete_kprobe_session_def Let_def lookup_null delete_view fun_upd_idem)
  show "inv (add_kprobe_session H fp s m)" using inv by (simp add: add_kprobe_session_def inv_update)
  show "inv (snd (take_kprobe_session H fp m))"
    using inv by (simp add: take_kprobe_session_def delete_kprobe_session_def Let_def inv_delete)
qed

interpretation refksess: kprobe_map "ref_hash BPFSNOOP_MAX_ENTRIES" slots_view
    "slots_inv BPFSNOOP_MAX_ENTRIES"
  by unfold_locales

section \<open>The session lookup of an invocation\<close>

context kprobe_map
begin

lemma kp_session_hit:
  assumes "inv (sessions st)" "cfg_both_entry_exit c" "\<not> cfg_is_entry c"
    and v: "view (sessions st) fp = Some s"
  shows "kp_session H hk c h fp args st =
    (Some (ks_session_id s - 1, BPFSNOOP_EVENT_TYPE_FUNC_EXIT,
       copy_args (args_nr (fn_args c)) (ks_args s) [0..<MAX_FN_ARGS] args),
     st\<lparr>sessions := snd (take_kprobe_session H fp (sessions st))\<rparr>)"
proof -
  have "get_kprobe_session H fp (sessions st) \<noteq> 0"
    using lookup_null [OF assms(1), of fp] v by (simp add: get_kprobe_session_def)
  moreover have "map_value H (sessions st) (get_kprobe_session H fp (sessions st)) = s"
    using lookup_value [OF assms(1) v] by (simp add: get_kprobe_session_def)
  ultimately show ?thesis using assms by (simp add: kp_session_def take_kprobe_session_def Let_def)
qed

lemma kp_session_miss:
  assumes "inv (sessions st)" "cfg_both_entry_exit c" "\<not> cfg_is_entry c"
    and v: "view (sessions st) fp = None"
  shows "kp_session H hk c h fp args st = (None, st)"
  using lookup_null [OF assms(1), of fp] assms
  by (simp add: kp_session_def get_kprobe_session_def Let_def)

lemma view_add_kprobe_session:
  "inv m \<Longrightarrow> view (add_kprobe_session H fp s m) = (view m)(fp \<mapsto> s)
     \<or> view (add_kprobe_session H fp s m) = view m"
  by (rule ksess.put_view)

lemma view_take_kprobe_session:
  "inv m \<Longrightarrow> view (snd (take_kprobe_session H fp m)) = (view m)(fp := None)"
  by (rule ksess.take_out_view)

lemmas inv_kprobe_sessions = ksess.sinv_put ksess.sinv_take_out

end

end
