(* ===== verification/Kprobe_Props.thy ===== *)
theory Kprobe_Props
  imports Kprobe_Tracer
begin

text \<open>
  What the kprobe tracer does with its sessions and its records. The exit of a traced call
  reports the arguments its entry saw.
\<close>

section \<open>One invocation, described by its outcome\<close>

definition kp_active :: "rodata \<Rightarrow> helpers \<Rightarrow> ('s, 'l) tracer \<Rightarrow> bool" where
  "kp_active ro h st \<longleftrightarrow> truthy (ready st) \<and> current_pid h \<noteq> PID ro \<and>
     (truthy (cfg_pid (rd_cfg ro)) \<longrightarrow> current_pid h = cfg_pid (rd_cfg ro))"

definition kp_args_of :: "rodata \<Rightarrow> helpers \<Rightarrow> u64 \<Rightarrow> u64 list" where
  "kp_args_of ro h ctx = kp_read_args (rd_arch ro) (rd_cfg ro) h ctx"

definition kp_start :: "rodata \<Rightarrow> helpers \<Rightarrow> ('s, 'l) tracer \<Rightarrow> ('s, 'l) tracer" where
  "kp_start ro h st = record_branches (rd_cfg ro) h (bpf_get_smp_processor_id h AND CPU_MASK ro) st"

lemma kp_start_frame [simp]:
  "ready (kp_start ro h st) = ready st" "sessions (kp_start ro h st) = sessions st"
  "lbrs (kp_start ro h st) = lbrs st" "events (kp_start ro h st) = events st"
  by (simp_all add: kp_start_def)

lemma comm_kp_header [simp]: "length (comm (kp_header ro h ctx sid ty)) = 16"
  by (simp add: kp_header_def)

lemma kp_inactive:
  assumes "\<not> kp_active ro h st"
  shows "snd (kp_emit_bpfsnoop_event S B hk ro h ctx st) = st \<or>
    snd (kp_emit_bpfsnoop_event S B hk ro h ctx st) = kp_start ro h st"
  using assms by (auto simp: kp_emit_bpfsnoop_event_def kp_active_def kp_start_def Let_def)

lemma kp_active_step:
  assumes "kp_active ro h st"
  shows "kp_emit_bpfsnoop_event S B hk ro h ctx st =
    (BPF_OK, case kp_session S hk (rd_cfg ro) h (pt_regs_fp h ctx) (kp_args_of ro h ctx)
        (kp_start ro h st) of
       (None, m) \<Rightarrow> m
     | (Some (sid, ty, args), m) \<Rightarrow> submit_record B hk (rd_cfg ro) h (kp_header ro h ctx sid ty)
         args (kp_retval (rd_cfg ro) h ctx) m)"
proof -
  have guards: "(\<not> truthy (ready st)) = False" "(current_pid h = PID ro) = False"
    "(truthy (cfg_pid (rd_cfg ro)) \<and> current_pid h \<noteq> cfg_pid (rd_cfg ro)) = False"
    using assms by (auto simp: kp_active_def)
  show ?thesis
    unfolding kp_emit_bpfsnoop_event_def kp_start_def kp_args_of_def kp_tracee_caller_fp_def
      Let_def guards if_False split_beta
    by (simp only: split: prod.split option.split) simp
qed

lemma kp_accepted_entry:
  assumes act: "kp_active ro h st" and both: "cfg_both_entry_exit (rd_cfg ro)"
    and entry: "cfg_is_entry (rd_cfg ro)" and fp: "fp = pt_regs_fp h ctx"
    and flt: "kp_filter_event hk (kp_args_of ro h ctx) (kp_gen_session_id h fp)"
  shows "snd (kp_emit_bpfsnoop_event S B hk ro h ctx st) =
    submit_record B hk (rd_cfg ro) h (kp_header ro h ctx (kp_gen_session_id h fp)
      BPFSNOOP_EVENT_TYPE_FUNC_ENTRY) (kp_args_of ro h ctx) (kp_retval (rd_cfg ro) h ctx)
      ((kp_start ro h st)\<lparr>sessions := add_kprobe_session S fp
         \<lparr>ks_session_id = kp_gen_session_id h fp, ks_args = copy_args (args_nr (fn_args (rd_cfg ro)))
            (kp_args_of ro h ctx) [0..<MAX_FN_ARGS] (replicate MAX_FN_ARGS 0)\<rparr> (sessions st)\<rparr>)"
  using flt both entry by (simp add: kp_active_step [OF act] kp_session_def Let_def fp [symmetric])

lemma kp_matched_exit:
  assumes map: "kprobe_map S view ok" and ok: "ok (sessions st)" and act: "kp_active ro h st"
    and mode: "cfg_both_entry_exit (rd_cfg ro)" "\<not> cfg_is_entry (rd_cfg ro)"
    and fp: "fp = pt_regs_fp h ctx" and open_s: "view (sessions st) fp = Some s"
  shows "snd (kp_emit_bpfsnoop_event S B hk ro h ctx st) =
    submit_record B hk (rd_cfg ro) h (kp_header ro h ctx (ks_session_id s - 1)
      BPFSNOOP_EVENT_TYPE_FUNC_EXIT)
      (copy_args (args_nr (fn_args (rd_cfg ro))) (ks_args s) [0..<MAX_FN_ARGS]
        (replicate MAX_FN_ARGS 0)) (kp_retval (rd_cfg ro) h ctx)
      ((kp_start ro h st)\<lparr>sessions := snd (take_kprobe_session S fp (sessions st))\<rparr>)"
  using kprobe_map.kp_session_hit [OF map _ mode, of "kp_start ro h st" fp s hk h
      "kp_args_of ro h ctx"] ok open_s mode
  by (simp add: kp_active_step [OF act] fp [symmetric] kp_args_of_def kp_read_args_def)

lemma kp_keeps_inv:
  assumes map: "kprobe_map S view ok" and ok: "ok (sessions st)"
  shows "ok (sessions (snd (kp_emit_bpfsnoop_event S B hk ro h ctx st)))"
proof (cases "kp_active ro h st")
  case False
  from kp_inactive [OF this, of S B hk ctx] ok show ?thesis by auto
next
  case act: True
  have "ok (sessions (snd (kp_session S hk (rd_cfg ro) h fp args (kp_start ro h st))))" for fp args
  proof (cases "cfg_both_entry_exit (rd_cfg ro) \<and> \<not> cfg_is_entry (rd_cfg ro)")
    case True
    then show ?thesis
      using ok kprobe_map.kp_session_hit [OF map, of "kp_start ro h st" "rd_cfg ro" fp]
        kprobe_map.kp_session_miss [OF map, of "kp_start ro h st" "rd_cfg ro" fp]
        kprobe_map.inv_kprobe_sessions(2) [OF map ok]
      by (cases "view (sessions st) fp") auto
  next
    case False
    then show ?thesis
      using ok kprobe_map.inv_kprobe_sessions(1) [OF map] by (auto simp: kp_session_def Let_def)
  qed
  then show ?thesis
    by (simp add: kp_active_step [OF act] split_beta split: option.split)
qed

section \<open>Properties\<close>

text \<open>The kprobe tracer reads argument \<open>i\<close> of a call from its register exactly when the
  function has such an argument and the architecture passes it in a register; every other
  argument, and every argument at a return, is zero.\<close>

lemma kp_reads_register_args:
  "kp_read_args arch c h ctx =
     map (\<lambda>i. if cfg_is_entry c \<and> i < nr_arg_regs arch \<and> i < unat (args_nr (fn_args c))
       then pt_regs_parm h ctx (Suc i) else 0) [0..<12]"
  by (rule nth_equalityI) (simp_all add: nth_kp_read_args MAX_FN_ARGS_def)

text \<open>C22: after a kprobe entry that recorded its session, the kretprobe at the same frame pointer
  adds a FUNC_EXIT record whose id plus one is the entry's id, filled by the output routines
  from the arguments the entry saw (the first \<open>args_nr\<close> of them, the rest zero) and the return
  value, and removes the session.\<close>

theorem kp_exit_reports_entry_args:
  assumes map: "kprobe_map S view ok" and ok: "ok (sessions st)"
    and act: "kp_active ro1 h1 st" "kp_active ro2 h2 st1"
    and entry: "cfg_both_entry_exit (rd_cfg ro1)" "cfg_is_entry (rd_cfg ro1)"
    and exit: "cfg_both_entry_exit (rd_cfg ro2)" "\<not> cfg_is_entry (rd_cfg ro2)"
    and same: "args_nr (fn_args (rd_cfg ro1)) = nr" "args_nr (fn_args (rd_cfg ro2)) = nr"
    and fp: "fp = pt_regs_fp h1 ctx1" "fp = pt_regs_fp h2 ctx2"
    and flt: "kp_filter_event hk1 (kp_args_of ro1 h1 ctx1) (kp_gen_session_id h1 fp)"
    and st1: "st1 = snd (bpfsnoop_kprobe S B hk1 ro1 h1 ctx1 st)"
    and stored: "view (sessions st) fp = None" "view (sessions st1) fp \<noteq> None"
    and room: "ringbuf_record h2 (record_size (rd_cfg ro2)) = Some buf"
    and st2: "st2 = snd (bpfsnoop_kretprobe S B hk2 ro2 h2 ctx2 st1)"
  shows "events st2 = events st1 @ [fill_record hk2 (rd_cfg ro2)
        (map (\<lambda>i. if i < unat nr then kp_args_of ro1 h1 ctx1 ! i else 0) [0..<12])
        (kp_retval (rd_cfg ro2) h2 ctx2)
        (write_event (kp_header ro2 h2 ctx2 (kp_gen_session_id h1 fp - 1)
           BPFSNOOP_EVENT_TYPE_FUNC_EXIT) buf)] \<and>
    view (sessions st2) = view (sessions st)"
proof -
  let ?s = "\<lparr>ks_session_id = kp_gen_session_id h1 fp, ks_args = copy_args nr
    (kp_args_of ro1 h1 ctx1) [0..<MAX_FN_ARGS] (replicate MAX_FN_ARGS 0)\<rparr>"
  note e = kp_accepted_entry [OF act(1) entry fp(1) flt, of S B, folded bpfsnoop_kprobe_def, folded st1,
    unfolded same]
  have ok1: "ok (sessions st1)"
    unfolding st1 bpfsnoop_kprobe_def by (rule kp_keeps_inv [OF map ok])
  have "view (sessions st1) = (view (sessions st))(fp \<mapsto> ?s) \<or> view (sessions st1) = view (sessions st)"
    using kprobe_map.view_add_kprobe_session [OF map ok] by (simp add: e)
  with stored have v1: "view (sessions st1) = (view (sessions st))(fp \<mapsto> ?s)" by auto
  then have open_s: "view (sessions st1) fp = Some ?s" by simp
  note x = kp_matched_exit [OF map ok1 act(2) exit fp(2) open_s, of B hk2,
    folded bpfsnoop_kretprobe_def, folded st2, unfolded same]
  have "length (kp_args_of ro1 h1 ctx1) = MAX_FN_ARGS" by (simp add: kp_args_of_def)
  note args = copy_args_roundtrip [OF this, of nr]
  have "view (sessions st2) = view (sessions st)"
    using kprobe_map.view_take_kprobe_session [OF map ok1, of fp] stored
    by (simp add: x v1 fun_upd_idem)
  moreover have "events st2 = events st1 @ [fill_record hk2 (rd_cfg ro2)
        (map (\<lambda>i. if i < unat nr then kp_args_of ro1 h1 ctx1 ! i else 0) [0..<12])
        (kp_retval (rd_cfg ro2) h2 ctx2)
        (write_event (kp_header ro2 h2 ctx2 (kp_gen_session_id h1 fp - 1)
           BPFSNOOP_EVENT_TYPE_FUNC_EXIT) buf)]"
    using args room by (simp add: x submit_record_events MAX_FN_ARGS_def)
  ultimately show ?thesis by simp
qed

text \<open>A kretprobe that traces exits only applies no filter and reports a call whose
  arguments are all zero.\<close>

lemma kp_single_exit_unfiltered:
  assumes "kp_active ro h st" "\<not> cfg_both_entry_exit (rd_cfg ro)" "\<not> cfg_is_entry (rd_cfg ro)"
    and "ringbuf_record h (record_size (rd_cfg ro)) = Some buf"
    and "st' = snd (bpfsnoop_kretprobe S B hk ro h ctx st)"
  shows "sessions st' = sessions st \<and>
    events st' = events st @ [fill_record hk (rd_cfg ro) (replicate 12 0) (kp_retval (rd_cfg ro) h ctx)
      (write_event (kp_header ro h ctx (kp_gen_session_id h (pt_regs_fp h ctx))
         BPFSNOOP_EVENT_TYPE_FUNC_EXIT) buf)]"
  using assms by (simp add: bpfsnoop_kretprobe_def kp_active_step kp_session_def kp_args_of_def
      kp_read_args_def MAX_FN_ARGS_def submit_record_events Let_def)

lemma kp_gen_session_id_eq: "kp_gen_session_id h fp = gen_session_id h fp"
  by (simp add: kp_gen_session_id_def gen_session_id_def)

end
