(* ===== verification/Protocol_Props.thy ===== *)
theory Protocol_Props
  imports Protocol Fn_Props Kprobe_Props
begin

text \<open>
  The function tracer and the kprobe tracer keep the protocol of \<^verbatim>\<open>Protocol\<close>, whatever programs
  run, in whatever order, with whatever the helpers return.
\<close>

section \<open>The function tracer\<close>

text \<open>
  One invocation. With \<open>full\<close> only those to which the ring buffer gives a record are
  considered, with \<open>both\<close> only those of programs that trace entry and exit.
\<close>

inductive fn_step ::
  "bool \<Rightarrow> bool \<Rightarrow> ('s, bpfsnoop_sess) bpf_hash \<Rightarrow> ('l, bpfsnoop_lbr_data) bpf_hash
     \<Rightarrow> ('s, 'l) tracer \<Rightarrow> ('s, 'l) tracer \<Rightarrow> bool" for full both S B where
  fn_invocation: "hooks_within (rd_cfg ro) hk \<Longrightarrow>
    (full \<Longrightarrow> bpf_ringbuf_reserve h (record_size (rd_cfg ro)) \<noteq> None) \<Longrightarrow>
    (both \<Longrightarrow> cfg_both_entry_exit (rd_cfg ro)) \<Longrightarrow> fn_step full both S B st (snd (bpfsnoop_fn S B hk ro h ctx st))"

definition fn_open :: "('s \<Rightarrow> u64 \<rightharpoonup> bpfsnoop_sess) \<Rightarrow> ('s, 'l) tracer \<Rightarrow> u64 \<rightharpoonup> u64" where
  "fn_open view st = map_option session_id \<circ> view (sessions st)"

lemma map_option_upd: "map_option f \<circ> m(k \<mapsto> v) = (map_option f \<circ> m)(k \<mapsto> f v)"
  by (auto simp: fun_eq_iff)

lemma map_option_del: "map_option f \<circ> m(k := None) = (map_option f \<circ> m)(k := None)"
  by (auto simp: fun_eq_iff)

text \<open>What an invocation that submits a record does, for an entry, an exit and a call alone.\<close>

lemma fn_entry_explained:
  assumes map: "session_map S view ok" and ok: "ok (sessions st)" and hk: "hooks_within (rd_cfg ro) hk"
    and room: "full \<Longrightarrow> bpf_ringbuf_reserve h (record_size (rd_cfg ro)) \<noteq> None"
    and act: "fn_active ro h st" "cfg_both_entry_exit (rd_cfg ro)" "cfg_is_entry (rd_cfg ro)"
    and fp: "fp = fn_fp ro h ctx (tramp_fp_offset st)"
    and flt: "filter_event hk (fn_args_of ro h ctx) (gen_session_id h fp)"
    and st': "st' = snd (bpfsnoop_fn S B hk ro h ctx st)"
  shows "explained full both (fn_open view st) (events st) (fn_open view st') (events st')"
proof -
  define sid where "sid = gen_session_id h fp"
  let ?st = "(fn_start ro h ctx st)\<lparr>sessions := add_session S fp \<lparr>session_id = sid\<rparr> (sessions st)\<rparr>"
  have s: "st' = fn_submit B hk ro h ctx sid BPFSNOOP_EVENT_TYPE_FUNC_ENTRY ?st"
    unfolding st' sid_def by (rule fn_accepted_entry [OF act fp flt])
  have "fn_open view st' = (fn_open view st)(fp \<mapsto> sid) \<or> fn_open view st' = fn_open view st"
    using session_map.view_add_session [OF map ok, of fp "\<lparr>session_id = sid\<rparr>"]
    by (auto simp: s fn_open_def map_option_upd)
  moreover have "same_low_half sid fp" by (simp add: same_low_half_def sid_def gen_session_id_low)
  ultimately show ?thesis
    using fn_submit_adds [OF hk, of h ctx sid BPFSNOOP_EVENT_TYPE_FUNC_ENTRY ?st B, folded s] room
    by (intro explained_entry [where h = h and c = "rd_cfg ro" and fp = fp]) (auto simp: fn_header_def)
qed

lemma fn_exit_explained:
  assumes map: "session_map S view ok" and ok: "ok (sessions st)" and hk: "hooks_within (rd_cfg ro) hk"
    and room: "full \<Longrightarrow> bpf_ringbuf_reserve h (record_size (rd_cfg ro)) \<noteq> None"
    and act: "fn_active ro h st" "cfg_both_entry_exit (rd_cfg ro)" "\<not> cfg_is_entry (rd_cfg ro)"
    and st': "st' = snd (bpfsnoop_fn S B hk ro h ctx st)"
  shows "explained full both (fn_open view st) (events st) (fn_open view st') (events st')"
proof (cases "view (sessions st) (fn_fp ro h ctx (tramp_fp_offset st))")
  case None
  from fn_unmatched_exit [OF map ok act None, of B hk, folded st'] show ?thesis
    by (simp add: fn_open_def explained_refl)
next
  case (Some s)
  let ?fp = "fn_fp ro h ctx (tramp_fp_offset st)"
  let ?st = "(fn_start ro h ctx st)\<lparr>sessions := snd (take_session S ?fp (sessions st))\<rparr>"
  note x = fn_matched_exit [OF map ok act refl Some, of B hk, folded st']
  have "fn_open view st' = (fn_open view st)(?fp := None)"
    using session_map.view_take_session [OF map ok] by (simp add: x fn_open_def map_option_del)
  moreover have "fn_open view st ?fp = Some (session_id s)" by (simp add: fn_open_def Some)
  ultimately show ?thesis
    using fn_submit_adds [OF hk, of h ctx "session_id s - 1" BPFSNOOP_EVENT_TYPE_FUNC_EXIT ?st B, folded x] room
    by (intro explained_exit [where h = h and c = "rd_cfg ro" and fp = ?fp]) (auto simp: fn_header_def)
qed

lemma fn_lone_explained:
  assumes hk: "hooks_within (rd_cfg ro) hk"
    and room: "full \<Longrightarrow> bpf_ringbuf_reserve h (record_size (rd_cfg ro)) \<noteq> None"
    and act: "fn_active ro h st" "\<not> cfg_both_entry_exit (rd_cfg ro)" "\<not> both"
    and flt: "filter_event hk (fn_args_of ro h ctx) (gen_session_id h (fn_fp ro h ctx (tramp_fp_offset st)))"
    and st': "st' = snd (bpfsnoop_fn S B hk ro h ctx st)"
  shows "explained full both (fn_open view st) (events st) (fn_open view st') (events st')"
proof -
  define ty where "ty = (if cfg_is_entry (rd_cfg ro) then BPFSNOOP_EVENT_TYPE_FUNC_ENTRY
    else BPFSNOOP_EVENT_TYPE_FUNC_EXIT)"
  let ?sid = "gen_session_id h (fn_fp ro h ctx (tramp_fp_offset st))" and ?st = "fn_start ro h ctx st"
  have s: "st' = fn_submit B hk ro h ctx ?sid ty ?st"
    unfolding st' ty_def by (rule fn_accepted_single [OF act(1,2) refl flt])
  then have "fn_open view st' = fn_open view st" by (simp add: fn_open_def)
  then show ?thesis
    using fn_submit_adds [OF hk, of h ctx ?sid ty ?st B, folded s] room act(3)
    by (simp, intro explained_lone [where h = h and c = "rd_cfg ro" and ty = ty]) (auto simp: fn_header_def)
qed

lemma fn_step_explained:
  assumes map: "session_map S view ok" and ok: "ok (sessions st)" and hk: "hooks_within (rd_cfg ro) hk"
    and room: "full \<Longrightarrow> bpf_ringbuf_reserve h (record_size (rd_cfg ro)) \<noteq> None"
    and mode: "both \<Longrightarrow> cfg_both_entry_exit (rd_cfg ro)"
    and st': "st' = snd (bpfsnoop_fn S B hk ro h ctx st)"
  shows "explained full both (fn_open view st) (events st) (fn_open view st') (events st')"
proof -
  have quiet: ?thesis if "sessions st' = sessions st" "events st' = events st"
    by (simp add: that fn_open_def explained_refl)
  let ?acc = "filter_event hk (fn_args_of ro h ctx) (gen_session_id h (fn_fp ro h ctx (tramp_fp_offset st)))"
  consider (off) "\<not> fn_active ro h st"
    | (rej) "fn_active ro h st" "cfg_is_entry (rd_cfg ro) \<or> \<not> cfg_both_entry_exit (rd_cfg ro)" "\<not> ?acc"
    | (entry) "fn_active ro h st" "cfg_both_entry_exit (rd_cfg ro)" "cfg_is_entry (rd_cfg ro)" ?acc
    | (lone) "fn_active ro h st" "\<not> cfg_both_entry_exit (rd_cfg ro)" ?acc
    | (exit) "fn_active ro h st" "cfg_both_entry_exit (rd_cfg ro)" "\<not> cfg_is_entry (rd_cfg ro)" by blast
  then show ?thesis
  proof cases
    case off
    from fn_inactive [OF off, of S B hk ctx, folded st'] show ?thesis by (intro quiet) auto
  next
    case rej
    from fn_rejected [OF rej, of S B, folded st'] show ?thesis by (intro quiet) auto
  next
    case entry
    show ?thesis by (rule fn_entry_explained [OF map ok hk room entry(1-3) refl entry(4) st'])
  next
    case lone
    from mode lone(2) have "\<not> both" by blast
    from fn_lone_explained [OF hk room lone(1,2) this lone(3) st'] show ?thesis .
  next
    case exit
    show ?thesis by (rule fn_exit_explained [OF map ok hk room exit st'])
  qed
qed

inductive_cases fn_stepE: "fn_step full both S B st st'"

lemma fn_protocol:
  assumes map: "session_map S view ok"
  shows "session_protocol full both (fn_step full both S B) (fn_open view) events (\<lambda>st. ok (sessions st))"
  by unfold_locales
    (auto elim!: fn_stepE intro: fn_keeps_inv [OF map] fn_step_explained [OF map])

interpretation fn_runs: session_protocol full both "fn_step full both (ref_hash BPFSNOOP_MAX_ENTRIES) B" "fn_open slots_view"
    events "\<lambda>st. slots_inv BPFSNOOP_MAX_ENTRIES (sessions st)"
  by (rule fn_protocol [OF refsess.session_map_axioms])

section \<open>The kprobe tracer\<close>

inductive kp_step ::
  "bool \<Rightarrow> bool \<Rightarrow> ('s, bpfsnoop_kprobe_sess) bpf_hash \<Rightarrow> ('l, bpfsnoop_lbr_data) bpf_hash
     \<Rightarrow> ('s, 'l) tracer \<Rightarrow> ('s, 'l) tracer \<Rightarrow> bool" for full both S B where
  kprobe_invocation: "hooks_within (rd_cfg ro) hk \<Longrightarrow>
    (full \<Longrightarrow> bpf_ringbuf_reserve h (record_size (rd_cfg ro)) \<noteq> None) \<Longrightarrow>
    (both \<Longrightarrow> cfg_both_entry_exit (rd_cfg ro)) \<Longrightarrow>
    kp_step full both S B st (snd (bpfsnoop_kprobe S B hk ro h ctx st))"
| kretprobe_invocation: "hooks_within (rd_cfg ro) hk \<Longrightarrow>
    (full \<Longrightarrow> bpf_ringbuf_reserve h (record_size (rd_cfg ro)) \<noteq> None) \<Longrightarrow>
    (both \<Longrightarrow> cfg_both_entry_exit (rd_cfg ro)) \<Longrightarrow> kp_step full both S B st (snd (bpfsnoop_kretprobe S B hk ro h ctx st))"

definition kp_open :: "('s \<Rightarrow> u64 \<rightharpoonup> bpfsnoop_kprobe_sess) \<Rightarrow> ('s, 'l) tracer \<Rightarrow> u64 \<rightharpoonup> u64" where
  "kp_open view st = map_option ks_session_id \<circ> view (sessions st)"

text \<open>The record every path of an invocation submits.\<close>

definition kp_submit ::
  "('l, bpfsnoop_lbr_data) bpf_hash \<Rightarrow> hooks \<Rightarrow> rodata \<Rightarrow> helpers \<Rightarrow> u64 \<Rightarrow> u64 \<Rightarrow> event_type \<Rightarrow> u64 list
     \<Rightarrow> ('s, 'l) tracer \<Rightarrow> ('s, 'l) tracer" where
  "kp_submit B hk ro h ctx sid ty args st =
     submit_record B hk (rd_cfg ro) h (kp_header ro h ctx sid ty) args (kp_retval (rd_cfg ro) h ctx) st"

lemma kp_submit_frame [simp]: "sessions (kp_submit B hk ro h ctx sid ty args st) = sessions st"
  by (simp add: kp_submit_def)

lemma kp_submit_adds:
  "hooks_within (rd_cfg ro) hk \<Longrightarrow> adds_record h (rd_cfg ro) (kp_header ro h ctx sid ty)
     (events st) (events (kp_submit B hk ro h ctx sid ty args st))"
  by (simp add: kp_submit_def submit_record_adds)

lemma kp_entry_explained:
  assumes map: "kprobe_map S view ok" and ok: "ok (sessions st)" and hk: "hooks_within (rd_cfg ro) hk"
    and room: "full \<Longrightarrow> bpf_ringbuf_reserve h (record_size (rd_cfg ro)) \<noteq> None"
    and act: "kp_active ro h st" "cfg_both_entry_exit (rd_cfg ro)" "cfg_is_entry (rd_cfg ro)"
    and fp: "fp = pt_regs_fp h ctx"
    and flt: "kp_filter_event hk (kp_args_of ro h ctx) (kp_gen_session_id h fp)"
    and st': "st' = snd (kp_emit_bpfsnoop_event S B hk ro h ctx st)"
  shows "explained full both (kp_open view st) (events st) (kp_open view st') (events st')"
proof -
  define sid where "sid = kp_gen_session_id h fp"
  let ?sess = "\<lparr>ks_session_id = sid, ks_args = copy_args (args_nr (fn_args (rd_cfg ro))) (kp_args_of ro h ctx)
    [0..<MAX_FN_ARGS] (replicate MAX_FN_ARGS 0)\<rparr>"
  let ?st = "(kp_start ro h st)\<lparr>sessions := add_kprobe_session S fp ?sess (sessions st)\<rparr>"
  have s: "st' = kp_submit B hk ro h ctx sid BPFSNOOP_EVENT_TYPE_FUNC_ENTRY (kp_args_of ro h ctx) ?st"
    unfolding st' sid_def kp_submit_def by (rule kp_accepted_entry [OF act fp flt])
  have "kp_open view st' = (kp_open view st)(fp \<mapsto> sid) \<or> kp_open view st' = kp_open view st"
    using kprobe_map.view_add_kprobe_session [OF map ok, of fp ?sess]
    by (auto simp: s kp_open_def map_option_upd)
  moreover have "same_low_half sid fp"
    by (simp add: same_low_half_def sid_def kp_gen_session_id_eq gen_session_id_low)
  ultimately show ?thesis
    using kp_submit_adds [OF hk, of h ctx sid BPFSNOOP_EVENT_TYPE_FUNC_ENTRY ?st B, folded s] room
    by (intro explained_entry [where h = h and c = "rd_cfg ro" and fp = fp]) (auto simp: kp_header_def s kp_submit_adds [OF hk])
qed

lemma kp_exit_explained:
  assumes map: "kprobe_map S view ok" and ok: "ok (sessions st)" and hk: "hooks_within (rd_cfg ro) hk"
    and room: "full \<Longrightarrow> bpf_ringbuf_reserve h (record_size (rd_cfg ro)) \<noteq> None"
    and act: "kp_active ro h st" "cfg_both_entry_exit (rd_cfg ro)" "\<not> cfg_is_entry (rd_cfg ro)"
    and st': "st' = snd (kp_emit_bpfsnoop_event S B hk ro h ctx st)"
  shows "explained full both (kp_open view st) (events st) (kp_open view st') (events st')"
proof (cases "view (sessions st) (pt_regs_fp h ctx)")
  case None
  have "st' = kp_start ro h st"
    using kprobe_map.kp_session_miss [OF map _ act(2,3), of "kp_start ro h st"] ok None
    by (simp add: st' kp_active_step [OF act(1)])
  then show ?thesis by (simp add: kp_open_def explained_refl)
next
  case (Some s)
  let ?fp = "pt_regs_fp h ctx"
  let ?st = "(kp_start ro h st)\<lparr>sessions := snd (take_kprobe_session S ?fp (sessions st))\<rparr>"
  note x = kp_matched_exit [OF map ok act refl Some, of B hk, folded st', folded kp_submit_def]
  have "kp_open view st' = (kp_open view st)(?fp := None)"
    using kprobe_map.view_take_kprobe_session [OF map ok] by (simp add: x kp_open_def map_option_del)
  moreover have "kp_open view st ?fp = Some (ks_session_id s)" by (simp add: kp_open_def Some)
  moreover have "adds_record h (rd_cfg ro) (kp_header ro h ctx (ks_session_id s - 1) BPFSNOOP_EVENT_TYPE_FUNC_EXIT)
      (events ?st) (events st')"
    unfolding x by (rule kp_submit_adds [OF hk])
  ultimately show ?thesis
    using room by (simp, intro explained_exit [where h = h and c = "rd_cfg ro" and fp = ?fp]) (auto simp: kp_header_def)
qed

lemma kp_lone_explained:
  assumes hk: "hooks_within (rd_cfg ro) hk"
    and room: "full \<Longrightarrow> bpf_ringbuf_reserve h (record_size (rd_cfg ro)) \<noteq> None"
    and act: "kp_active ro h st" "\<not> cfg_both_entry_exit (rd_cfg ro)" "\<not> both"
    and st': "st' = snd (kp_emit_bpfsnoop_event S B hk ro h ctx st)"
  shows "explained full both (kp_open view st) (events st) (kp_open view st') (events st')"
proof (cases "cfg_is_entry (rd_cfg ro) \<and> \<not> kp_filter_event hk (kp_args_of ro h ctx)
    (kp_gen_session_id h (pt_regs_fp h ctx))")
  case True
  then have "st' = kp_start ro h st"
    using act(2) by (simp add: st' kp_active_step [OF act(1)] kp_session_def Let_def)
  then show ?thesis by (simp add: kp_open_def explained_refl)
next
  case False
  define ty where "ty = (if cfg_is_entry (rd_cfg ro) then BPFSNOOP_EVENT_TYPE_FUNC_ENTRY
    else BPFSNOOP_EVENT_TYPE_FUNC_EXIT)"
  let ?sid = "kp_gen_session_id h (pt_regs_fp h ctx)" and ?st = "kp_start ro h st"
  have s: "st' = kp_submit B hk ro h ctx ?sid ty (kp_args_of ro h ctx) ?st"
    using act(2) False by (auto simp: st' kp_active_step [OF act(1)] kp_session_def Let_def ty_def kp_submit_def)
  have "adds_record h (rd_cfg ro) (kp_header ro h ctx ?sid ty) (events ?st) (events st')"
    unfolding s by (rule kp_submit_adds [OF hk])
  moreover have "kp_open view st' = kp_open view st" by (simp add: s kp_open_def)
  ultimately show ?thesis
    using room act(3) by (simp, intro explained_lone [where h = h and c = "rd_cfg ro" and ty = ty])
      (auto simp: kp_header_def)
qed

lemma kp_step_explained:
  assumes map: "kprobe_map S view ok" and ok: "ok (sessions st)" and hk: "hooks_within (rd_cfg ro) hk"
    and room: "full \<Longrightarrow> bpf_ringbuf_reserve h (record_size (rd_cfg ro)) \<noteq> None"
    and mode: "both \<Longrightarrow> cfg_both_entry_exit (rd_cfg ro)"
    and st': "st' = snd (kp_emit_bpfsnoop_event S B hk ro h ctx st)"
  shows "explained full both (kp_open view st) (events st) (kp_open view st') (events st')"
proof -
  have quiet: ?thesis if "sessions st' = sessions st" "events st' = events st"
    by (simp add: that kp_open_def explained_refl)
  let ?acc = "kp_filter_event hk (kp_args_of ro h ctx) (kp_gen_session_id h (pt_regs_fp h ctx))"
  consider (off) "\<not> kp_active ro h st"
    | (rej) "kp_active ro h st" "cfg_both_entry_exit (rd_cfg ro)" "cfg_is_entry (rd_cfg ro)" "\<not> ?acc"
    | (entry) "kp_active ro h st" "cfg_both_entry_exit (rd_cfg ro)" "cfg_is_entry (rd_cfg ro)" ?acc
    | (lone) "kp_active ro h st" "\<not> cfg_both_entry_exit (rd_cfg ro)"
    | (exit) "kp_active ro h st" "cfg_both_entry_exit (rd_cfg ro)" "\<not> cfg_is_entry (rd_cfg ro)" by blast
  then show ?thesis
  proof cases
    case off
    from kp_inactive [OF off, of S B hk ctx, folded st'] show ?thesis by (intro quiet) auto
  next
    case rej
    then have "st' = kp_start ro h st" by (simp add: st' kp_active_step kp_session_def Let_def)
    then show ?thesis by (intro quiet) simp_all
  next
    case entry
    show ?thesis by (rule kp_entry_explained [OF map ok hk room entry(1-3) refl entry(4) st'])
  next
    case lone
    from mode lone(2) have "\<not> both" by blast
    from kp_lone_explained [OF hk room lone(1,2) this st'] show ?thesis .
  next
    case exit
    show ?thesis by (rule kp_exit_explained [OF map ok hk room exit st'])
  qed
qed

inductive_cases kp_stepE: "kp_step full both S B st st'"

lemma kp_protocol:
  assumes map: "kprobe_map S view ok"
  shows "session_protocol full both (kp_step full both S B) (kp_open view) events (\<lambda>st. ok (sessions st))"
  by unfold_locales
    (auto elim!: kp_stepE simp: bpfsnoop_kprobe_def bpfsnoop_kretprobe_def
      intro: kp_keeps_inv [OF map] kp_step_explained [OF map])

interpretation kp_runs: session_protocol full both "kp_step full both (ref_hash BPFSNOOP_MAX_ENTRIES) B" "kp_open slots_view"
    events "\<lambda>st. slots_inv BPFSNOOP_MAX_ENTRIES (sessions st)"
  by (rule kp_protocol [OF refksess.kprobe_map_axioms])

section \<open>Properties\<close>

text \<open>C1: whatever fentry and fexit programs of the function tracer run, in whatever order and with
  whatever the helpers return, there is a history of calls that explains the state: the open
  sessions are those opened and not yet closed, every closed call was opened under the same
  frame pointer with the same id and not touched in between, and the records in the ring
  buffer are, in order, reports of calls of the history: some are lost when the buffer is
  full, all are there when it always has room, and no other record is. When entry and exit
  are traced, every call of the history is an entry or an exit.\<close>

theorem fn_run_history:
  assumes "session_map S view ok" "(fn_step full both S B)\<^sup>*\<^sup>* st st'"
    and "ok (sessions st)" "view (sessions st) = Map.empty" "events st = []"
  shows "\<exists>es. replay Map.empty es = Some (fn_open view st') \<and> paired es \<and> list_all keyed es \<and>
    (both \<longrightarrow> list_all (\<lambda>e. \<not> lone e) es) \<and> subseq (map record_report (events st')) (map report es) \<and>
    (full \<longrightarrow> map record_report (events st') = map report es)"
  by (rule session_protocol.run_history [OF fn_protocol [OF assms(1)] assms(2)])
    (simp_all add: assms fn_open_def fun_eq_iff)

text \<open>C2: the kprobe tracer keeps the same protocol: every run of its kprobe and kretprobe programs
  has such a history, which explains its open sessions and its records.\<close>

theorem kp_run_history:
  assumes "kprobe_map S view ok" "(kp_step full both S B)\<^sup>*\<^sup>* st st'"
    and "ok (sessions st)" "view (sessions st) = Map.empty" "events st = []"
  shows "\<exists>es. replay Map.empty es = Some (kp_open view st') \<and> paired es \<and> list_all keyed es \<and>
    (both \<longrightarrow> list_all (\<lambda>e. \<not> lone e) es) \<and> subseq (map record_report (events st')) (map report es) \<and>
    (full \<longrightarrow> map record_report (events st') = map report es)"
  by (rule session_protocol.run_history [OF kp_protocol [OF assms(1)] assms(2)])
    (simp_all add: assms kp_open_def fun_eq_iff)

text \<open>C17: in every state a run of the function tracer reaches, the id of each open session carries
  the lower half of the frame pointer it is stored under.\<close>

theorem fn_sessions_keyed:
  assumes "session_map S view ok" "(fn_step full both S B)\<^sup>*\<^sup>* st st'"
    and "ok (sessions st)" "view (sessions st) = Map.empty" "events st = []"
    and "view (sessions st') fp = Some s"
  shows "session_id s AND 0xFFFFFFFF = fp AND 0xFFFFFFFF"
  using session_protocol.run_keyed [OF fn_protocol [OF assms(1)] assms(2), of fp "session_id s"]
  by (simp add: assms(3-) fn_open_def fun_eq_iff same_low_half_def)

end
