(* ===== verification/Interleaving.thy ===== *)
theory Interleaving
  imports Kprobe_Tracer
begin

text \<open>
  Invocations of the tracers on several CPUs. The tracers' models take an invocation as one step;
  here it is the sequence of its operations on the session map, each of which the kernel makes
  atomic, and invocations take turns in any order.
\<close>

section \<open>Maps on several CPUs\<close>

text \<open>
  An element of a hash map stays where it is while it is in the map: operations on other keys
  do not move it.
\<close>

locale stable_hash_map = bpf_hash_map H view inv
  for H :: "('m, 'v) bpf_hash" and view :: "'m \<Rightarrow> u64 \<rightharpoonup> 'v" and inv :: "'m \<Rightarrow> bool" +
  assumes update_stable: "inv m \<Longrightarrow> view m k \<noteq> None \<Longrightarrow> k' \<noteq> k \<Longrightarrow>
        bpf_map_lookup_elem H (fst (bpf_map_update_elem H m k' v f)) k = bpf_map_lookup_elem H m k"
    and delete_stable: "inv m \<Longrightarrow> view m k \<noteq> None \<Longrightarrow> k' \<noteq> k \<Longrightarrow>
        bpf_map_lookup_elem H (fst (bpf_map_delete_elem H m k')) k = bpf_map_lookup_elem H m k"

section \<open>The map operations of an invocation\<close>

text \<open>
  An invocation on one CPU, by the map operation it does next: an entry stores its session; an exit
  looks its session up, and then reads it through the pointer and deletes it. \<open>Kept\<close> has read it,
  \<open>Gone\<close> has deleted it; \<open>Done\<close> holds the session of an exit.
\<close>

datatype 'v thread =
    Enter u64 'v
  | Leave u64
  | Found u64 u64
  | Kept u64 'v
  | Gone u64 u64
  | Done "'v option"

text \<open>The kprobe tracer reads the session and then deletes it.\<close>

fun kp_micro :: "('m, 'v) bpf_hash \<Rightarrow> 'v thread \<Rightarrow> 'm \<Rightarrow> 'v thread \<times> 'm" where
  "kp_micro H (Enter fp s) m = (Done None, fst (bpf_map_update_elem H m fp s BPF_ANY))"
| "kp_micro H (Leave fp) m =
     (let p = bpf_map_lookup_elem H m fp in (if p = 0 then Done None else Found fp p, m))"
| "kp_micro H (Found fp p) m = (Kept fp (map_value H m p), m)"
| "kp_micro H (Kept fp s) m = (Done (Some s), fst (bpf_map_delete_elem H m fp))"
| "kp_micro H t m = (t, m)"

text \<open>The function tracer deletes the session and then reads it.\<close>

fun fn_micro :: "('m, 'v) bpf_hash \<Rightarrow> 'v thread \<Rightarrow> 'm \<Rightarrow> 'v thread \<times> 'm" where
  "fn_micro H (Enter fp s) m = (Done None, fst (bpf_map_update_elem H m fp s BPF_ANY))"
| "fn_micro H (Leave fp) m =
     (let p = bpf_map_lookup_elem H m fp in (if p = 0 then Done None else Found fp p, m))"
| "fn_micro H (Found fp p) m = (Gone fp p, fst (bpf_map_delete_elem H m fp))"
| "fn_micro H (Gone fp p) m = (Done (Some (map_value H m p)), m)"
| "fn_micro H t m = (t, m)"

text \<open>A schedule lets one invocation after the other do its next operation.\<close>

fun finished :: "'v thread \<Rightarrow> bool" where
  "finished (Done r) = True"
| "finished t = False"

inductive cpu_step ::
  "('v thread \<Rightarrow> 'm \<Rightarrow> 'v thread \<times> 'm) \<Rightarrow> 'v thread list \<times> 'm \<Rightarrow> 'v thread list \<times> 'm \<Rightarrow> bool"
  for micro where
  cpu: "i < length ts \<Longrightarrow> \<not> finished (ts ! i) \<Longrightarrow> micro (ts ! i) m = (t, m') \<Longrightarrow>
    cpu_step micro (ts, m) (ts[i := t], m')"

inductive_cases cpu_stepE: "cpu_step micro (ts, m) c"

section \<open>An invocation alone\<close>

text \<open>Left alone, an invocation does what the tracers' models do in one step.\<close>

fun alone :: "('v thread \<Rightarrow> 'm \<Rightarrow> 'v thread \<times> 'm) \<Rightarrow> nat \<Rightarrow> 'v thread \<times> 'm \<Rightarrow> 'v thread \<times> 'm" where
  "alone micro 0 c = c"
| "alone micro (Suc n) (t, m) = alone micro n (micro t m)"

lemma fn_alone: "alone (fn_micro H) 3 (Leave fp, m) = (case take_session H fp m of (r, m') \<Rightarrow> (Done r, m'))"
  by (simp add: numeral_3_eq_3 take_session_def get_and_del_session_def Let_def)

lemma kp_alone:
  "alone (kp_micro H) 3 (Leave fp, m) = (case take_kprobe_session H fp m of (r, m') \<Rightarrow> (Done r, m'))"
  by (simp add: numeral_3_eq_3 take_kprobe_session_def get_kprobe_session_def delete_kprobe_session_def Let_def)

section \<open>Schedules end\<close>

fun ops_left :: "'v thread \<Rightarrow> nat" where
  "ops_left (Enter fp s) = 1"
| "ops_left (Leave fp) = 3"
| "ops_left (Found fp p) = 2"
| "ops_left (Kept fp s) = 1"
| "ops_left (Gone fp p) = 1"
| "ops_left (Done r) = 0"

fun starting :: "'v thread \<Rightarrow> bool" where
  "starting (Enter fp s) = True"
| "starting (Leave fp) = True"
| "starting t = False"

text \<open>The frame pointer an invocation starts with.\<close>

fun frame :: "'v thread \<Rightarrow> u64" where
  "frame (Enter fp s) = fp"
| "frame (Leave fp) = fp"
| "frame t = 0"

section \<open>What holds between two operations\<close>

text \<open>
  An invocation that started as \<open>t0\<close> in the map \<open>m0\<close> and is now \<open>t\<close>, in the map \<open>m\<close>; \<open>late\<close> says
  that the session is read after it was deleted.
\<close>

definition thread_inv ::
  "bool \<Rightarrow> ('m, 'v) bpf_hash \<Rightarrow> ('m \<Rightarrow> u64 \<rightharpoonup> 'v) \<Rightarrow> 'm \<Rightarrow> 'm \<Rightarrow> 'v thread \<Rightarrow> 'v thread \<Rightarrow> bool" where
  "thread_inv late H view m0 m t0 t \<longleftrightarrow>
     (case t0 of
        Enter fp s \<Rightarrow> t = Enter fp s \<and> view m fp = view m0 fp \<or>
          t = Done None \<and> (view m fp = Some s \<or> view m fp = view m0 fp)
      | Leave fp \<Rightarrow>
          (case t of
             Leave fp' \<Rightarrow> fp' = fp \<and> view m fp = view m0 fp
           | Found fp' p \<Rightarrow> fp' = fp \<and> view m fp = view m0 fp \<and> view m fp \<noteq> None \<and> p = bpf_map_lookup_elem H m fp
           | Kept fp' v \<Rightarrow> \<not> late \<and> fp' = fp \<and> view m fp = Some v \<and> view m0 fp = Some v
           | Gone fp' p \<Rightarrow> late \<and> fp' = fp \<and> view m fp = None \<and> view m0 fp \<noteq> None
           | Done r \<Rightarrow> view m fp = None \<and> (r = None \<longleftrightarrow> view m0 fp = None) \<and> (late \<or> r = view m0 fp)
           | _ \<Rightarrow> False)
      | _ \<Rightarrow> False)"

lemma thread_inv_start: "starting t \<Longrightarrow> thread_inv late H view m m t t"
  by (cases t) (simp_all add: thread_inv_def)

lemma thread_inv_other:
  assumes "thread_inv late H view m0 m t0 t" "view m' (frame t0) = view m (frame t0)"
    and "view m (frame t0) \<noteq> None \<Longrightarrow> bpf_map_lookup_elem H m' (frame t0) = bpf_map_lookup_elem H m (frame t0)"
  shows "thread_inv late H view m0 m' t0 t"
  using assms by (cases t0; cases t) (auto simp: thread_inv_def)

definition sched_inv ::
  "bool \<Rightarrow> ('m, 'v) bpf_hash \<Rightarrow> ('m \<Rightarrow> u64 \<rightharpoonup> 'v) \<Rightarrow> ('m \<Rightarrow> bool) \<Rightarrow> 'v thread list \<Rightarrow> 'm
     \<Rightarrow> 'v thread list \<times> 'm \<Rightarrow> bool" where
  "sched_inv late H view ok ts0 m0 c \<longleftrightarrow>
     (case c of (ts, m) \<Rightarrow> ok m \<and> list_all2 (thread_inv late H view m0 m) ts0 ts \<and>
        (\<forall>k. k \<notin> set (map frame ts0) \<longrightarrow> view m k = view m0 k))"

text \<open>What the two orders of operations have in common.\<close>

definition micro_of :: "bool \<Rightarrow> ('m, 'v) bpf_hash \<Rightarrow> 'v thread \<Rightarrow> 'm \<Rightarrow> 'v thread \<times> 'm" where
  "micro_of late = (if late then fn_micro else kp_micro)"

context stable_hash_map
begin

lemma micro_step:
  assumes m: "inv m" and t: "thread_inv late H view m0 m t0 t" "\<not> finished t"
    and s: "micro_of late H t m = (t', m')"
  shows "inv m' \<and> thread_inv late H view m0 m' t0 t' \<and> ops_left t' < ops_left t \<and>
    (\<forall>k. k \<noteq> frame t0 \<longrightarrow> view m' k = view m k \<and>
       (view m k \<noteq> None \<longrightarrow> bpf_map_lookup_elem H m' k = bpf_map_lookup_elem H m k))"
proof (cases t0)
  case (Enter fp v)
  with t have "t = Enter fp v" "view m fp = view m0 fp" by (auto simp: thread_inv_def)
  with s Enter m show ?thesis
    by (auto simp: micro_of_def thread_inv_def update_view inv_update intro!: update_stable split: if_splits)
next
  case (Leave fp)
  show ?thesis
  proof (cases t)
    case (Leave fp')
    with s t m \<open>t0 = Leave fp\<close> show ?thesis
      by (auto simp: micro_of_def thread_inv_def Let_def lookup_null split: if_splits)
  next
    case (Found fp' p)
    from t(1) have q: "fp' = fp \<and> view m fp = view m0 fp \<and> view m fp \<noteq> None \<and> p = bpf_map_lookup_elem H m fp"
      unfolding Found \<open>t0 = Leave fp\<close> thread_inv_def by (simp only: thread.case) metis
    then obtain v where "view m fp = Some v" by blast
    with q have v: "view m fp = Some v" "view m0 fp = Some v" by simp_all
    have f: "t = Found fp (bpf_map_lookup_elem H m fp)" using q Found by simp
    from s m \<open>t0 = Leave fp\<close> v show ?thesis unfolding f
      by (auto simp: micro_of_def thread_inv_def delete_view inv_delete lookup_value intro!: delete_stable split: if_splits)
  next
    case (Kept fp' v)
    with s t m \<open>t0 = Leave fp\<close> show ?thesis
      by (auto simp: micro_of_def thread_inv_def delete_view inv_delete intro!: delete_stable)
  next
    case (Gone fp' p)
    with s t m \<open>t0 = Leave fp\<close> show ?thesis
      by (auto simp: micro_of_def thread_inv_def)
  qed (use t \<open>t0 = Leave fp\<close> in \<open>auto simp: thread_inv_def\<close>)
qed (use t in \<open>auto simp: thread_inv_def\<close>)

lemma cpu_step_inv:
  assumes c: "sched_inv late H view inv ts0 m0 (ts, m)" "distinct (map frame ts0)"
    and s: "cpu_step (micro_of late H) (ts, m) (ts', m')"
  shows "sched_inv late H view inv ts0 m0 (ts', m') \<and>
    sum_list (map ops_left ts') < sum_list (map ops_left ts)"
proof -
  from s obtain i t where i: "i < length ts" "\<not> finished (ts ! i)" "micro_of late H (ts ! i) m = (t, m')"
    and ts': "ts' = ts[i := t]" by (auto elim: cpu_stepE)
  from c(1) have m: "inv m" and len: "length ts = length ts0"
    and all: "\<And>j. j < length ts \<Longrightarrow> thread_inv late H view m0 m (ts0 ! j) (ts ! j)"
    and rest: "\<And>k. k \<notin> set (map frame ts0) \<Longrightarrow> view m k = view m0 k"
    by (auto simp: sched_inv_def list_all2_conv_all_nth)
  note st = micro_step [OF m all [OF i(1)] i(2,3)]
  have "thread_inv late H view m0 m' (ts0 ! j) (ts' ! j)" if j: "j < length ts" for j
  proof (cases "j = i")
    case False
    then have "frame (ts0 ! j) \<noteq> frame (ts0 ! i)"
      using c(2) i(1) j len by (simp add: distinct_conv_nth)
    with st have "thread_inv late H view m0 m' (ts0 ! j) (ts ! j)"
      by (intro thread_inv_other [OF all [OF j]]) auto
    with False ts' show ?thesis by simp
  qed (use st ts' i in auto)
  moreover have "view m' k = view m0 k" if "k \<notin> set (map frame ts0)" for k
  proof -
    have "frame (ts0 ! i) \<in> set (map frame ts0)" using i(1) len by simp
    then have "k \<noteq> frame (ts0 ! i)" using that by blast
    with st rest [OF that] show ?thesis by simp
  qed
  moreover have "sum_list (map ops_left ts') < sum_list (map ops_left ts)"
  proof -
    have "sum_list (map ops_left (take i ts @ ts ! i # drop (Suc i) ts)) = sum_list (map ops_left ts)"
      by (simp add: id_take_nth_drop [OF i(1), symmetric])
    moreover have "map ops_left ts' = map ops_left (take i ts @ t # drop (Suc i) ts)"
      using i(1) by (simp add: ts' upd_conv_take_nth_drop)
    ultimately show ?thesis using st by simp
  qed
  ultimately show ?thesis
    using st len ts' by (simp add: sched_inv_def list_all2_conv_all_nth)
qed

lemma schedule_inv:
  assumes m: "inv m" and ts: "list_all starting ts" "distinct (map frame ts)"
    and run: "(cpu_step (micro_of late H) ^^ n) (ts, m) (ts', m')"
  shows "sched_inv late H view inv ts m (ts', m') \<and> n + sum_list (map ops_left ts') \<le> 3 * length ts"
  using run
proof (induction n arbitrary: ts' m')
  case 0
  have "sum_list (map ops_left ts) \<le> 3 * length ts"
    using ts(1)
  proof (induction ts)
    case (Cons t ts)
    then show ?case by (cases t) simp_all
  qed simp
  with 0 m ts show ?case
    by (auto simp: sched_inv_def list_all2_conv_all_nth list_all_length thread_inv_start)
next
  case (Suc n)
  then obtain ts1 m1 where 1: "(cpu_step (micro_of late H) ^^ n) (ts, m) (ts1, m1)"
    "cpu_step (micro_of late H) (ts1, m1) (ts', m')" by auto
  with Suc.IH [OF 1(1)] cpu_step_inv [OF _ ts(2) 1(2)] show ?case by force
qed

end


section \<open>The reference map keeps elements in place\<close>

lemma find_key_update_other:
  "i < length m \<Longrightarrow> fst (m ! i) \<noteq> k \<Longrightarrow> fst x \<noteq> k \<Longrightarrow> find_key k (m[i := x]) = find_key k m"
proof (induction m arbitrary: i)
  case (Cons y m)
  then show ?case by (cases i; cases x; cases y) auto
qed simp

lemma find_key_append_old: "find_key k m = Some i \<Longrightarrow> find_key k (m @ [x]) = Some i"
proof (induction m arbitrary: i)
  case (Cons y m)
  then show ?case by (cases y) (auto split: if_splits)
qed simp

lemma slots_stable:
  assumes "slots_view m k \<noteq> None" "k' \<noteq> k"
  shows "slots_lookup (fst (slots_update cap m k' v f)) k = slots_lookup m k"
    and "slots_lookup (fst (slots_delete m k')) k = slots_lookup m k"
proof -
  obtain j where j: "find_key (Some k) m = Some j" using assms(1) by (auto simp: slots_view_def)
  have other: "find_key (Some k) (m[i := (q, w)]) = Some j"
    if "find_key q' m = Some i" "q' \<noteq> Some k" "q \<noteq> Some k" for i q q' w
    using find_key_Some [OF that(1)] that by (subst find_key_update_other) (auto simp: j)
  have "find_key (Some k) (fst (slots_update cap m k' v f)) = Some j"
    using assms(2) j find_key_append_old [OF j]
    by (auto simp: slots_update_def intro!: other split: option.splits)
  then show "slots_lookup (fst (slots_update cap m k' v f)) k = slots_lookup m k"
    by (simp add: slots_lookup_def j)
  have "find_key (Some k) (fst (slots_delete m k')) = Some j"
    using assms(2) j by (auto simp: slots_delete_def intro!: other split: option.splits)
  then show "slots_lookup (fst (slots_delete m k')) k = slots_lookup m k"
    by (simp add: slots_lookup_def j)
qed

interpretation refstable: stable_hash_map "ref_hash BPFSNOOP_MAX_ENTRIES" slots_view "slots_inv BPFSNOOP_MAX_ENTRIES"
  by unfold_locales (simp_all add: ref_hash_def slots_stable)


section \<open>Properties\<close>

text \<open>What an invocation has done when it is finished: the session of an exit is the one that was open
  before, and it is closed; an entry has opened its session, or the map was full.\<close>

fun closed_as :: "(u64 \<rightharpoonup> 'v) \<Rightarrow> (u64 \<rightharpoonup> 'v) \<Rightarrow> 'v thread \<Rightarrow> bool" where
  "closed_as f g (Leave fp) = (g fp = None)"
| "closed_as f g (Enter fp s) = (g fp = Some s \<or> g fp = f fp)"
| "closed_as f g t = True"

fun session_of :: "(u64 \<rightharpoonup> 'v) \<Rightarrow> 'v thread \<Rightarrow> 'v option" where
  "session_of f (Leave fp) = f fp"
| "session_of f t = None"

lemma thread_inv_done:
  assumes "thread_inv late H view m0 m t0 (Done r)"
  shows "closed_as (view m0) (view m) t0" "r = None \<longleftrightarrow> session_of (view m0) t0 = None"
    "\<not> late \<Longrightarrow> r = session_of (view m0) t0"
  using assms by (cases t0; auto simp: thread_inv_def)+

text \<open>C10: invocations of the kprobe tracer on several CPUs, with different frame pointers: however their map
  operations interleave, every schedule ends, and each invocation has then done what it does alone: an exit
  has the session that was open under its frame pointer, and closed it, an entry opened its own (or the map
  was full), and no other session changed.\<close>

theorem kprobe_invocations_serialise:
  assumes map: "stable_hash_map H view ok" "ok m"
    and ts: "list_all starting ts" "distinct (map frame ts)"
    and run: "(cpu_step (kp_micro H) ^^ n) (ts, m) (ts', m')"
  shows "n \<le> 3 * length ts \<and> (list_all finished ts' \<or> (\<exists>c. cpu_step (kp_micro H) (ts', m') c)) \<and>
    (\<forall>i<length ts. \<forall>r. ts' ! i = Done r \<longrightarrow>
       r = session_of (view m) (ts ! i) \<and> closed_as (view m) (view m') (ts ! i)) \<and>
    (\<forall>fp. fp \<notin> set (map frame ts) \<longrightarrow> view m' fp = view m fp)"
proof -
  have run': "(cpu_step (micro_of False H) ^^ n) (ts, m) (ts', m')" using run by (simp add: micro_of_def)
  from stable_hash_map.schedule_inv [OF map ts run']
  have s: "list_all2 (thread_inv False H view m m') ts ts'" "n \<le> 3 * length ts"
    "\<forall>fp. fp \<notin> set (map frame ts) \<longrightarrow> view m' fp = view m fp" by (auto simp: sched_inv_def)
  have "r = session_of (view m) (ts ! i) \<and> closed_as (view m) (view m') (ts ! i)"
    if "i < length ts" "ts' ! i = Done r" for i r
    using thread_inv_done [of False H view m m' "ts ! i" r] s(1) that by (auto simp: list_all2_conv_all_nth)
  moreover have "\<exists>c. cpu_step (kp_micro H) (ts', m') c" if nf: "\<not> list_all finished ts'"
  proof -
    from nf obtain i where "i < length ts'" "\<not> finished (ts' ! i)" by (auto simp: list_all_length)
    then show ?thesis using cpu [of i ts' "kp_micro H" m'] by (metis surj_pair)
  qed
  ultimately show ?thesis using s by blast
qed

text \<open>In the function tracer an exit finds a session exactly when one was open, and closes it.\<close>

lemma late_exits_close:
  assumes map: "stable_hash_map H view ok" "ok m"
    and ts: "list_all starting ts" "distinct (map frame ts)"
    and run: "(cpu_step (fn_micro H) ^^ n) (ts, m) (ts', m')" and i: "i < length ts" "ts' ! i = Done r"
  shows "(r = None \<longleftrightarrow> session_of (view m) (ts ! i) = None) \<and> closed_as (view m) (view m') (ts ! i)"
proof -
  have run': "(cpu_step (micro_of True H) ^^ n) (ts, m) (ts', m')" using run by (simp add: micro_of_def)
  from stable_hash_map.schedule_inv [OF map ts run'] i
  have "thread_inv True H view m m' (ts ! i) (Done r)"
    by (auto simp: sched_inv_def list_all2_conv_all_nth)
  from thread_inv_done(1,2) [OF this] show ?thesis by blast
qed



theorem kprobe_invocations_serialise_witness:
  "(\<lambda>s s'. closed_as (slots_view [(Some 0x1000, s)]) (slots_view [(None, s), (Some 0x2000, s')]) (Leave 0x1000) \<and>
     Some s = session_of (slots_view [(Some 0x1000, s)]) (Leave 0x1000 :: bpfsnoop_kprobe_sess thread))
   \<lparr>ks_session_id = 1, ks_args = []\<rparr> \<lparr>ks_session_id = 2, ks_args = []\<rparr>"
proof -
  let ?s = "\<lparr>ks_session_id = 1, ks_args = []\<rparr>" and ?s' = "\<lparr>ks_session_id = 2, ks_args = []\<rparr>"
  let ?M = "kp_micro (ref_hash BPFSNOOP_MAX_ENTRIES)" and ?m = "[(Some 0x1000, ?s)]"
  let ?m' = "[(Some 0x1000, ?s), (Some 0x2000, ?s')]" and ?ts = "[Leave 0x1000, Enter 0x2000 ?s']"
  note cpu' = cpu [where micro = ?M]
  note ref = ref_hash_def slots_lookup_def slots_update_def slots_delete_def slots_value_def slot_ptr_def BPF_ANY_def
    BPF_NOEXIST_def BPF_EXIST_def BPFSNOOP_MAX_ENTRIES_def
  have ok: "slots_inv BPFSNOOP_MAX_ENTRIES ?m" by (simp add: slots_inv_def BPFSNOOP_MAX_ENTRIES_def)
  have "cpu_step ?M (?ts, ?m) ([Found 0x1000 1, Enter 0x2000 ?s'], ?m)"
    using cpu' [of 0 ?ts ?m] by (simp add: ref)
  moreover have "cpu_step ?M ([Found 0x1000 1, Enter 0x2000 ?s'], ?m) ([Found 0x1000 1, Done None], ?m')"
    using cpu' [of 1 "[Found 0x1000 1, Enter 0x2000 ?s']" ?m] by (simp add: ref)
  moreover have "cpu_step ?M ([Found 0x1000 1, Done None], ?m') ([Kept 0x1000 ?s, Done None], ?m')"
    using cpu' [of 0 "[Found 0x1000 1, Done None]" ?m'] by (simp add: ref)
  moreover have "cpu_step ?M ([Kept 0x1000 ?s, Done None], ?m')
      ([Done (Some ?s), Done None], [(None, ?s), (Some 0x2000, ?s')])"
    using cpu' [of 0 "[Kept 0x1000 ?s, Done None]" ?m'] by (simp add: ref)
  ultimately have "(cpu_step ?M ^^ 4) (?ts, ?m) ([Done (Some ?s), Done None], [(None, ?s), (Some 0x2000, ?s')])"
    by (auto simp: eval_nat_numeral intro: relcomppI)
  from kprobe_invocations_serialise [OF refstable.stable_hash_map_axioms ok _ _ this]
  show ?thesis by force
qed

end
