(* ===== verification/Insn_Tracer.thy ===== *)
theory Insn_Tracer
  imports Sess Tracer
begin

text \<open>
  The instruction tracer (\<^verbatim>\<open>bpf/bpfsnoop_insn.c\<close>): a kprobe on an instruction inside a traced
  function looks for the function's session by following at most three frame pointers, and
  reports the instruction under that session's id.
\<close>

record bpfsnoop_insn_event =
  ie_type :: u16
  ie_length :: u16
  ie_kernel_ts :: u32
  ie_session_id :: u64
  ie_insn_ip :: u64
  ie_cpu :: u32

text \<open>Four bytes of padding after \<^verbatim>\<open>cpu\<close> bring the size to a multiple of eight.\<close>

definition sizeof_insn_event :: nat where
  "sizeof_insn_event = 2 + 2 + 4 + 8 + 8 + 4 + 4"

definition write_insn_event :: "bpfsnoop_insn_event \<Rightarrow> u8 list \<Rightarrow> u8 list" where
  "write_insn_event e buf =
     (let buf = store 0 (le_bytes 2 (ie_type e)) buf;
          buf = store 2 (le_bytes 2 (ie_length e)) buf;
          buf = store 4 (le_bytes 4 (ie_kernel_ts e)) buf;
          buf = store 8 (le_bytes 8 (ie_session_id e)) buf;
          buf = store 16 (le_bytes 8 (ie_insn_ip e)) buf
      in store 24 (le_bytes 4 (ie_cpu e)) buf)"

text \<open>The Go consumer's \<^verbatim>\<open>InsnEvent\<close>.\<close>

definition go_insn_event :: "u8 list \<Rightarrow> bpfsnoop_insn_event" where
  "go_insn_event bs =
     \<lparr>ie_type = load_le 0 2 bs, ie_length = load_le 2 2 bs, ie_kernel_ts = load_le 4 4 bs,
      ie_session_id = load_le 8 8 bs, ie_insn_ip = load_le 16 8 bs, ie_cpu = load_le 24 4 bs\<rparr>"

lemma go_insn_event_write:
  "sizeof_insn_event \<le> length buf \<Longrightarrow> go_insn_event (write_insn_event e buf) = e"
  by (simp add: go_insn_event_def write_insn_event_def sizeof_insn_event_def Let_def buf_simps)

lemma length_write_insn_event [simp]: "length (write_insn_event e buf) = length buf"
  by (simp add: write_insn_event_def Let_def)

text \<open>The loop of \<^verbatim>\<open>try_get_session\<close>, with the number of tries left.\<close>

fun insn_walk ::
  "('m, bpfsnoop_sess) bpf_hash \<Rightarrow> helpers \<Rightarrow> 'm \<Rightarrow> nat \<Rightarrow> u64 \<Rightarrow> u64" where
  "insn_walk S h m 0 fp = 0"
| "insn_walk S h m (Suc n) fp =
     (let fp = probe_word h fp 8; sess = get_session S fp m in
      if sess \<noteq> 0 then sess else insn_walk S h m n fp)"

definition insn_try_get_session ::
  "('m, bpfsnoop_sess) bpf_hash \<Rightarrow> helpers \<Rightarrow> u64 \<Rightarrow> 'm \<Rightarrow> u64" where
  "insn_try_get_session S h ctx m = (let fp = pt_regs_fp h ctx; max_tries = 3 in insn_walk S h m max_tries fp)"

record 's insn_tracer =
  it_ready :: u32
  it_sessions :: 's
  it_events :: "u8 list list"

definition bpfsnoop_insn ::
  "('s, bpfsnoop_sess) bpf_hash \<Rightarrow> u64 \<Rightarrow> helpers \<Rightarrow> u64 \<Rightarrow> 's insn_tracer \<Rightarrow> s32 \<times> 's insn_tracer" where
  "bpfsnoop_insn S INSN_IP h ctx st =
     (if \<not> truthy (it_ready st) then (BPF_OK, st)
      else let sess = insn_try_get_session S h ctx (it_sessions st) in
      if sess = 0 then (BPF_OK, st)
      else case ringbuf_record h sizeof_insn_event of None \<Rightarrow> (BPF_OK, st)
      | Some evt \<Rightarrow>
        (BPF_OK, st\<lparr>it_events := it_events st @ [write_insn_event
           \<lparr>ie_type = event_type_code BPFSNOOP_EVENT_TYPE_INSN, ie_length = of_nat sizeof_insn_event,
            ie_kernel_ts = ucast (bpf_ktime_get_ns h),
            ie_session_id = session_id (map_value S (it_sessions st) sess),
            ie_insn_ip = INSN_IP, ie_cpu = bpf_get_smp_processor_id h\<rparr> evt]\<rparr>))"

section \<open>The frames the walk visits\<close>

definition next_frame :: "helpers \<Rightarrow> u64 \<Rightarrow> u64" where
  "next_frame h fp = probe_word h fp 8"

text \<open>The caller's frames: one, two, \<dots>, \<open>n\<close> frame pointers up from \<open>fp\<close>.\<close>

fun caller_frames :: "helpers \<Rightarrow> nat \<Rightarrow> u64 \<Rightarrow> u64 list" where
  "caller_frames h 0 fp = []"
| "caller_frames h (Suc n) fp = next_frame h fp # caller_frames h n (next_frame h fp)"

context session_map
begin

lemma insn_walk_find:
  "inv m \<Longrightarrow> insn_walk H h m n fp =
     (case find (\<lambda>f. view m f \<noteq> None) (caller_frames h n fp) of
        None \<Rightarrow> 0 | Some f \<Rightarrow> get_session H f m)"
  by (induction n arbitrary: fp) (auto simp: Let_def next_frame_def get_session_null)

lemma insn_try_get_session_find:
  assumes "inv m" "find (\<lambda>f. view m f \<noteq> None) (caller_frames h 3 (pt_regs_fp h ctx)) = Some f"
    and "view m f = Some s"
  shows "insn_try_get_session H h ctx m \<noteq> 0"
    and "map_value H m (insn_try_get_session H h ctx m) = s"
  using assms get_session_Some [of m f] get_session_null [of m f]
  by (auto simp: insn_try_get_session_def insn_walk_find)

lemma insn_try_get_session_none:
  "inv m \<Longrightarrow> find (\<lambda>f. view m f \<noteq> None) (caller_frames h 3 (pt_regs_fp h ctx)) = None \<Longrightarrow>
     insn_try_get_session H h ctx m = 0"
  by (simp add: insn_try_get_session_def insn_walk_find)

end

section \<open>Properties\<close>

text \<open>C28: a traced instruction is reported exactly when one of the three nearest callers' frames
  has an open session and the ring buffer has room; the record names the session of the
  nearest such frame. Nothing else changes.\<close>

theorem insn_reports_nearest_session:
  assumes map: "session_map S view ok" and ok: "ok (it_sessions st)" and ready: "truthy (it_ready st)"
    and st': "st' = snd (bpfsnoop_insn S ip h ctx st)"
    and near: "near = find (\<lambda>f. view (it_sessions st) f \<noteq> None) (caller_frames h 3 (pt_regs_fp h ctx))"
  shows "it_sessions st' = it_sessions st \<and>
    (case near of None \<Rightarrow> it_events st' = it_events st
     | Some f \<Rightarrow> (case bpf_ringbuf_reserve h sizeof_insn_event of None \<Rightarrow> it_events st' = it_events st
        | Some _ \<Rightarrow> \<exists>r. it_events st' = it_events st @ [r] \<and> length r = 32 \<and>
            ie_type (go_insn_event r) = event_type_code BPFSNOOP_EVENT_TYPE_INSN \<and>
            ie_insn_ip (go_insn_event r) = ip \<and>
            view (it_sessions st) f = Some \<lparr>session_id = ie_session_id (go_insn_event r)\<rparr>))"
proof (cases near)
  case None
  with near show ?thesis
    using session_map.insn_try_get_session_none [OF map ok, of h ctx] ready
    by (simp add: st' bpfsnoop_insn_def)
next
  case (Some f)
  then obtain s where s: "view (it_sessions st) f = Some s"
    using near by (metis (mono_tags, lifting) find_Some_iff option.exhaust)
  note found = session_map.insn_try_get_session_find [OF map ok near [symmetric, unfolded Some] s]
  have "s = \<lparr>session_id = session_id s\<rparr>" by simp
  with found s Some ready show ?thesis
    by (auto simp: st' bpfsnoop_insn_def ringbuf_record_def go_insn_event_write sizeof_insn_event_def
        split: option.split)
qed

end
