(* ===== verification/Fgraph.thy ===== *)
theory Fgraph
  imports Sess Tracer
begin

text \<open>
  The function-graph tracer (\<^verbatim>\<open>bpf/bpfsnoop_fgraph.c\<close>). A program on a function inside a traced
  call walks the stack to find the session of the traced caller and how deep below it the
  function runs. Where the kernel allows tail calls in subprograms the walk is split into
  chunks of a hundred frames, run by a second program that keeps its progress in a per-CPU map.
\<close>

record fgraph_fn_args =
  fg_args_nr :: u32
  fg_with_retval :: bool
  fg_buf_size :: u32

record bpfsnoop_fgraph_configs =
  fg_func_ip :: u64
  fg_max_depth :: u32
  fg_entry :: u8
  fg_tailcall_in_bpf2bpf :: u8
  fg_mypid :: u32
  fg_fn_args :: fgraph_fn_args

record bpfsnoop_fgraph_event =
  fe_type :: u16
  fe_length :: u16
  fe_kernel_ts :: u32
  fe_session_id :: u64
  fe_func_ip :: u64
  fe_cpu :: u32
  fe_depth :: u32

definition sizeof_fgraph_event :: nat where
  "sizeof_fgraph_event = 2 + 2 + 4 + 8 + 8 + 4 + 4"

definition write_fgraph_event :: "bpfsnoop_fgraph_event \<Rightarrow> u8 list \<Rightarrow> u8 list" where
  "write_fgraph_event e buf =
     (let buf = store 0 (le_bytes 2 (fe_type e)) buf;
          buf = store 2 (le_bytes 2 (fe_length e)) buf;
          buf = store 4 (le_bytes 4 (fe_kernel_ts e)) buf;
          buf = store 8 (le_bytes 8 (fe_session_id e)) buf;
          buf = store 16 (le_bytes 8 (fe_func_ip e)) buf;
          buf = store 24 (le_bytes 4 (fe_cpu e)) buf
      in store 28 (le_bytes 4 (fe_depth e)) buf)"

text \<open>The Go consumer's \<^verbatim>\<open>GraphEvent\<close>.\<close>

definition go_graph_event :: "u8 list \<Rightarrow> bpfsnoop_fgraph_event" where
  "go_graph_event bs =
     \<lparr>fe_type = load_le 0 2 bs, fe_length = load_le 2 2 bs, fe_kernel_ts = load_le 4 4 bs,
      fe_session_id = load_le 8 8 bs, fe_func_ip = load_le 16 8 bs, fe_cpu = load_le 24 4 bs,
      fe_depth = load_le 28 4 bs\<rparr>"

lemma length_write_fgraph_event [simp]: "length (write_fgraph_event e buf) = length buf"
  by (simp add: write_fgraph_event_def Let_def)

lemma go_graph_event_write:
  "sizeof_fgraph_event \<le> length buf \<Longrightarrow> go_graph_event (write_fgraph_event e buf) = e"
  by (simp add: go_graph_event_def write_fgraph_event_def sizeof_fgraph_event_def Let_def buf_simps)

lemma go_graph_event_within:
  "writes_within f off n \<Longrightarrow> sizeof_fgraph_event \<le> off \<Longrightarrow> go_graph_event (f buf) = go_graph_event buf"
  by (simp add: go_graph_event_def load_le_def sizeof_fgraph_event_def writes_withinD)

section \<open>Walking the stack\<close>

record bpfsnoop_fgraph_tailcall_data =
  td_fp :: u64
  td_depth :: s32
  td_max_depth :: s32
  td_sess :: u64
  td_found :: bool
  td_oo_depth :: bool

text \<open>
  \<open>fg_tailcall\<close> is the current CPU's element of the per-CPU array, \<open>None\<close> for a NULL lookup.
  \<open>fg_prog_array\<close>: the tail-call target is installed, as the loader does before attaching.
\<close>

record ('s, 'i) fgraph =
  fg_ready :: u32
  fg_sessions :: 's
  fg_tracee_ips :: 'i
  fg_tailcall :: "bpfsnoop_fgraph_tailcall_data option"
  fg_prog_array :: bool
  fg_events :: "u8 list list"

definition is_fgraph_ip :: "('i, u32) bpf_hash \<Rightarrow> u64 \<Rightarrow> 'i \<Rightarrow> bool" where
  "is_fgraph_ip I ip m = (bpf_map_lookup_elem I m ip \<noteq> 0)"

definition frame_fp :: "helpers \<Rightarrow> u64 \<Rightarrow> u64" where
  "frame_fp h fp = load_le 0 8 (probe_bytes h fp 16)"

definition frame_ip :: "helpers \<Rightarrow> u64 \<Rightarrow> u64" where
  "frame_ip h fp = load_le 8 8 (probe_bytes h fp 16)"

text \<open>The bounded loop of \<^verbatim>\<open>try_get_session_limited\<close>: the session pointer and the depth.\<close>

fun limited_walk ::
  "('s, bpfsnoop_sess) bpf_hash \<Rightarrow> ('i, u32) bpf_hash \<Rightarrow> helpers \<Rightarrow> ('s, 'i) fgraph \<Rightarrow> u32
     \<Rightarrow> nat \<Rightarrow> u64 \<Rightarrow> u32 \<Rightarrow> u64 \<times> u32" where
  "limited_walk S I h st max_depth 0 fp depth = (0, depth)"
| "limited_walk S I h st max_depth (Suc n) fp depth =
     (let fp' = frame_fp h fp; ip = frame_ip h fp; sess = get_session S fp' (fg_sessions st) in
      if sess \<noteq> 0 then (sess, depth)
      else if \<not> is_fgraph_ip I ip (fg_tracee_ips st) then
        let depth = depth + 1 in
        if depth > max_depth then (0, depth)
        else limited_walk S I h st max_depth n fp' depth
      else limited_walk S I h st max_depth n fp' depth)"

text \<open>Both searches start at the frame of the tracee's caller.\<close>

definition fgraph_start_fp :: "arch \<Rightarrow> bpfsnoop_fgraph_configs \<Rightarrow> helpers \<Rightarrow> u64 \<Rightarrow> u32 \<Rightarrow> u64" where
  "fgraph_start_fp arch c h ctx off =
     (let fp = fst (get_tramp_fp arch h ctx (fg_args_nr (fg_fn_args c)) True off) in probe_word h fp 8)"

definition try_get_session_limited ::
  "('s, bpfsnoop_sess) bpf_hash \<Rightarrow> ('i, u32) bpf_hash \<Rightarrow> bpfsnoop_fgraph_configs \<Rightarrow> helpers
     \<Rightarrow> ('s, 'i) fgraph \<Rightarrow> u64 \<Rightarrow> u32 \<Rightarrow> u64 \<times> u32" where
  "try_get_session_limited S I c h st fp depth =
     (if fg_max_depth c > 10 then (0, depth)
      else let max_tries = fg_max_depth c * 2 in
        limited_walk S I h st (fg_max_depth c) (unat max_tries) fp 0)"

text \<open>The tail-called program: at most a hundred frames, resuming at the saved frame pointer.\<close>

fun tailcall_walk ::
  "('s, bpfsnoop_sess) bpf_hash \<Rightarrow> ('i, u32) bpf_hash \<Rightarrow> helpers \<Rightarrow> ('s, 'i) fgraph
     \<Rightarrow> nat \<Rightarrow> u64 \<Rightarrow> bpfsnoop_fgraph_tailcall_data \<Rightarrow> bpfsnoop_fgraph_tailcall_data" where
  "tailcall_walk S I h st 0 fp data = data"
| "tailcall_walk S I h st (Suc n) fp data =
     (let fp' = frame_fp h fp; ip = frame_ip h fp; sess = get_session S fp' (fg_sessions st) in
      if sess \<noteq> 0 then data\<lparr>td_sess := sess, td_found := True\<rparr>
      else if \<not> is_fgraph_ip I ip (fg_tracee_ips st) then
        let data = data\<lparr>td_depth := td_depth data + 1\<rparr> in
        if sint (td_depth data) > sint (td_max_depth data) then data\<lparr>td_oo_depth := True\<rparr>
        else tailcall_walk S I h st n fp' (data\<lparr>td_fp := fp'\<rparr>)
      else tailcall_walk S I h st n fp' (data\<lparr>td_fp := fp'\<rparr>))"

definition bpfsnoop_fgraph_tailcallee ::
  "('s, bpfsnoop_sess) bpf_hash \<Rightarrow> ('i, u32) bpf_hash \<Rightarrow> helpers \<Rightarrow> ('s, 'i) fgraph \<Rightarrow> ('s, 'i) fgraph" where
  "bpfsnoop_fgraph_tailcallee S I h st =
     (case fg_tailcall st of None \<Rightarrow> st
      | Some data \<Rightarrow> st\<lparr>fg_tailcall := Some (tailcall_walk S I h st 100 (td_fp data) data)\<rparr>)"

definition get_session_from_tailcall ::
  "('s, bpfsnoop_sess) bpf_hash \<Rightarrow> ('i, u32) bpf_hash \<Rightarrow> helpers \<Rightarrow> ('s, 'i) fgraph \<Rightarrow> ('s, 'i) fgraph" where
  "get_session_from_tailcall S I h st =
     (if fg_prog_array st then bpfsnoop_fgraph_tailcallee S I h st else st)"

text \<open>The driver's loop over at most ten tail calls.\<close>

fun tailcall_loop ::
  "('s, bpfsnoop_sess) bpf_hash \<Rightarrow> ('i, u32) bpf_hash \<Rightarrow> helpers \<Rightarrow> nat \<Rightarrow> ('s, 'i) fgraph \<Rightarrow> u32
     \<Rightarrow> u64 \<times> u32 \<times> ('s, 'i) fgraph" where
  "tailcall_loop S I h 0 st depth = (0, depth, st)"
| "tailcall_loop S I h (Suc n) st depth =
     (let st = get_session_from_tailcall S I h st in
      case fg_tailcall st of None \<Rightarrow> (0, depth, st)
      | Some data \<Rightarrow>
        if td_found data then (td_sess data, td_depth data, st)
        else if td_oo_depth data then (0, depth, st)
        else tailcall_loop S I h n st depth)"

definition try_get_session ::
  "('s, bpfsnoop_sess) bpf_hash \<Rightarrow> ('i, u32) bpf_hash \<Rightarrow> arch \<Rightarrow> bpfsnoop_fgraph_configs \<Rightarrow> helpers
     \<Rightarrow> u64 \<Rightarrow> u32 \<Rightarrow> ('s, 'i) fgraph \<Rightarrow> u32 \<Rightarrow> u64 \<times> u32 \<times> ('s, 'i) fgraph" where
  "try_get_session S I arch c h ctx off st depth =
     (let fp = fgraph_start_fp arch c h ctx off in
      if \<not> truthy (fg_tailcall_in_bpf2bpf c) then
        let (sess, depth) = try_get_session_limited S I c h st fp depth in (sess, depth, st)
      else case fg_tailcall st of None \<Rightarrow> (0, depth, st)
      | Some _ \<Rightarrow>
        let data = \<lparr>td_fp = fp, td_depth = 0, td_max_depth = fg_max_depth c, td_sess = 0,
              td_found = False, td_oo_depth = False\<rparr>;
            max_loop = 10
        in tailcall_loop S I h max_loop (st\<lparr>fg_tailcall := Some data\<rparr>) depth)"

section \<open>The program\<close>

text \<open>
  With tail calls the session id is read through the saved pointer with a probing read
  (\<^verbatim>\<open>session_id\<close> is the first field), else directly.
\<close>

definition fgraph_session_id ::
  "('s, bpfsnoop_sess) bpf_hash \<Rightarrow> bpfsnoop_fgraph_configs \<Rightarrow> helpers \<Rightarrow> u64 \<Rightarrow> 's \<Rightarrow> u64" where
  "fgraph_session_id S c h sess m =
     (if truthy (fg_tailcall_in_bpf2bpf c) then probe_word h sess 8 else session_id (map_value S m sess))"

definition fgraph_read_args :: "helpers \<Rightarrow> u64 \<Rightarrow> u32 \<Rightarrow> u64 list" where
  "fgraph_read_args h ctx nr =
     (let n = unat (8 * nr); bs = probe_bytes h ctx n in
      map (\<lambda>i. if 8 * i + 8 \<le> n then load_le (8 * i) 8 bs else uninit h i) [0..<MAX_FN_ARGS])"

definition bpfsnoop_fgraph ::
  "('s, bpfsnoop_sess) bpf_hash \<Rightarrow> ('i, u32) bpf_hash \<Rightarrow> hooks \<Rightarrow> arch \<Rightarrow> bpfsnoop_fgraph_configs
     \<Rightarrow> helpers \<Rightarrow> u64 \<Rightarrow> u32 \<Rightarrow> ('s, 'i) fgraph \<Rightarrow> s32 \<times> ('s, 'i) fgraph" where
  "bpfsnoop_fgraph S I hk arch c h ctx off st =
     (if \<not> truthy (fg_ready st) then (BPF_OK, st)
      else if ucast (fg_mypid c) = drop_bit 32 (bpf_get_current_pid_tgid h) then (BPF_OK, st)
      else let (sess, depth, st) = try_get_session S I arch c h ctx off st 0 in
      if sess = 0 then (BPF_OK, st)
      else let buffer_sz = sizeof_fgraph_event + unat (fg_buf_size (fg_fn_args c)) in
      case ringbuf_record h buffer_sz of None \<Rightarrow> (BPF_OK, st)
      | Some buffer \<Rightarrow>
        let nr = fg_args_nr (fg_fn_args c);
            args = fgraph_read_args h ctx nr;
            retval = (if fg_with_retval (fg_fn_args c) then probe_word h (ctx + ucast (8 * nr)) 8 else 0);
            buffer = write_fgraph_event
              \<lparr>fe_type = event_type_code (if truthy (fg_entry c) then BPFSNOOP_EVENT_TYPE_GRAPH_ENTRY
                                          else BPFSNOOP_EVENT_TYPE_GRAPH_EXIT),
               fe_length = of_nat buffer_sz, fe_kernel_ts = ucast (bpf_ktime_get_ns h),
               fe_session_id = fgraph_session_id S c h sess (fg_sessions st),
               fe_func_ip = fg_func_ip c, fe_cpu = bpf_get_smp_processor_id h, fe_depth = depth\<rparr> buffer;
            buffer = hook_output_fn_args hk args retval sizeof_fgraph_event buffer
        in (BPF_OK, st\<lparr>fg_events := fg_events st @ [buffer]\<rparr>))"

end
