(* ===== verification/Fgraph_Props.thy ===== *)
theory Fgraph_Props
  imports Fgraph
begin

text \<open>
  The two stack searches of the function-graph tracer against one reference walk: both follow
  the chain of frame pointers, stop at the first frame with an open session, and count the
  frames that are not tracing trampolines.
\<close>

section \<open>The reference walk\<close>

datatype walk_result =
    Session u64 nat   \<comment> \<open>the frame whose session was found, and the depth below it\<close>
  | TooDeep
  | GaveUp u64 nat    \<comment> \<open>out of tries at this frame and depth\<close>

fun frame_walk ::
  "(u64 \<Rightarrow> u64) \<Rightarrow> (u64 \<Rightarrow> bool) \<Rightarrow> (u64 \<Rightarrow> bool) \<Rightarrow> nat \<Rightarrow> nat \<Rightarrow> u64 \<Rightarrow> nat \<Rightarrow> walk_result" where
  "frame_walk nxt traced has_sess limit 0 fp d = GaveUp fp d"
| "frame_walk nxt traced has_sess limit (Suc n) fp d =
     (if has_sess (nxt fp) then Session (nxt fp) d
      else if traced fp then frame_walk nxt traced has_sess limit n (nxt fp) d
      else if limit \<le> d then TooDeep
      else frame_walk nxt traced has_sess limit n (nxt fp) (Suc d))"

text \<open>Splitting a walk into chunks does not change its result.\<close>

lemma frame_walk_add:
  "frame_walk nxt traced hs lim (m + n) fp d =
     (case frame_walk nxt traced hs lim m fp d of GaveUp fp' d' \<Rightarrow> frame_walk nxt traced hs lim n fp' d'
      | r \<Rightarrow> r)"
  by (induction m arbitrary: fp d) auto

text \<open>More tries never change a decided result.\<close>

lemma frame_walk_more:
  "frame_walk nxt traced hs lim m fp d = Session f k \<Longrightarrow> m \<le> n \<Longrightarrow>
     frame_walk nxt traced hs lim n fp d = Session f k"
  using frame_walk_add [of nxt traced hs lim m "n - m" fp d] by simp

lemma frame_walk_depth:
  "frame_walk nxt traced hs lim n fp d = Session f k \<Longrightarrow> d \<le> lim \<Longrightarrow> k \<le> lim"
  "frame_walk nxt traced hs lim n fp d = GaveUp f k \<Longrightarrow> d \<le> lim \<Longrightarrow> k \<le> lim"
  by (induction n arbitrary: fp d) (auto split: if_splits)

text \<open>
  What both searches promise: the first frame of the chain (of the first \<open>n\<close>) that has a
  session, provided at most \<open>limit\<close> of the frames before it are untraced.
\<close>

definition untraced :: "(u64 \<Rightarrow> u64) \<Rightarrow> (u64 \<Rightarrow> bool) \<Rightarrow> u64 \<Rightarrow> nat \<Rightarrow> nat" where
  "untraced nxt traced fp j = length (filter (\<lambda>i. \<not> traced ((nxt ^^ i) fp)) [0..<j])"

definition nearest_session ::
  "(u64 \<Rightarrow> u64) \<Rightarrow> (u64 \<Rightarrow> bool) \<Rightarrow> (u64 \<Rightarrow> bool) \<Rightarrow> nat \<Rightarrow> nat \<Rightarrow> u64 \<Rightarrow> (u64 \<times> nat) option" where
  "nearest_session nxt traced has_sess limit n fp =
     (case find (\<lambda>j. has_sess ((nxt ^^ Suc j) fp)) [0..<n] of None \<Rightarrow> None
      | Some j \<Rightarrow> if untraced nxt traced fp j \<le> limit
          then Some ((nxt ^^ Suc j) fp, untraced nxt traced fp j) else None)"

lemma upt_0_Suc: "[0..<Suc j] = 0 # map Suc [0..<j]"
  by (simp add: map_Suc_upt upt_conv_Cons del: upt_Suc)

lemma funpow_next: "(nxt ^^ i) (nxt fp) = (nxt ^^ Suc i) fp"
  by (simp add: funpow_swap1)

lemma untraced_0 [simp]: "untraced nxt traced fp 0 = 0"
  by (simp add: untraced_def)

lemma untraced_Suc:
  "untraced nxt traced fp (Suc j) = (if traced fp then 0 else 1) + untraced nxt traced (nxt fp) j"
  unfolding untraced_def upt_0_Suc by (simp add: filter_map comp_def funpow_next del: funpow.simps(2))

lemma find_map: "find P (map f xs) = map_option f (find (\<lambda>x. P (f x)) xs)"
  by (induction xs) auto

lemma frame_walk_find:
  assumes "d \<le> lim"
  shows "(case frame_walk nxt traced hs lim n fp d of Session f k \<Rightarrow> Some (f, k) | _ \<Rightarrow> None) =
    (case find (\<lambda>j. hs ((nxt ^^ Suc j) fp)) [0..<n] of None \<Rightarrow> None
     | Some j \<Rightarrow> if d + untraced nxt traced fp j \<le> lim
         then Some ((nxt ^^ Suc j) fp, d + untraced nxt traced fp j) else None)"
  using assms
proof (induction n arbitrary: fp d)
  case (Suc n)
  have hd: "find (\<lambda>j. hs ((nxt ^^ Suc j) fp)) [0..<Suc n] =
      (if hs (nxt fp) then Some 0
       else map_option Suc (find (\<lambda>j. hs ((nxt ^^ Suc j) (nxt fp))) [0..<n]))"
    unfolding upt_0_Suc by (simp add: find_map funpow_swap1)
  show ?case
    using Suc.IH [of d "nxt fp"] Suc.IH [of "Suc d" "nxt fp"] Suc.prems unfolding hd
    by (auto simp: untraced_Suc funpow_swap1 split: option.splits)
qed simp

lemma frame_walk_nearest:
  "(case frame_walk nxt traced hs lim n fp 0 of Session f k \<Rightarrow> Some (f, k) | _ \<Rightarrow> None) =
    nearest_session nxt traced hs lim n fp"
  using frame_walk_find [of 0 lim nxt traced hs n fp] by (simp only: nearest_session_def add_0 le0)

lemma nearest_session_more:
  assumes "nearest_session nxt traced hs lim m fp = Some r" "m \<le> n"
  shows "nearest_session nxt traced hs lim n fp = Some r"
  using assms(1) frame_walk_more [OF _ assms(2), of nxt traced hs lim fp 0]
  unfolding frame_walk_nearest [symmetric] by (auto split: walk_result.splits)

section \<open>The two searches\<close>

text \<open>The walk of an invocation, with its frames, trampolines and open sessions.\<close>

definition fgraph_walk ::
  "('s, bpfsnoop_sess) bpf_hash \<Rightarrow> ('i, u32) bpf_hash \<Rightarrow> helpers \<Rightarrow> ('s, 'i) fgraph \<Rightarrow> nat \<Rightarrow> nat
     \<Rightarrow> u64 \<Rightarrow> nat \<Rightarrow> walk_result" where
  "fgraph_walk S I h st = frame_walk (frame_fp h)
     (\<lambda>fp. is_fgraph_ip I (frame_ip h fp) (fg_tracee_ips st))
     (\<lambda>fp. get_session S fp (fg_sessions st) \<noteq> 0)"

lemma fgraph_walk_0 [simp]: "fgraph_walk S I h st lim 0 fp d = GaveUp fp d"
  by (simp add: fgraph_walk_def)

lemma fgraph_walk_Suc [simp]:
  "fgraph_walk S I h st lim (Suc n) fp d =
     (if get_session S (frame_fp h fp) (fg_sessions st) \<noteq> 0 then Session (frame_fp h fp) d
      else if is_fgraph_ip I (frame_ip h fp) (fg_tracee_ips st)
        then fgraph_walk S I h st lim n (frame_fp h fp) d
      else if lim \<le> d then TooDeep
      else fgraph_walk S I h st lim n (frame_fp h fp) (Suc d))"
  by (simp add: fgraph_walk_def)

lemma unat_plus_1: "unat d < 2 ^ 31 \<Longrightarrow> unat (d + 1 :: u32) = Suc (unat d)"
  by (simp add: unat_word_ariths)

text \<open>How a search's session pointer and depth show the result of the walk.\<close>

definition shows_result :: "('s, bpfsnoop_sess) bpf_hash \<Rightarrow> 's \<Rightarrow> walk_result \<Rightarrow> u64 \<times> u32 \<Rightarrow> bool" where
  "shows_result S m r res \<longleftrightarrow>
     (case r of Session f k \<Rightarrow> res = (get_session S f m, of_nat k) | _ \<Rightarrow> fst res = 0)"

lemma limited_walk_shows:
  assumes "unat depth \<le> unat max_depth" "unat max_depth < 2 ^ 31"
  shows "shows_result S (fg_sessions st)
    (fgraph_walk S I h st (unat max_depth) n fp (unat depth)) (limited_walk S I h st max_depth n fp depth)"
  using assms
proof (induction n arbitrary: fp depth)
  case 0
  then show ?case by (simp add: shows_result_def)
next
  case (Suc n)
  let ?f = "frame_fp h fp"
  have u: "unat (depth + 1) = Suc (unat depth)" using Suc.prems by (intro unat_plus_1) linarith
  have lt: "max_depth < depth + 1 \<longleftrightarrow> unat max_depth \<le> unat depth"
    by (simp only: word_less_nat_alt u less_Suc_eq_le)
  consider (found) "get_session S ?f (fg_sessions st) \<noteq> 0"
    | (tramp) "get_session S ?f (fg_sessions st) = 0" "is_fgraph_ip I (frame_ip h fp) (fg_tracee_ips st)"
    | (deep) "get_session S ?f (fg_sessions st) = 0" "\<not> is_fgraph_ip I (frame_ip h fp) (fg_tracee_ips st)"
        "unat max_depth \<le> unat depth"
    | (level) "get_session S ?f (fg_sessions st) = 0" "\<not> is_fgraph_ip I (frame_ip h fp) (fg_tracee_ips st)"
        "unat depth < unat max_depth" by linarith
  then show ?case
  proof cases
    case found
    then show ?thesis by (simp add: shows_result_def Let_def)
  next
    case tramp
    then show ?thesis using Suc.IH [of depth ?f] Suc.prems by (simp add: Let_def)
  next
    case deep
    then show ?thesis by (simp add: shows_result_def Let_def lt)
  next
    case level
    then show ?thesis using Suc.IH [of "depth + 1" ?f] Suc.prems by (simp add: Let_def lt u)
  qed
qed

lemma sint_small: "unat (w :: s32) < 2 ^ 31 \<Longrightarrow> sint w = int (unat w)"
proof -
  assume "unat w < 2 ^ 31"
  then have "int (unat w) < int (2 ^ 31)" by (simp only: of_nat_less_iff)
  then have "int (unat w) < 2 ^ 31" unfolding of_nat_power of_nat_numeral .
  then have "uint w < 2 ^ 31" by (simp only: uint_nat)
  moreover have "- (2 ^ 31) \<le> uint w" by (rule order_trans [of _ 0]) simp_all
  ultimately have "sint w = uint w"
    unfolding sint_uint by (intro signed_take_bit_int_eq_self) simp_all
  then show ?thesis by (simp only: uint_nat)
qed

text \<open>The state a chunk of the split search leaves, for each result of the chunk's walk.\<close>

definition chunk_result ::
  "('s, bpfsnoop_sess) bpf_hash \<Rightarrow> 's \<Rightarrow> bpfsnoop_fgraph_tailcall_data \<Rightarrow> walk_result
     \<Rightarrow> bpfsnoop_fgraph_tailcall_data \<Rightarrow> bool" where
  "chunk_result S m data r data' \<longleftrightarrow>
     (case r of Session f k \<Rightarrow> td_found data' \<and> td_sess data' = get_session S f m \<and> td_depth data' = of_nat k
      | TooDeep \<Rightarrow> \<not> td_found data' \<and> td_oo_depth data'
      | GaveUp f k \<Rightarrow> data' = data\<lparr>td_fp := f, td_depth := of_nat k\<rparr>)"

lemma chunk_result_upd:
  "chunk_result S m (data\<lparr>td_fp := f, td_depth := d\<rparr>) r data' = chunk_result S m data r data'"
  "chunk_result S m (data\<lparr>td_fp := f\<rparr>) r data' = chunk_result S m data r data'"
  "chunk_result S m (data\<lparr>td_depth := d\<rparr>) r data' = chunk_result S m data r data'"
  by (auto simp: chunk_result_def split: walk_result.split)

lemma tailcall_walk_chunk:
  assumes "unat (td_depth data) \<le> unat (td_max_depth data)" "unat (td_max_depth data) < 2 ^ 31 - 1"
    and "\<not> td_found data" "\<not> td_oo_depth data" "td_fp data = fp"
  shows "chunk_result S (fg_sessions st) data
    (fgraph_walk S I h st (unat (td_max_depth data)) n fp (unat (td_depth data)))
    (tailcall_walk S I h st n fp data)"
  using assms
proof (induction n arbitrary: fp data)
  case 0
  then show ?case by (simp add: chunk_result_def)
next
  case (Suc n)
  let ?f = "frame_fp h fp"
  have u: "unat (td_depth data + 1) = Suc (unat (td_depth data))"
    using Suc.prems by (intro unat_plus_1) linarith
  have cmp: "sint (td_max_depth data) < sint (td_depth data + 1) \<longleftrightarrow>
      unat (td_max_depth data) \<le> unat (td_depth data)"
  proof -
    have "unat (td_depth data + 1) < 2 ^ 31" "unat (td_max_depth data) < 2 ^ 31"
      using Suc.prems u by linarith+
    then show ?thesis by (simp only: sint_small of_nat_less_iff u less_Suc_eq_le)
  qed
  note IH1 = Suc.IH [of "data\<lparr>td_fp := ?f\<rparr>" ?f]
  note IH2 = Suc.IH [of "data\<lparr>td_depth := td_depth data + 1, td_fp := ?f\<rparr>" ?f]
  consider (found) "get_session S ?f (fg_sessions st) \<noteq> 0"
    | (tramp) "get_session S ?f (fg_sessions st) = 0" "is_fgraph_ip I (frame_ip h fp) (fg_tracee_ips st)"
    | (deep) "get_session S ?f (fg_sessions st) = 0" "\<not> is_fgraph_ip I (frame_ip h fp) (fg_tracee_ips st)"
        "unat (td_max_depth data) \<le> unat (td_depth data)"
    | (level) "get_session S ?f (fg_sessions st) = 0" "\<not> is_fgraph_ip I (frame_ip h fp) (fg_tracee_ips st)"
        "unat (td_depth data) < unat (td_max_depth data)" by linarith
  then show ?case
  proof cases
    case found
    then show ?thesis by (simp add: chunk_result_def)
  next
    case tramp
    then show ?thesis using IH1 Suc.prems by (simp add: chunk_result_upd Let_def)
  next
    case deep
    then show ?thesis using cmp Suc.prems by (simp add: chunk_result_def Let_def)
  next
    case level
    have comm: "data\<lparr>td_depth := d, td_fp := f\<rparr> = data\<lparr>td_fp := f, td_depth := d\<rparr>" for d f by simp
    from level show ?thesis
      using IH2 Suc.prems cmp u by (simp add: Let_def chunk_result_upd)
  qed
qed

lemma fgraph_walk_tailcall [simp]:
  "fgraph_walk S I h (st\<lparr>fg_tailcall := x\<rparr>) = fgraph_walk S I h st"
  by (simp add: fgraph_walk_def)

text \<open>The driver's loop is the walk with a hundred tries per tail call.\<close>

lemma tailcall_loop_walk:
  assumes "fg_prog_array st" "fg_tailcall st = Some data" "\<not> td_found data" "\<not> td_oo_depth data"
    and "unat (td_depth data) \<le> unat (td_max_depth data)" "unat (td_max_depth data) < 2 ^ 31 - 1"
  shows "\<exists>s k x. tailcall_loop S I h n st depth = (s, k, st\<lparr>fg_tailcall := x\<rparr>) \<and>
    shows_result S (fg_sessions st)
      (fgraph_walk S I h st (unat (td_max_depth data)) (n * 100) (td_fp data) (unat (td_depth data))) (s, k)"
  using assms
proof (induction n arbitrary: st data)
  case 0
  have "st = st\<lparr>fg_tailcall := fg_tailcall st\<rparr>" by simp
  then have "\<exists>x. st = st\<lparr>fg_tailcall := x\<rparr>" by (rule exI)
  then show ?case by (simp add: shows_result_def)
next
  case (Suc n)
  define data' where "data' = tailcall_walk S I h st 100 (td_fp data) data"
  define st' where "st' = st\<lparr>fg_tailcall := Some data'\<rparr>"
  let ?m = "unat (td_max_depth data)"
  let ?r = "fgraph_walk S I h st ?m 100 (td_fp data) (unat (td_depth data))"
  have chunk: "chunk_result S (fg_sessions st) data ?r data'"
    unfolding data'_def using Suc.prems by (intro tailcall_walk_chunk) auto
  have split: "fgraph_walk S I h st ?m (Suc n * 100) (td_fp data) (unat (td_depth data)) =
      (case ?r of GaveUp fp' d' \<Rightarrow> fgraph_walk S I h st ?m (n * 100) fp' d' | r \<Rightarrow> r)"
    unfolding fgraph_walk_def mult_Suc by (rule frame_walk_add)
  have step: "tailcall_loop S I h (Suc n) st depth =
      (if td_found data' then (td_sess data', td_depth data', st')
       else if td_oo_depth data' then (0, depth, st') else tailcall_loop S I h n st' depth)"
    using Suc.prems(1,2)
    by (simp add: get_session_from_tailcall_def bpfsnoop_fgraph_tailcallee_def data'_def st'_def)
  show ?case
  proof (cases ?r)
    case (Session f k)
    then show ?thesis
      using chunk unfolding step split by (auto simp: chunk_result_def shows_result_def st'_def)
  next
    case TooDeep
    then show ?thesis
      using chunk unfolding step split by (auto simp: chunk_result_def shows_result_def st'_def)
  next
    case (GaveUp f k)
    have k: "k \<le> ?m"
      using frame_walk_depth(2) [OF GaveUp [unfolded fgraph_walk_def]] Suc.prems(5) by simp
    then have uk: "unat (of_nat k :: s32) = k"
      using Suc.prems(6) by (simp add: unsigned_of_nat take_bit_nat_eq_self_iff)
    have data': "data' = data\<lparr>td_fp := f, td_depth := of_nat k\<rparr>"
      using chunk GaveUp by (simp add: chunk_result_def)
    have "\<exists>s d x. tailcall_loop S I h n st' depth = (s, d, st'\<lparr>fg_tailcall := x\<rparr>) \<and>
        shows_result S (fg_sessions st') (fgraph_walk S I h st' (unat (td_max_depth data')) (n * 100)
          (td_fp data') (unat (td_depth data'))) (s, d)"
      using Suc.prems k uk by (intro Suc.IH) (simp_all add: st'_def data')
    then show ?thesis
      using GaveUp Suc.prems(3,4) unfolding step split
      by (simp add: data' uk) (simp add: st'_def)
  qed
qed

section \<open>The search of an invocation\<close>

text \<open>The session an invocation looks for, within \<open>n\<close> frames of the one it starts at.\<close>

definition fgraph_nearest ::
  "('s, bpfsnoop_sess) bpf_hash \<Rightarrow> ('i, u32) bpf_hash \<Rightarrow> bpfsnoop_fgraph_configs \<Rightarrow> helpers
     \<Rightarrow> ('s, 'i) fgraph \<Rightarrow> nat \<Rightarrow> u64 \<Rightarrow> (u64 \<times> nat) option" where
  "fgraph_nearest S I c h st n fp = nearest_session (frame_fp h)
     (\<lambda>fp. is_fgraph_ip I (frame_ip h fp) (fg_tracee_ips st))
     (\<lambda>fp. get_session S fp (fg_sessions st) \<noteq> 0) (unat (fg_max_depth c)) n fp"

definition found_session ::
  "('s, bpfsnoop_sess) bpf_hash \<Rightarrow> 's \<Rightarrow> (u64 \<times> nat) option \<Rightarrow> u64 \<times> u32 \<Rightarrow> bool" where
  "found_session S m near res \<longleftrightarrow>
     (case near of None \<Rightarrow> fst res = 0 | Some (f, k) \<Rightarrow> res = (get_session S f m, of_nat k))"

lemma shows_result_found:
  "shows_result S m (fgraph_walk S I h st (unat (fg_max_depth c)) n fp 0) res \<Longrightarrow>
     found_session S m (fgraph_nearest S I c h st n fp) res"
  unfolding fgraph_nearest_def frame_walk_nearest [symmetric] fgraph_walk_def
  by (auto simp: shows_result_def found_session_def split: walk_result.splits)

lemma limited_search:
  assumes "\<not> truthy (fg_tailcall_in_bpf2bpf c)" "unat (fg_max_depth c) \<le> 10"
  shows "\<exists>s k. try_get_session S I arch c h ctx off st depth = (s, k, st) \<and>
    found_session S (fg_sessions st)
      (fgraph_nearest S I c h st (2 * unat (fg_max_depth c)) (fgraph_start_fp arch c h ctx off)) (s, k)"
proof -
  let ?m = "fg_max_depth c" and ?fp = "fgraph_start_fp arch c h ctx off"
  have u: "unat (?m * 2) = 2 * unat ?m" using assms(2) by (simp add: unat_word_ariths)
  have le: "\<not> ?m > 10" using assms(2) by (simp add: word_less_nat_alt)
  have "shows_result S (fg_sessions st) (fgraph_walk S I h st (unat ?m) (2 * unat ?m) ?fp 0)
      (limited_walk S I h st ?m (2 * unat ?m) ?fp 0)"
    using limited_walk_shows [of 0 ?m] assms(2) by simp
  from shows_result_found [OF this] show ?thesis
    using assms(1) le u by (simp add: try_get_session_def try_get_session_limited_def split_beta Let_def)
qed

lemma tailcall_search:
  assumes "truthy (fg_tailcall_in_bpf2bpf c)" "fg_prog_array st" "fg_tailcall st \<noteq> None"
    and "unat (fg_max_depth c) < 2 ^ 31 - 1"
  shows "\<exists>s k x. try_get_session S I arch c h ctx off st depth = (s, k, st\<lparr>fg_tailcall := x\<rparr>) \<and>
    found_session S (fg_sessions st)
      (fgraph_nearest S I c h st 1000 (fgraph_start_fp arch c h ctx off)) (s, k)"
proof -
  define data where "data = \<lparr>td_fp = fgraph_start_fp arch c h ctx off, td_depth = 0,
    td_max_depth = fg_max_depth c, td_sess = 0, td_found = False, td_oo_depth = False\<rparr>"
  let ?st = "st\<lparr>fg_tailcall := Some data\<rparr>"
  from assms(3) obtain d0 where d0: "fg_tailcall st = Some d0" by blast
  have step: "try_get_session S I arch c h ctx off st depth = tailcall_loop S I h 10 ?st depth"
    using assms(1) d0 by (simp add: try_get_session_def data_def)
  have "\<exists>s k x. tailcall_loop S I h 10 ?st depth = (s, k, ?st\<lparr>fg_tailcall := x\<rparr>) \<and>
      shows_result S (fg_sessions ?st) (fgraph_walk S I h ?st (unat (td_max_depth data)) (10 * 100)
        (td_fp data) (unat (td_depth data))) (s, k)"
    using assms by (intro tailcall_loop_walk) (simp_all add: data_def)
  then obtain s k x where r: "tailcall_loop S I h 10 ?st depth = (s, k, ?st\<lparr>fg_tailcall := x\<rparr>)"
    and w: "shows_result S (fg_sessions st) (fgraph_walk S I h st (unat (fg_max_depth c)) 1000
        (fgraph_start_fp arch c h ctx off) 0) (s, k)"
    by (auto simp: data_def)
  from r shows_result_found [OF w] show ?thesis unfolding step by auto
qed

section \<open>Properties\<close>

text \<open>The frame an invocation of the program must report, in terms of the open sessions.\<close>

definition open_session_above ::
  "(u64 \<rightharpoonup> bpfsnoop_sess) \<Rightarrow> ('i, u32) bpf_hash \<Rightarrow> bpfsnoop_fgraph_configs \<Rightarrow> helpers
     \<Rightarrow> 'i \<Rightarrow> nat \<Rightarrow> u64 \<Rightarrow> (u64 \<times> nat) option" where
  "open_session_above open_s I c h ips n fp = nearest_session (frame_fp h)
     (\<lambda>fp. is_fgraph_ip I (frame_ip h fp) ips) (\<lambda>fp. open_s fp \<noteq> None) (unat (fg_max_depth c)) n fp"

text \<open>The two ways a program is set up, and the frames each search visits at most.\<close>

definition search_ready :: "bpfsnoop_fgraph_configs \<Rightarrow> ('s, 'i) fgraph \<Rightarrow> bool" where
  "search_ready c st \<longleftrightarrow>
     (if truthy (fg_tailcall_in_bpf2bpf c)
      then fg_prog_array st \<and> fg_tailcall st \<noteq> None \<and> unat (fg_max_depth c) < 2 ^ 31 - 1
      else unat (fg_max_depth c) \<le> 10)"

definition search_frames :: "bpfsnoop_fgraph_configs \<Rightarrow> nat" where
  "search_frames c = (if truthy (fg_tailcall_in_bpf2bpf c) then 1000 else 2 * unat (fg_max_depth c))"

lemma search_finds:
  assumes "search_ready c st"
  shows "\<exists>s k x. try_get_session S I arch c h ctx off st depth = (s, k, st\<lparr>fg_tailcall := x\<rparr>) \<and>
    found_session S (fg_sessions st)
      (fgraph_nearest S I c h st (search_frames c) (fgraph_start_fp arch c h ctx off)) (s, k)"
proof (cases "truthy (fg_tailcall_in_bpf2bpf c)")
  case True
  then show ?thesis
    using assms tailcall_search [of c st S I arch h ctx off depth]
    by (simp add: search_ready_def search_frames_def)
next
  case False
  then obtain s k where "try_get_session S I arch c h ctx off st depth = (s, k, st)"
    and "found_session S (fg_sessions st)
      (fgraph_nearest S I c h st (search_frames c) (fgraph_start_fp arch c h ctx off)) (s, k)"
    using assms limited_search [of c S I arch h ctx off st depth]
    by (auto simp: search_ready_def search_frames_def)
  then show ?thesis
    by (intro exI [of _ s] exI [of _ k] exI [of _ "fg_tailcall st"]) simp
qed

lemma fgraph_nearest_view:
  assumes "session_map S view ok" "ok (fg_sessions st)"
  shows "fgraph_nearest S I c h st n fp =
    open_session_above (view (fg_sessions st)) I c h (fg_tracee_ips st) n fp"
proof -
  have "get_session S f (fg_sessions st) \<noteq> 0 \<longleftrightarrow> view (fg_sessions st) f \<noteq> None" for f
    using bpf_hash_map.get_session_null [OF session_map.axioms [OF assms(1)] assms(2)] by simp
  then show ?thesis by (simp add: fgraph_nearest_def open_session_above_def)
qed

lemma nearest_session_has:
  "nearest_session nxt traced hs lim n fp = Some (f, k) \<Longrightarrow> hs f \<and> k \<le> lim"
  by (auto simp: nearest_session_def find_Some_iff split: option.splits if_splits)

text \<open>C18: the split search and the bounded search are interchangeable where both apply: a session
  the bounded search finds, with its depth, is what the tail-call search returns.\<close>

theorem fgraph_searches_agree:
  assumes "truthy (fg_tailcall_in_bpf2bpf c1)" "c2 = c1\<lparr>fg_tailcall_in_bpf2bpf := 0\<rparr>"
    and "unat (fg_max_depth c1) \<le> 10" "fg_prog_array st" "fg_tailcall st \<noteq> None"
    and "try_get_session S I arch c2 h ctx off st depth = (s, k, st2)" "s \<noteq> 0"
  shows "\<exists>st1. try_get_session S I arch c1 h ctx off st depth = (s, k, st1)"
proof -
  let ?near = "\<lambda>c n. fgraph_nearest S I c h st n (fgraph_start_fp arch c h ctx off)"
  have start: "fgraph_start_fp arch c2 h ctx off = fgraph_start_fp arch c1 h ctx off"
    and max: "fg_max_depth c2 = fg_max_depth c1" and flag: "\<not> truthy (fg_tailcall_in_bpf2bpf c2)"
    by (simp_all add: assms(2) fgraph_start_fp_def truthy_def)
  have "found_session S (fg_sessions st) (?near c2 (2 * unat (fg_max_depth c2))) (s, k)"
    using limited_search [OF flag, of S I arch h ctx off st depth] assms(3,6) max by auto
  then obtain f d where n: "?near c2 (2 * unat (fg_max_depth c2)) = Some (f, d)"
    and r: "s = get_session S f (fg_sessions st)" "k = of_nat d"
    using assms(7) by (auto simp: found_session_def split: option.splits)
  have "?near c1 1000 = Some (f, d)"
    using n assms(3) unfolding fgraph_nearest_def start max
    by (elim nearest_session_more) simp
  then show ?thesis
    using tailcall_search [OF assms(1,4,5), of S I arch h ctx off depth] assms(3) r
    by (auto simp: found_session_def)
qed

text \<open>C13: an invocation of the function-graph program reports exactly when a frame above the
  traced function (within the frames the search visits) has an open session at most
  \<open>max_depth\<close> untraced frames up and the ring buffer has room; the record then names the
  session of the nearest such frame, the number of untraced frames below it, and the traced
  function. No session is opened or closed. (Where the program reads the session through a
  saved pointer, a pointer to an open session has to read as that session.)\<close>

theorem fgraph_reports_nearest_session:
  assumes map: "session_map S view ok" and ok: "ok (fg_sessions st)"
    and hk: "\<And>args rv off. writes_within (hook_output_fn_args hk args rv off) off (unat (fg_buf_size (fg_fn_args c)))"
    and ready: "truthy (fg_ready st)" "ucast (fg_mypid c) \<noteq> drop_bit 32 (bpf_get_current_pid_tgid h)"
    and search: "search_ready c st"
    and ptr: "\<And>f s. truthy (fg_tailcall_in_bpf2bpf c) \<Longrightarrow> view (fg_sessions st) f = Some s \<Longrightarrow>
      probe_word h (get_session S f (fg_sessions st)) 8 = session_id s"
    and st': "st' = snd (bpfsnoop_fgraph S I hk arch c h ctx off st)"
    and near: "near = open_session_above (view (fg_sessions st)) I c h (fg_tracee_ips st)
      (search_frames c) (fgraph_start_fp arch c h ctx off)"
    and sz: "sz = sizeof_fgraph_event + unat (fg_buf_size (fg_fn_args c))"
  shows "fg_sessions st' = fg_sessions st \<and>
    (case near of None \<Rightarrow> fg_events st' = fg_events st
     | Some (f, k) \<Rightarrow> (case bpf_ringbuf_reserve h sz of None \<Rightarrow> fg_events st' = fg_events st
        | Some _ \<Rightarrow> \<exists>r. fg_events st' = fg_events st @ [r] \<and> length r = sz \<and>
            view (fg_sessions st) f = Some \<lparr>session_id = fe_session_id (go_graph_event r)\<rparr> \<and>
            fe_depth (go_graph_event r) = of_nat k \<and> k \<le> unat (fg_max_depth c) \<and>
            fe_func_ip (go_graph_event r) = fg_func_ip c \<and>
            fe_type (go_graph_event r) = event_type_code (if truthy (fg_entry c)
              then BPFSNOOP_EVENT_TYPE_GRAPH_ENTRY else BPFSNOOP_EVENT_TYPE_GRAPH_EXIT)))"
proof -
  note hm = session_map.axioms [OF map]
  obtain s k x where r: "try_get_session S I arch c h ctx off st 0 = (s, k, st\<lparr>fg_tailcall := x\<rparr>)"
    and found: "found_session S (fg_sessions st) near (s, k)"
    using search_finds [OF search, of S I arch h ctx off 0]
    unfolding fgraph_nearest_view [OF map ok] near by auto
  show ?thesis
  proof (cases near)
    case None
    with found r ready show ?thesis
      by (simp add: st' bpfsnoop_fgraph_def found_session_def split_beta)
  next
    case (Some fk)
    then obtain f d where fd: "near = Some (f, d)" by (cases fk) auto
    note nh = nearest_session_has [OF trans [OF near [unfolded open_session_above_def, symmetric] fd]]
    then have has: "view (fg_sessions st) f \<noteq> None" "d \<le> unat (fg_max_depth c)" by simp_all
    have s: "s = get_session S f (fg_sessions st)" "k = of_nat d"
      using found fd by (simp_all add: found_session_def)
    have s0: "s \<noteq> 0" using bpf_hash_map.get_session_null [OF hm ok] has(1) s(1) by simp
    then have v: "view (fg_sessions st) f = Some (map_value S (fg_sessions st) s)"
      using bpf_hash_map.get_session_Some [OF hm ok] s(1) by simp
    have id: "fgraph_session_id S c h s (fg_sessions st) = session_id (map_value S (fg_sessions st) s)"
      using ptr [OF _ v] by (simp add: fgraph_session_id_def s(1))
    note keep = go_graph_event_within [OF hk, of sizeof_fgraph_event] writes_withinD(1) [OF hk]
    show ?thesis
      using r ready s0 fd v has(2)
      by (auto simp: st' bpfsnoop_fgraph_def ringbuf_record_def keep go_graph_event_write id s(2) sz
          Let_def split: option.split)
  qed
qed

end
