(* ===== verification/Pkt_Props.thy ===== *)
theory Pkt_Props
  imports Pkt_Output
begin

text \<open>
  The packet report against the wire formats: which packets get the right tuple, where the
  report reads when the IPv4 header is longer than seven words, and what skipping a VXLAN
  tunnel finds.
\<close>

section \<open>The first byte of the IPv4 header\<close>

lemma unat_and_mask: "unat (b AND mask n :: 'a::len word) = unat b mod 2 ^ n"
proof -
  have "unat (b AND mask n) = unat (take_bit n b)" by (simp only: take_bit_eq_mask)
  also have "\<dots> = take_bit n (unat b)" by (rule unsigned_take_bit_eq)
  finally show ?thesis by (simp add: take_bit_eq_mod)
qed

lemma unat_and_7: "unat (b AND 0x7 :: u8) = unat b mod 8"
  using unat_and_mask [of b 3] by (simp add: mask_eq_exp_minus_1)

lemma unat_and_F: "unat (b AND 0xF :: u8) = unat b mod 16"
  using unat_and_mask [of b 4] by (simp add: mask_eq_exp_minus_1)

lemma header_offset:
  assumes "unat (b :: u8) = k" "k < 16"
  shows "push_bit 2 (ucast b) = (of_nat (4 * k) :: u64)"
proof -
  have e: "ucast b = (of_nat k :: u64)" unfolding assms(1) [symmetric] by (rule of_nat_unat [symmetric])
  show ?thesis unfolding e by (simp add: push_bit_eq_mult mult.commute)
qed

text \<open>The offset the report uses, and the one the tunnel check uses.\<close>

lemma report_offset: "push_bit 2 (ucast (b AND 0x7 :: u8)) = (of_nat (4 * (unat b mod 8)) :: u64)"
  by (rule header_offset [OF unat_and_7]) (rule less_trans [of _ 8], simp_all)

lemma tunnel_offset: "push_bit 2 (ucast (b AND 0xF :: u8)) = (of_nat (4 * (unat b mod 16)) :: u64)"
  by (rule header_offset [OF unat_and_F]) simp

lemma version_check: "drop_bit 4 b AND 0x7 = 4 \<longleftrightarrow> unat (b :: u8) div 16 mod 8 = 4"
proof -
  have "unat (drop_bit 4 b AND 0x7) = unat b div 16 mod 8"
    by (simp only: unat_and_7 unat_drop_bit_eq) (simp add: drop_bit_eq_div)
  then show ?thesis unfolding word_eq_iff_unsigned [where 'a = nat] by simp
qed

section \<open>The report of an IPv4 packet\<close>

text \<open>The bytes of the packet a report reads: the header, and what it needs of the next one.\<close>

definition tuple_len :: "u8 list \<Rightarrow> nat \<Rightarrow> nat" where
  "tuple_len bs hdr = (if bs ! 9 = 6 then max 20 (hdr + 14) else if bs ! 9 = 17 then max 20 (hdr + 4) else 20)"

text \<open>The report as a function of the bytes, with the offset of the next header it uses.\<close>

definition tuple_at :: "nat \<Rightarrow> u8 list \<Rightarrow> bpfsnoop_pkt_data \<Rightarrow> bpfsnoop_pkt_data" where
  "tuple_at hdr bs pkt =
     (if bs ! 9 = 6 then pkt\<lparr>pkt_addrs := load_le 12 8 bs, pkt_ports := load_le hdr 4 bs,
        pkt_protocol := 6, pkt_tcp_flags := bs ! (hdr + 13)\<rparr>
      else if bs ! 9 = 17 then pkt\<lparr>pkt_addrs := load_le 12 8 bs, pkt_ports := load_le hdr 4 bs, pkt_protocol := 17\<rparr>
      else if bs ! 9 = 1 then pkt\<lparr>pkt_addrs := load_le 12 8 bs, pkt_protocol := 1\<rparr>
      else pkt)"

lemma rfc_tuple_at: "rfc_tuple bs = tuple_at (ip_hdr_len bs) bs"
  by (simp add: fun_eq_iff rfc_tuple_def tuple_at_def)

lemma load_byte: "i < length bs \<Longrightarrow> (load_le i (Suc 0) bs :: u8) = bs ! i"
  by (simp add: load_le_def bslice_def take_Suc_conv_app_nth hd_drop_conv_nth take_Suc)

lemma load_first: "1 \<le> length bs \<Longrightarrow> (load_le 0 (Suc 0) bs :: u8) = bs ! 0"
  by (rule load_byte) linarith

lemma load_first_20: "20 \<le> length bs \<Longrightarrow> (load_le 0 (Suc 0) bs :: u8) = bs ! 0"
  by (rule load_first) simp

definition vxlan_ip :: "u8 list \<Rightarrow> bool" where
  "vxlan_ip bs \<longleftrightarrow> bs ! 9 = 17 \<and> bs ! (ip_hdr_len bs + 2) = 0x12 \<and> bs ! (ip_hdr_len bs + 3) = 0xB5"

text \<open>An Ethernet frame's type, big-endian, at byte 12.\<close>

definition ether_type :: "u8 list \<Rightarrow> u8 list" where
  "ether_type bs = bslice 12 2 bs"

definition ET_IP :: "u8 list" where "ET_IP = [0x08, 0x00]"
definition ET_8021Q :: "u8 list" where "ET_8021Q = [0x81, 0x00]"

lemma htons_bytes:
  "bpf_htons VXLAN_PORT = le_word [0x12, 0xB5]" "bpf_htons ETH_P_IP = le_word ET_IP"
  "bpf_htons ETH_P_8021Q = le_word ET_8021Q"
  by (simp_all add: bpf_htons_def VXLAN_PORT_def ETH_P_IP_def ETH_P_8021Q_def ET_IP_def ET_8021Q_def
      le_bytes_def upt_rec)

lemma load_u16_eq:
  assumes "off + 2 \<le> length bs" "length cs = 2"
  shows "(load_le off 2 bs :: u16) = le_word cs \<longleftrightarrow> bslice off 2 bs = cs"
  using assms le_word_inj [of "bslice off 2 bs" cs, where 'a = 16]
  by (auto simp: load_le_def length_slice)

lemma slice_2: "off + 2 \<le> length bs \<Longrightarrow> off' = off + 1 \<Longrightarrow> bslice off 2 bs = [bs ! off, bs ! off']"
  by (rule nth_equalityI) (auto simp: bslice_def less_Suc_eq numeral_2_eq_2)

context kernel_memory
begin

lemma output_tuple_reads:
  assumes h: "bpf_probe_read_kernel h = probe" and L: "net_layout L" and at: "bytes_at mem iph bs"
    and ver: "unat (bs ! 0) div 16 mod 8 = 4" and hdr: "hdr = 4 * (unat (bs ! 0) mod 8)"
    and len: "tuple_len bs hdr \<le> length bs"
  shows "output_tuple h L iph pkt = tuple_at hdr bs pkt"
proof -
  have l20: "20 \<le> length bs" using len by (auto simp: tuple_len_def split: if_splits)
  note rd = probe_word_at [OF h at]
  have b: "(probe_word h iph 1 :: u8) = bs ! 0" using rd [where 'a = 8, of 0 1 iph] l20 by (simp add: load_first_20)
  have proto: "(core_read h L 1 ''iphdr'' ''protocol'' iph :: u8) = bs ! 9"
    using core_read_at [where 'a = 8, OF h at, of L] L l20 by (simp add: net_layout_def load_byte)
  have addrs: "(probe_word h (iph + 12) 8 :: u64) = load_le 12 8 bs"
    using l20 by (intro rd) simp_all
  have off: "iph + push_bit 2 (ucast (bs ! 0 AND 0x7)) = iph + of_nat hdr"
    unfolding report_offset hdr ..
  have ports: "(probe_word h (iph + of_nat hdr) 4 :: u32) = load_le hdr 4 bs" if "hdr + 4 \<le> length bs"
    using that by (intro rd) simp_all
  have flags: "(probe_word h (iph + of_nat hdr + 14 - 1) 1 :: u8) = bs ! (hdr + 13)" if "hdr + 14 \<le> length bs"
  proof -
    have "(probe_word h (iph + of_nat hdr + 14 - 1) 1 :: u8) = load_le (hdr + 13) 1 bs"
      using that by (intro rd) (simp_all add: algebra_simps)
    then show ?thesis using that by (simp add: load_byte)
  qed
  show ?thesis
    using len L ports flags
    by (auto simp: output_tuple_def b version_check ver proto off addrs tuple_at_def tuple_len_def Let_def
        net_layout_def IPPROTO_TCP_def IPPROTO_UDP_def IPPROTO_ICMP_def simp del: One_nat_def)
qed

lemma output_tuple_other:
  assumes h: "bpf_probe_read_kernel h = probe" and at: "bytes_at mem iph bs" and len: "1 \<le> length bs"
    and ver: "unat (bs ! 0) div 16 mod 8 \<noteq> 4"
  shows "output_tuple h L iph pkt = pkt"
proof -
  have "(probe_word h iph 1 :: u8) = bs ! 0"
    using probe_word_at [where 'a = 8, OF h at, of 0 1 iph] len by (simp add: load_first)
  with ver show ?thesis by (simp add: output_tuple_def version_check)
qed

text \<open>Skipping a tunnel, in terms of the bytes: 50 bytes when the packet is VXLAN.\<close>

lemma is_ip_vxlan_pkt_reads:
  assumes h: "bpf_probe_read_kernel h = probe" and L: "net_layout L" and at: "bytes_at mem ip bs"
    and len: "20 \<le> length bs" "ip_hdr_len bs + 4 \<le> length bs"
  shows "is_ip_vxlan_pkt h L ip \<longleftrightarrow> vxlan_ip bs"
proof -
  note rd = probe_word_at [OF h at]
  have b: "(probe_word h ip 1 :: u8) = bs ! 0"
    using rd [where 'a = 8, of 0 1 ip] len by (simp add: load_first_20)
  have proto: "(core_read h L 1 ''iphdr'' ''protocol'' ip :: u8) = bs ! 9"
    using core_read_at [where 'a = 8, OF h at, of L] L len by (simp add: net_layout_def load_byte)
  have off: "ip + push_bit 2 (ucast (bs ! 0 AND 0xF)) = ip + of_nat (ip_hdr_len bs)"
    unfolding tunnel_offset ip_hdr_len_def ..
  have "(core_read h L 2 ''udphdr'' ''dest'' (ip + of_nat (ip_hdr_len bs)) :: u16) = load_le (ip_hdr_len bs + 2) 2 bs"
    unfolding core_read_def using L len by (intro rd) (simp_all add: net_layout_def algebra_simps)
  moreover have "(load_le (ip_hdr_len bs + 2) 2 bs :: u16) = le_word [0x12, 0xB5] \<longleftrightarrow>
      bs ! (ip_hdr_len bs + 2) = 0x12 \<and> bs ! (ip_hdr_len bs + 3) = 0xB5"
  proof -
    have "bslice (ip_hdr_len bs + 2) 2 bs = [bs ! (ip_hdr_len bs + 2), bs ! (ip_hdr_len bs + 3)]"
      using len by (intro slice_2) simp_all
    then show ?thesis using len by (subst load_u16_eq) simp_all
  qed
  ultimately show ?thesis
    by (simp add: is_ip_vxlan_pkt_def b proto off vxlan_ip_def IPPROTO_UDP_def htons_bytes del: One_nat_def)
qed

lemma ether_type_reads:
  assumes h: "bpf_probe_read_kernel h = probe" and L: "net_layout L" and at: "bytes_at mem eth bs"
    and len: "14 \<le> length bs"
  shows "(core_read h L 2 ''ethhdr'' ''h_proto'' eth :: u16) = le_word (ether_type bs)"
  using core_read_at [where 'a = 16, OF h at, of L] L len by (simp add: net_layout_def load_le_def ether_type_def)

lemma bytes_at_drop: "bytes_at mem a bs \<Longrightarrow> bytes_at mem (a + of_nat k) (drop k bs)"
  by (auto simp: bytes_at_def add.assoc simp flip: of_nat_add)

lemma skip_tunnel_iph_reads:
  assumes "bpf_probe_read_kernel h = probe" "net_layout L" "bytes_at mem ip bs"
    and "20 \<le> length bs" "ip_hdr_len bs + 4 \<le> length bs"
  shows "skip_tunnel_iph h L T ip = ip + of_nat (if truthy T \<and> vxlan_ip bs then 50 else 0)"
  using is_ip_vxlan_pkt_reads [OF assms]
  by (simp add: skip_tunnel_iph_def skip_tunnel_hdr_def VXLAN_HDR_LEN_def)

lemma skip_tunnel_reads:
  assumes h: "bpf_probe_read_kernel h = probe" and L: "net_layout L" and at: "bytes_at mem eth bs"
    and len: "14 \<le> length bs"
    and ip: "ether_type bs = ET_IP \<Longrightarrow> 34 \<le> length bs \<and> ip_hdr_len (drop 14 bs) + 18 \<le> length bs"
  shows "skip_tunnel h L T eth =
    eth + of_nat (if truthy T \<and> ether_type bs = ET_IP \<and> vxlan_ip (drop 14 bs) then 50 else 0)"
proof -
  have et: "(core_read h L 2 ''ethhdr'' ''h_proto'' eth :: u16) = bpf_htons ETH_P_IP \<longleftrightarrow> ether_type bs = ET_IP"
    using le_word_inj [of "ether_type bs" ET_IP, where 'a = 16] len
    unfolding ether_type_reads [OF h L at len] htons_bytes by (auto simp: ether_type_def ET_IP_def length_slice)
  have v: "is_ip_vxlan_pkt h L (eth + 14) \<longleftrightarrow> vxlan_ip (drop 14 bs)" if "ether_type bs = ET_IP"
  proof -
    have "20 \<le> length (drop 14 bs)" "ip_hdr_len (drop 14 bs) + 4 \<le> length (drop 14 bs)"
      using ip [OF that] by auto
    from is_ip_vxlan_pkt_reads [OF h L bytes_at_drop [OF at, of 14] this] show ?thesis by simp
  qed
  show ?thesis
    using v by (simp add: skip_tunnel_def skip_tunnel_hdr_def is_vxlan_pkt_def et sizeof_ethhdr_def VXLAN_HDR_LEN_def)
qed

end

section \<open>The packets a report is right for\<close>

text \<open>An IPv4 packet with at most two words of options, long enough to hold its tuple.\<close>

definition short_ipv4 :: "u8 list \<Rightarrow> bool" where
  "short_ipv4 ip \<longleftrightarrow>
     ip_version ip = 4 \<and> ip_hdr_len ip \<le> 28 \<and> tuple_len ip (ip_hdr_len ip) \<le> length ip"

text \<open>The IPv4 packet an Ethernet frame carries, directly or behind one 802.1Q tag.\<close>

definition frame_ip :: "u8 list \<Rightarrow> u8 list option" where
  "frame_ip bs =
     (if ether_type bs = ET_IP then Some (drop 14 bs)
      else if ether_type bs = ET_8021Q \<and> bslice 16 2 bs = ET_IP then Some (drop 18 bs) else None)"

text \<open>What a VXLAN packet carries: an Ethernet frame after the outer headers, UDP and VXLAN.\<close>

definition vxlan_payload :: "u8 list \<Rightarrow> u8 list" where
  "vxlan_payload ip = drop (ip_hdr_len ip + 8 + 8) ip"

definition untunnel_frame :: "u32 \<Rightarrow> u8 list \<Rightarrow> u8 list" where
  "untunnel_frame T bs =
     (if truthy T \<and> ether_type bs = ET_IP \<and> vxlan_ip (drop 14 bs) then vxlan_payload (drop 14 bs) else bs)"

text \<open>The frames whose tunnel header the code can skip: the headers it reads are there, and the
  outer header of a tunnel has no options.\<close>

definition outer_headers :: "u32 \<Rightarrow> u8 list \<Rightarrow> bool" where
  "outer_headers T bs \<longleftrightarrow> 18 \<le> length bs \<and>
     (if ether_type bs = ET_IP then 34 \<le> length bs \<and> ip_hdr_len (drop 14 bs) + 18 \<le> length bs \<and>
        (if truthy T \<and> vxlan_ip (drop 14 bs) then ip_hdr_len (drop 14 bs) = 20 \<and> 68 \<le> length bs else True)
      else True)"

text \<open>The frames the link-layer routines report, and those with no IPv4 packet in them.\<close>

definition readable_frame :: "u32 \<Rightarrow> u8 list \<Rightarrow> bool" where
  "readable_frame T bs \<longleftrightarrow> outer_headers T bs \<and>
     (case frame_ip (untunnel_frame T bs) of None \<Rightarrow> True | Some ip \<Rightarrow> short_ipv4 ip)"

lemma untunnel_frame_drop:
  assumes "outer_headers T bs"
  shows "untunnel_frame T bs =
    drop (if truthy T \<and> ether_type bs = ET_IP \<and> vxlan_ip (drop 14 bs) then 50 else 0) bs"
  using assms by (auto simp: outer_headers_def untunnel_frame_def vxlan_payload_def split: if_splits)

context kernel_memory
begin

text \<open>Skipping the tunnel of a frame steps to the frame in it.\<close>

lemma skip_tunnel_frame:
  assumes h: "bpf_probe_read_kernel h = probe" and L: "net_layout L" and at: "bytes_at mem eth bs"
    and ok: "outer_headers T bs"
  shows "skip_tunnel h L T eth = eth + of_nat (length bs - length (untunnel_frame T bs))"
    and "bytes_at mem (skip_tunnel h L T eth) (untunnel_frame T bs)"
    and "18 \<le> length (untunnel_frame T bs)"
proof -
  define k :: nat where "k = (if truthy T \<and> ether_type bs = ET_IP \<and> vxlan_ip (drop 14 bs) then 50 else 0)"
  have un: "untunnel_frame T bs = drop k bs" unfolding k_def by (rule untunnel_frame_drop [OF ok])
  have k: "k + 18 \<le> length bs" using ok by (auto simp: k_def outer_headers_def split: if_splits)
  have skip: "skip_tunnel h L T eth = eth + of_nat k"
    unfolding k_def using ok by (intro skip_tunnel_reads [OF h L at]) (auto simp: outer_headers_def)
  then show "skip_tunnel h L T eth = eth + of_nat (length bs - length (untunnel_frame T bs))"
    using k by (simp add: un)
  show "bytes_at mem (skip_tunnel h L T eth) (untunnel_frame T bs)"
    unfolding skip un by (rule bytes_at_drop [OF at])
  show "18 \<le> length (untunnel_frame T bs)" using k by (simp add: un)
qed

lemma output_tuple_short:
  assumes "bpf_probe_read_kernel h = probe" "net_layout L" "bytes_at mem iph ip" "short_ipv4 ip"
  shows "output_tuple h L iph pkt = rfc_tuple ip pkt"
proof -
  have m: "unat (ip ! 0) mod 8 = unat (ip ! 0) mod 16"
  proof -
    have "unat (ip ! 0) mod 16 < 8" using assms(4) by (simp add: short_ipv4_def ip_hdr_len_def)
    then have "unat (ip ! 0) mod 16 mod 8 = unat (ip ! 0) mod 16" by simp
    then show ?thesis by (simp add: mod_mod_cancel)
  qed
  show ?thesis
    using assms(4) unfolding rfc_tuple_at
    by (intro output_tuple_reads [OF assms(1-3)]) (simp_all add: short_ipv4_def ip_version_def ip_hdr_len_def m)
qed

lemma output_xdp_data_reads:
  assumes h: "bpf_probe_read_kernel h = probe" and L: "net_layout L" and at: "bytes_at mem eth bs"
    and len: "18 \<le> length bs" and ok: "case frame_ip bs of None \<Rightarrow> True | Some ip \<Rightarrow> short_ipv4 ip"
  shows "output_xdp_data h L eth pkt = (case frame_ip bs of None \<Rightarrow> pkt | Some ip \<Rightarrow> rfc_tuple ip pkt)"
proof -
  have len14: "14 \<le> length bs" using len by simp
  have et: "length (ether_type bs) = 2" using len by (simp add: ether_type_def length_slice)
  have proto: "(core_read h L 2 ''ethhdr'' ''h_proto'' eth :: u16) = le_word cs \<longleftrightarrow> ether_type bs = cs"
    if "length cs = 2" for cs
    using le_word_inj [of "ether_type bs" cs, where 'a = 16] that et
    unfolding ether_type_reads [OF h L at len14] by auto
  note vh_at = bytes_at_drop [OF at, of 14]
  have vl: "(core_read h L 2 ''vlan_hdr'' ''h_vlan_encapsulated_proto'' (eth + 14) :: u16) = le_word ET_IP \<longleftrightarrow>
      bslice 16 2 bs = ET_IP"
  proof -
    have "(core_read h L 2 ''vlan_hdr'' ''h_vlan_encapsulated_proto'' (eth + 14) :: u16) = load_le 2 2 (drop 14 bs)"
      using core_read_at [where 'a = 16, OF h vh_at, of L] L len by (simp add: net_layout_def)
    also have "\<dots> = load_le 16 2 bs" by (simp add: load_le_def bslice_def)
    finally show ?thesis using load_u16_eq [of 16 bs ET_IP] len by (simp add: ET_IP_def)
  qed
  have l: "length ET_IP = 2" "length ET_8021Q = 2" "ET_IP \<noteq> ET_8021Q" by (simp_all add: ET_IP_def ET_8021Q_def)
  have t14: "output_tuple h L (eth + 14) pkt = rfc_tuple (drop 14 bs) pkt" if "short_ipv4 (drop 14 bs)"
    using output_tuple_short [OF h L vh_at that] by simp
  have t18: "output_tuple h L (18 + eth) pkt = rfc_tuple (drop 18 bs) pkt" if "short_ipv4 (drop 18 bs)"
    using output_tuple_short [OF h L bytes_at_drop [OF at, of 18] that] by (simp add: add.commute)
  show ?thesis
    using ok t14 t18 l
    by (auto simp: output_xdp_data_def Let_def htons_bytes proto vl frame_ip_def sizeof_ethhdr_def
        sizeof_vlan_hdr_def)
qed

lemma output_xdp_frame_reads:
  assumes h: "bpf_probe_read_kernel h = probe" and L: "net_layout L" and at: "bytes_at mem eth bs"
    and ok: "readable_frame T bs"
  shows "output_xdp_data h L (skip_tunnel h L T eth) pkt =
    (case frame_ip (untunnel_frame T bs) of None \<Rightarrow> pkt | Some ip \<Rightarrow> rfc_tuple ip pkt)"
proof -
  from ok have outer: "outer_headers T bs"
    and inner: "case frame_ip (untunnel_frame T bs) of None \<Rightarrow> True | Some ip \<Rightarrow> short_ipv4 ip"
    by (simp_all add: readable_frame_def)
  note skip = skip_tunnel_frame [OF h L at outer]
  show ?thesis by (rule output_xdp_data_reads [OF h L skip(2,3) inner])
qed

end

text \<open>A socket buffer: the tuple of the packet at its network header, or behind the tunnel.\<close>

lemma output_skb_reads:
  assumes mem: "kernel_memory (bpf_probe_read_kernel h) mem" and L: "net_layout L"
    and at: "bytes_at mem iph ip"
    and skb: "iph = core_read h L 8 ''sk_buff'' ''head'' skb +
      ucast (core_read h L 2 ''sk_buff'' ''network_header'' skb :: u16)"
    and len: "20 \<le> length ip" "ip_hdr_len ip + 4 \<le> length ip"
    and inner: "inner = (if truthy T \<and> vxlan_ip ip then drop 14 (vxlan_payload ip) else ip)"
    and ok: "truthy T \<and> vxlan_ip ip \<Longrightarrow> ip_hdr_len ip = 20" "short_ipv4 inner"
  shows "output_skb h L T skb pkt = rfc_tuple inner pkt"
proof -
  define k :: nat where "k = (if truthy T \<and> vxlan_ip ip then 50 else 0)"
  have "inner = drop k ip" using ok(1) by (auto simp: inner k_def vxlan_payload_def)
  moreover have "skip_tunnel_iph h L T iph = iph + of_nat k"
    unfolding k_def by (rule kernel_memory.skip_tunnel_iph_reads [OF mem refl L at len])
  ultimately show ?thesis
    using kernel_memory.output_tuple_short [OF mem refl L kernel_memory.bytes_at_drop [OF mem at]] ok(2)
    by (simp add: output_skb_def Let_def flip: skb)
qed

section \<open>Properties\<close>

text \<open>For an IPv4 packet with at most two words of options the report is the packet's addresses,
  ports, protocol and TCP flags, at the places the wire formats give them.\<close>

lemma output_tuple_correct:
  assumes "kernel_memory (bpf_probe_read_kernel h) mem" "net_layout L"
    and "bytes_at mem iph ip" "short_ipv4 ip"
  shows "output_tuple h L iph pkt = rfc_tuple ip pkt"
  by (rule kernel_memory.output_tuple_short [OF assms(1) refl assms(2-4)])

text \<open>With three or more words of options the header length is masked to three bits, and the
  report takes the ports and the flags 32 bytes before the transport header.\<close>

lemma output_tuple_long_header:
  assumes "kernel_memory (bpf_probe_read_kernel h) mem" "net_layout L" "bytes_at mem iph ip"
    and "ip_version ip = 4" "32 \<le> ip_hdr_len ip" "tuple_len ip (ip_hdr_len ip) \<le> length ip"
  shows "output_tuple h L iph pkt = tuple_at (ip_hdr_len ip - 32) ip pkt"
proof -
  have ge: "8 \<le> unat (ip ! 0) mod 16" using assms(5) by (simp add: ip_hdr_len_def)
  have "unat (ip ! 0) mod 8 = unat (ip ! 0) mod 16 mod 8" by (simp add: mod_mod_cancel)
  also have "\<dots> = unat (ip ! 0) mod 16 - 8"
    unfolding le_mod_geq [OF ge] using ge mod_less_divisor [of 16 "unat (ip ! 0)"]
    by (intro mod_less) linarith
  finally have m: "ip_hdr_len ip - 32 = 4 * (unat (ip ! 0) mod 8)" by (simp add: ip_hdr_len_def)
  have "tuple_len ip (ip_hdr_len ip - 32) \<le> tuple_len ip (ip_hdr_len ip)" by (auto simp: tuple_len_def max_def)
  with assms(4,6) show ?thesis
    by (intro kernel_memory.output_tuple_reads [OF assms(1) refl assms(2,3) _ m])
      (simp_all add: ip_version_def)
qed

text \<open>What is not IPv4 by its version (modulo eight) is not reported: the sixteen bytes of the
  packet record stay what they were in the ring buffer.\<close>

lemma output_tuple_keeps_stale:
  assumes "kernel_memory (bpf_probe_read_kernel h) mem" "bytes_at mem iph ip" "1 \<le> length ip"
    and "ip_version ip mod 8 \<noteq> 4"
  shows "output_tuple h L iph pkt = pkt"
  by (rule kernel_memory.output_tuple_other [OF assms(1) refl assms(2,3)]) (use assms(4) in \<open>simp add: ip_version_def\<close>)

text \<open>C24: for a frame behind an \<^verbatim>\<open>xdp_buff\<close> or an \<^verbatim>\<open>xdp_frame\<close> the report is the tuple of the IPv4
  packet it carries, untagged or behind one 802.1Q tag; when tunnels are skipped and the frame
  is VXLAN over an outer header without options, of the packet the inner frame carries.\<close>

theorem output_xdp_correct:
  assumes "kernel_memory (bpf_probe_read_kernel h) mem" "net_layout L"
    and "bytes_at mem eth bs" "readable_frame T bs"
    and "core_read h L 8 ''xdp_buff'' ''data'' buff = eth" "core_read h L 8 ''xdp_frame'' ''data'' frame = eth"
    and "tuple = (case frame_ip (untunnel_frame T bs) of None \<Rightarrow> pkt | Some ip \<Rightarrow> rfc_tuple ip pkt)"
  shows "output_xdp_buff h L T buff pkt = tuple \<and> output_xdp_frame h L T frame pkt = tuple"
  using kernel_memory.output_xdp_frame_reads [OF assms(1) refl assms(2-4), of pkt]
  by (simp add: output_xdp_buff_def output_xdp_frame_def assms(5-7))

text \<open>C25: for a socket buffer the report is the tuple of the packet at its network header, or, when
  tunnels are skipped and that packet is VXLAN over a header without options, of the packet
  in the inner Ethernet frame.\<close>

theorem output_skb_correct:
  assumes mem: "kernel_memory (bpf_probe_read_kernel h) mem" and L: "net_layout L"
    and at: "bytes_at mem iph ip"
    and skb: "iph = core_read h L 8 ''sk_buff'' ''head'' skb +
      ucast (core_read h L 2 ''sk_buff'' ''network_header'' skb :: u16)"
    and len: "20 \<le> length ip" "ip_hdr_len ip + 4 \<le> length ip"
    and inner: "inner = (if truthy T \<and> vxlan_ip ip then drop 14 (vxlan_payload ip) else ip)"
    and ok: "truthy T \<and> vxlan_ip ip \<Longrightarrow> ip_hdr_len ip = 20" "short_ipv4 inner"
  shows "output_skb h L T skb pkt = rfc_tuple inner pkt"
  using output_skb_reads [OF mem L at skb len inner ok] by blast

end
