(* ===== verification/Filter_Props.thy ===== *)
theory Filter_Props
  imports Pkt_Filter Pkt_Props
begin

text \<open>
  What the pcap filter gets to see: the bounds of the frame, or of the IP packet, behind an XDP
  buffer or a socket buffer, without its VXLAN tunnel when tunnels are skipped.
\<close>

text \<open>An IP packet whose tunnel can be skipped, and what is left of it: the packet in the inner frame.\<close>

definition outer_ip :: "u32 \<Rightarrow> u8 list \<Rightarrow> bool" where
  "outer_ip T ip \<longleftrightarrow> 20 \<le> length ip \<and> ip_hdr_len ip + 4 \<le> length ip \<and>
     (if truthy T \<and> vxlan_ip ip then ip_hdr_len ip = 20 \<and> 50 \<le> length ip else True)"

definition untunnel_ip :: "u32 \<Rightarrow> u8 list \<Rightarrow> u8 list" where
  "untunnel_ip T ip = (if truthy T \<and> vxlan_ip ip then drop 14 (vxlan_payload ip) else ip)"

context kernel_memory
begin

lemma skip_tunnel_packet:
  assumes h: "bpf_probe_read_kernel h = probe" and L: "net_layout L" and at: "bytes_at mem iph ip"
    and ok: "outer_ip T ip"
  shows "skip_tunnel_iph h L T iph = iph + of_nat (length ip - length (untunnel_ip T ip))"
    and "bytes_at mem (skip_tunnel_iph h L T iph) (untunnel_ip T ip)"
proof -
  define k :: nat where "k = (if truthy T \<and> vxlan_ip ip then 50 else 0)"
  have un: "untunnel_ip T ip = drop k ip"
    using ok by (auto simp: k_def untunnel_ip_def outer_ip_def vxlan_payload_def)
  have k: "k \<le> length ip" using ok by (auto simp: k_def outer_ip_def)
  have skip: "skip_tunnel_iph h L T iph = iph + of_nat k"
    unfolding k_def using ok by (intro skip_tunnel_iph_reads [OF h L at]) (simp_all add: outer_ip_def)
  then show "skip_tunnel_iph h L T iph = iph + of_nat (length ip - length (untunnel_ip T ip))"
    using k by (simp add: un)
  show "bytes_at mem (skip_tunnel_iph h L T iph) (untunnel_ip T ip)"
    unfolding skip un by (rule bytes_at_drop [OF at])
qed

end

section \<open>Properties\<close>

text \<open>C26: for an \<^verbatim>\<open>xdp_buff\<close> or an \<^verbatim>\<open>xdp_frame\<close> the pcap filter is run on the frame's bytes from
  the frame's start, or the start of the frame in its VXLAN tunnel, to the frame's end.\<close>

theorem filter_sees_frame:
  assumes mem: "kernel_memory (bpf_probe_read_kernel h) mem" and L: "net_layout L"
    and at: "bytes_at mem eth bs" and ok: "outer_headers T bs"
    and buff: "core_read h L 8 ''xdp_buff'' ''data'' buff = eth"
      "core_read h L 8 ''xdp_buff'' ''data_end'' buff = eth + of_nat (length bs)"
    and frame: "core_read h L 8 ''xdp_frame'' ''data'' frame = eth"
      "ucast (core_read h L 2 ''xdp_frame'' ''len'' frame :: u16) = (of_nat (length bs) :: u64)"
    and inner: "inner = untunnel_frame T bs" "data = eth + of_nat (length bs - length inner)"
  shows "bytes_at mem data inner \<and>
    filter_pkt h L T P (buff # args) FILTER_PKT_XDP_BUFF =
      pcap_l2 P buff buff buff data (eth + of_nat (length bs)) \<and>
    filter_pkt h L T P (frame # args) FILTER_PKT_XDP_FRAME =
      pcap_l2 P frame frame frame data (eth + of_nat (length bs))"
proof -
  note skip = kernel_memory.skip_tunnel_frame [OF mem refl L at ok, folded inner(1), folded inner(2)]
  have "FILTER_PKT_XDP_BUFF \<noteq> FILTER_PKT_XDP_FRAME"
    by (simp add: FILTER_PKT_XDP_BUFF_def FILTER_PKT_XDP_FRAME_def)
  with skip show ?thesis
    by (simp add: filter_pkt_def filter_xdp_buff_def filter_xdp_frame_def buff frame)
qed

text \<open>C27: for a socket buffer with a link-layer header the pcap filter is run on the frame from its
  link-layer header, without one on the packet from its network header, in either case behind
  the VXLAN tunnel if that is skipped, and up to the buffer's tail.\<close>

theorem filter_skb_sees_packet:
  assumes mem: "kernel_memory (bpf_probe_read_kernel h) mem" and L: "net_layout L"
    and skb: "head = core_read h L 8 ''sk_buff'' ''head'' skb"
      "mac_len = (core_read h L 2 ''sk_buff'' ''mac_len'' skb :: u16)"
      "tail = head + ucast (core_read h L 4 ''sk_buff'' ''tail'' skb :: u32)"
    and at: "bytes_at mem start bs"
    and l2: "mac_len \<noteq> 0 \<Longrightarrow> outer_headers T bs \<and> inner = untunnel_frame T bs \<and>
      start = head + ucast (core_read h L 2 ''sk_buff'' ''mac_header'' skb :: u16)"
    and l3: "mac_len = 0 \<Longrightarrow> outer_ip T bs \<and> inner = untunnel_ip T bs \<and>
      start = head + ucast (core_read h L 2 ''sk_buff'' ''network_header'' skb :: u16)"
    and data: "data = start + of_nat (length bs - length inner)"
  shows "bytes_at mem data inner \<and> filter_pkt h L T P (skb # args) 0 =
    (if mac_len \<noteq> 0 then pcap_l2 P skb skb skb data tail else pcap_l3 P skb skb skb data tail)"
proof -
  have pkt: "filter_pkt h L T P (skb # args) 0 = filter_skb h L T P skb"
    by (simp add: filter_pkt_def FILTER_PKT_XDP_BUFF_def FILTER_PKT_XDP_FRAME_def)
  show ?thesis
  proof (cases "mac_len = 0")
    case True
    from l3 [OF True] have o: "outer_ip T bs" and i: "inner = untunnel_ip T bs"
      and s: "head + ucast (core_read h L 2 ''sk_buff'' ''network_header'' skb :: u16) = start" by auto
    note skip = kernel_memory.skip_tunnel_packet [OF mem refl L at o, folded i, folded data]
    from skip True show ?thesis
      by (simp add: pkt filter_skb_def truthy_def skb(3) s flip: skb(1,2))
  next
    case False
    from l2 [OF False] have o: "outer_headers T bs" and i: "inner = untunnel_frame T bs"
      and s: "head + ucast (core_read h L 2 ''sk_buff'' ''mac_header'' skb :: u16) = start" by auto
    note skip = kernel_memory.skip_tunnel_frame [OF mem refl L at o, folded i, folded data]
    from skip False show ?thesis
      by (simp add: pkt filter_skb_def truthy_def skb(3) s flip: skb(1,2))
  qed
qed

end
