(* ===== verification/Lbr_Props.thy ===== *)
theory Lbr_Props
  imports Fn_Props
begin

text \<open>The branch records of a traced call: what the function tracer keeps of the snapshot it takes.\<close>

context lbr_map
begin

lemma view_output_lbr_data:
  "inv m \<Longrightarrow> view (output_lbr_data H lbr sid m) =
     (if 0 < sint (nr_bytes lbr) \<and> snd (bpf_map_update_elem H m sid lbr BPF_ANY) = 0
      then (view m)(sid \<mapsto> lbr) else view m)"
  by (simp add: output_lbr_data_def update_view)

end

lemma fn_submit_lbrs:
  assumes "cfg_output_lbr (rd_cfg ro)" "can_output (rd_cfg ro)"
    and "bpf_ringbuf_reserve h (record_size (rd_cfg ro)) \<noteq> None"
  shows "lbrs (fn_submit B hk ro h ctx sid ty m) =
      output_lbr_data B (lbr_buff m ! unat (bpf_get_smp_processor_id h AND CPU_MASK ro)) sid (lbrs m) \<and>
    lbr_buff (fn_submit B hk ro h ctx sid ty m) = lbr_buff m"
  using assms by (auto simp: fn_submit_def submit_record_def ringbuf_record_def fn_header_def Let_def)

lemma fn_start_snapshot:
  assumes "cfg_output_lbr (rd_cfg ro)" "can_output (rd_cfg ro)"
  shows "lbr_buff (fn_start ro h ctx st) = (lbr_buff st)[unat (bpf_get_smp_processor_id h AND CPU_MASK ro) :=
    take_snapshot h (lbr_buff st ! unat (bpf_get_smp_processor_id h AND CPU_MASK ro))]"
  using assms by (simp add: fn_start_def record_branches_def)

section \<open>Properties\<close>

text \<open>C35: an accepted event of a program that outputs branch records, other than an exit that pairs
  with an entry, leaves its snapshot in the buffer of its CPU and, if the snapshot holds any
  bytes and the map has room, under the id of its record; other sessions' branch records stay.\<close>

theorem fn_stores_branches:
  assumes map: "lbr_map B view ok" and ok: "ok (lbrs st)" and act: "fn_active ro h st"
    and lbr: "cfg_output_lbr (rd_cfg ro)" "can_output (rd_cfg ro)"
    and sid: "sid = gen_session_id h (fn_fp ro h ctx (tramp_fp_offset st))"
    and flt: "filter_event hk (fn_args_of ro h ctx) sid"
    and cpu: "cpu = unat (bpf_get_smp_processor_id h AND CPU_MASK ro)" "cpu < length (lbr_buff st)"
    and snap: "snap = take_snapshot h (lbr_buff st ! cpu)"
    and room: "bpf_ringbuf_reserve h (record_size (rd_cfg ro)) \<noteq> None"
    and st': "st' = snd (bpfsnoop_fn S B hk ro h ctx st)"
  shows "lbr_buff st' = (lbr_buff st)[cpu := snap] \<and>
    view (lbrs st') =
      (if 0 < sint (nr_bytes snap) \<and> snd (bpf_map_update_elem B (lbrs st) sid snap BPF_ANY) = 0
       then (view (lbrs st))(sid \<mapsto> snap) else view (lbrs st))"
proof -
  have "\<exists>m ty. st' = fn_submit B hk ro h ctx sid ty m \<and> lbr_buff m = lbr_buff (fn_start ro h ctx st) \<and> lbrs m = lbrs st"
  proof (cases "cfg_both_entry_exit (rd_cfg ro)")
    case True
    then have "cfg_is_entry (rd_cfg ro)" using lbr(2) by (simp add: can_output_def)
    from fn_accepted_entry [OF act True this refl, where hk = hk and S = S and B = B] flt show ?thesis
      by (fastforce simp: st' sid)
  next
    case False
    from fn_accepted_single [OF act False refl, where hk = hk and S = S and B = B] flt show ?thesis
      by (fastforce simp: st' sid)
  qed
  then obtain m ty where s: "st' = fn_submit B hk ro h ctx sid ty m"
    and m: "lbr_buff m = (lbr_buff st)[cpu := snap]" "lbrs m = lbrs st"
    using fn_start_snapshot [OF lbr, of h ctx st] by (auto simp: snap cpu(1))
  have "lbr_buff m ! cpu = snap" using cpu(2) by (simp add: m)
  with fn_submit_lbrs [OF lbr room, of B hk ctx sid ty m, folded s cpu(1)]
  have "lbr_buff st' = (lbr_buff st)[cpu := snap]" "lbrs st' = output_lbr_data B snap sid (lbrs st)"
    by (simp_all add: m)
  then show ?thesis by (simp add: lbr_map.view_output_lbr_data [OF map ok])
qed

end
