(* ===== verification/Ctypes.thy ===== *)
theory Ctypes
  imports Prelude "HOL-Library.Code_Target_Nat"
begin

text \<open>
  Layout of C types, for the declarations of \<^verbatim>\<open>bpf/headers/vmlinux-arm64.h\<close>: sizes, alignments
  and field offsets as the compiler computes them for the BPF target, where an unnamed
  bit-field is padding and does not align its structure. Positions inside a structure are in
  bits; a field with the empty name is an anonymous structure or union, or an unnamed
  bit-field.
\<close>

datatype ctype =
    CInt nat                  \<comment> \<open>an integer or enumeration of so many bytes\<close>
  | CPtr string               \<comment> \<open>a pointer, with the type it points to\<close>
  | CArr ctype nat
  | CStruct "cfield list"
  | CUnion "cfield list"
and cfield =
    Field string ctype
  | Bits string nat nat       \<comment> \<open>name, bytes of the declared type, width\<close>

section \<open>Sizes and alignments\<close>

definition round_up :: "nat \<Rightarrow> nat \<Rightarrow> nat" where
  "round_up n a = (n + (a - 1)) div a * a"

fun align_of :: "ctype \<Rightarrow> nat" and fields_align :: "cfield list \<Rightarrow> nat" where
  "align_of (CInt n) = n"
| "align_of (CPtr t) = 8"
| "align_of (CArr t n) = align_of t"
| "align_of (CStruct fs) = fields_align fs"
| "align_of (CUnion fs) = fields_align fs"
| "fields_align [] = 1"
| "fields_align (Field x t # fs) = max (align_of t) (fields_align fs)"
| "fields_align (Bits x s w # fs) = max (if x = [] then 1 else s) (fields_align fs)"

text \<open>A bit-field that would cross a boundary of its declared type starts at that boundary.\<close>

definition bits_start :: "nat \<Rightarrow> nat \<Rightarrow> nat \<Rightarrow> nat" where
  "bits_start pos s w = (if pos div (8 * s) = (pos + (w - 1)) div (8 * s) then pos else round_up pos (8 * s))"

fun size_of :: "ctype \<Rightarrow> nat" and struct_end :: "nat \<Rightarrow> cfield list \<Rightarrow> nat"
  and union_bits :: "cfield list \<Rightarrow> nat" where
  "size_of (CInt n) = n"
| "size_of (CPtr t) = 8"
| "size_of (CArr t n) = n * size_of t"
| "size_of (CStruct fs) = round_up (struct_end 0 fs) (8 * fields_align fs) div 8"
| "size_of (CUnion fs) = round_up (union_bits fs) (8 * fields_align fs) div 8"
| "struct_end pos [] = pos"
| "struct_end pos (Field x t # fs) = struct_end (round_up pos (8 * align_of t) + 8 * size_of t) fs"
| "struct_end pos (Bits x s w # fs) = struct_end (bits_start pos s w + w) fs"
| "union_bits [] = 0"
| "union_bits (Field x t # fs) = max (8 * size_of t) (union_bits fs)"
| "union_bits (Bits x s w # fs) = max w (union_bits fs)"

fun field_start :: "nat \<Rightarrow> cfield \<Rightarrow> nat" where
  "field_start pos (Field x t) = round_up pos (8 * align_of t)"
| "field_start pos (Bits x s w) = bits_start pos s w"

fun field_width :: "cfield \<Rightarrow> nat" where
  "field_width (Field x t) = 8 * size_of t"
| "field_width (Bits x s w) = w"

text \<open>The fields of a structure with their first bits.\<close>

fun struct_layout :: "nat \<Rightarrow> cfield list \<Rightarrow> (cfield \<times> nat) list" where
  "struct_layout pos [] = []"
| "struct_layout pos (f # fs) =
     (f, field_start pos f) # struct_layout (field_start pos f + field_width f) fs"

text \<open>The byte offset of a named field, also one inside an anonymous member.\<close>

fun offset_in :: "string \<Rightarrow> ctype \<Rightarrow> nat option" and struct_offset :: "string \<Rightarrow> nat \<Rightarrow> cfield list \<Rightarrow> nat option"
  and union_offset :: "string \<Rightarrow> cfield list \<Rightarrow> nat option" where
  "offset_in n (CInt k) = None"
| "offset_in n (CPtr t) = None"
| "offset_in n (CArr t k) = None"
| "offset_in n (CStruct fs) = struct_offset n 0 fs"
| "offset_in n (CUnion fs) = union_offset n fs"
| "struct_offset n pos [] = None"
| "struct_offset n pos (Field x t # fs) =
     (let start = round_up pos (8 * align_of t) in
      if x = n then Some (start div 8)
      else case (if x = [] then offset_in n t else None) of
             Some k \<Rightarrow> Some (start div 8 + k)
           | None \<Rightarrow> struct_offset n (start + 8 * size_of t) fs)"
| "struct_offset n pos (Bits x s w # fs) = struct_offset n (bits_start pos s w + w) fs"
| "union_offset n [] = None"
| "union_offset n (Field x t # fs) =
     (if x = n then Some 0
      else case (if x = [] then offset_in n t else None) of
             Some k \<Rightarrow> Some k | None \<Rightarrow> union_offset n fs)"
| "union_offset n (Bits x s w # fs) = union_offset n fs"

section \<open>Well-formed types\<close>

definition int_bytes :: "nat list" where
  "int_bytes = [1, 2, 4, 8, 16]"

fun wf_ctype :: "ctype \<Rightarrow> bool" and wf_fields :: "cfield list \<Rightarrow> bool" where
  "wf_ctype (CInt n) = (n \<in> set int_bytes)"
| "wf_ctype (CPtr t) = True"
| "wf_ctype (CArr t n) = wf_ctype t"
| "wf_ctype (CStruct fs) = wf_fields fs"
| "wf_ctype (CUnion fs) = wf_fields fs"
| "wf_fields [] = True"
| "wf_fields (Field x t # fs) = (wf_ctype t \<and> wf_fields fs)"
| "wf_fields (Bits x s w # fs) = (s \<in> set int_bytes \<and> 0 < w \<and> w \<le> 8 * s \<and> wf_fields fs)"

lemma round_up_le: "0 < a \<Longrightarrow> n \<le> round_up n a"
proof -
  assume a: "0 < a"
  have "n + (a - 1) = (n + (a - 1)) div a * a + (n + (a - 1)) mod a" by simp
  moreover have "(n + (a - 1)) mod a \<le> a - 1" using a by (simp add: mod_le_divisor less_Suc_eq_le [symmetric])
  ultimately show ?thesis unfolding round_up_def by linarith
qed

lemma round_up_dvd [simp]: "a dvd round_up n a"
  by (simp add: round_up_def)

lemma round_up_less: "0 < a \<Longrightarrow> round_up n a < n + a"
  using div_mult_mod_eq [of "n + (a - 1)" a] unfolding round_up_def by linarith

lemma int_bytes_dvd: "a \<in> set int_bytes \<Longrightarrow> b \<in> set int_bytes \<Longrightarrow> a \<le> b \<Longrightarrow> a dvd b"
  by (auto simp: int_bytes_def)

lemma int_bytes_pos: "a \<in> set int_bytes \<Longrightarrow> 0 < a"
  by (auto simp: int_bytes_def)

lemma align_int_bytes:
  "wf_ctype t \<Longrightarrow> align_of t \<in> set int_bytes"
  "wf_fields fs \<Longrightarrow> fields_align fs \<in> set int_bytes"
  by (induction t and fs rule: align_of_fields_align.induct) (auto simp: int_bytes_def max_def)

lemmas align_pos = align_int_bytes(1) [THEN int_bytes_pos] align_int_bytes(2) [THEN int_bytes_pos]

text \<open>The alignment of a structure is a multiple of that of each of its aligned fields.\<close>

lemma fields_align_dvd:
  "wf_fields fs \<Longrightarrow> Field x t \<in> set fs \<Longrightarrow> align_of t dvd fields_align fs"
proof (induction fs)
  case (Cons f fs)
  show ?case
  proof (cases "Field x t = f")
    case True
    with Cons.prems show ?thesis
      using align_int_bytes(1) [of t] align_int_bytes(2) [of "f # fs"]
      by (auto intro!: int_bytes_dvd)
  next
    case False
    with Cons have "wf_fields fs" and d: "align_of t dvd fields_align fs" by (cases f; auto)+
    then have "fields_align fs dvd fields_align (f # fs)"
      using align_int_bytes(2) [OF Cons.prems(1)] align_int_bytes(2) [of fs]
      by (cases f) (auto intro!: int_bytes_dvd simp del: wf_fields.simps(2-))
    with d show ?thesis by (rule dvd_trans)
  qed
qed simp

lemma dvd_div_8: "8 * a dvd (n :: nat) \<Longrightarrow> a dvd n div 8"
  by (elim dvdE) simp

text \<open>A type's size is a multiple of its alignment, so the elements of an array are aligned.\<close>

lemma align_dvd_size: "wf_ctype t \<Longrightarrow> align_of t dvd size_of t"
proof (induction t rule: measure_induct_rule [of size])
  case (less t)
  note IH = less.IH and wf = less.prems
  show ?case
proof (cases t)
  case (CStruct fs)
  have "8 * fields_align fs dvd round_up (struct_end 0 fs) (8 * fields_align fs)" by simp
  then have "fields_align fs dvd round_up (struct_end 0 fs) (8 * fields_align fs) div 8"
    by (rule dvd_div_8)
  then show ?thesis using CStruct by simp
next
  case (CUnion fs)
  have "8 * fields_align fs dvd round_up (union_bits fs) (8 * fields_align fs)" by simp
  then have "fields_align fs dvd round_up (union_bits fs) (8 * fields_align fs) div 8"
    by (rule dvd_div_8)
  then show ?thesis using CUnion by simp
next
  case (CArr u n)
  then show ?thesis using IH [of u] wf by simp
qed (use wf in simp_all)
qed

section \<open>Placement\<close>

lemma bits_start_le: "0 < s \<Longrightarrow> pos \<le> bits_start pos s w"
  using round_up_le [of "8 * s" pos] by (simp add: bits_start_def)

lemma bits_start_unit:
  assumes "0 < s" "0 < w" "w \<le> 8 * s"
  shows "bits_start pos s w div (8 * s) = (bits_start pos s w + w - 1) div (8 * s)"
proof (cases "pos div (8 * s) = (pos + (w - 1)) div (8 * s)")
  case False
  obtain q where q: "round_up pos (8 * s) = 8 * s * q" using round_up_dvd by (metis dvd_def)
  obtain v where v: "w - 1 = v" "v < 8 * s" using assms by (intro that [of "w - 1"]) auto
  then have "(round_up pos (8 * s) + v) div (8 * s) = q"
    using assms(1) unfolding q by simp
  then have "round_up pos (8 * s) div (8 * s) = (round_up pos (8 * s) + v) div (8 * s)"
    using assms(1) unfolding q by simp
  moreover have "x + w - 1 = x + v" for x using assms(2) v(1) by linarith
  ultimately show ?thesis using False unfolding bits_start_def v(1) by (simp only: if_False)
qed (use assms(2) in \<open>simp add: bits_start_def\<close>)

lemma field_start_le: "wf_fields (f # fs) \<Longrightarrow> pos \<le> field_start pos f"
  by (cases f) (auto simp: int_bytes_pos intro!: round_up_le bits_start_le align_pos)

lemma struct_end_layout: "struct_end pos (f # fs) = struct_end (field_start pos f + field_width f) fs"
  by (cases f) simp_all

lemma wf_fields_tl: "wf_fields (f # fs) \<Longrightarrow> wf_fields fs"
  by (cases f) simp_all

lemma struct_end_le: "wf_fields fs \<Longrightarrow> pos \<le> struct_end pos fs"
proof (induction fs arbitrary: pos)
  case (Cons f fs)
  have "pos \<le> field_start pos f" using Cons.prems by (rule field_start_le)
  moreover have "field_start pos f + field_width f \<le> struct_end pos (f # fs)"
    unfolding struct_end_layout using Cons wf_fields_tl by blast
  ultimately show ?case by linarith
qed simp

lemma struct_layout_within:
  "wf_fields fs \<Longrightarrow> (f, s) \<in> set (struct_layout pos fs) \<Longrightarrow>
     pos \<le> s \<and> s + field_width f \<le> struct_end pos fs"
proof (induction fs arbitrary: pos)
  case (Cons g fs)
  have tl: "wf_fields fs" using Cons.prems(1) by (rule wf_fields_tl)
  have le: "pos \<le> field_start pos g" using Cons.prems(1) by (rule field_start_le)
  show ?case
  proof (cases "(f, s) = (g, field_start pos g)")
    case True
    with le struct_end_le [OF tl] show ?thesis by (simp add: struct_end_layout del: struct_end.simps)
  next
    case False
    with Cons.prems(2) have "(f, s) \<in> set (struct_layout (field_start pos g + field_width g) fs)" by auto
    from Cons.IH [OF tl this] le show ?thesis
      by (simp add: struct_end_layout del: struct_end.simps)
  qed
qed simp

text \<open>Two ranges of bits that do not meet.\<close>

definition disjoint_bits :: "cfield \<times> nat \<Rightarrow> cfield \<times> nat \<Rightarrow> bool" where
  "disjoint_bits a b \<longleftrightarrow> snd a + field_width (fst a) \<le> snd b \<or> snd b + field_width (fst b) \<le> snd a"

lemma struct_layout_sorted:
  "wf_fields fs \<Longrightarrow> sorted_wrt (\<lambda>a b. snd a + field_width (fst a) \<le> snd b) (struct_layout pos fs)"
proof (induction fs arbitrary: pos)
  case (Cons f fs)
  have tl: "wf_fields fs" using Cons.prems by (rule wf_fields_tl)
  show ?case
    using Cons.IH [OF tl] struct_layout_within [OF tl] by auto
qed simp

lemma struct_layout_starts:
  assumes "wf_fields fs" "(f, s) \<in> set (struct_layout pos fs)"
  shows "case f of Field x t \<Rightarrow> 8 * align_of t dvd s
    | Bits x b w \<Rightarrow> s div (8 * b) = (s + w - 1) div (8 * b)"
  using assms
proof (induction fs arbitrary: pos)
  case (Cons g fs)
  show ?case
  proof (cases "(f, s) = (g, field_start pos g)")
    case True
    with Cons.prems(1) show ?thesis
      by (cases g) (auto simp: int_bytes_pos simp del: One_nat_def intro: bits_start_unit)
  next
    case False
    with Cons wf_fields_tl show ?thesis by auto
  qed
qed simp

text \<open>The end of the fields is inside the structure's size.\<close>

lemma struct_size_bits:
  "wf_fields fs \<Longrightarrow> struct_end 0 fs \<le> 8 * size_of (CStruct fs)"
proof -
  assume wf: "wf_fields fs"
  have "8 dvd round_up (struct_end 0 fs) (8 * fields_align fs)"
    by (rule dvd_trans [OF _ round_up_dvd]) simp
  then have "8 * size_of (CStruct fs) = round_up (struct_end 0 fs) (8 * fields_align fs)" by simp
  with round_up_le [of "8 * fields_align fs" "struct_end 0 fs"] align_pos(2) [OF wf]
  show ?thesis by simp
qed

end
