(* ===== verification/Vmlinux_Task.thy ===== *)
theory Vmlinux_Task
  imports Ctypes
begin

text \<open>
  Kernel types, as \<^verbatim>\<open>bpf/headers/vmlinux-arm64.h\<close> declares them: the scalar types, the
  scheduler and signal structures, and the \<^verbatim>\<open>task_struct\<close> of the processes the tracers report,
  with the registers a kprobe reads. A constant has the C name of its type; \<^verbatim>\<open>fn\<close> stands for a
  function type behind a pointer.
\<close>

text \<open>The C base types.\<close>

abbreviation c_char :: ctype where "c_char \<equiv> CInt 1"
abbreviation c_uchar :: ctype where "c_uchar \<equiv> CInt 1"
abbreviation c_short :: ctype where "c_short \<equiv> CInt 2"
abbreviation c_ushort :: ctype where "c_ushort \<equiv> CInt 2"
abbreviation c_int :: ctype where "c_int \<equiv> CInt 4"
abbreviation c_uint :: ctype where "c_uint \<equiv> CInt 4"
abbreviation c_long :: ctype where "c_long \<equiv> CInt 8"
abbreviation c_ulong :: ctype where "c_ulong \<equiv> CInt 8"
abbreviation c_llong :: ctype where "c_llong \<equiv> CInt 8"
abbreviation c_ullong :: ctype where "c_ullong \<equiv> CInt 8"
abbreviation c_uint128 :: ctype where "c_uint128 \<equiv> CInt 16"
abbreviation c_bool :: ctype where "c_bool \<equiv> CInt 1"
abbreviation c_enum :: ctype where "c_enum \<equiv> CInt 4"

definition typedef___u8 :: ctype where
  "typedef___u8 =
    c_uchar"

definition typedef___u16 :: ctype where
  "typedef___u16 =
    c_ushort"

definition typedef___s32 :: ctype where
  "typedef___s32 =
    c_int"

definition typedef___u32 :: ctype where
  "typedef___u32 =
    c_uint"

definition typedef___s64 :: ctype where
  "typedef___s64 =
    c_llong"

definition typedef___u64 :: ctype where
  "typedef___u64 =
    c_ullong"

definition typedef_u8 :: ctype where
  "typedef_u8 =
    typedef___u8"

definition typedef_u16 :: ctype where
  "typedef_u16 =
    typedef___u16"

definition typedef_s32 :: ctype where
  "typedef_s32 =
    typedef___s32"

definition typedef_u32 :: ctype where
  "typedef_u32 =
    typedef___u32"

definition typedef_s64 :: ctype where
  "typedef_s64 =
    typedef___s64"

definition typedef_u64 :: ctype where
  "typedef_u64 =
    typedef___u64"

definition typedef___kernel_ulong_t :: ctype where
  "typedef___kernel_ulong_t =
    c_ulong"

definition typedef___kernel_pid_t :: ctype where
  "typedef___kernel_pid_t =
    c_int"

definition typedef___kernel_uid32_t :: ctype where
  "typedef___kernel_uid32_t =
    c_uint"

definition typedef___kernel_size_t :: ctype where
  "typedef___kernel_size_t =
    typedef___kernel_ulong_t"

definition typedef___kernel_clockid_t :: ctype where
  "typedef___kernel_clockid_t =
    c_int"

definition typedef___kernel_dev_t :: ctype where
  "typedef___kernel_dev_t =
    typedef_u32"

definition typedef_dev_t :: ctype where
  "typedef_dev_t =
    typedef___kernel_dev_t"

definition typedef_pid_t :: ctype where
  "typedef_pid_t =
    typedef___kernel_pid_t"

definition typedef_clockid_t :: ctype where
  "typedef_clockid_t =
    typedef___kernel_clockid_t"

definition typedef_bool :: ctype where
  "typedef_bool =
    c_bool"

definition typedef_uid_t :: ctype where
  "typedef_uid_t =
    typedef___kernel_uid32_t"

definition typedef_size_t :: ctype where
  "typedef_size_t =
    typedef___kernel_size_t"

definition typedef_gfp_t :: ctype where
  "typedef_gfp_t =
    c_uint"

definition typedef_atomic_t :: ctype where
  "typedef_atomic_t =
    CStruct [Field ''counter'' c_int]"

definition typedef_atomic64_t :: ctype where
  "typedef_atomic64_t =
    CStruct [Field ''counter'' typedef_s64]"

definition struct_list_head :: ctype where
  "struct_list_head =
    CStruct [Field ''next'' (CPtr ''struct list_head''), Field ''prev'' (CPtr ''struct list_head'')]"

definition struct_hlist_head :: ctype where
  "struct_hlist_head =
    CStruct [Field ''first'' (CPtr ''struct hlist_node'')]"

definition struct_hlist_node :: ctype where
  "struct_hlist_node =
    CStruct [Field ''next'' (CPtr ''struct hlist_node''),
      Field ''pprev'' (CPtr ''struct hlist_node*'')]"

definition struct_callback_head :: ctype where
  "struct_callback_head =
    CStruct [Field ''next'' (CPtr ''struct callback_head''), Field ''func'' (CPtr ''fn'')]"

definition struct_static_key :: ctype where
  "struct_static_key =
    CStruct [Field ''enabled'' typedef_atomic_t,
      Field '''' (CUnion [Field ''type'' c_ulong, Field ''entries'' (CPtr ''struct jump_entry''),
        Field ''next'' (CPtr ''struct static_key_mod'')])]"

definition typedef_atomic_long_t :: ctype where
  "typedef_atomic_long_t =
    typedef_atomic64_t"

definition struct_qspinlock :: ctype where
  "struct_qspinlock =
    CStruct [Field '''' (CUnion [Field ''val'' typedef_atomic_t,
        Field '''' (CStruct [Field ''locked'' typedef_u8, Field ''pending'' typedef_u8]),
        Field '''' (CStruct [Field ''locked_pending'' typedef_u16, Field ''tail'' typedef_u16])])]"

definition typedef_arch_spinlock_t :: ctype where
  "typedef_arch_spinlock_t =
    struct_qspinlock"

definition struct_qrwlock :: ctype where
  "struct_qrwlock =
    CStruct [Field '''' (CUnion [Field ''cnts'' typedef_atomic_t,
        Field '''' (CStruct [Field ''wlocked'' typedef_u8, Field ''__lstate'' (CArr typedef_u8 3)])]),
      Field ''wait_lock'' typedef_arch_spinlock_t]"

definition typedef_arch_rwlock_t :: ctype where
  "typedef_arch_rwlock_t =
    struct_qrwlock"

definition struct_raw_spinlock :: ctype where
  "struct_raw_spinlock =
    CStruct [Field ''raw_lock'' typedef_arch_spinlock_t]"

definition typedef_raw_spinlock_t :: ctype where
  "typedef_raw_spinlock_t =
    struct_raw_spinlock"

definition struct_spinlock :: ctype where
  "struct_spinlock =
    CStruct [Field '''' (CUnion [Field ''rlock'' struct_raw_spinlock])]"

definition typedef_spinlock_t :: ctype where
  "typedef_spinlock_t =
    struct_spinlock"

definition typedef_rwlock_t :: ctype where
  "typedef_rwlock_t =
    CStruct [Field ''raw_lock'' typedef_arch_rwlock_t]"

definition struct_cpumask :: ctype where
  "struct_cpumask =
    CStruct [Field ''bits'' (CArr c_ulong 4)]"

definition typedef_cpumask_t :: ctype where
  "typedef_cpumask_t =
    struct_cpumask"

definition struct_llist_node :: ctype where
  "struct_llist_node =
    CStruct [Field ''next'' (CPtr ''struct llist_node'')]"

definition struct___call_single_node :: ctype where
  "struct___call_single_node =
    CStruct [Field ''llist'' struct_llist_node,
      Field '''' (CUnion [Field ''u_flags'' c_uint, Field ''a_flags'' typedef_atomic_t]),
      Field ''src'' typedef_u16, Field ''dst'' typedef_u16]"

definition enum_timespec_type :: "(string \<times> int) list" where
  "enum_timespec_type =
    [(''TT_NONE'', 0), (''TT_NATIVE'', 1), (''TT_COMPAT'', 2)]"

definition struct_restart_block :: ctype where
  "struct_restart_block =
    CStruct [Field ''fn'' (CPtr ''fn''),
      Field '''' (CUnion [Field ''futex'' (CStruct [Field ''uaddr'' (CPtr ''u32''), Field ''val'' typedef_u32,
          Field ''flags'' typedef_u32, Field ''bitset'' typedef_u32,
          Field ''time'' typedef_u64, Field ''uaddr2'' (CPtr ''u32'')]),
        Field ''nanosleep'' (CStruct [Field ''clockid'' typedef_clockid_t, Field ''type'' c_enum,
          Field '''' (CUnion [Field ''rmtp'' (CPtr ''struct __kernel_timespec''),
            Field ''compat_rmtp'' (CPtr ''struct old_timespec32'')]),
          Field ''expires'' typedef_u64]),
        Field ''poll'' (CStruct [Field ''ufds'' (CPtr ''struct pollfd''), Field ''nfds'' c_int,
          Field ''has_timeout'' c_int, Field ''tv_sec'' c_ulong, Field ''tv_nsec'' c_ulong])])]"

definition typedef_mm_segment_t :: ctype where
  "typedef_mm_segment_t =
    c_ulong"

definition struct_thread_info :: ctype where
  "struct_thread_info =
    CStruct [Field ''flags'' c_ulong, Field ''addr_limit'' typedef_mm_segment_t,
      Field '''' (CUnion [Field ''preempt_count'' typedef_u64,
        Field ''preempt'' (CStruct [Field ''count'' typedef_u32, Field ''need_resched'' typedef_u32])])]"

definition struct_refcount_struct :: ctype where
  "struct_refcount_struct =
    CStruct [Field ''refs'' typedef_atomic_t]"

definition typedef_refcount_t :: ctype where
  "typedef_refcount_t =
    struct_refcount_struct"

definition struct_load_weight :: ctype where
  "struct_load_weight =
    CStruct [Field ''weight'' c_ulong, Field ''inv_weight'' typedef_u32]"

definition struct_rb_node :: ctype where
  "struct_rb_node =
    CStruct [Field ''__rb_parent_color'' c_ulong, Field ''rb_right'' (CPtr ''struct rb_node''),
      Field ''rb_left'' (CPtr ''struct rb_node'')]"

definition struct_sched_statistics :: ctype where
  "struct_sched_statistics =
    CStruct [Field ''wait_start'' typedef_u64, Field ''wait_max'' typedef_u64,
      Field ''wait_count'' typedef_u64, Field ''wait_sum'' typedef_u64,
      Field ''iowait_count'' typedef_u64, Field ''iowait_sum'' typedef_u64,
      Field ''sleep_start'' typedef_u64, Field ''sleep_max'' typedef_u64,
      Field ''sum_sleep_runtime'' typedef_s64, Field ''block_start'' typedef_u64,
      Field ''block_max'' typedef_u64, Field ''exec_max'' typedef_u64,
      Field ''slice_max'' typedef_u64, Field ''nr_migrations_cold'' typedef_u64,
      Field ''nr_failed_migrations_affine'' typedef_u64,
      Field ''nr_failed_migrations_running'' typedef_u64,
      Field ''nr_failed_migrations_hot'' typedef_u64,
      Field ''nr_forced_migrations'' typedef_u64, Field ''nr_wakeups'' typedef_u64,
      Field ''nr_wakeups_sync'' typedef_u64, Field ''nr_wakeups_migrate'' typedef_u64,
      Field ''nr_wakeups_local'' typedef_u64, Field ''nr_wakeups_remote'' typedef_u64,
      Field ''nr_wakeups_affine'' typedef_u64,
      Field ''nr_wakeups_affine_attempts'' typedef_u64,
      Field ''nr_wakeups_passive'' typedef_u64, Field ''nr_wakeups_idle'' typedef_u64]"

definition struct_util_est :: ctype where
  "struct_util_est =
    CStruct [Field ''enqueued'' c_uint, Field ''ewma'' c_uint]"

definition struct_sched_avg :: ctype where
  "struct_sched_avg =
    CStruct [Field ''last_update_time'' typedef_u64, Field ''load_sum'' typedef_u64,
      Field ''runnable_sum'' typedef_u64, Field ''util_sum'' typedef_u32,
      Field ''period_contrib'' typedef_u32, Field ''load_avg'' c_ulong,
      Field ''runnable_avg'' c_ulong, Field ''util_avg'' c_ulong,
      Field ''util_est'' struct_util_est]"

definition struct_sched_entity :: ctype where
  "struct_sched_entity =
    CStruct [Field ''load'' struct_load_weight, Field ''run_node'' struct_rb_node,
      Field ''group_node'' struct_list_head, Field ''on_rq'' c_uint,
      Field ''exec_start'' typedef_u64, Field ''sum_exec_runtime'' typedef_u64,
      Field ''vruntime'' typedef_u64, Field ''prev_sum_exec_runtime'' typedef_u64,
      Field ''nr_migrations'' typedef_u64, Field ''statistics'' struct_sched_statistics,
      Field ''depth'' c_int, Field ''parent'' (CPtr ''struct sched_entity''),
      Field ''cfs_rq'' (CPtr ''struct cfs_rq''), Field ''my_q'' (CPtr ''struct cfs_rq''),
      Field ''runnable_weight'' c_ulong, Bits '''' 8 64, Bits '''' 8 64, Bits '''' 8 64,
      Field ''avg'' struct_sched_avg]"

definition struct_sched_rt_entity :: ctype where
  "struct_sched_rt_entity =
    CStruct [Field ''run_list'' struct_list_head, Field ''timeout'' c_ulong,
      Field ''watchdog_stamp'' c_ulong, Field ''time_slice'' c_uint,
      Field ''on_rq'' c_ushort, Field ''on_list'' c_ushort,
      Field ''back'' (CPtr ''struct sched_rt_entity'')]"

definition typedef_ktime_t :: ctype where
  "typedef_ktime_t =
    typedef_s64"

definition struct_timerqueue_node :: ctype where
  "struct_timerqueue_node =
    CStruct [Field ''node'' struct_rb_node, Field ''expires'' typedef_ktime_t]"

definition struct_hrtimer :: ctype where
  "struct_hrtimer =
    CStruct [Field ''node'' struct_timerqueue_node, Field ''_softexpires'' typedef_ktime_t,
      Field ''function'' (CPtr ''fn''),
      Field ''base'' (CPtr ''struct hrtimer_clock_base''), Field ''state'' typedef_u8,
      Field ''is_rel'' typedef_u8, Field ''is_soft'' typedef_u8,
      Field ''is_hard'' typedef_u8]"

definition struct_sched_dl_entity :: ctype where
  "struct_sched_dl_entity =
    CStruct [Field ''rb_node'' struct_rb_node, Field ''dl_runtime'' typedef_u64,
      Field ''dl_deadline'' typedef_u64, Field ''dl_period'' typedef_u64,
      Field ''dl_bw'' typedef_u64, Field ''dl_density'' typedef_u64,
      Field ''runtime'' typedef_s64, Field ''deadline'' typedef_u64,
      Field ''flags'' c_uint, Bits ''dl_throttled'' 4 1, Bits ''dl_yielded'' 4 1,
      Bits ''dl_non_contending'' 4 1, Bits ''dl_overrun'' 4 1,
      Field ''dl_timer'' struct_hrtimer, Field ''inactive_timer'' struct_hrtimer,
      Field ''pi_se'' (CPtr ''struct sched_dl_entity'')]"

definition union_rcu_special :: ctype where
  "union_rcu_special =
    CUnion [Field ''b'' (CStruct [Field ''blocked'' typedef_u8, Field ''need_qs'' typedef_u8,
        Field ''exp_hint'' typedef_u8, Field ''need_mb'' typedef_u8]),
      Field ''s'' typedef_u32]"

definition struct_sched_info :: ctype where
  "struct_sched_info =
    CStruct [Field ''pcount'' c_ulong, Field ''run_delay'' c_ullong,
      Field ''last_arrival'' c_ullong, Field ''last_queued'' c_ullong]"

definition struct_plist_node :: ctype where
  "struct_plist_node =
    CStruct [Field ''prio'' c_int, Field ''prio_list'' struct_list_head,
      Field ''node_list'' struct_list_head]"

definition struct_vmacache :: ctype where
  "struct_vmacache =
    CStruct [Field ''seqnum'' typedef_u64, Field ''vmas'' (CArr (CPtr ''struct vm_area_struct'') 4)]"

definition struct_task_rss_stat :: ctype where
  "struct_task_rss_stat =
    CStruct [Field ''events'' c_int, Field ''count'' (CArr c_int 4)]"

definition struct_prev_cputime :: ctype where
  "struct_prev_cputime =
    CStruct [Field ''utime'' typedef_u64, Field ''stime'' typedef_u64,
      Field ''lock'' typedef_raw_spinlock_t]"

definition struct_rb_root :: ctype where
  "struct_rb_root =
    CStruct [Field ''rb_node'' (CPtr ''struct rb_node'')]"

definition struct_rb_root_cached :: ctype where
  "struct_rb_root_cached =
    CStruct [Field ''rb_root'' struct_rb_root, Field ''rb_leftmost'' (CPtr ''struct rb_node'')]"

definition struct_timerqueue_head :: ctype where
  "struct_timerqueue_head =
    CStruct [Field ''rb_root'' struct_rb_root_cached]"

definition struct_posix_cputimer_base :: ctype where
  "struct_posix_cputimer_base =
    CStruct [Field ''nextevt'' typedef_u64, Field ''tqhead'' struct_timerqueue_head]"

definition struct_posix_cputimers :: ctype where
  "struct_posix_cputimers =
    CStruct [Field ''bases'' (CArr struct_posix_cputimer_base 3), Field ''timers_active'' c_uint,
      Field ''expiry_active'' c_uint]"

definition struct_sysv_sem :: ctype where
  "struct_sysv_sem =
    CStruct [Field ''undo_list'' (CPtr ''struct sem_undo_list'')]"

definition struct_sysv_shm :: ctype where
  "struct_sysv_shm =
    CStruct [Field ''shm_clist'' struct_list_head]"

definition typedef_sigset_t :: ctype where
  "typedef_sigset_t =
    CStruct [Field ''sig'' (CArr c_ulong 1)]"

definition struct_sigpending :: ctype where
  "struct_sigpending =
    CStruct [Field ''list'' struct_list_head, Field ''signal'' typedef_sigset_t]"

definition typedef_kuid_t :: ctype where
  "typedef_kuid_t =
    CStruct [Field ''val'' typedef_uid_t]"

definition struct_seccomp :: ctype where
  "struct_seccomp =
    CStruct [Field ''mode'' c_int, Field ''filter_count'' typedef_atomic_t,
      Field ''filter'' (CPtr ''struct seccomp_filter'')]"

definition struct_wake_q_node :: ctype where
  "struct_wake_q_node =
    CStruct [Field ''next'' (CPtr ''struct wake_q_node'')]"

definition struct_irqtrace_events :: ctype where
  "struct_irqtrace_events =
    CStruct [Field ''irq_events'' c_uint, Field ''hardirq_enable_ip'' c_ulong,
      Field ''hardirq_disable_ip'' c_ulong, Field ''hardirq_enable_event'' c_uint,
      Field ''hardirq_disable_event'' c_uint, Field ''softirq_disable_ip'' c_ulong,
      Field ''softirq_enable_ip'' c_ulong, Field ''softirq_disable_event'' c_uint,
      Field ''softirq_enable_event'' c_uint]"

definition struct_task_io_accounting :: ctype where
  "struct_task_io_accounting =
    CStruct [Field ''rchar'' typedef_u64, Field ''wchar'' typedef_u64,
      Field ''syscr'' typedef_u64, Field ''syscw'' typedef_u64,
      Field ''read_bytes'' typedef_u64, Field ''write_bytes'' typedef_u64,
      Field ''cancelled_write_bytes'' typedef_u64]"

definition typedef_nodemask_t :: ctype where
  "typedef_nodemask_t =
    CStruct [Field ''bits'' (CArr c_ulong 1)]"

definition struct_seqcount :: ctype where
  "struct_seqcount =
    CStruct [Field ''sequence'' c_uint]"

definition typedef_seqcount_t :: ctype where
  "typedef_seqcount_t =
    struct_seqcount"

definition struct_seqcount_spinlock :: ctype where
  "struct_seqcount_spinlock =
    CStruct [Field ''seqcount'' typedef_seqcount_t]"

definition typedef_seqcount_spinlock_t :: ctype where
  "typedef_seqcount_spinlock_t =
    struct_seqcount_spinlock"

definition struct_optimistic_spin_queue :: ctype where
  "struct_optimistic_spin_queue =
    CStruct [Field ''tail'' typedef_atomic_t]"

definition struct_mutex :: ctype where
  "struct_mutex =
    CStruct [Field ''owner'' typedef_atomic_long_t, Field ''wait_lock'' typedef_spinlock_t,
      Field ''osq'' struct_optimistic_spin_queue, Field ''wait_list'' struct_list_head]"

definition struct_tlbflush_unmap_batch :: ctype where
  "struct_tlbflush_unmap_batch =
    CStruct []"

definition struct_page_frag :: ctype where
  "struct_page_frag =
    CStruct [Field ''page'' (CPtr ''struct page''), Field ''offset'' typedef___u32,
      Field ''size'' typedef___u32]"

definition struct_latency_record :: ctype where
  "struct_latency_record =
    CStruct [Field ''backtrace'' (CArr c_ulong 12), Field ''count'' c_uint,
      Field ''time'' c_ulong, Field ''max'' c_ulong]"

definition struct_cpu_context :: ctype where
  "struct_cpu_context =
    CStruct [Field ''x19'' c_ulong, Field ''x20'' c_ulong, Field ''x21'' c_ulong,
      Field ''x22'' c_ulong, Field ''x23'' c_ulong, Field ''x24'' c_ulong,
      Field ''x25'' c_ulong, Field ''x26'' c_ulong, Field ''x27'' c_ulong,
      Field ''x28'' c_ulong, Field ''fp'' c_ulong, Field ''sp'' c_ulong,
      Field ''pc'' c_ulong]"

definition struct_user_fpsimd_state :: ctype where
  "struct_user_fpsimd_state =
    CStruct [Field ''vregs'' (CArr c_uint128 32), Field ''fpsr'' typedef___u32,
      Field ''fpcr'' typedef___u32, Field ''__reserved'' (CArr typedef___u32 2)]"

definition struct_debug_info :: ctype where
  "struct_debug_info =
    CStruct [Field ''suspended_step'' c_int, Field ''bps_disabled'' c_int,
      Field ''wps_disabled'' c_int,
      Field ''hbp_break'' (CArr (CPtr ''struct perf_event'') 16),
      Field ''hbp_watch'' (CArr (CPtr ''struct perf_event'') 16)]"

definition struct_ptrauth_key :: ctype where
  "struct_ptrauth_key =
    CStruct [Field ''lo'' c_ulong, Field ''hi'' c_ulong]"

definition struct_ptrauth_keys_user :: ctype where
  "struct_ptrauth_keys_user =
    CStruct [Field ''apia'' struct_ptrauth_key, Field ''apib'' struct_ptrauth_key,
      Field ''apda'' struct_ptrauth_key, Field ''apdb'' struct_ptrauth_key,
      Field ''apga'' struct_ptrauth_key]"

definition struct_ptrauth_keys_kernel :: ctype where
  "struct_ptrauth_keys_kernel =
    CStruct [Field ''apia'' struct_ptrauth_key]"

definition struct_thread_struct :: ctype where
  "struct_thread_struct =
    CStruct [Field ''cpu_context'' struct_cpu_context, Bits '''' 8 64,
      Field ''uw'' (CStruct [Field ''tp_value'' c_ulong, Field ''tp2_value'' c_ulong,
        Field ''fpsimd_state'' struct_user_fpsimd_state]),
      Field ''fpsimd_cpu'' c_uint, Field ''sve_state'' (CPtr ''void''),
      Field ''sve_vl'' c_uint, Field ''sve_vl_onexec'' c_uint,
      Field ''fault_address'' c_ulong, Field ''fault_code'' c_ulong,
      Field ''debug'' struct_debug_info, Field ''keys_user'' struct_ptrauth_keys_user,
      Field ''keys_kernel'' struct_ptrauth_keys_kernel, Field ''sctlr_tcf0'' typedef_u64,
      Field ''gcr_user_incl'' typedef_u64, Bits '''' 8 64]"

definition struct_task_struct :: ctype where
  "struct_task_struct =
    CStruct [Field ''thread_info'' struct_thread_info, Field ''state'' c_long,
      Field ''stack'' (CPtr ''void''), Field ''usage'' typedef_refcount_t,
      Field ''flags'' c_uint, Field ''ptrace'' c_uint, Field ''on_cpu'' c_int,
      Field ''wake_entry'' struct___call_single_node, Field ''cpu'' c_uint,
      Field ''wakee_flips'' c_uint, Field ''wakee_flip_decay_ts'' c_ulong,
      Field ''last_wakee'' (CPtr ''struct task_struct''), Field ''recent_used_cpu'' c_int,
      Field ''wake_cpu'' c_int, Field ''on_rq'' c_int, Field ''prio'' c_int,
      Field ''static_prio'' c_int, Field ''normal_prio'' c_int,
      Field ''rt_priority'' c_uint, Field ''sched_class'' (CPtr ''struct sched_class''),
      Bits '''' 8 64, Bits '''' 8 64, Bits '''' 8 64, Bits '''' 8 64, Bits '''' 8 64,
      Bits '''' 8 64, Bits '''' 8 64, Field ''se'' struct_sched_entity,
      Field ''rt'' struct_sched_rt_entity,
      Field ''sched_task_group'' (CPtr ''struct task_group''),
      Field ''dl'' struct_sched_dl_entity, Field ''preempt_notifiers'' struct_hlist_head,
      Field ''btrace_seq'' c_uint, Field ''policy'' c_uint,
      Field ''nr_cpus_allowed'' c_int, Field ''cpus_ptr'' (CPtr ''cpumask_t''),
      Field ''cpus_mask'' typedef_cpumask_t, Field ''rcu_read_lock_nesting'' c_int,
      Field ''rcu_read_unlock_special'' union_rcu_special,
      Field ''rcu_node_entry'' struct_list_head,
      Field ''rcu_blocked_node'' (CPtr ''struct rcu_node''),
      Field ''rcu_tasks_nvcsw'' c_ulong, Field ''rcu_tasks_holdout'' typedef_u8,
      Field ''rcu_tasks_idx'' typedef_u8, Field ''rcu_tasks_idle_cpu'' c_int,
      Field ''rcu_tasks_holdout_list'' struct_list_head,
      Field ''trc_reader_nesting'' c_int, Field ''trc_ipi_to_cpu'' c_int,
      Field ''trc_reader_special'' union_rcu_special,
      Field ''trc_reader_checked'' typedef_bool,
      Field ''trc_holdout_list'' struct_list_head, Field ''sched_info'' struct_sched_info,
      Field ''tasks'' struct_list_head, Field ''pushable_tasks'' struct_plist_node,
      Field ''pushable_dl_tasks'' struct_rb_node, Field ''mm'' (CPtr ''struct mm_struct''),
      Field ''active_mm'' (CPtr ''struct mm_struct''), Field ''vmacache'' struct_vmacache,
      Field ''rss_stat'' struct_task_rss_stat, Field ''exit_state'' c_int,
      Field ''exit_code'' c_int, Field ''exit_signal'' c_int,
      Field ''pdeath_signal'' c_int, Field ''jobctl'' c_ulong,
      Field ''personality'' c_uint, Bits ''sched_reset_on_fork'' 4 1,
      Bits ''sched_contributes_to_load'' 4 1, Bits ''sched_migrated'' 4 1, Bits '''' 4 29,
      Bits ''sched_remote_wakeup'' 4 1, Bits ''in_execve'' 4 1, Bits ''in_iowait'' 4 1,
      Bits ''in_user_fault'' 4 1, Bits ''no_cgroup_migration'' 4 1, Bits ''frozen'' 4 1,
      Bits ''use_memdelay'' 4 1, Field ''atomic_flags'' c_ulong,
      Field ''restart_block'' struct_restart_block, Field ''pid'' typedef_pid_t,
      Field ''tgid'' typedef_pid_t, Field ''stack_canary'' c_ulong,
      Field ''real_parent'' (CPtr ''struct task_struct''),
      Field ''parent'' (CPtr ''struct task_struct''), Field ''children'' struct_list_head,
      Field ''sibling'' struct_list_head,
      Field ''group_leader'' (CPtr ''struct task_struct''),
      Field ''ptraced'' struct_list_head, Field ''ptrace_entry'' struct_list_head,
      Field ''thread_pid'' (CPtr ''struct pid''),
      Field ''pid_links'' (CArr struct_hlist_node 4),
      Field ''thread_group'' struct_list_head, Field ''thread_node'' struct_list_head,
      Field ''vfork_done'' (CPtr ''struct completion''),
      Field ''set_child_tid'' (CPtr ''int''), Field ''clear_child_tid'' (CPtr ''int''),
      Field ''utime'' typedef_u64, Field ''stime'' typedef_u64,
      Field ''gtime'' typedef_u64, Field ''prev_cputime'' struct_prev_cputime,
      Field ''nvcsw'' c_ulong, Field ''nivcsw'' c_ulong, Field ''start_time'' typedef_u64,
      Field ''start_boottime'' typedef_u64, Field ''min_flt'' c_ulong,
      Field ''maj_flt'' c_ulong, Field ''posix_cputimers'' struct_posix_cputimers,
      Field ''ptracer_cred'' (CPtr ''struct cred''),
      Field ''real_cred'' (CPtr ''struct cred''), Field ''cred'' (CPtr ''struct cred''),
      Field ''cached_requested_key'' (CPtr ''struct key''),
      Field ''comm'' (CArr c_char 16), Field ''nameidata'' (CPtr ''struct nameidata''),
      Field ''sysvsem'' struct_sysv_sem, Field ''sysvshm'' struct_sysv_shm,
      Field ''last_switch_count'' c_ulong, Field ''last_switch_time'' c_ulong,
      Field ''fs'' (CPtr ''struct fs_struct''),
      Field ''files'' (CPtr ''struct files_struct''),
      Field ''io_uring'' (CPtr ''struct io_uring_task''),
      Field ''nsproxy'' (CPtr ''struct nsproxy''),
      Field ''signal'' (CPtr ''struct signal_struct''),
      Field ''sighand'' (CPtr ''struct sighand_struct''),
      Field ''blocked'' typedef_sigset_t, Field ''real_blocked'' typedef_sigset_t,
      Field ''saved_sigmask'' typedef_sigset_t, Field ''pending'' struct_sigpending,
      Field ''sas_ss_sp'' c_ulong, Field ''sas_ss_size'' typedef_size_t,
      Field ''sas_ss_flags'' c_uint, Field ''task_works'' (CPtr ''struct callback_head''),
      Field ''audit_context'' (CPtr ''struct audit_context''),
      Field ''loginuid'' typedef_kuid_t, Field ''sessionid'' c_uint,
      Field ''seccomp'' struct_seccomp, Field ''parent_exec_id'' typedef_u64,
      Field ''self_exec_id'' typedef_u64, Field ''alloc_lock'' typedef_spinlock_t,
      Field ''pi_lock'' typedef_raw_spinlock_t, Field ''wake_q'' struct_wake_q_node,
      Field ''pi_waiters'' struct_rb_root_cached,
      Field ''pi_top_task'' (CPtr ''struct task_struct''),
      Field ''pi_blocked_on'' (CPtr ''struct rt_mutex_waiter''),
      Field ''irqtrace'' struct_irqtrace_events, Field ''hardirq_threaded'' c_uint,
      Field ''hardirq_chain_key'' typedef_u64, Field ''softirqs_enabled'' c_int,
      Field ''softirq_context'' c_int, Field ''irq_config'' c_int,
      Field ''journal_info'' (CPtr ''void''),
      Field ''bio_list'' (CPtr ''struct bio_list''),
      Field ''plug'' (CPtr ''struct blk_plug''),
      Field ''reclaim_state'' (CPtr ''struct reclaim_state''),
      Field ''backing_dev_info'' (CPtr ''struct backing_dev_info''),
      Field ''io_context'' (CPtr ''struct io_context''),
      Field ''capture_control'' (CPtr ''struct capture_control''),
      Field ''ptrace_message'' c_ulong, Field ''last_siginfo'' (CPtr ''kernel_siginfo_t''),
      Field ''ioac'' struct_task_io_accounting, Field ''acct_rss_mem1'' typedef_u64,
      Field ''acct_vm_mem1'' typedef_u64, Field ''acct_timexpd'' typedef_u64,
      Field ''mems_allowed'' typedef_nodemask_t,
      Field ''mems_allowed_seq'' typedef_seqcount_spinlock_t,
      Field ''cpuset_mem_spread_rotor'' c_int, Field ''cpuset_slab_spread_rotor'' c_int,
      Field ''cgroups'' (CPtr ''struct css_set''), Field ''cg_list'' struct_list_head,
      Field ''robust_list'' (CPtr ''struct robust_list_head''),
      Field ''compat_robust_list'' (CPtr ''struct compat_robust_list_head''),
      Field ''pi_state_list'' struct_list_head,
      Field ''pi_state_cache'' (CPtr ''struct futex_pi_state''),
      Field ''futex_exit_mutex'' struct_mutex, Field ''futex_state'' c_uint,
      Field ''perf_event_ctxp'' (CArr (CPtr ''struct perf_event_context'') 2),
      Field ''perf_event_mutex'' struct_mutex, Field ''perf_event_list'' struct_list_head,
      Field ''preempt_disable_ip'' c_ulong, Field ''rseq'' (CPtr ''struct rseq''),
      Field ''rseq_sig'' typedef_u32, Field ''rseq_event_mask'' c_ulong,
      Field ''tlb_ubc'' struct_tlbflush_unmap_batch,
      Field '''' (CUnion [Field ''rcu_users'' typedef_refcount_t, Field ''rcu'' struct_callback_head]),
      Field ''splice_pipe'' (CPtr ''struct pipe_inode_info''),
      Field ''task_frag'' struct_page_frag,
      Field ''delays'' (CPtr ''struct task_delay_info''), Field ''nr_dirtied'' c_int,
      Field ''nr_dirtied_pause'' c_int, Field ''dirty_paused_when'' c_ulong,
      Field ''latency_record_count'' c_int,
      Field ''latency_record'' (CArr struct_latency_record 32),
      Field ''timer_slack_ns'' typedef_u64, Field ''default_timer_slack_ns'' typedef_u64,
      Field ''curr_ret_stack'' c_int, Field ''curr_ret_depth'' c_int,
      Field ''ret_stack'' (CPtr ''struct ftrace_ret_stack''),
      Field ''ftrace_timestamp'' c_ullong, Field ''trace_overrun'' typedef_atomic_t,
      Field ''tracing_graph_pause'' typedef_atomic_t, Field ''trace'' c_ulong,
      Field ''trace_recursion'' c_ulong,
      Field ''memcg_in_oom'' (CPtr ''struct mem_cgroup''),
      Field ''memcg_oom_gfp_mask'' typedef_gfp_t, Field ''memcg_oom_order'' c_int,
      Field ''memcg_nr_pages_over_high'' c_uint,
      Field ''active_memcg'' (CPtr ''struct mem_cgroup''),
      Field ''throttle_queue'' (CPtr ''struct request_queue''),
      Field ''pagefault_disabled'' c_int,
      Field ''oom_reaper_list'' (CPtr ''struct task_struct''),
      Field ''stack_vm_area'' (CPtr ''struct vm_struct''),
      Field ''stack_refcount'' typedef_refcount_t, Field ''security'' (CPtr ''void''),
      Bits '''' 8 64, Field ''thread'' struct_thread_struct, Bits '''' 8 64,
      Bits '''' 8 64, Bits '''' 8 64, Bits '''' 8 64]"

definition struct_user_pt_regs :: ctype where
  "struct_user_pt_regs =
    CStruct [Field ''regs'' (CArr typedef___u64 31), Field ''sp'' typedef___u64,
      Field ''pc'' typedef___u64, Field ''pstate'' typedef___u64]"

definition struct_pt_regs :: ctype where
  "struct_pt_regs =
    CStruct [Field '''' (CUnion [Field ''user_regs'' struct_user_pt_regs,
        Field '''' (CStruct [Field ''regs'' (CArr typedef_u64 31), Field ''sp'' typedef_u64,
          Field ''pc'' typedef_u64, Field ''pstate'' typedef_u64])]),
      Field ''orig_x0'' typedef_u64, Field ''syscallno'' typedef_s32,
      Field ''unused2'' typedef_u32, Field ''orig_addr_limit'' typedef_u64,
      Field ''pmr_save'' typedef_u64, Field ''stackframe'' (CArr typedef_u64 2),
      Field ''lockdep_hardirqs'' typedef_u64, Field ''exit_rcu'' typedef_u64]"

end
