(* ===== verification/Vmlinux_Module.thy ===== *)
theory Vmlinux_Module
  imports Vmlinux_Task
begin

text \<open>
  Kernel types, continued: modules, devices, raw tracepoints and branch records.
\<close>

definition enum_module_state :: "(string \<times> int) list" where
  "enum_module_state =
    [(''MODULE_STATE_LIVE'', 0), (''MODULE_STATE_COMING'', 1), (''MODULE_STATE_GOING'', 2),
     (''MODULE_STATE_UNFORMED'', 3)]"

definition struct_kref :: ctype where
  "struct_kref =
    CStruct [Field ''refcount'' typedef_refcount_t]"

definition struct_kobject :: ctype where
  "struct_kobject =
    CStruct [Field ''name'' (CPtr ''char''), Field ''entry'' struct_list_head,
      Field ''parent'' (CPtr ''struct kobject''), Field ''kset'' (CPtr ''struct kset''),
      Field ''ktype'' (CPtr ''struct kobj_type''),
      Field ''sd'' (CPtr ''struct kernfs_node''), Field ''kref'' struct_kref,
      Bits ''state_initialized'' 4 1, Bits ''state_in_sysfs'' 4 1,
      Bits ''state_add_uevent_sent'' 4 1, Bits ''state_remove_uevent_sent'' 4 1,
      Bits ''uevent_suppress'' 4 1]"

definition struct_module_kobject :: ctype where
  "struct_module_kobject =
    CStruct [Field ''kobj'' struct_kobject, Field ''mod'' (CPtr ''struct module''),
      Field ''drivers_dir'' (CPtr ''struct kobject''),
      Field ''mp'' (CPtr ''struct module_param_attrs''),
      Field ''kobj_completion'' (CPtr ''struct completion'')]"

definition struct_latch_tree_node :: ctype where
  "struct_latch_tree_node =
    CStruct [Field ''node'' (CArr struct_rb_node 2)]"

definition struct_mod_tree_node :: ctype where
  "struct_mod_tree_node =
    CStruct [Field ''mod'' (CPtr ''struct module''), Field ''node'' struct_latch_tree_node]"

definition struct_module_layout :: ctype where
  "struct_module_layout =
    CStruct [Field ''base'' (CPtr ''void''), Field ''size'' c_uint, Field ''text_size'' c_uint,
      Field ''ro_size'' c_uint, Field ''ro_after_init_size'' c_uint,
      Field ''mtn'' struct_mod_tree_node]"

definition struct_mod_plt_sec :: ctype where
  "struct_mod_plt_sec =
    CStruct [Field ''plt_shndx'' c_int, Field ''plt_num_entries'' c_int,
      Field ''plt_max_entries'' c_int]"

definition struct_mod_arch_specific :: ctype where
  "struct_mod_arch_specific =
    CStruct [Field ''core'' struct_mod_plt_sec, Field ''init'' struct_mod_plt_sec,
      Field ''ftrace_trampolines'' (CPtr ''struct plt_entry'')]"

definition struct_mod_kallsyms :: ctype where
  "struct_mod_kallsyms =
    CStruct [Field ''symtab'' (CPtr ''Elf64_Sym''), Field ''num_symtab'' c_uint,
      Field ''strtab'' (CPtr ''char''), Field ''typetab'' (CPtr ''char'')]"

definition struct_module :: ctype where
  "struct_module =
    CStruct [Field ''state'' c_enum, Field ''list'' struct_list_head,
      Field ''name'' (CArr c_char 56), Field ''mkobj'' struct_module_kobject,
      Field ''modinfo_attrs'' (CPtr ''struct module_attribute''),
      Field ''version'' (CPtr ''char''), Field ''srcversion'' (CPtr ''char''),
      Field ''holders_dir'' (CPtr ''struct kobject''),
      Field ''syms'' (CPtr ''struct kernel_symbol''), Field ''crcs'' (CPtr ''s32''),
      Field ''num_syms'' c_uint, Field ''param_lock'' struct_mutex,
      Field ''kp'' (CPtr ''struct kernel_param''), Field ''num_kp'' c_uint,
      Field ''num_gpl_syms'' c_uint, Field ''gpl_syms'' (CPtr ''struct kernel_symbol''),
      Field ''gpl_crcs'' (CPtr ''s32''), Field ''using_gplonly_symbols'' typedef_bool,
      Field ''async_probe_requested'' typedef_bool,
      Field ''gpl_future_syms'' (CPtr ''struct kernel_symbol''),
      Field ''gpl_future_crcs'' (CPtr ''s32''), Field ''num_gpl_future_syms'' c_uint,
      Field ''num_exentries'' c_uint,
      Field ''extable'' (CPtr ''struct exception_table_entry''),
      Field ''init'' (CPtr ''fn''), Bits '''' 8 64, Bits '''' 8 64, Bits '''' 8 64,
      Bits '''' 8 64, Bits '''' 8 64, Field ''core_layout'' struct_module_layout,
      Field ''init_layout'' struct_module_layout, Field ''arch'' struct_mod_arch_specific,
      Field ''taints'' c_ulong, Field ''num_bugs'' c_uint,
      Field ''bug_list'' struct_list_head, Field ''bug_table'' (CPtr ''struct bug_entry''),
      Field ''kallsyms'' (CPtr ''struct mod_kallsyms''),
      Field ''core_kallsyms'' struct_mod_kallsyms,
      Field ''sect_attrs'' (CPtr ''struct module_sect_attrs''),
      Field ''notes_attrs'' (CPtr ''struct module_notes_attrs''),
      Field ''args'' (CPtr ''char''), Field ''percpu'' (CPtr ''void''),
      Field ''percpu_size'' c_uint, Field ''noinstr_text_start'' (CPtr ''void''),
      Field ''noinstr_text_size'' c_uint, Field ''num_tracepoints'' c_uint,
      Field ''tracepoints_ptrs'' (CPtr ''tracepoint_ptr_t''),
      Field ''num_srcu_structs'' c_uint,
      Field ''srcu_struct_ptrs'' (CPtr ''struct srcu_struct*''),
      Field ''num_bpf_raw_events'' c_uint,
      Field ''bpf_raw_events'' (CPtr ''struct bpf_raw_event_map''),
      Field ''jump_entries'' (CPtr ''struct jump_entry''),
      Field ''num_jump_entries'' c_uint, Field ''num_trace_bprintk_fmt'' c_uint,
      Field ''trace_bprintk_fmt_start'' (CPtr ''char*''),
      Field ''trace_events'' (CPtr ''struct trace_event_call*''),
      Field ''num_trace_events'' c_uint,
      Field ''trace_evals'' (CPtr ''struct trace_eval_map*''),
      Field ''num_trace_evals'' c_uint, Field ''num_ftrace_callsites'' c_uint,
      Field ''ftrace_callsites'' (CPtr ''long unsigned int''),
      Field ''kprobes_text_start'' (CPtr ''void''), Field ''kprobes_text_size'' c_uint,
      Field ''kprobe_blacklist'' (CPtr ''long unsigned int''),
      Field ''num_kprobe_blacklist'' c_uint, Field ''source_list'' struct_list_head,
      Field ''target_list'' struct_list_head, Field ''exit'' (CPtr ''fn''),
      Field ''refcnt'' typedef_atomic_t,
      Field ''ei_funcs'' (CPtr ''struct error_injection_entry''),
      Field ''num_ei_funcs'' c_uint, Bits '''' 8 32, Bits '''' 8 64, Bits '''' 8 64,
      Bits '''' 8 64, Bits '''' 8 64, Bits '''' 8 64, Bits '''' 8 64]"

definition struct_wait_queue_head :: ctype where
  "struct_wait_queue_head =
    CStruct [Field ''lock'' typedef_spinlock_t, Field ''head'' struct_list_head]"

definition typedef_wait_queue_head_t :: ctype where
  "typedef_wait_queue_head_t =
    struct_wait_queue_head"

definition typedef_work_func_t :: ctype where
  "typedef_work_func_t =
    CPtr ''fn''"

definition struct_work_struct :: ctype where
  "struct_work_struct =
    CStruct [Field ''data'' typedef_atomic_long_t, Field ''entry'' struct_list_head,
      Field ''func'' typedef_work_func_t]"

definition struct_timer_list :: ctype where
  "struct_timer_list =
    CStruct [Field ''entry'' struct_hlist_node, Field ''expires'' c_ulong,
      Field ''function'' (CPtr ''fn''), Field ''flags'' typedef_u32]"

definition enum_rpm_status :: "(string \<times> int) list" where
  "enum_rpm_status =
    [(''RPM_ACTIVE'', 0), (''RPM_RESUMING'', 1), (''RPM_SUSPENDED'', 2), (''RPM_SUSPENDING'', 3)]"

definition struct_tracepoint :: ctype where
  "struct_tracepoint =
    CStruct [Field ''name'' (CPtr ''char''), Field ''key'' struct_static_key,
      Field ''static_call_key'' (CPtr ''struct static_call_key''),
      Field ''static_call_tramp'' (CPtr ''void''), Field ''iterator'' (CPtr ''void''),
      Field ''regfunc'' (CPtr ''fn''), Field ''unregfunc'' (CPtr ''fn''),
      Field ''funcs'' (CPtr ''struct tracepoint_func'')]"

definition struct_bpf_raw_event_map :: ctype where
  "struct_bpf_raw_event_map =
    CStruct [Field ''tp'' (CPtr ''struct tracepoint''), Field ''bpf_func'' (CPtr ''void''),
      Field ''num_args'' typedef_u32, Field ''writable_size'' typedef_u32, Bits '''' 8 64]"

definition struct_pm_message :: ctype where
  "struct_pm_message =
    CStruct [Field ''event'' c_int]"

definition typedef_pm_message_t :: ctype where
  "typedef_pm_message_t =
    struct_pm_message"

definition enum_dl_dev_state :: "(string \<times> int) list" where
  "enum_dl_dev_state =
    [(''DL_DEV_NO_DRIVER'', 0), (''DL_DEV_PROBING'', 1), (''DL_DEV_DRIVER_BOUND'', 2),
     (''DL_DEV_UNBINDING'', 3)]"

definition struct_dev_links_info :: ctype where
  "struct_dev_links_info =
    CStruct [Field ''suppliers'' struct_list_head, Field ''consumers'' struct_list_head,
      Field ''needs_suppliers'' struct_list_head, Field ''defer_hook'' struct_list_head,
      Field ''need_for_probe'' typedef_bool, Field ''status'' c_enum]"

definition enum_rpm_request :: "(string \<times> int) list" where
  "enum_rpm_request =
    [(''RPM_REQ_NONE'', 0), (''RPM_REQ_IDLE'', 1), (''RPM_REQ_SUSPEND'', 2),
     (''RPM_REQ_AUTOSUSPEND'', 3), (''RPM_REQ_RESUME'', 4)]"

definition struct_dev_pm_info :: ctype where
  "struct_dev_pm_info =
    CStruct [Field ''power_state'' typedef_pm_message_t, Bits ''can_wakeup'' 4 1,
      Bits ''async_suspend'' 4 1, Bits ''in_dpm_list'' 1 1, Bits ''is_prepared'' 1 1,
      Bits ''is_suspended'' 1 1, Bits ''is_noirq_suspended'' 1 1,
      Bits ''is_late_suspended'' 1 1, Bits ''no_pm'' 1 1, Bits ''early_init'' 1 1,
      Bits ''direct_complete'' 1 1, Field ''driver_flags'' typedef_u32,
      Field ''lock'' typedef_spinlock_t, Bits ''should_wakeup'' 4 1,
      Field ''suspend_timer'' struct_hrtimer, Field ''timer_expires'' typedef_u64,
      Field ''work'' struct_work_struct, Field ''wait_queue'' typedef_wait_queue_head_t,
      Field ''wakeirq'' (CPtr ''struct wake_irq''), Field ''usage_count'' typedef_atomic_t,
      Field ''child_count'' typedef_atomic_t, Bits ''disable_depth'' 4 3,
      Bits ''idle_notification'' 4 1, Bits ''request_pending'' 4 1,
      Bits ''deferred_resume'' 4 1, Bits ''needs_force_resume'' 4 1,
      Bits ''runtime_auto'' 4 1, Bits ''ignore_children'' 1 1, Bits ''no_callbacks'' 4 1,
      Bits ''irq_safe'' 4 1, Bits ''use_autosuspend'' 4 1, Bits ''timer_autosuspends'' 4 1,
      Bits ''memalloc_noio'' 4 1, Field ''links_count'' c_uint, Field ''request'' c_enum,
      Field ''runtime_status'' c_enum, Field ''runtime_error'' c_int,
      Field ''autosuspend_delay'' c_int, Field ''last_busy'' typedef_u64,
      Field ''active_time'' typedef_u64, Field ''suspended_time'' typedef_u64,
      Field ''accounting_timestamp'' typedef_u64,
      Field ''subsys_data'' (CPtr ''struct pm_subsys_data''),
      Field ''set_latency_tolerance'' (CPtr ''fn''),
      Field ''qos'' (CPtr ''struct dev_pm_qos'')]"

definition struct_dev_archdata :: ctype where
  "struct_dev_archdata =
    CStruct []"

definition struct_device :: ctype where
  "struct_device =
    CStruct [Field ''kobj'' struct_kobject, Field ''parent'' (CPtr ''struct device''),
      Field ''p'' (CPtr ''struct device_private''), Field ''init_name'' (CPtr ''char''),
      Field ''type'' (CPtr ''struct device_type''),
      Field ''bus'' (CPtr ''struct bus_type''),
      Field ''driver'' (CPtr ''struct device_driver''),
      Field ''platform_data'' (CPtr ''void''), Field ''driver_data'' (CPtr ''void''),
      Field ''mutex'' struct_mutex, Field ''links'' struct_dev_links_info,
      Field ''power'' struct_dev_pm_info,
      Field ''pm_domain'' (CPtr ''struct dev_pm_domain''),
      Field ''msi_domain'' (CPtr ''struct irq_domain''),
      Field ''pins'' (CPtr ''struct dev_pin_info''),
      Field ''msi_lock'' typedef_raw_spinlock_t, Field ''msi_list'' struct_list_head,
      Field ''dma_mask'' (CPtr ''u64''), Field ''coherent_dma_mask'' typedef_u64,
      Field ''bus_dma_limit'' typedef_u64,
      Field ''dma_range_map'' (CPtr ''struct bus_dma_region''),
      Field ''dma_parms'' (CPtr ''struct device_dma_parameters''),
      Field ''dma_pools'' struct_list_head,
      Field ''dma_mem'' (CPtr ''struct dma_coherent_mem''),
      Field ''cma_area'' (CPtr ''struct cma''), Field ''archdata'' struct_dev_archdata,
      Field ''of_node'' (CPtr ''struct device_node''),
      Field ''fwnode'' (CPtr ''struct fwnode_handle''), Field ''devt'' typedef_dev_t,
      Field ''id'' typedef_u32, Field ''devres_lock'' typedef_spinlock_t,
      Field ''devres_head'' struct_list_head, Field ''class'' (CPtr ''struct class''),
      Field ''groups'' (CPtr ''struct attribute_group*''), Field ''release'' (CPtr ''fn''),
      Field ''iommu_group'' (CPtr ''struct iommu_group''),
      Field ''iommu'' (CPtr ''struct dev_iommu''), Bits ''offline_disabled'' 1 1,
      Bits ''offline'' 1 1, Bits ''of_node_reused'' 1 1, Bits ''state_synced'' 1 1,
      Bits ''dma_coherent'' 1 1]"

definition struct_perf_branch_entry :: ctype where
  "struct_perf_branch_entry =
    CStruct [Field ''from'' typedef___u64, Field ''to'' typedef___u64, Bits ''mispred'' 8 1,
      Bits ''predicted'' 8 1, Bits ''in_tx'' 8 1, Bits ''abort'' 8 1, Bits ''cycles'' 8 16,
      Bits ''type'' 8 4, Bits ''reserved'' 8 40]"

definition typedef___s16 :: ctype where
  "typedef___s16 =
    c_short"

definition typedef_s16 :: ctype where
  "typedef_s16 =
    typedef___s16"

definition typedef___be16 :: ctype where
  "typedef___be16 =
    typedef___u16"

definition typedef___be32 :: ctype where
  "typedef___be32 =
    typedef___u32"

definition typedef___wsum :: ctype where
  "typedef___wsum =
    typedef___u32"

definition typedef___addrpair :: ctype where
  "typedef___addrpair =
    typedef___u64"

definition typedef___portpair :: ctype where
  "typedef___portpair =
    typedef___u32"

definition typedef_possible_net_t :: ctype where
  "typedef_possible_net_t =
    CStruct [Field ''net'' (CPtr ''struct net'')]"

definition struct_in6_addr :: ctype where
  "struct_in6_addr =
    CStruct [Field ''in6_u'' (CUnion [Field ''u6_addr8'' (CArr typedef___u8 16),
        Field ''u6_addr16'' (CArr typedef___be16 8),
        Field ''u6_addr32'' (CArr typedef___be32 4)])]"

definition struct_hlist_nulls_node :: ctype where
  "struct_hlist_nulls_node =
    CStruct [Field ''next'' (CPtr ''struct hlist_nulls_node''),
      Field ''pprev'' (CPtr ''struct hlist_nulls_node*'')]"

end
