(* ===== verification/Vmlinux_Net.thy ===== *)
theory Vmlinux_Net
  imports Vmlinux_Module
begin

text \<open>
  Kernel types, continued: sockets, packets and their headers, network devices, BPF programs
  and maps. An enumeration is the list of its constants with their values.
\<close>

definition struct_sock_common :: ctype where
  "struct_sock_common =
    CStruct [Field '''' (CUnion [Field ''skc_addrpair'' typedef___addrpair,
        Field '''' (CStruct [Field ''skc_daddr'' typedef___be32, Field ''skc_rcv_saddr'' typedef___be32])]),
      Field '''' (CUnion [Field ''skc_hash'' c_uint, Field ''skc_u16hashes'' (CArr typedef___u16 2)]),
      Field '''' (CUnion [Field ''skc_portpair'' typedef___portpair,
        Field '''' (CStruct [Field ''skc_dport'' typedef___be16, Field ''skc_num'' typedef___u16])]),
      Field ''skc_family'' c_ushort, Field ''skc_state'' c_uchar, Bits ''skc_reuse'' 1 4,
      Bits ''skc_reuseport'' 1 1, Bits ''skc_ipv6only'' 1 1, Bits ''skc_net_refcnt'' 1 1,
      Field ''skc_bound_dev_if'' c_int,
      Field '''' (CUnion [Field ''skc_bind_node'' struct_hlist_node,
        Field ''skc_portaddr_node'' struct_hlist_node]),
      Field ''skc_prot'' (CPtr ''struct proto''), Field ''skc_net'' typedef_possible_net_t,
      Field ''skc_v6_daddr'' struct_in6_addr, Field ''skc_v6_rcv_saddr'' struct_in6_addr,
      Field ''skc_cookie'' typedef_atomic64_t,
      Field '''' (CUnion [Field ''skc_flags'' c_ulong, Field ''skc_listener'' (CPtr ''struct sock''),
        Field ''skc_tw_dr'' (CPtr ''struct inet_timewait_death_row'')]),
      Field ''skc_dontcopy_begin'' (CArr c_int 0),
      Field '''' (CUnion [Field ''skc_node'' struct_hlist_node,
        Field ''skc_nulls_node'' struct_hlist_nulls_node]),
      Field ''skc_tx_queue_mapping'' c_ushort, Field ''skc_rx_queue_mapping'' c_ushort,
      Field '''' (CUnion [Field ''skc_incoming_cpu'' c_int, Field ''skc_rcv_wnd'' typedef_u32,
        Field ''skc_tw_rcv_nxt'' typedef_u32]),
      Field ''skc_refcnt'' typedef_refcount_t, Field ''skc_dontcopy_end'' (CArr c_int 0),
      Field '''' (CUnion [Field ''skc_rxhash'' typedef_u32, Field ''skc_window_clamp'' typedef_u32,
        Field ''skc_tw_snd_nxt'' typedef_u32])]"

definition typedef_socket_lock_t :: ctype where
  "typedef_socket_lock_t =
    CStruct [Field ''slock'' typedef_spinlock_t, Field ''owned'' c_int,
      Field ''wq'' typedef_wait_queue_head_t]"

definition struct_sk_buff_head :: ctype where
  "struct_sk_buff_head =
    CStruct [Field ''next'' (CPtr ''struct sk_buff''), Field ''prev'' (CPtr ''struct sk_buff''),
      Field ''qlen'' typedef___u32, Field ''lock'' typedef_spinlock_t]"

definition typedef_netdev_features_t :: ctype where
  "typedef_netdev_features_t =
    typedef_u64"

definition struct_sock_cgroup_data :: ctype where
  "struct_sock_cgroup_data =
    CStruct [Field '''' (CUnion [Field '''' (CStruct [Bits ''is_data'' 1 1, Bits ''no_refcnt'' 1 1, Bits ''unused'' 1 6,
          Field ''padding'' typedef_u8, Field ''prioidx'' typedef_u16,
          Field ''classid'' typedef_u32]),
        Field ''val'' typedef_u64])]"

definition struct_sock :: ctype where
  "struct_sock =
    CStruct [Field ''__sk_common'' struct_sock_common, Field ''sk_lock'' typedef_socket_lock_t,
      Field ''sk_drops'' typedef_atomic_t, Field ''sk_rcvlowat'' c_int,
      Field ''sk_error_queue'' struct_sk_buff_head,
      Field ''sk_rx_skb_cache'' (CPtr ''struct sk_buff''),
      Field ''sk_receive_queue'' struct_sk_buff_head,
      Field ''sk_backlog'' (CStruct [Field ''rmem_alloc'' typedef_atomic_t, Field ''len'' c_int,
        Field ''head'' (CPtr ''struct sk_buff''), Field ''tail'' (CPtr ''struct sk_buff'')]),
      Field ''sk_forward_alloc'' c_int, Field ''sk_ll_usec'' c_uint,
      Field ''sk_napi_id'' c_uint, Field ''sk_rcvbuf'' c_int,
      Field ''sk_filter'' (CPtr ''struct sk_filter''),
      Field '''' (CUnion [Field ''sk_wq'' (CPtr ''struct socket_wq''),
        Field ''sk_wq_raw'' (CPtr ''struct socket_wq'')]),
      Field ''sk_policy'' (CArr (CPtr ''struct xfrm_policy'') 2),
      Field ''sk_rx_dst'' (CPtr ''struct dst_entry''),
      Field ''sk_dst_cache'' (CPtr ''struct dst_entry''),
      Field ''sk_omem_alloc'' typedef_atomic_t, Field ''sk_sndbuf'' c_int,
      Field ''sk_wmem_queued'' c_int, Field ''sk_wmem_alloc'' typedef_refcount_t,
      Field ''sk_tsq_flags'' c_ulong,
      Field '''' (CUnion [Field ''sk_send_head'' (CPtr ''struct sk_buff''),
        Field ''tcp_rtx_queue'' struct_rb_root]),
      Field ''sk_tx_skb_cache'' (CPtr ''struct sk_buff''),
      Field ''sk_write_queue'' struct_sk_buff_head, Field ''sk_peek_off'' typedef___s32,
      Field ''sk_write_pending'' c_int, Field ''sk_dst_pending_confirm'' typedef___u32,
      Field ''sk_pacing_status'' typedef_u32, Field ''sk_sndtimeo'' c_long,
      Field ''sk_timer'' struct_timer_list, Field ''sk_priority'' typedef___u32,
      Field ''sk_mark'' typedef___u32, Field ''sk_pacing_rate'' c_ulong,
      Field ''sk_max_pacing_rate'' c_ulong, Field ''sk_frag'' struct_page_frag,
      Field ''sk_route_caps'' typedef_netdev_features_t,
      Field ''sk_route_nocaps'' typedef_netdev_features_t,
      Field ''sk_route_forced_caps'' typedef_netdev_features_t,
      Field ''sk_gso_type'' c_int, Field ''sk_gso_max_size'' c_uint,
      Field ''sk_allocation'' typedef_gfp_t, Field ''sk_txhash'' typedef___u32,
      Bits ''sk_padding'' 1 1, Bits ''sk_kern_sock'' 1 1, Bits ''sk_no_check_tx'' 1 1,
      Bits ''sk_no_check_rx'' 1 1, Bits ''sk_userlocks'' 1 4,
      Field ''sk_pacing_shift'' typedef_u8, Field ''sk_type'' typedef_u16,
      Field ''sk_protocol'' typedef_u16, Field ''sk_gso_max_segs'' typedef_u16,
      Field ''sk_lingertime'' c_ulong, Field ''sk_prot_creator'' (CPtr ''struct proto''),
      Field ''sk_callback_lock'' typedef_rwlock_t, Field ''sk_err'' c_int,
      Field ''sk_err_soft'' c_int, Field ''sk_ack_backlog'' typedef_u32,
      Field ''sk_max_ack_backlog'' typedef_u32, Field ''sk_uid'' typedef_kuid_t,
      Field ''sk_peer_lock'' typedef_spinlock_t,
      Field ''sk_peer_pid'' (CPtr ''struct pid''),
      Field ''sk_peer_cred'' (CPtr ''struct cred''), Field ''sk_rcvtimeo'' c_long,
      Field ''sk_stamp'' typedef_ktime_t, Field ''sk_tsflags'' typedef_u16,
      Field ''sk_shutdown'' typedef_u8, Field ''sk_tskey'' typedef_u32,
      Field ''sk_zckey'' typedef_atomic_t, Field ''sk_clockid'' typedef_u8,
      Bits ''sk_txtime_deadline_mode'' 1 1, Bits ''sk_txtime_report_errors'' 1 1,
      Bits ''sk_txtime_unused'' 1 6, Field ''sk_socket'' (CPtr ''struct socket''),
      Field ''sk_user_data'' (CPtr ''void''), Field ''sk_security'' (CPtr ''void''),
      Field ''sk_cgrp_data'' struct_sock_cgroup_data,
      Field ''sk_memcg'' (CPtr ''struct mem_cgroup''),
      Field ''sk_state_change'' (CPtr ''fn''), Field ''sk_data_ready'' (CPtr ''fn''),
      Field ''sk_write_space'' (CPtr ''fn''), Field ''sk_error_report'' (CPtr ''fn''),
      Field ''sk_backlog_rcv'' (CPtr ''fn''), Field ''sk_destruct'' (CPtr ''fn''),
      Field ''sk_reuseport_cb'' (CPtr ''struct sock_reuseport''),
      Field ''sk_bpf_storage'' (CPtr ''struct bpf_local_storage''),
      Field ''sk_rcu'' struct_callback_head]"

definition struct_bpf_insn :: ctype where
  "struct_bpf_insn =
    CStruct [Field ''code'' typedef___u8, Bits ''dst_reg'' 1 4, Bits ''src_reg'' 1 4,
      Field ''off'' typedef___s16, Field ''imm'' typedef___s32]"

definition enum_bpf_map_type :: "(string \<times> int) list" where
  "enum_bpf_map_type =
    [(''BPF_MAP_TYPE_UNSPEC'', 0), (''BPF_MAP_TYPE_HASH'', 1), (''BPF_MAP_TYPE_ARRAY'', 2),
     (''BPF_MAP_TYPE_PROG_ARRAY'', 3), (''BPF_MAP_TYPE_PERF_EVENT_ARRAY'', 4),
     (''BPF_MAP_TYPE_PERCPU_HASH'', 5), (''BPF_MAP_TYPE_PERCPU_ARRAY'', 6),
     (''BPF_MAP_TYPE_STACK_TRACE'', 7), (''BPF_MAP_TYPE_CGROUP_ARRAY'', 8),
     (''BPF_MAP_TYPE_LRU_HASH'', 9), (''BPF_MAP_TYPE_LRU_PERCPU_HASH'', 10),
     (''BPF_MAP_TYPE_LPM_TRIE'', 11), (''BPF_MAP_TYPE_ARRAY_OF_MAPS'', 12),
     (''BPF_MAP_TYPE_HASH_OF_MAPS'', 13), (''BPF_MAP_TYPE_DEVMAP'', 14),
     (''BPF_MAP_TYPE_SOCKMAP'', 15), (''BPF_MAP_TYPE_CPUMAP'', 16),
     (''BPF_MAP_TYPE_XSKMAP'', 17), (''BPF_MAP_TYPE_SOCKHASH'', 18),
     (''BPF_MAP_TYPE_CGROUP_STORAGE'', 19), (''BPF_MAP_TYPE_REUSEPORT_SOCKARRAY'', 20),
     (''BPF_MAP_TYPE_PERCPU_CGROUP_STORAGE'', 21), (''BPF_MAP_TYPE_QUEUE'', 22),
     (''BPF_MAP_TYPE_STACK'', 23), (''BPF_MAP_TYPE_SK_STORAGE'', 24),
     (''BPF_MAP_TYPE_DEVMAP_HASH'', 25), (''BPF_MAP_TYPE_STRUCT_OPS'', 26),
     (''BPF_MAP_TYPE_RINGBUF'', 27), (''BPF_MAP_TYPE_INODE_STORAGE'', 28)]"

definition enum_bpf_prog_type :: "(string \<times> int) list" where
  "enum_bpf_prog_type =
    [(''BPF_PROG_TYPE_UNSPEC'', 0), (''BPF_PROG_TYPE_SOCKET_FILTER'', 1),
     (''BPF_PROG_TYPE_KPROBE'', 2), (''BPF_PROG_TYPE_SCHED_CLS'', 3),
     (''BPF_PROG_TYPE_SCHED_ACT'', 4), (''BPF_PROG_TYPE_TRACEPOINT'', 5),
     (''BPF_PROG_TYPE_XDP'', 6), (''BPF_PROG_TYPE_PERF_EVENT'', 7),
     (''BPF_PROG_TYPE_CGROUP_SKB'', 8), (''BPF_PROG_TYPE_CGROUP_SOCK'', 9),
     (''BPF_PROG_TYPE_LWT_IN'', 10), (''BPF_PROG_TYPE_LWT_OUT'', 11),
     (''BPF_PROG_TYPE_LWT_XMIT'', 12), (''BPF_PROG_TYPE_SOCK_OPS'', 13),
     (''BPF_PROG_TYPE_SK_SKB'', 14), (''BPF_PROG_TYPE_CGROUP_DEVICE'', 15),
     (''BPF_PROG_TYPE_SK_MSG'', 16), (''BPF_PROG_TYPE_RAW_TRACEPOINT'', 17),
     (''BPF_PROG_TYPE_CGROUP_SOCK_ADDR'', 18), (''BPF_PROG_TYPE_LWT_SEG6LOCAL'', 19),
     (''BPF_PROG_TYPE_LIRC_MODE2'', 20), (''BPF_PROG_TYPE_SK_REUSEPORT'', 21),
     (''BPF_PROG_TYPE_FLOW_DISSECTOR'', 22), (''BPF_PROG_TYPE_CGROUP_SYSCTL'', 23),
     (''BPF_PROG_TYPE_RAW_TRACEPOINT_WRITABLE'', 24), (''BPF_PROG_TYPE_CGROUP_SOCKOPT'', 25),
     (''BPF_PROG_TYPE_TRACING'', 26), (''BPF_PROG_TYPE_STRUCT_OPS'', 27),
     (''BPF_PROG_TYPE_EXT'', 28), (''BPF_PROG_TYPE_LSM'', 29), (''BPF_PROG_TYPE_SK_LOOKUP'', 30)]"

definition enum_bpf_attach_type :: "(string \<times> int) list" where
  "enum_bpf_attach_type =
    [(''BPF_CGROUP_INET_INGRESS'', 0), (''BPF_CGROUP_INET_EGRESS'', 1),
     (''BPF_CGROUP_INET_SOCK_CREATE'', 2), (''BPF_CGROUP_SOCK_OPS'', 3),
     (''BPF_SK_SKB_STREAM_PARSER'', 4), (''BPF_SK_SKB_STREAM_VERDICT'', 5),
     (''BPF_CGROUP_DEVICE'', 6), (''BPF_SK_MSG_VERDICT'', 7), (''BPF_CGROUP_INET4_BIND'', 8),
     (''BPF_CGROUP_INET6_BIND'', 9), (''BPF_CGROUP_INET4_CONNECT'', 10),
     (''BPF_CGROUP_INET6_CONNECT'', 11), (''BPF_CGROUP_INET4_POST_BIND'', 12),
     (''BPF_CGROUP_INET6_POST_BIND'', 13), (''BPF_CGROUP_UDP4_SENDMSG'', 14),
     (''BPF_CGROUP_UDP6_SENDMSG'', 15), (''BPF_LIRC_MODE2'', 16), (''BPF_FLOW_DISSECTOR'', 17),
     (''BPF_CGROUP_SYSCTL'', 18), (''BPF_CGROUP_UDP4_RECVMSG'', 19),
     (''BPF_CGROUP_UDP6_RECVMSG'', 20), (''BPF_CGROUP_GETSOCKOPT'', 21),
     (''BPF_CGROUP_SETSOCKOPT'', 22), (''BPF_TRACE_RAW_TP'', 23), (''BPF_TRACE_FENTRY'', 24),
     (''BPF_TRACE_FEXIT'', 25), (''BPF_MODIFY_RETURN'', 26), (''BPF_LSM_MAC'', 27),
     (''BPF_TRACE_ITER'', 28), (''BPF_CGROUP_INET4_GETPEERNAME'', 29),
     (''BPF_CGROUP_INET6_GETPEERNAME'', 30), (''BPF_CGROUP_INET4_GETSOCKNAME'', 31),
     (''BPF_CGROUP_INET6_GETSOCKNAME'', 32), (''BPF_XDP_DEVMAP'', 33),
     (''BPF_CGROUP_INET_SOCK_RELEASE'', 34), (''BPF_XDP_CPUMAP'', 35), (''BPF_SK_LOOKUP'', 36),
     (''BPF_XDP'', 37), (''__MAX_BPF_ATTACH_TYPE'', 38)]"

definition struct_bpf_map_memory :: ctype where
  "struct_bpf_map_memory =
    CStruct [Field ''pages'' typedef_u32, Field ''user'' (CPtr ''struct user_struct'')]"

definition struct_bpf_map :: ctype where
  "struct_bpf_map =
    CStruct [Field ''ops'' (CPtr ''struct bpf_map_ops''),
      Field ''inner_map_meta'' (CPtr ''struct bpf_map''),
      Field ''security'' (CPtr ''void''), Field ''map_type'' c_enum,
      Field ''key_size'' typedef_u32, Field ''value_size'' typedef_u32,
      Field ''max_entries'' typedef_u32, Field ''map_flags'' typedef_u32,
      Field ''spin_lock_off'' c_int, Field ''id'' typedef_u32, Field ''numa_node'' c_int,
      Field ''btf_key_type_id'' typedef_u32, Field ''btf_value_type_id'' typedef_u32,
      Field ''btf'' (CPtr ''struct btf''), Field ''memory'' struct_bpf_map_memory,
      Field ''name'' (CArr c_char 16), Field ''btf_vmlinux_value_type_id'' typedef_u32,
      Field ''bypass_spec_v1'' typedef_bool, Field ''frozen'' typedef_bool, Bits '''' 8 16,
      Bits '''' 8 64, Bits '''' 8 64, Field ''refcnt'' typedef_atomic64_t,
      Field ''usercnt'' typedef_atomic64_t, Field ''work'' struct_work_struct,
      Field ''freeze_mutex'' struct_mutex, Field ''writecnt'' typedef_atomic64_t,
      Bits '''' 8 64, Bits '''' 8 64, Bits '''' 8 64, Bits '''' 8 64, Bits '''' 8 64]"

definition struct_bpf_ksym :: ctype where
  "struct_bpf_ksym =
    CStruct [Field ''start'' c_ulong, Field ''end'' c_ulong, Field ''name'' (CArr c_char 128),
      Field ''lnode'' struct_list_head, Field ''tnode'' struct_latch_tree_node,
      Field ''prog'' typedef_bool]"

definition struct_bpf_prog_aux :: ctype where
  "struct_bpf_prog_aux =
    CStruct [Field ''refcnt'' typedef_atomic64_t, Field ''used_map_cnt'' typedef_u32,
      Field ''max_ctx_offset'' typedef_u32, Field ''max_pkt_offset'' typedef_u32,
      Field ''max_tp_access'' typedef_u32, Field ''stack_depth'' typedef_u32,
      Field ''id'' typedef_u32, Field ''func_cnt'' typedef_u32,
      Field ''func_idx'' typedef_u32, Field ''attach_btf_id'' typedef_u32,
      Field ''ctx_arg_info_size'' typedef_u32, Field ''max_rdonly_access'' typedef_u32,
      Field ''max_rdwr_access'' typedef_u32,
      Field ''ctx_arg_info'' (CPtr ''struct bpf_ctx_arg_aux''),
      Field ''dst_mutex'' struct_mutex, Field ''dst_prog'' (CPtr ''struct bpf_prog''),
      Field ''dst_trampoline'' (CPtr ''struct bpf_trampoline''),
      Field ''saved_dst_prog_type'' c_enum, Field ''saved_dst_attach_type'' c_enum,
      Field ''verifier_zext'' typedef_bool, Field ''offload_requested'' typedef_bool,
      Field ''attach_btf_trace'' typedef_bool,
      Field ''func_proto_unreliable'' typedef_bool, Field ''sleepable'' typedef_bool,
      Field ''tail_call_reachable'' typedef_bool, Field ''tramp_hlist'' struct_hlist_node,
      Field ''attach_func_proto'' (CPtr ''struct btf_type''),
      Field ''attach_func_name'' (CPtr ''char''),
      Field ''func'' (CPtr ''struct bpf_prog*''), Field ''jit_data'' (CPtr ''void''),
      Field ''poke_tab'' (CPtr ''struct bpf_jit_poke_descriptor''),
      Field ''size_poke_tab'' typedef_u32, Field ''ksym'' struct_bpf_ksym,
      Field ''ops'' (CPtr ''struct bpf_prog_ops''),
      Field ''used_maps'' (CPtr ''struct bpf_map*''),
      Field ''used_maps_mutex'' struct_mutex, Field ''prog'' (CPtr ''struct bpf_prog''),
      Field ''user'' (CPtr ''struct user_struct''), Field ''load_time'' typedef_u64,
      Field ''cgroup_storage'' (CArr (CPtr ''struct bpf_map'') 2),
      Field ''name'' (CArr c_char 16), Field ''security'' (CPtr ''void''),
      Field ''offload'' (CPtr ''struct bpf_prog_offload''),
      Field ''btf'' (CPtr ''struct btf''),
      Field ''func_info'' (CPtr ''struct bpf_func_info''),
      Field ''func_info_aux'' (CPtr ''struct bpf_func_info_aux''),
      Field ''linfo'' (CPtr ''struct bpf_line_info''),
      Field ''jited_linfo'' (CPtr ''void*''), Field ''func_info_cnt'' typedef_u32,
      Field ''nr_linfo'' typedef_u32, Field ''linfo_idx'' typedef_u32,
      Field ''num_exentries'' typedef_u32,
      Field ''extable'' (CPtr ''struct exception_table_entry''),
      Field ''stats'' (CPtr ''struct bpf_prog_stats''),
      Field '''' (CUnion [Field ''work'' struct_work_struct, Field ''rcu'' struct_callback_head])]"

definition struct_sock_filter :: ctype where
  "struct_sock_filter =
    CStruct [Field ''code'' typedef___u16, Field ''jt'' typedef___u8, Field ''jf'' typedef___u8,
      Field ''k'' typedef___u32]"

definition struct_bpf_prog :: ctype where
  "struct_bpf_prog =
    CStruct [Field ''pages'' typedef_u16, Bits ''jited'' 2 1, Bits ''jit_requested'' 2 1,
      Bits ''gpl_compatible'' 2 1, Bits ''cb_access'' 2 1, Bits ''dst_needed'' 2 1,
      Bits ''blinded'' 2 1, Bits ''is_func'' 2 1, Bits ''kprobe_override'' 2 1,
      Bits ''has_callchain_buf'' 2 1, Bits ''enforce_expected_attach_type'' 2 1,
      Bits ''call_get_stack'' 2 1, Field ''type'' c_enum,
      Field ''expected_attach_type'' c_enum, Field ''len'' typedef_u32,
      Field ''jited_len'' typedef_u32, Field ''tag'' (CArr typedef_u8 8),
      Field ''aux'' (CPtr ''struct bpf_prog_aux''),
      Field ''orig_prog'' (CPtr ''struct sock_fprog_kern''),
      Field ''bpf_func'' (CPtr ''fn''), Field ''insns'' (CArr struct_sock_filter 0),
      Field ''insnsi'' (CArr struct_bpf_insn 0)]"

definition struct_net_device_stats :: ctype where
  "struct_net_device_stats =
    CStruct [Field ''rx_packets'' c_ulong, Field ''tx_packets'' c_ulong,
      Field ''rx_bytes'' c_ulong, Field ''tx_bytes'' c_ulong, Field ''rx_errors'' c_ulong,
      Field ''tx_errors'' c_ulong, Field ''rx_dropped'' c_ulong,
      Field ''tx_dropped'' c_ulong, Field ''multicast'' c_ulong,
      Field ''collisions'' c_ulong, Field ''rx_length_errors'' c_ulong,
      Field ''rx_over_errors'' c_ulong, Field ''rx_crc_errors'' c_ulong,
      Field ''rx_frame_errors'' c_ulong, Field ''rx_fifo_errors'' c_ulong,
      Field ''rx_missed_errors'' c_ulong, Field ''tx_aborted_errors'' c_ulong,
      Field ''tx_carrier_errors'' c_ulong, Field ''tx_fifo_errors'' c_ulong,
      Field ''tx_heartbeat_errors'' c_ulong, Field ''tx_window_errors'' c_ulong,
      Field ''rx_compressed'' c_ulong, Field ''tx_compressed'' c_ulong]"

definition struct_netdev_hw_addr_list :: ctype where
  "struct_netdev_hw_addr_list =
    CStruct [Field ''list'' struct_list_head, Field ''count'' c_int]"

definition enum_netdev_ml_priv_type :: "(string \<times> int) list" where
  "enum_netdev_ml_priv_type =
    [(''ML_PRIV_NONE'', 0), (''ML_PRIV_CAN'', 1)]"

definition struct_netdev_tc_txq :: ctype where
  "struct_netdev_tc_txq =
    CStruct [Field ''count'' typedef_u16, Field ''offset'' typedef_u16]"

definition struct_bpf_xdp_entity :: ctype where
  "struct_bpf_xdp_entity =
    CStruct [Field ''prog'' (CPtr ''struct bpf_prog''),
      Field ''link'' (CPtr ''struct bpf_xdp_link'')]"

definition struct_net_device :: ctype where
  "struct_net_device =
    CStruct [Field ''name'' (CArr c_char 16),
      Field ''name_node'' (CPtr ''struct netdev_name_node''),
      Field ''ifalias'' (CPtr ''struct dev_ifalias''), Field ''mem_end'' c_ulong,
      Field ''mem_start'' c_ulong, Field ''base_addr'' c_ulong, Field ''irq'' c_int,
      Field ''state'' c_ulong, Field ''dev_list'' struct_list_head,
      Field ''napi_list'' struct_list_head, Field ''unreg_list'' struct_list_head,
      Field ''close_list'' struct_list_head, Field ''ptype_all'' struct_list_head,
      Field ''ptype_specific'' struct_list_head,
      Field ''adj_list'' (CStruct [Field ''upper'' struct_list_head, Field ''lower'' struct_list_head]),
      Field ''features'' typedef_netdev_features_t,
      Field ''hw_features'' typedef_netdev_features_t,
      Field ''wanted_features'' typedef_netdev_features_t,
      Field ''vlan_features'' typedef_netdev_features_t,
      Field ''hw_enc_features'' typedef_netdev_features_t,
      Field ''mpls_features'' typedef_netdev_features_t,
      Field ''gso_partial_features'' typedef_netdev_features_t, Field ''ifindex'' c_int,
      Field ''group'' c_int, Field ''stats'' struct_net_device_stats,
      Field ''rx_dropped'' typedef_atomic_long_t,
      Field ''tx_dropped'' typedef_atomic_long_t,
      Field ''rx_nohandler'' typedef_atomic_long_t,
      Field ''carrier_up_count'' typedef_atomic_t,
      Field ''carrier_down_count'' typedef_atomic_t,
      Field ''wireless_handlers'' (CPtr ''struct iw_handler_def''),
      Field ''wireless_data'' (CPtr ''struct iw_public_data''),
      Field ''netdev_ops'' (CPtr ''struct net_device_ops''),
      Field ''ethtool_ops'' (CPtr ''struct ethtool_ops''),
      Field ''l3mdev_ops'' (CPtr ''struct l3mdev_ops''),
      Field ''ndisc_ops'' (CPtr ''struct ndisc_ops''),
      Field ''xfrmdev_ops'' (CPtr ''struct xfrmdev_ops''),
      Field ''header_ops'' (CPtr ''struct header_ops''), Field ''flags'' c_uint,
      Field ''priv_flags'' c_uint, Field ''gflags'' c_ushort, Field ''padded'' c_ushort,
      Field ''operstate'' c_uchar, Field ''link_mode'' c_uchar, Field ''if_port'' c_uchar,
      Field ''dma'' c_uchar, Field ''mtu'' c_uint, Field ''min_mtu'' c_uint,
      Field ''max_mtu'' c_uint, Field ''type'' c_ushort,
      Field ''hard_header_len'' c_ushort, Field ''min_header_len'' c_uchar,
      Field ''name_assign_type'' c_uchar, Field ''needed_headroom'' c_ushort,
      Field ''needed_tailroom'' c_ushort, Field ''perm_addr'' (CArr c_uchar 32),
      Field ''addr_assign_type'' c_uchar, Field ''addr_len'' c_uchar,
      Field ''upper_level'' c_uchar, Field ''lower_level'' c_uchar,
      Field ''neigh_priv_len'' c_ushort, Field ''dev_id'' c_ushort,
      Field ''dev_port'' c_ushort, Field ''addr_list_lock'' typedef_spinlock_t,
      Field ''uc'' struct_netdev_hw_addr_list, Field ''mc'' struct_netdev_hw_addr_list,
      Field ''dev_addrs'' struct_netdev_hw_addr_list,
      Field ''queues_kset'' (CPtr ''struct kset''), Field ''promiscuity'' c_uint,
      Field ''allmulti'' c_uint, Field ''uc_promisc'' typedef_bool,
      Field ''vlan_info'' (CPtr ''struct vlan_info''),
      Field ''ip_ptr'' (CPtr ''struct in_device''),
      Field ''ip6_ptr'' (CPtr ''struct inet6_dev''),
      Field ''ieee80211_ptr'' (CPtr ''struct wireless_dev''),
      Field ''ieee802154_ptr'' (CPtr ''struct wpan_dev''),
      Field ''dev_addr'' (CPtr ''unsigned char''),
      Field ''_rx'' (CPtr ''struct netdev_rx_queue''), Field ''num_rx_queues'' c_uint,
      Field ''real_num_rx_queues'' c_uint, Field ''xdp_prog'' (CPtr ''struct bpf_prog''),
      Field ''gro_flush_timeout'' c_ulong, Field ''napi_defer_hard_irqs'' c_int,
      Field ''rx_handler'' (CPtr ''rx_handler_func_t''),
      Field ''rx_handler_data'' (CPtr ''void''),
      Field ''miniq_ingress'' (CPtr ''struct mini_Qdisc''),
      Field ''ingress_queue'' (CPtr ''struct netdev_queue''),
      Field ''nf_hooks_ingress'' (CPtr ''struct nf_hook_entries''),
      Field ''broadcast'' (CArr c_uchar 32),
      Field ''rx_cpu_rmap'' (CPtr ''struct cpu_rmap''),
      Field ''index_hlist'' struct_hlist_node, Bits '''' 8 64, Bits '''' 8 64,
      Bits '''' 8 64, Bits '''' 8 64, Bits '''' 8 64, Bits '''' 8 64,
      Field ''_tx'' (CPtr ''struct netdev_queue''), Field ''num_tx_queues'' c_uint,
      Field ''real_num_tx_queues'' c_uint, Field ''qdisc'' (CPtr ''struct Qdisc''),
      Field ''tx_queue_len'' c_uint, Field ''tx_global_lock'' typedef_spinlock_t,
      Field ''xdp_bulkq'' (CPtr ''struct xdp_dev_bulk_queue''),
      Field ''xps_cpus_map'' (CPtr ''struct xps_dev_maps''),
      Field ''xps_rxqs_map'' (CPtr ''struct xps_dev_maps''),
      Field ''miniq_egress'' (CPtr ''struct mini_Qdisc''),
      Field ''qdisc_hash'' (CArr struct_hlist_head 16),
      Field ''watchdog_timer'' struct_timer_list, Field ''watchdog_timeo'' c_int,
      Field ''proto_down_reason'' typedef_u32, Field ''todo_list'' struct_list_head,
      Field ''pcpu_refcnt'' (CPtr ''int''), Field ''link_watch_list'' struct_list_head,
      Bits ''reg_state'' 4 8, Field ''dismantle'' typedef_bool,
      Bits ''rtnl_link_state'' 4 16, Field ''needs_free_netdev'' typedef_bool,
      Field ''priv_destructor'' (CPtr ''fn''),
      Field ''npinfo'' (CPtr ''struct netpoll_info''),
      Field ''nd_net'' typedef_possible_net_t, Field ''ml_priv'' (CPtr ''void''),
      Field ''ml_priv_type'' c_enum,
      Field '''' (CUnion [Field ''lstats'' (CPtr ''struct pcpu_lstats''),
        Field ''tstats'' (CPtr ''struct pcpu_sw_netstats''),
        Field ''dstats'' (CPtr ''struct pcpu_dstats'')]),
      Field ''garp_port'' (CPtr ''struct garp_port''), Field ''dev'' struct_device,
      Field ''sysfs_groups'' (CArr (CPtr ''struct attribute_group'') 4),
      Field ''sysfs_rx_queue_group'' (CPtr ''struct attribute_group''),
      Field ''rtnl_link_ops'' (CPtr ''struct rtnl_link_ops''),
      Field ''gso_max_size'' c_uint, Field ''gso_max_segs'' typedef_u16,
      Field ''num_tc'' typedef_s16, Field ''tc_to_txq'' (CArr struct_netdev_tc_txq 16),
      Field ''prio_tc_map'' (CArr typedef_u8 16),
      Field ''priomap'' (CPtr ''struct netprio_map''),
      Field ''phydev'' (CPtr ''struct phy_device''),
      Field ''sfp_bus'' (CPtr ''struct sfp_bus''),
      Field ''qdisc_tx_busylock'' (CPtr ''struct lock_class_key''),
      Field ''qdisc_running_key'' (CPtr ''struct lock_class_key''),
      Field ''proto_down'' typedef_bool, Bits ''wol_enabled'' 4 1,
      Field ''net_notifier_list'' struct_list_head,
      Field ''udp_tunnel_nic_info'' (CPtr ''struct udp_tunnel_nic_info''),
      Field ''udp_tunnel_nic'' (CPtr ''struct udp_tunnel_nic''),
      Field ''xdp_state'' (CArr struct_bpf_xdp_entity 3), Bits '''' 8 64, Bits '''' 8 64,
      Bits '''' 8 64, Bits '''' 8 64, Bits '''' 8 64]"

definition typedef_sk_buff_data_t :: ctype where
  "typedef_sk_buff_data_t =
    c_uint"

definition struct_sk_buff :: ctype where
  "struct_sk_buff =
    CStruct [Field '''' (CUnion [Field '''' (CStruct [Field ''next'' (CPtr ''struct sk_buff''),
          Field ''prev'' (CPtr ''struct sk_buff''),
          Field '''' (CUnion [Field ''dev'' (CPtr ''struct net_device''), Field ''dev_scratch'' c_ulong])]),
        Field ''rbnode'' struct_rb_node, Field ''list'' struct_list_head]),
      Field '''' (CUnion [Field ''sk'' (CPtr ''struct sock''), Field ''ip_defrag_offset'' c_int]),
      Field '''' (CUnion [Field ''tstamp'' typedef_ktime_t, Field ''skb_mstamp_ns'' typedef_u64]),
      Field ''cb'' (CArr c_char 48),
      Field '''' (CUnion [Field '''' (CStruct [Field ''_skb_refdst'' c_ulong, Field ''destructor'' (CPtr ''fn'')]),
        Field ''tcp_tsorted_anchor'' struct_list_head]),
      Field ''_nfct'' c_ulong, Field ''len'' c_uint, Field ''data_len'' c_uint,
      Field ''mac_len'' typedef___u16, Field ''hdr_len'' typedef___u16,
      Field ''queue_mapping'' typedef___u16,
      Field ''__cloned_offset'' (CArr typedef___u8 0), Bits ''cloned'' 1 1,
      Bits ''nohdr'' 1 1, Bits ''fclone'' 1 2, Bits ''peeked'' 1 1, Bits ''head_frag'' 1 1,
      Bits ''pfmemalloc'' 1 1, Field ''active_extensions'' typedef___u8,
      Field ''headers_start'' (CArr typedef___u32 0),
      Field ''__pkt_type_offset'' (CArr typedef___u8 0), Bits ''pkt_type'' 1 3,
      Bits ''ignore_df'' 1 1, Bits ''nf_trace'' 1 1, Bits ''ip_summed'' 1 2,
      Bits ''ooo_okay'' 1 1, Bits ''l4_hash'' 1 1, Bits ''sw_hash'' 1 1,
      Bits ''wifi_acked_valid'' 1 1, Bits ''wifi_acked'' 1 1, Bits ''no_fcs'' 1 1,
      Bits ''encapsulation'' 1 1, Bits ''encap_hdr_csum'' 1 1, Bits ''csum_valid'' 1 1,
      Field ''__pkt_vlan_present_offset'' (CArr typedef___u8 0), Bits ''vlan_present'' 1 1,
      Bits ''csum_complete_sw'' 1 1, Bits ''csum_level'' 1 2, Bits ''csum_not_inet'' 1 1,
      Bits ''dst_pending_confirm'' 1 1, Bits ''ndisc_nodetype'' 1 2,
      Bits ''ipvs_property'' 1 1, Bits ''inner_protocol_type'' 1 1,
      Bits ''remcsum_offload'' 1 1, Bits ''tc_skip_classify'' 1 1,
      Bits ''tc_at_ingress'' 1 1, Bits ''redirected'' 1 1, Bits ''from_ingress'' 1 1,
      Field ''tc_index'' typedef___u16,
      Field '''' (CUnion [Field ''csum'' typedef___wsum,
        Field '''' (CStruct [Field ''csum_start'' typedef___u16, Field ''csum_offset'' typedef___u16])]),
      Field ''priority'' typedef___u32, Field ''skb_iif'' c_int,
      Field ''hash'' typedef___u32, Field ''vlan_proto'' typedef___be16,
      Field ''vlan_tci'' typedef___u16,
      Field '''' (CUnion [Field ''napi_id'' c_uint, Field ''sender_cpu'' c_uint]),
      Field '''' (CUnion [Field ''mark'' typedef___u32, Field ''reserved_tailroom'' typedef___u32]),
      Field '''' (CUnion [Field ''inner_protocol'' typedef___be16, Field ''inner_ipproto'' typedef___u8]),
      Field ''inner_transport_header'' typedef___u16,
      Field ''inner_network_header'' typedef___u16,
      Field ''inner_mac_header'' typedef___u16, Field ''protocol'' typedef___be16,
      Field ''transport_header'' typedef___u16, Field ''network_header'' typedef___u16,
      Field ''mac_header'' typedef___u16, Field ''headers_end'' (CArr typedef___u32 0),
      Field ''tail'' typedef_sk_buff_data_t, Field ''end'' typedef_sk_buff_data_t,
      Field ''head'' (CPtr ''unsigned char''), Field ''data'' (CPtr ''unsigned char''),
      Field ''truesize'' c_uint, Field ''users'' typedef_refcount_t,
      Field ''extensions'' (CPtr ''struct skb_ext'')]"

definition struct_ethhdr :: ctype where
  "struct_ethhdr =
    CStruct [Field ''h_dest'' (CArr c_uchar 6), Field ''h_source'' (CArr c_uchar 6),
      Field ''h_proto'' typedef___be16]"

definition struct_xdp_mem_info :: ctype where
  "struct_xdp_mem_info =
    CStruct [Field ''type'' typedef_u32, Field ''id'' typedef_u32]"

definition struct_xdp_frame :: ctype where
  "struct_xdp_frame =
    CStruct [Field ''data'' (CPtr ''void''), Field ''len'' typedef_u16,
      Field ''headroom'' typedef_u16, Bits ''metasize'' 4 8, Bits ''frame_sz'' 4 24,
      Field ''mem'' struct_xdp_mem_info, Field ''dev_rx'' (CPtr ''struct net_device'')]"

definition enum_bpf_func_id :: "(string \<times> int) list" where
  "enum_bpf_func_id =
    [(''BPF_FUNC_unspec'', 0), (''BPF_FUNC_map_lookup_elem'', 1),
     (''BPF_FUNC_map_update_elem'', 2), (''BPF_FUNC_map_delete_elem'', 3),
     (''BPF_FUNC_probe_read'', 4), (''BPF_FUNC_ktime_get_ns'', 5),
     (''BPF_FUNC_trace_printk'', 6), (''BPF_FUNC_get_prandom_u32'', 7),
     (''BPF_FUNC_get_smp_processor_id'', 8), (''BPF_FUNC_skb_store_bytes'', 9),
     (''BPF_FUNC_l3_csum_replace'', 10), (''BPF_FUNC_l4_csum_replace'', 11),
     (''BPF_FUNC_tail_call'', 12), (''BPF_FUNC_clone_redirect'', 13),
     (''BPF_FUNC_get_current_pid_tgid'', 14), (''BPF_FUNC_get_current_uid_gid'', 15),
     (''BPF_FUNC_get_current_comm'', 16), (''BPF_FUNC_get_cgroup_classid'', 17),
     (''BPF_FUNC_skb_vlan_push'', 18), (''BPF_FUNC_skb_vlan_pop'', 19),
     (''BPF_FUNC_skb_get_tunnel_key'', 20), (''BPF_FUNC_skb_set_tunnel_key'', 21),
     (''BPF_FUNC_perf_event_read'', 22), (''BPF_FUNC_redirect'', 23),
     (''BPF_FUNC_get_route_realm'', 24), (''BPF_FUNC_perf_event_output'', 25),
     (''BPF_FUNC_skb_load_bytes'', 26), (''BPF_FUNC_get_stackid'', 27),
     (''BPF_FUNC_csum_diff'', 28), (''BPF_FUNC_skb_get_tunnel_opt'', 29),
     (''BPF_FUNC_skb_set_tunnel_opt'', 30), (''BPF_FUNC_skb_change_proto'', 31),
     (''BPF_FUNC_skb_change_type'', 32), (''BPF_FUNC_skb_under_cgroup'', 33),
     (''BPF_FUNC_get_hash_recalc'', 34), (''BPF_FUNC_get_current_task'', 35),
     (''BPF_FUNC_probe_write_user'', 36), (''BPF_FUNC_current_task_under_cgroup'', 37),
     (''BPF_FUNC_skb_change_tail'', 38), (''BPF_FUNC_skb_pull_data'', 39),
     (''BPF_FUNC_csum_update'', 40), (''BPF_FUNC_set_hash_invalid'', 41),
     (''BPF_FUNC_get_numa_node_id'', 42), (''BPF_FUNC_skb_change_head'', 43),
     (''BPF_FUNC_xdp_adjust_head'', 44), (''BPF_FUNC_probe_read_str'', 45),
     (''BPF_FUNC_get_socket_cookie'', 46), (''BPF_FUNC_get_socket_uid'', 47),
     (''BPF_FUNC_set_hash'', 48), (''BPF_FUNC_setsockopt'', 49),
     (''BPF_FUNC_skb_adjust_room'', 50), (''BPF_FUNC_redirect_map'', 51),
     (''BPF_FUNC_sk_redirect_map'', 52), (''BPF_FUNC_sock_map_update'', 53),
     (''BPF_FUNC_xdp_adjust_meta'', 54), (''BPF_FUNC_perf_event_read_value'', 55),
     (''BPF_FUNC_perf_prog_read_value'', 56), (''BPF_FUNC_getsockopt'', 57),
     (''BPF_FUNC_override_return'', 58), (''BPF_FUNC_sock_ops_cb_flags_set'', 59),
     (''BPF_FUNC_msg_redirect_map'', 60), (''BPF_FUNC_msg_apply_bytes'', 61),
     (''BPF_FUNC_msg_cork_bytes'', 62), (''BPF_FUNC_msg_pull_data'', 63),
     (''BPF_FUNC_bind'', 64), (''BPF_FUNC_xdp_adjust_tail'', 65),
     (''BPF_FUNC_skb_get_xfrm_state'', 66), (''BPF_FUNC_get_stack'', 67),
     (''BPF_FUNC_skb_load_bytes_relative'', 68), (''BPF_FUNC_fib_lookup'', 69),
     (''BPF_FUNC_sock_hash_update'', 70), (''BPF_FUNC_msg_redirect_hash'', 71),
     (''BPF_FUNC_sk_redirect_hash'', 72), (''BPF_FUNC_lwt_push_encap'', 73),
     (''BPF_FUNC_lwt_seg6_store_bytes'', 74), (''BPF_FUNC_lwt_seg6_adjust_srh'', 75),
     (''BPF_FUNC_lwt_seg6_action'', 76), (''BPF_FUNC_rc_repeat'', 77),
     (''BPF_FUNC_rc_keydown'', 78), (''BPF_FUNC_skb_cgroup_id'', 79),
     (''BPF_FUNC_get_current_cgroup_id'', 80), (''BPF_FUNC_get_local_storage'', 81),
     (''BPF_FUNC_sk_select_reuseport'', 82), (''BPF_FUNC_skb_ancestor_cgroup_id'', 83),
     (''BPF_FUNC_sk_lookup_tcp'', 84), (''BPF_FUNC_sk_lookup_udp'', 85),
     (''BPF_FUNC_sk_release'', 86), (''BPF_FUNC_map_push_elem'', 87),
     (''BPF_FUNC_map_pop_elem'', 88), (''BPF_FUNC_map_peek_elem'', 89),
     (''BPF_FUNC_msg_push_data'', 90), (''BPF_FUNC_msg_pop_data'', 91),
     (''BPF_FUNC_rc_pointer_rel'', 92), (''BPF_FUNC_spin_lock'', 93),
     (''BPF_FUNC_spin_unlock'', 94), (''BPF_FUNC_sk_fullsock'', 95),
     (''BPF_FUNC_tcp_sock'', 96), (''BPF_FUNC_skb_ecn_set_ce'', 97),
     (''BPF_FUNC_get_listener_sock'', 98), (''BPF_FUNC_skc_lookup_tcp'', 99),
     (''BPF_FUNC_tcp_check_syncookie'', 100), (''BPF_FUNC_sysctl_get_name'', 101),
     (''BPF_FUNC_sysctl_get_current_value'', 102), (''BPF_FUNC_sysctl_get_new_value'', 103),
     (''BPF_FUNC_sysctl_set_new_value'', 104), (''BPF_FUNC_strtol'', 105),
     (''BPF_FUNC_strtoul'', 106), (''BPF_FUNC_sk_storage_get'', 107),
     (''BPF_FUNC_sk_storage_delete'', 108), (''BPF_FUNC_send_signal'', 109),
     (''BPF_FUNC_tcp_gen_syncookie'', 110), (''BPF_FUNC_skb_output'', 111),
     (''BPF_FUNC_probe_read_user'', 112), (''BPF_FUNC_probe_read_kernel'', 113),
     (''BPF_FUNC_probe_read_user_str'', 114), (''BPF_FUNC_probe_read_kernel_str'', 115),
     (''BPF_FUNC_tcp_send_ack'', 116), (''BPF_FUNC_send_signal_thread'', 117),
     (''BPF_FUNC_jiffies64'', 118), (''BPF_FUNC_read_branch_records'', 119),
     (''BPF_FUNC_get_ns_current_pid_tgid'', 120), (''BPF_FUNC_xdp_output'', 121),
     (''BPF_FUNC_get_netns_cookie'', 122), (''BPF_FUNC_get_current_ancestor_cgroup_id'', 123),
     (''BPF_FUNC_sk_assign'', 124), (''BPF_FUNC_ktime_get_boot_ns'', 125),
     (''BPF_FUNC_seq_printf'', 126), (''BPF_FUNC_seq_write'', 127),
     (''BPF_FUNC_sk_cgroup_id'', 128), (''BPF_FUNC_sk_ancestor_cgroup_id'', 129),
     (''BPF_FUNC_ringbuf_output'', 130), (''BPF_FUNC_ringbuf_reserve'', 131),
     (''BPF_FUNC_ringbuf_submit'', 132), (''BPF_FUNC_ringbuf_discard'', 133),
     (''BPF_FUNC_ringbuf_query'', 134), (''BPF_FUNC_csum_level'', 135),
     (''BPF_FUNC_skc_to_tcp6_sock'', 136), (''BPF_FUNC_skc_to_tcp_sock'', 137),
     (''BPF_FUNC_skc_to_tcp_timewait_sock'', 138), (''BPF_FUNC_skc_to_tcp_request_sock'', 139),
     (''BPF_FUNC_skc_to_udp6_sock'', 140), (''BPF_FUNC_get_task_stack'', 141),
     (''BPF_FUNC_load_hdr_opt'', 142), (''BPF_FUNC_store_hdr_opt'', 143),
     (''BPF_FUNC_reserve_hdr_opt'', 144), (''BPF_FUNC_inode_storage_get'', 145),
     (''BPF_FUNC_inode_storage_delete'', 146), (''BPF_FUNC_d_path'', 147),
     (''BPF_FUNC_copy_from_user'', 148), (''BPF_FUNC_snprintf_btf'', 149),
     (''BPF_FUNC_seq_printf_btf'', 150), (''BPF_FUNC_skb_cgroup_classid'', 151),
     (''BPF_FUNC_redirect_neigh'', 152), (''BPF_FUNC_per_cpu_ptr'', 153),
     (''BPF_FUNC_this_cpu_ptr'', 154), (''BPF_FUNC_redirect_peer'', 155),
     (''__BPF_FUNC_MAX_ID'', 156)]"

definition struct_bpf_trace_module :: ctype where
  "struct_bpf_trace_module =
    CStruct [Field ''module'' (CPtr ''struct module''), Field ''list'' struct_list_head]"

definition enum_xdp_action :: "(string \<times> int) list" where
  "enum_xdp_action =
    [(''XDP_ABORTED'', 0), (''XDP_DROP'', 1), (''XDP_PASS'', 2), (''XDP_TX'', 3),
     (''XDP_REDIRECT'', 4)]"

definition struct_xdp_md :: ctype where
  "struct_xdp_md =
    CStruct [Field ''data'' typedef___u32, Field ''data_end'' typedef___u32,
      Field ''data_meta'' typedef___u32, Field ''ingress_ifindex'' typedef___u32,
      Field ''rx_queue_index'' typedef___u32, Field ''egress_ifindex'' typedef___u32]"

definition struct_xdp_buff :: ctype where
  "struct_xdp_buff =
    CStruct [Field ''data'' (CPtr ''void''), Field ''data_end'' (CPtr ''void''),
      Field ''data_meta'' (CPtr ''void''), Field ''data_hard_start'' (CPtr ''void''),
      Field ''rxq'' (CPtr ''struct xdp_rxq_info''),
      Field ''txq'' (CPtr ''struct xdp_txq_info''), Field ''frame_sz'' typedef_u32]"

definition typedef___sum16 :: ctype where
  "typedef___sum16 =
    typedef___u16"

definition struct_tcphdr :: ctype where
  "struct_tcphdr =
    CStruct [Field ''source'' typedef___be16, Field ''dest'' typedef___be16,
      Field ''seq'' typedef___be32, Field ''ack_seq'' typedef___be32, Bits ''res1'' 2 4,
      Bits ''doff'' 2 4, Bits ''fin'' 2 1, Bits ''syn'' 2 1, Bits ''rst'' 2 1,
      Bits ''psh'' 2 1, Bits ''ack'' 2 1, Bits ''urg'' 2 1, Bits ''ece'' 2 1,
      Bits ''cwr'' 2 1, Field ''window'' typedef___be16, Field ''check'' typedef___sum16,
      Field ''urg_ptr'' typedef___be16]"

definition struct_udphdr :: ctype where
  "struct_udphdr =
    CStruct [Field ''source'' typedef___be16, Field ''dest'' typedef___be16,
      Field ''len'' typedef___be16, Field ''check'' typedef___sum16]"

definition struct_iphdr :: ctype where
  "struct_iphdr =
    CStruct [Bits ''ihl'' 1 4, Bits ''version'' 1 4, Field ''tos'' typedef___u8,
      Field ''tot_len'' typedef___be16, Field ''id'' typedef___be16,
      Field ''frag_off'' typedef___be16, Field ''ttl'' typedef___u8,
      Field ''protocol'' typedef___u8, Field ''check'' typedef___sum16,
      Field ''saddr'' typedef___be32, Field ''daddr'' typedef___be32]"

definition struct_vlan_hdr :: ctype where
  "struct_vlan_hdr =
    CStruct [Field ''h_vlan_TCI'' typedef___be16,
      Field ''h_vlan_encapsulated_proto'' typedef___be16]"

end
