(* ===== verification/Layout.thy ===== *)
theory Layout
  imports Vmlinux_Net Pkt
begin

text \<open>
  The layout of the kernel's types as the header of the repository declares them: the offsets
  \<^verbatim>\<open>BPF_CORE_READ\<close> is relocated to on a kernel with these types, and the sizes the programs
  step by.
\<close>

definition vmlinux_structs :: "(string \<times> ctype) list" where
  "vmlinux_structs =
    [(''list_head'', struct_list_head), (''sk_buff'', struct_sk_buff), (''module'', struct_module),
     (''xdp_buff'', struct_xdp_buff), (''xdp_frame'', struct_xdp_frame),
     (''perf_branch_entry'', struct_perf_branch_entry), (''pt_regs'', struct_pt_regs),
     (''tracepoint'', struct_tracepoint), (''bpf_raw_event_map'', struct_bpf_raw_event_map),
     (''bpf_trace_module'', struct_bpf_trace_module), (''iphdr'', struct_iphdr),
     (''tcphdr'', struct_tcphdr), (''udphdr'', struct_udphdr), (''ethhdr'', struct_ethhdr),
     (''vlan_hdr'', struct_vlan_hdr), (''xdp_md'', struct_xdp_md),
     (''task_struct'', struct_task_struct), (''net_device'', struct_net_device),
     (''bpf_prog'', struct_bpf_prog), (''bpf_prog_aux'', struct_bpf_prog_aux),
     (''bpf_map'', struct_bpf_map), (''sock'', struct_sock)]"

definition vmlinux_layout :: layout where
  "vmlinux_layout s f =
     (case map_of vmlinux_structs s of None \<Rightarrow> 0
      | Some t \<Rightarrow> (case offset_in f t of None \<Rightarrow> 0 | Some k \<Rightarrow> k))"

lemma vmlinux_structs_wf: "list_all (\<lambda>(n, t). wf_ctype t) vmlinux_structs"
  by code_simp

text \<open>What the layout of a structure's fields has to satisfy.\<close>

definition well_laid_out :: "cfield list \<Rightarrow> bool" where
  "well_laid_out fs \<longleftrightarrow>
     sorted_wrt (\<lambda>a b. snd a + field_width (fst a) \<le> snd b) (struct_layout 0 fs) \<and>
     list_all (\<lambda>(f, s). s + field_width f \<le> 8 * size_of (CStruct fs) \<and>
       (case f of Field x t \<Rightarrow> 8 * align_of t dvd s
        | Bits x b w \<Rightarrow> s div (8 * b) = (s + w - 1) div (8 * b))) (struct_layout 0 fs)"

lemma wf_well_laid_out:
  assumes wf: "wf_fields fs"
  shows "well_laid_out fs"
proof -
  have "s + field_width f \<le> 8 * size_of (CStruct fs)" if "(f, s) \<in> set (struct_layout 0 fs)" for f s
    using struct_layout_within [OF wf that] struct_size_bits [OF wf] by linarith
  then show ?thesis
    using struct_layout_sorted [OF wf] struct_layout_starts [OF wf]
    unfolding well_laid_out_def list_all_iff by blast
qed

lemma vmlinux_net_offsets: "net_layout vmlinux_layout"
  by code_simp

section \<open>Properties\<close>


text \<open>On a kernel with the header's types, the network headers' fields are where the wire
  formats put them, which is what the packet routines rely on.\<close>

lemma vmlinux_net_layout: "net_layout vmlinux_layout"
  by (rule vmlinux_net_offsets)

text \<open>The constants the programs step by are the sizes of the header's types: the raw
  tracepoint entries, the link-layer headers, the branch records, the VXLAN headers (Ethernet,
  IPv4 without options, UDP, eight bytes of VXLAN), and the list node of a module record.\<close>

lemma vmlinux_sizes:
  "size_of struct_bpf_raw_event_map = 32 \<and> size_of struct_perf_branch_entry = 24 \<and>
   sizeof_ethhdr = of_nat (size_of struct_ethhdr) \<and> sizeof_vlan_hdr = of_nat (size_of struct_vlan_hdr) \<and>
   VXLAN_HDR_LEN = of_nat (size_of struct_ethhdr + size_of struct_iphdr + size_of struct_udphdr + 8) \<and>
   offset_in ''list'' struct_bpf_trace_module = Some 8"
  by code_simp

end
