(* ===== verification/Traceable.thy ===== *)
theory Traceable
  imports Stack
begin

text \<open>
  The detection of traceable functions (\<^verbatim>\<open>bpf/traceable.c\<close>): which of the given addresses
  starts with the five-byte nop, or the call, that ftrace puts there. The result tells the
  loader what fentry programs may attach to.
\<close>

section \<open>The program\<close>

definition ADDR_CAP :: nat where "ADDR_CAP = 1024"

text \<open>The loader's constants \<^verbatim>\<open>addrs\<close>, \<^verbatim>\<open>nr_addrs\<close> and \<^verbatim>\<open>has_endbr\<close>; the arrays have \<open>ADDR_CAP\<close> elements.\<close>

record traceable_rodata =
  tr_addrs :: "u64 list"
  nr_addrs :: u32
  has_endbr :: u32

record traceable_data =
  traceables :: "bool list"
  tr_run :: bool

definition is_traceable_x86 :: "u32 \<Rightarrow> u8 list \<Rightarrow> bool" where
  "is_traceable_x86 endbr buff =
     (let nop5 = 0x0000441F0F :: u64;
          ptr = (if truthy endbr then 4 else 0);
          a = load_le ptr 4 buff :: u64;
          b = load_le (ptr + 4) 1 buff :: u64
      in (push_bit 32 b OR a) = nop5 \<or> buff ! ptr = 0xE8)"

definition is_traceable_arm64 :: "u8 list \<Rightarrow> bool" where
  "is_traceable_arm64 buff =
     (let ptr = 4; insn = load_le ptr 4 buff :: u32
      in insn = 0xD503201F \<or> buff ! (ptr + 3) = 0x97 \<or> buff ! (ptr + 3) = 0x94)"

definition is_traceable :: "arch \<Rightarrow> helpers \<Rightarrow> u32 \<Rightarrow> u64 \<Rightarrow> bool" where
  "is_traceable arch h endbr addr =
     (if probe_err h addr 16 \<noteq> 0 then False
      else let buff = probe_bytes h addr 16 in
        case arch of X86 \<Rightarrow> is_traceable_x86 endbr buff | ARM64 \<Rightarrow> is_traceable_arm64 buff)"

definition detect_loop :: "arch \<Rightarrow> helpers \<Rightarrow> traceable_rodata \<Rightarrow> bool list \<Rightarrow> bool list" where
  "detect_loop arch h ro out =
     fill_loop (unat (nr_addrs ro)) (\<lambda>i. is_traceable arch h (has_endbr ro) (tr_addrs ro ! i)) ADDR_CAP 0 out"

definition detect :: "arch \<Rightarrow> helpers \<Rightarrow> traceable_rodata \<Rightarrow> traceable_data \<Rightarrow> s32 \<times> traceable_data" where
  "detect arch h ro st =
     (if tr_run st then (0, st)
      else (0, st\<lparr>tr_run := True, traceables := detect_loop arch h ro (traceables st)\<rparr>))"

section \<open>The instructions\<close>

text \<open>The five bytes \<^verbatim>\<open>0F 1F 44 00 00\<close> are the long nop; \<^verbatim>\<open>E8\<close> is the opcode of a near call.\<close>

definition x86_nop5 :: "u8 list" where
  "x86_nop5 = [0x0F, 0x1F, 0x44, 0, 0]"

text \<open>The code at an x86 function's patch site: after the four bytes of \<^verbatim>\<open>endbr64\<close>, if any.\<close>

definition x86_site :: "u32 \<Rightarrow> u8 list \<Rightarrow> u8 list" where
  "x86_site endbr buff = drop (if truthy endbr then 4 else 0) buff"

text \<open>
  An arm64 \<^verbatim>\<open>bl\<close>: the top six bits are \<^verbatim>\<open>100101\<close>, the others the signed distance to the
  target, in instructions.
\<close>

definition is_bl :: "u32 \<Rightarrow> bool" where
  "is_bl insn \<longleftrightarrow> drop_bit 26 insn = 0x25"

definition bl_distance :: "u32 \<Rightarrow> int" where
  "bl_distance insn = signed_take_bit 25 (uint insn)"

lemma split_nop5:
  assumes "length bs = 16" "ptr \<le> 8"
  shows "push_bit 32 (load_le (ptr + 4) 1 bs) OR load_le ptr 4 bs = (le_word (take 5 (drop ptr bs)) :: u64)"
proof -
  have s: "take 5 (drop ptr bs) = bslice ptr 4 bs @ bslice (ptr + 4) 1 bs"
    using take_add [of 4 1 "drop ptr bs"] by (simp add: bslice_def add.commute)
  have "length (bslice ptr 4 bs) = 4" using assms by (intro length_slice) simp
  then show ?thesis unfolding s le_word_append load_le_def by (simp add: or.commute)
qed

lemma is_traceable_x86_iff:
  assumes "length buff = 16"
  shows "is_traceable_x86 endbr buff \<longleftrightarrow>
    take 5 (x86_site endbr buff) = x86_nop5 \<or> x86_site endbr buff ! 0 = 0xE8"
proof -
  define ptr :: nat where "ptr = (if truthy endbr then 4 else 0)"
  have ptr: "ptr \<le> 8" by (simp add: ptr_def)
  have nop: "(0x441F0F :: u64) = le_word x86_nop5" by (simp add: x86_nop5_def)
  have len: "length (take 5 (drop ptr buff)) = length x86_nop5"
    using assms ptr by (simp add: x86_nop5_def)
  have "le_word (take 5 (drop ptr buff)) = (le_word x86_nop5 :: u64) \<longleftrightarrow> take 5 (drop ptr buff) = x86_nop5"
    using le_word_inj [OF _ len, where 'a = 64] assms by auto
  then show ?thesis
    using assms ptr split_nop5 [OF assms ptr]
    by (simp add: is_traceable_x86_def Let_def x86_site_def nop ptr_def [symmetric])
qed

lemma bl_top_byte:
  fixes x t r :: int
  assumes x: "x = t * 2 ^ 24 + r" and r: "0 \<le> r" "r < 2 ^ 24" and t: "0 \<le> t" "t < 256"
  shows "t = 0x97 \<or> t = 0x94 \<longleftrightarrow> x div 2 ^ 26 = 0x25 \<and>
    - (2 ^ 24) \<le> signed_take_bit 25 x \<and> signed_take_bit 25 x < 2 ^ 24"
proof -
  have d: "signed_take_bit 25 x = s - 2 ^ 25"
    if "x + 2 ^ 25 = q * 2 ^ 26 + s" "0 \<le> s" "s < 2 ^ 26" for q s
    using that by (simp add: signed_take_bit_eq_take_bit_shift take_bit_eq_mod)
  have "x div 2 ^ 24 = t" using x r by simp
  then have div26: "x div 2 ^ 26 = t div 4"
    using zdiv_zmult2_eq [where a = x and b = "2 ^ 24" and c = 4] by simp
  show ?thesis
  proof (cases "t div 4 = 0x25")
    case False
    then show ?thesis unfolding div26 by auto
  next
    case True
    then consider "t = 0x94" | "t = 0x95" | "t = 0x96" | "t = 0x97" by linarith
    then show ?thesis
    proof cases
      case 1 then show ?thesis using d [of 37 "r + 2 ^ 25"] x r unfolding div26 by simp
    next
      case 2 then show ?thesis using d [of 37 "r + 2 ^ 24 + 2 ^ 25"] x r unfolding div26 by simp
    next
      case 3 then show ?thesis using d [of 38 r] x r unfolding div26 by simp
    next
      case 4 then show ?thesis using d [of 38 "r + 2 ^ 24"] x r unfolding div26 by simp
    qed
  qed
qed

lemma top_byte:
  assumes "length buff = 16"
  shows "buff ! 7 = ucast (drop_bit 24 (load_le 4 4 buff :: u32))"
proof -
  have len: "length (bslice 4 4 buff) = 4" using assms by (intro length_slice) simp
  have "le_bytes 4 (load_le 4 4 buff :: u32) ! 3 = bslice 4 4 buff ! 3"
    unfolding load_le_def using le_bytes_le_word [OF len, where 'a = 32] by simp
  then show ?thesis using assms by (simp add: le_bytes_def bslice_def)
qed

lemma is_traceable_arm64_iff:
  assumes "length buff = 16"
  shows "is_traceable_arm64 buff \<longleftrightarrow> (let insn = load_le 4 4 buff :: u32 in
    insn = 0xD503201F \<or> (is_bl insn \<and> - (2 ^ 24) \<le> bl_distance insn \<and> bl_distance insn < 2 ^ 24))"
proof -
  define insn where "insn = (load_le 4 4 buff :: u32)"
  define t where "t = uint insn div 2 ^ 24"
  have x: "uint insn = t * 2 ^ 24 + uint insn mod 2 ^ 24" by (simp add: t_def)
  have ub: "uint insn < 2 ^ 32" using unsigned_less [of insn, where 'a = int] by simp
  have t: "0 \<le> t" "t < 256"
    using ub unfolding t_def by (auto simp: pos_imp_zdiv_nonneg_iff)
  have "uint (ucast (drop_bit 24 insn) :: u8) = take_bit LENGTH(8) (uint insn div 2 ^ 24)"
    unfolding unsigned_ucast_eq unsigned_drop_bit_eq unfolding drop_bit_eq_div
    using ub by (simp add: take_bit_int_eq_self)
  with t have b: "uint (buff ! 7) = t"
    unfolding top_byte [OF assms] insn_def [symmetric] t_def [symmetric] by (simp add: take_bit_eq_mod)
  have byte: "buff ! 7 = of_int k \<longleftrightarrow> t = k" if "0 \<le> k" "k < 256" for k
    using b that by (auto simp: word_eq_iff_unsigned [where 'a = int] unsigned_of_int take_bit_eq_mod)
  have bl: "is_bl insn \<longleftrightarrow> uint insn div 2 ^ 26 = 0x25"
    unfolding is_bl_def word_eq_iff_unsigned [where 'a = int] unsigned_drop_bit_eq
    unfolding drop_bit_eq_div using ub by (simp add: take_bit_int_eq_self)
  have "buff ! 7 = 0x97 \<or> buff ! 7 = 0x94 \<longleftrightarrow> t = 0x97 \<or> t = 0x94"
    using byte [of "0x97"] byte [of "0x94"] by simp
  also have "\<dots> \<longleftrightarrow> is_bl insn \<and> - (2 ^ 24) \<le> bl_distance insn \<and> bl_distance insn < 2 ^ 24"
    unfolding bl bl_distance_def by (rule bl_top_byte [OF x _ _ t]) simp_all
  finally show ?thesis
    by (simp add: is_traceable_arm64_def insn_def [symmetric] Let_def)
qed

section \<open>Properties\<close>

text \<open>The instruction at the patch site of a function that ftrace can trace, as the code reads it.\<close>

definition patchable :: "arch \<Rightarrow> u32 \<Rightarrow> u8 list \<Rightarrow> bool" where
  "patchable arch endbr code =
     (case arch of
        X86 \<Rightarrow> take 5 (x86_site endbr code) = x86_nop5 \<or> x86_site endbr code ! 0 = 0xE8
      | ARM64 \<Rightarrow> (let insn = load_le 4 4 code :: u32 in
          insn = 0xD503201F \<or> (is_bl insn \<and> - (2 ^ 24) \<le> bl_distance insn \<and> bl_distance insn < 2 ^ 24)))"

text \<open>C36: an address is reported traceable exactly when sixteen bytes are mapped there and the
  instruction at the patch site is the nop or the call ftrace puts there: on x86 the five-byte
  nop or an opcode \<^verbatim>\<open>E8\<close>, after \<^verbatim>\<open>endbr64\<close> if the kernel has it; on arm64 a \<^verbatim>\<open>nop\<close> or a
  \<^verbatim>\<open>bl\<close> whose target is less than 64 MiB away.\<close>

theorem is_traceable_correct:
  assumes mem: "kernel_memory (bpf_probe_read_kernel h) mem"
  shows "is_traceable arch h endbr addr \<longleftrightarrow>
    list_all (\<lambda>i. mem (addr + of_nat i) \<noteq> None) [0..<16] \<and>
    patchable arch endbr (map (\<lambda>i. the (mem (addr + of_nat i))) [0..<16])"
proof (cases "list_all (\<lambda>i. mem (addr + of_nat i) \<noteq> None) [0..<16]")
  case True
  then have m: "\<And>i. i < 16 \<Longrightarrow> mem (addr + of_nat i) \<noteq> None" by (simp add: list_all_iff)
  from kernel_memory.probe_mapped [OF mem this]
  have "probe_err h addr 16 = 0" "probe_bytes h addr 16 = map (\<lambda>i. the (mem (addr + of_nat i))) [0..<16]"
    unfolding probe_err_def probe_bytes_def by (auto simp del: upt_rec_numeral)
  with True show ?thesis
    by (simp add: is_traceable_def patchable_def Let_def is_traceable_x86_iff is_traceable_arm64_iff
        del: upt_rec_numeral split: arch.split)
next
  case False
  then have "probe_err h addr 16 \<noteq> 0"
    using kernel_memory.probe_ok_iff [OF mem] by (auto simp: probe_err_def list_all_iff)
  with False show ?thesis by (simp add: is_traceable_def)
qed

text \<open>The first run of the program decides each of the given addresses, up to the capacity
  of the arrays, and leaves the other results alone; every later run changes nothing.\<close>

lemma detect_decides_each_address:
  assumes "length (traceables st) = ADDR_CAP" "\<not> tr_run st" "j < ADDR_CAP"
  shows "(let st' = snd (detect arch h ro st) in
    traceables st' ! j = (if j < unat (nr_addrs ro)
      then is_traceable arch h (has_endbr ro) (tr_addrs ro ! j) else traceables st ! j) \<and>
    length (traceables st') = ADDR_CAP \<and> detect arch h2 ro st' = (0, st'))"
  using assms by (simp add: detect_def detect_loop_def nth_fill_loop Let_def)

end
