(* ===== verification/Tracepoint.thy ===== *)
theory Tracepoint
  imports Bpf_Runtime
begin

text \<open>
  Reading the raw tracepoints (\<^verbatim>\<open>bpf/tracepoint.c\<close>): the entries of the array of
  \<^verbatim>\<open>struct bpf_raw_event_map\<close> at a given address, into \<^verbatim>\<open>tps\<close>.
\<close>

definition TP_MAX :: nat where "TP_MAX = 256"

record tp_info =
  tp_name :: "u8 list"
  func_proto_symbol :: u64
  tp_num_args :: u32

record tracepoints =
  tps :: "tp_info list"
  tps_run :: bool

text \<open>The array's elements are \<^verbatim>\<open>sizeof(struct bpf_raw_event_map)\<close> apart.\<close>

definition sizeof_raw_event_map :: nat where "sizeof_raw_event_map = 32"

definition probe_tp_info :: "helpers \<Rightarrow> layout \<Rightarrow> u64 \<Rightarrow> tp_info" where
  "probe_tp_info h L btp =
     (let tp = core_read h L 8 ''bpf_raw_event_map'' ''tp'' btp :: u64;
          str = core_read h L 8 ''tracepoint'' ''name'' tp :: u64
      in \<lparr>tp_name = probe_str h str 64,
          func_proto_symbol = core_read h L 8 ''bpf_raw_event_map'' ''bpf_func'' btp,
          tp_num_args = core_read h L 4 ''bpf_raw_event_map'' ''num_args'' btp\<rparr>)"

text \<open>The loop of \<^verbatim>\<open>probe\<close>, with the iterations left as its first number; \<^verbatim>\<open>btp++\<close> steps one element.\<close>

fun probe_tps_loop :: "helpers \<Rightarrow> layout \<Rightarrow> u32 \<Rightarrow> nat \<Rightarrow> nat \<Rightarrow> u64 \<Rightarrow> tp_info list \<Rightarrow> tp_info list" where
  "probe_tps_loop h L nr 0 i btp out = out"
| "probe_tps_loop h L nr (Suc n) i btp out =
     (if unat nr \<le> i then out
      else probe_tps_loop h L nr n (Suc i) (btp + of_nat sizeof_raw_event_map)
        (out[i := probe_tp_info h L btp]))"

definition probe_tracepoints :: "helpers \<Rightarrow> layout \<Rightarrow> u64 \<Rightarrow> u32 \<Rightarrow> tracepoints \<Rightarrow> s32 \<times> tracepoints" where
  "probe_tracepoints h L start nr_tps st =
     (if tps_run st then (0, st)
      else (0, st\<lparr>tps_run := True, tps := probe_tps_loop h L nr_tps TP_MAX 0 start (tps st)\<rparr>))"

lemma probe_tps_loop_fill:
  "probe_tps_loop h L nr n i (start + of_nat (sizeof_raw_event_map * i)) out =
     fill_loop (unat nr) (\<lambda>i. probe_tp_info h L (start + of_nat (sizeof_raw_event_map * i))) n i out"
proof (induction n arbitrary: i out)
  case (Suc n)
  have "start + of_nat (sizeof_raw_event_map * i) + of_nat sizeof_raw_event_map =
      start + of_nat (sizeof_raw_event_map * Suc i)" by (simp add: algebra_simps)
  note nxt = this
  show ?case by (simp only: probe_tps_loop.simps fill_loop.simps nxt Suc.IH)
qed simp

text \<open>The first run reads each of the array's tracepoints, up to the capacity, into its own
  slot, the entry \<open>j\<close> from the address \<open>32 * j\<close> bytes after the first; it changes no other
  slot, and later runs change nothing.\<close>

lemma probe_tracepoints_reads_each:
  assumes "length (tps st) = TP_MAX" "\<not> tps_run st" "j < TP_MAX"
  shows "(let st' = snd (probe_tracepoints h L start nr_tps st) in
    tps st' ! j = (if j < unat nr_tps
      then probe_tp_info h L (start + of_nat (32 * j)) else tps st ! j) \<and>
    length (tps st') = TP_MAX \<and> probe_tracepoints h2 L start nr_tps st' = (0, st'))"
proof -
  have "probe_tps_loop h L nr_tps TP_MAX 0 start (tps st) =
      fill_loop (unat nr_tps) (\<lambda>i. probe_tp_info h L (start + of_nat (sizeof_raw_event_map * i))) TP_MAX 0 (tps st)"
    using probe_tps_loop_fill [of h L nr_tps TP_MAX 0 start "tps st"] by simp
  with assms show ?thesis
    by (simp add: probe_tracepoints_def nth_fill_loop Let_def sizeof_raw_event_map_def)
qed

end
