(* ===== verification/Tracepoint_Module.thy ===== *)
theory Tracepoint_Module
  imports Bpf_Runtime
begin

text \<open>
  Reading the modules with raw tracepoints (\<^verbatim>\<open>bpf/tracepoint_module.c\<close>): a walk of the kernel's
  circular list of \<^verbatim>\<open>struct bpf_trace_module\<close>, at most 256 nodes in a run, from the list's head
  or from the node an earlier run stopped at.
\<close>

definition TP_MODULE_MAX :: nat where "TP_MODULE_MAX = 256"

record module_info =
  mi_name :: "u8 list"
  num_bpf_raw_events :: u64
  bpf_raw_events :: u64

record trace_modules =
  tm_modules :: "module_info list"
  next_module :: u64
  nr_modules :: u32
  tm_end :: bool
  tm_run :: bool

text \<open>\<^verbatim>\<open>container_of(next, struct bpf_trace_module, list)\<close>: the list node is at offset 8.\<close>

definition module_of_node :: "u64 \<Rightarrow> u64" where
  "module_of_node node = node - 8"

text \<open>The number of events is read with the eight bytes of its destination.\<close>

definition probe_module_info :: "helpers \<Rightarrow> layout \<Rightarrow> u64 \<Rightarrow> module_info" where
  "probe_module_info h L btm =
     (let module = core_read h L 8 ''bpf_trace_module'' ''module'' btm :: u64
      in \<lparr>mi_name = probe_str h (module + of_nat (L ''module'' ''name'')) 56,
          num_bpf_raw_events = core_read h L 8 ''module'' ''num_bpf_raw_events'' module,
          bpf_raw_events = core_read h L 8 ''module'' ''bpf_raw_events'' module\<rparr>)"

text \<open>\<^verbatim>\<open>BPF_CORE_READ(btm, list.next)\<close>: one read, at the sum of the two offsets.\<close>

definition next_node :: "helpers \<Rightarrow> layout \<Rightarrow> u64 \<Rightarrow> u64" where
  "next_node h L node = probe_word h (module_of_node node +
     of_nat (L ''bpf_trace_module'' ''list'' + L ''list_head'' ''next'')) 8"

text \<open>The loop, with the iterations left as its first number: the last node, the index, the records.\<close>

fun module_loop ::
  "helpers \<Rightarrow> layout \<Rightarrow> u64 \<Rightarrow> nat \<Rightarrow> nat \<Rightarrow> u64 \<Rightarrow> module_info list \<Rightarrow> u64 \<times> nat \<times> module_info list" where
  "module_loop h L head 0 i node out = (node, i, out)"
| "module_loop h L head (Suc n) i node out =
     (if node = head then (node, i, out)
      else module_loop h L head n (Suc i) (next_node h L node)
        (out[i := probe_module_info h L (module_of_node node)]))"

definition probe_modules :: "helpers \<Rightarrow> layout \<Rightarrow> u64 \<Rightarrow> u64 \<Rightarrow> trace_modules \<Rightarrow> s32 \<times> trace_modules" where
  "probe_modules h L head start st =
     (if tm_run st then (0, st)
      else let node = (if truthy start then start else core_read h L 8 ''list_head'' ''next'' head);
               (node, i, out) = module_loop h L head TP_MODULE_MAX 0 node (tm_modules st)
        in (0, st\<lparr>tm_run := True, tm_modules := out, tm_end := (node = head), next_module := node,
                nr_modules := of_nat i\<rparr>))"

section \<open>The list\<close>

text \<open>\<open>list_from h L head node ns\<close>: from \<open>node\<close>, the nodes before the head are \<open>ns\<close>.\<close>

fun list_from :: "helpers \<Rightarrow> layout \<Rightarrow> u64 \<Rightarrow> u64 \<Rightarrow> u64 list \<Rightarrow> bool" where
  "list_from h L head node [] \<longleftrightarrow> node = head"
| "list_from h L head node (n # ns) \<longleftrightarrow> node = n \<and> n \<noteq> head \<and> list_from h L head (next_node h L n) ns"

text \<open>Writing records into consecutive slots.\<close>

fun fill_from :: "nat \<Rightarrow> 'a list \<Rightarrow> 'a list \<Rightarrow> 'a list" where
  "fill_from i [] out = out"
| "fill_from i (x # xs) out = fill_from (Suc i) xs (out[i := x])"

lemma length_fill_from [simp]: "length (fill_from i xs out) = length out"
  by (induction xs arbitrary: i out) simp_all

lemma nth_fill_from:
  "j < length out \<Longrightarrow> fill_from i xs out ! j = (if i \<le> j \<and> j < i + length xs then xs ! (j - i) else out ! j)"
proof (induction xs arbitrary: i out)
  case (Cons x xs)
  then show ?case
    using Cons.IH [of "out[i := x]" "Suc i"]
    by (cases "i = j") (auto simp: nth_list_update nth_Cons')
qed auto

lemma fill_from_take: "length xs \<le> length out \<Longrightarrow> take (length xs) (fill_from 0 xs out) = xs"
  by (rule nth_equalityI) (simp_all add: nth_fill_from)

lemma module_loop_list:
  "list_from h L head node ns \<Longrightarrow> module_loop h L head n i node out =
     (if length ns \<le> n then head else ns ! n, i + min n (length ns),
      fill_from i (map (\<lambda>n. probe_module_info h L (module_of_node n)) (take n ns)) out)"
proof (induction n arbitrary: i node ns out)
  case 0
  then show ?case by (cases ns) auto
next
  case (Suc n)
  then show ?case by (cases ns) auto
qed

lemma list_from_drop:
  "list_from h L head node ns \<Longrightarrow> k < length ns \<Longrightarrow> list_from h L head (ns ! k) (drop k ns)"
proof (induction k arbitrary: node ns)
  case 0
  then show ?case by (cases ns) auto
next
  case (Suc k)
  then show ?case by (cases ns) auto
qed

text \<open>One run, from a node of the list or from its head.\<close>

lemma probe_modules_list:
  assumes "\<not> tm_run st" "length (tm_modules st) = TP_MODULE_MAX"
    and "list_from h L head (if truthy start then start else core_read h L 8 ''list_head'' ''next'' head) ns"
    and "st' = snd (probe_modules h L head start st)"
  shows "unat (nr_modules st') = min 256 (length ns) \<and> (tm_end st' \<longleftrightarrow> length ns \<le> 256) \<and>
    take (unat (nr_modules st')) (tm_modules st') =
      map (\<lambda>n. probe_module_info h L (module_of_node n)) (take 256 ns) \<and>
    list_from h L head (next_module st') (drop 256 ns)"
proof -
  let ?infos = "map (\<lambda>n. probe_module_info h L (module_of_node n)) (take 256 ns)"
  have m: "min 256 (length ns) < 2 ^ 32" by simp
  then have nr: "unat (of_nat (min 256 (length ns)) :: u32) = min 256 (length ns)"
    by (simp add: unsigned_of_nat take_bit_nat_eq_self_iff)
  have st': "st' = st\<lparr>tm_run := True, tm_modules := fill_from 0 ?infos (tm_modules st),
      tm_end := ((if length ns \<le> 256 then head else ns ! 256) = head),
      next_module := if length ns \<le> 256 then head else ns ! 256,
      nr_modules := of_nat (min 256 (length ns))\<rparr>"
    using assms(1) module_loop_list [OF assms(3), of 256 0 "tm_modules st"]
    by (simp add: assms(4) probe_modules_def TP_MODULE_MAX_def)
  have "length ?infos \<le> length (tm_modules st)" using assms(2) by (simp add: TP_MODULE_MAX_def)
  from fill_from_take [OF this] have infos: "take (min 256 (length ns)) (fill_from 0 ?infos (tm_modules st)) = ?infos"
    by (simp add: min.commute)
  show ?thesis
  proof (cases "length ns \<le> 256")
    case True
    then show ?thesis using infos nr by (simp add: st')
  next
    case False
    then have rest: "list_from h L head (ns ! 256) (drop 256 ns)"
      using list_from_drop [OF assms(3)] by simp
    then have "ns ! 256 \<noteq> head" using False by (cases "drop 256 ns") auto
    with False rest infos nr show ?thesis by (simp add: st')
  qed
qed

section \<open>Properties\<close>

text \<open>A run from the head reads the modules of the list in order, up to 256 of them, one into
  each slot; it reports how many it read, whether it reached the end, and, when it did not,
  the node where the next run has to start, from which that run finds the rest of the list.\<close>

lemma probe_modules_reads_list:
  assumes "\<not> tm_run st" "length (tm_modules st) = TP_MODULE_MAX"
    and "list_from h L head (if truthy start then start else core_read h L 8 ''list_head'' ''next'' head) ns"
    and "st' = snd (probe_modules h L head start st)"
  shows "unat (nr_modules st') = min 256 (length ns) \<and> (tm_end st' \<longleftrightarrow> length ns \<le> 256) \<and>
    take (unat (nr_modules st')) (tm_modules st') =
      map (\<lambda>n. probe_module_info h L (module_of_node n)) (take 256 ns) \<and>
    list_from h L head (next_module st') (drop 256 ns)"
  by (rule probe_modules_list [OF assms])

section \<open>Several runs\<close>

text \<open>
  The program is loaded afresh with \<^verbatim>\<open>__start\<close> at the \<^verbatim>\<open>next_module\<close> of the run before, until a
  run says that it reached the end; the last number bounds the runs. The result is the records
  of all runs, and whether the end was reached.
\<close>

fun module_runs ::
  "helpers \<Rightarrow> layout \<Rightarrow> u64 \<Rightarrow> u64 \<Rightarrow> trace_modules \<Rightarrow> nat \<Rightarrow> module_info list \<times> bool" where
  "module_runs h L head start st 0 = ([], False)"
| "module_runs h L head start st (Suc k) =
     (let st' = snd (probe_modules h L head start st);
          infos = take (unat (nr_modules st')) (tm_modules st')
      in if tm_end st' then (infos, True)
         else let (more, done) = module_runs h L head (next_module st') st k in (infos @ more, done))"

lemma list_from_next:
  assumes "list_from h L head node ns" "256 < length ns" "0 \<notin> set ns"
    and "list_from h L head nxt (drop 256 ns)"
  shows "truthy nxt"
proof -
  from assms(2,4) have "nxt = ns ! 256" by (cases "drop 256 ns") (auto simp: nth_via_drop)
  with assms(2,3) show ?thesis by (metis nth_mem truthy_def)
qed

lemma module_runs_read_all_aux:
  assumes "\<not> tm_run st" "length (tm_modules st) = TP_MODULE_MAX" "0 \<notin> set ns"
    and "list_from h L head (if truthy start then start else core_read h L 8 ''list_head'' ''next'' head) ns"
    and "length ns < 256 * k"
  shows "module_runs h L head start st k = (map (\<lambda>n. probe_module_info h L (module_of_node n)) ns, True)"
  using assms(3-5)
proof (induction k arbitrary: start ns)
  case (Suc k)
  define st' where "st' = snd (probe_modules h L head start st)"
  note r = probe_modules_list [OF assms(1,2) Suc.prems(2) st'_def]
  have infos: "take (unat (nr_modules st')) (tm_modules st') =
      map (\<lambda>n. probe_module_info h L (module_of_node n)) (take 256 ns)"
    and at_end: "tm_end st' \<longleftrightarrow> length ns \<le> 256" using r by blast+
  show ?case
  proof (cases "length ns \<le> 256")
    case True
    then show ?thesis
      unfolding module_runs.simps st'_def [symmetric] Let_def infos by (simp add: at_end)
  next
    case False
    have nxt: "truthy (next_module st')" using list_from_next [OF Suc.prems(2) _ Suc.prems(1)] False r by simp
    have "0 \<notin> set (drop 256 ns)" using Suc.prems(1) by (meson in_set_dropD)
    moreover have "length (drop 256 ns) < 256 * k" using False Suc.prems(3) by simp
    ultimately have rest: "module_runs h L head (next_module st') st k =
        (map (\<lambda>n. probe_module_info h L (module_of_node n)) (drop 256 ns), True)"
      using Suc.IH [of "drop 256 ns" "next_module st'"] nxt r by simp
    have "map (\<lambda>n. probe_module_info h L (module_of_node n)) (take 256 ns) @
        map (\<lambda>n. probe_module_info h L (module_of_node n)) (drop 256 ns) =
        map (\<lambda>n. probe_module_info h L (module_of_node n)) ns"
      unfolding map_append [symmetric] by simp
    with rest False show ?thesis
      unfolding module_runs.simps st'_def [symmetric] Let_def infos by (simp add: at_end)
  qed
qed simp


end
