(* ===== verification/Probes.thy ===== *)
theory Probes
  imports Stack Vmlinux_Net
begin

text \<open>
  The one-shot programs the loader runs before it traces: reading kernel memory
  (\<^verbatim>\<open>bpf/read.c\<close>), detecting kernel features (\<^verbatim>\<open>bpf/feature.c\<close>), and trying a tail call from a
  subprogram (\<^verbatim>\<open>bpf/tailcall.c\<close>).
\<close>

section \<open>Reading memory\<close>

definition READ_BUFF_SIZE :: nat where "READ_BUFF_SIZE = 4096"

record read_data_sec =
  rd_buff :: "u8 list"
  rd_run :: bool

definition read_kernel :: "helpers \<Rightarrow> u64 \<Rightarrow> u32 \<Rightarrow> read_data_sec \<Rightarrow> s32 \<times> read_data_sec" where
  "read_kernel h addr sz st =
     (if rd_run st then (0, st)
      else (0, st\<lparr>rd_run := True, rd_buff := store 0 (probe_bytes h addr (unat sz)) (rd_buff st)\<rparr>))"

text \<open>The loader rewrites \<^verbatim>\<open>read_stub\<close> too; this is the C body.\<close>

definition read_stub :: "u8 list \<Rightarrow> s32" where
  "read_stub b = ucast (b ! 0)"

definition read_data :: "(u8 list \<Rightarrow> s32) \<Rightarrow> read_data_sec \<Rightarrow> s32 \<times> read_data_sec" where
  "read_data stub st =
     (if rd_run st then (0, st)
      else let st = st\<lparr>rd_run := True\<rparr>; b = rd_buff st; ret = stub b in (ret, st))"

section \<open>Features\<close>

record features =
  ft_run :: bool
  has_ringbuf :: bool
  has_branch_snapshot :: bool
  has_stack_id :: bool

text \<open>The enumerations of the running kernel, by name.\<close>

type_synonym btf_enums = "string \<Rightarrow> (string \<times> int) list"

definition bpf_core_enum_value_exists :: "btf_enums \<Rightarrow> string \<Rightarrow> string \<Rightarrow> bool" where
  "bpf_core_enum_value_exists E ty v = list_ex (\<lambda>e. fst e = v) (E ty)"

definition detect_features :: "btf_enums \<Rightarrow> features \<Rightarrow> s32 \<times> features" where
  "detect_features E ft =
     (let ft = ft\<lparr>ft_run := True\<rparr>;
          ft = ft\<lparr>has_ringbuf := bpf_core_enum_value_exists E ''bpf_map_type'' ''BPF_MAP_TYPE_RINGBUF''\<rparr>;
          ft = ft\<lparr>has_stack_id := bpf_core_enum_value_exists E ''bpf_func_id'' ''BPF_FUNC_get_stackid''\<rparr>
      in (0, ft))"

definition vmlinux_enums :: btf_enums where
  "vmlinux_enums ty =
     (if ty = ''bpf_map_type'' then enum_bpf_map_type
      else if ty = ''bpf_func_id'' then enum_bpf_func_id else [])"

section \<open>Tail calls\<close>

text \<open>
  A successful \<^verbatim>\<open>bpf_tail_call\<close> replaces the program, or the subprogram, that makes it: the
  target's result is the result of that frame. \<open>None\<close> is an empty array slot, where the call
  falls through.
\<close>

definition bpf_tail_call :: "('st \<Rightarrow> s32 \<times> 'st) option \<Rightarrow> ('st \<Rightarrow> s32 \<times> 'st) \<Rightarrow> 'st \<Rightarrow> s32 \<times> 'st" where
  "bpf_tail_call slot rest st = (case slot of Some target \<Rightarrow> target st | None \<Rightarrow> rest st)"

definition tailcall_subprog :: "('st \<Rightarrow> s32 \<times> 'st) option \<Rightarrow> 'st \<Rightarrow> s32 \<times> 'st" where
  "tailcall_subprog slot st = bpf_tail_call slot (\<lambda>st. (0, st)) st"

definition tailcall_entry :: "arch \<Rightarrow> ('st \<Rightarrow> s32 \<times> 'st) option \<Rightarrow> 'st \<Rightarrow> s32 \<times> 'st" where
  "tailcall_entry arch slot st =
     (case arch of ARM64 \<Rightarrow> bpf_tail_call slot (\<lambda>st. (0, st)) st
      | X86 \<Rightarrow> (0, snd (tailcall_subprog slot st)))"

section \<open>Properties\<close>

text \<open>After the first run, the buffer starts with the bytes mapped at the address, as many as
  asked for, its other bytes are unchanged, and later runs do not read again.\<close>

lemma read_kernel_reads_memory:
  assumes mem: "kernel_memory (bpf_probe_read_kernel h) mem"
    and at: "\<And>i. i < length bs \<Longrightarrow> mem (addr + of_nat i) = Some (bs ! i)"
    and sz: "unat n = length bs" "length bs \<le> READ_BUFF_SIZE"
    and st: "length (rd_buff st) = READ_BUFF_SIZE" "\<not> rd_run st"
    and st': "st' = snd (read_kernel h addr n st)"
  shows "rd_buff st' = bs @ drop (length bs) (rd_buff st) \<and> read_kernel h2 addr2 n2 st' = (0, st')"
proof -
  have "probe_bytes h addr (unat n) = bs"
    using kernel_memory.probe_reads(2) [OF mem at] sz(1) by (simp add: probe_bytes_def)
  then show ?thesis using sz st by (simp add: st' read_kernel_def store_def)
qed

text \<open>The feature flags say whether the running kernel declares the ring-buffer map type and
  the stack helper; on a kernel with the header's types both are found. The flag for branch
  snapshots keeps its value.\<close>

lemma detect_features_correct:
  "(has_ringbuf (snd (detect_features E ft)) \<longleftrightarrow> ''BPF_MAP_TYPE_RINGBUF'' \<in> fst ` set (E ''bpf_map_type'')) \<and>
   (has_stack_id (snd (detect_features E ft)) \<longleftrightarrow> ''BPF_FUNC_get_stackid'' \<in> fst ` set (E ''bpf_func_id'')) \<and>
   has_branch_snapshot (snd (detect_features E ft)) = has_branch_snapshot ft \<and>
   has_ringbuf (snd (detect_features vmlinux_enums ft)) \<and> has_stack_id (snd (detect_features vmlinux_enums ft))"
proof -
  have in_set: "bpf_core_enum_value_exists E ty v \<longleftrightarrow> v \<in> fst ` set (E ty)" for ty v
    by (auto simp: bpf_core_enum_value_exists_def list_ex_iff)
  have "bpf_core_enum_value_exists vmlinux_enums ''bpf_map_type'' ''BPF_MAP_TYPE_RINGBUF''" by code_simp
  moreover have "bpf_core_enum_value_exists vmlinux_enums ''bpf_func_id'' ''BPF_FUNC_get_stackid''" by code_simp
  ultimately show ?thesis by (simp add: detect_features_def in_set)
qed

text \<open>With a target in the array the target runs once on either architecture; on arm64 its
  result is the program's, on x86, where a subprogram makes the call, the program returns
  zero. With no target nothing runs and the program returns zero.\<close>

lemma tailcall_entry_runs_target:
  "tailcall_entry a (Some target) st = (case a of ARM64 \<Rightarrow> target st | X86 \<Rightarrow> (0, snd (target st))) \<and>
   tailcall_entry a None st = (0, st)"
  by (cases a) (simp_all add: tailcall_entry_def tailcall_subprog_def bpf_tail_call_def)

end
