(* ===== verification/Cleanup.thy ===== *)
theory Cleanup
  imports Bpf_Runtime
begin

text \<open>
  Scope guards (\<^verbatim>\<open>bpf/headers/bpf_cleanup.h\<close>): a guard acquires a spin lock or a ring-buffer
  record where it is declared, and its destructor releases it when the scope is left. The
  helper calls are a log.
\<close>

datatype helper_call =
    bpf_spin_lock u64
  | bpf_spin_unlock u64
  | bpf_ringbuf_reserved u64
  | bpf_ringbuf_submit u64
  | bpf_ringbuf_discard u64

record guard_spinlock_t =
  gs_lock :: u64

definition guard_spinlock_constructor :: "u64 \<Rightarrow> guard_spinlock_t \<times> helper_call list" where
  "guard_spinlock_constructor lock = (\<lparr>gs_lock = lock\<rparr>, [bpf_spin_lock lock])"

definition guard_spinlock_destructor :: "guard_spinlock_t \<Rightarrow> helper_call list" where
  "guard_spinlock_destructor g = [bpf_spin_unlock (gs_lock g)]"

text \<open>\<open>gr_data\<close> is 0 when the ring buffer had no room; \<open>err\<close> is the variable the guard points to.\<close>

record guard_ringbuf =
  gr_data :: u64

definition guard_ringbuf_constructor :: "u64 \<Rightarrow> guard_ringbuf \<times> helper_call list" where
  "guard_ringbuf_constructor p = (\<lparr>gr_data = p\<rparr>, if p = 0 then [] else [bpf_ringbuf_reserved p])"

definition guard_ringbuf_destructor :: "s32 \<Rightarrow> guard_ringbuf \<Rightarrow> helper_call list" where
  "guard_ringbuf_destructor err g =
     (if gr_data g = 0 then []
      else if err \<noteq> 0 then [bpf_ringbuf_discard (gr_data g)] else [bpf_ringbuf_submit (gr_data g)])"

section \<open>Scopes\<close>

text \<open>
  A block with guards: each guard's scope is the rest of its block. A reservation comes with
  the pointer it gets and the error variable's value at the end of the scope.
\<close>

datatype block =
    Block_End
  | With_Lock u64 block block      \<comment> \<open>the guarded rest, then what follows the block\<close>
  | With_Record u64 s32 block block

fun run_block :: "block \<Rightarrow> helper_call list" where
  "run_block Block_End = []"
| "run_block (With_Lock lock body rest) =
     (let (g, acq) = guard_spinlock_constructor lock
      in acq @ run_block body @ guard_spinlock_destructor g @ run_block rest)"
| "run_block (With_Record p err body rest) =
     (let (g, acq) = guard_ringbuf_constructor p
      in acq @ run_block body @ guard_ringbuf_destructor err g @ run_block rest)"

datatype resource = Lock u64 | Record u64

text \<open>The resources held after the calls, last acquired first; \<open>None\<close> for a release of another one.\<close>

fun held_after :: "helper_call list \<Rightarrow> resource list \<Rightarrow> resource list option" where
  "held_after [] held = Some held"
| "held_after (bpf_spin_lock l # cs) held = held_after cs (Lock l # held)"
| "held_after (bpf_ringbuf_reserved p # cs) held = held_after cs (Record p # held)"
| "held_after (bpf_spin_unlock l # cs) held =
     (case held of Lock l' # held' \<Rightarrow> if l = l' then held_after cs held' else None | _ \<Rightarrow> None)"
| "held_after (bpf_ringbuf_submit p # cs) held =
     (case held of Record p' # held' \<Rightarrow> if p = p' then held_after cs held' else None | _ \<Rightarrow> None)"
| "held_after (bpf_ringbuf_discard p # cs) held =
     (case held of Record p' # held' \<Rightarrow> if p = p' then held_after cs held' else None | _ \<Rightarrow> None)"

lemma held_after_append:
  "held_after (xs @ ys) held = Option.bind (held_after xs held) (held_after ys)"
  by (induction xs held rule: held_after.induct) (auto split: list.splits resource.splits)


end
