(* ===== verification/Xdp_Crc.thy ===== *)
theory Xdp_Crc
  imports Pkt
begin

text \<open>
  The XDP program that hashes a TCP connection (\<^verbatim>\<open>cmd/xdpcrc/xdp.c\<close>): a table-driven CRC-16 over
  six bytes, applied twice, against the bitwise CRC with the polynomial \<open>0x1021\<close>.
\<close>

section \<open>The program\<close>

definition crc16tab :: "u16 list" where
  "crc16tab =
    [0x0000, 0x1021, 0x2042, 0x3063, 0x4084, 0x50a5, 0x60c6, 0x70e7, 0x8108, 0x9129, 0xa14a, 0xb16b,
     0xc18c, 0xd1ad, 0xe1ce, 0xf1ef, 0x1231, 0x0210, 0x3273, 0x2252, 0x52b5, 0x4294, 0x72f7, 0x62d6,
     0x9339, 0x8318, 0xb37b, 0xa35a, 0xd3bd, 0xc39c, 0xf3ff, 0xe3de, 0x2462, 0x3443, 0x0420, 0x1401,
     0x64e6, 0x74c7, 0x44a4, 0x5485, 0xa56a, 0xb54b, 0x8528, 0x9509, 0xe5ee, 0xf5cf, 0xc5ac, 0xd58d,
     0x3653, 0x2672, 0x1611, 0x0630, 0x76d7, 0x66f6, 0x5695, 0x46b4, 0xb75b, 0xa77a, 0x9719, 0x8738,
     0xf7df, 0xe7fe, 0xd79d, 0xc7bc, 0x48c4, 0x58e5, 0x6886, 0x78a7, 0x0840, 0x1861, 0x2802, 0x3823,
     0xc9cc, 0xd9ed, 0xe98e, 0xf9af, 0x8948, 0x9969, 0xa90a, 0xb92b, 0x5af5, 0x4ad4, 0x7ab7, 0x6a96,
     0x1a71, 0x0a50, 0x3a33, 0x2a12, 0xdbfd, 0xcbdc, 0xfbbf, 0xeb9e, 0x9b79, 0x8b58, 0xbb3b, 0xab1a,
     0x6ca6, 0x7c87, 0x4ce4, 0x5cc5, 0x2c22, 0x3c03, 0x0c60, 0x1c41, 0xedae, 0xfd8f, 0xcdec, 0xddcd,
     0xad2a, 0xbd0b, 0x8d68, 0x9d49, 0x7e97, 0x6eb6, 0x5ed5, 0x4ef4, 0x3e13, 0x2e32, 0x1e51, 0x0e70,
     0xff9f, 0xefbe, 0xdfdd, 0xcffc, 0xbf1b, 0xaf3a, 0x9f59, 0x8f78, 0x9188, 0x81a9, 0xb1ca, 0xa1eb,
     0xd10c, 0xc12d, 0xf14e, 0xe16f, 0x1080, 0x00a1, 0x30c2, 0x20e3, 0x5004, 0x4025, 0x7046, 0x6067,
     0x83b9, 0x9398, 0xa3fb, 0xb3da, 0xc33d, 0xd31c, 0xe37f, 0xf35e, 0x02b1, 0x1290, 0x22f3, 0x32d2,
     0x4235, 0x5214, 0x6277, 0x7256, 0xb5ea, 0xa5cb, 0x95a8, 0x8589, 0xf56e, 0xe54f, 0xd52c, 0xc50d,
     0x34e2, 0x24c3, 0x14a0, 0x0481, 0x7466, 0x6447, 0x5424, 0x4405, 0xa7db, 0xb7fa, 0x8799, 0x97b8,
     0xe75f, 0xf77e, 0xc71d, 0xd73c, 0x26d3, 0x36f2, 0x0691, 0x16b0, 0x6657, 0x7676, 0x4615, 0x5634,
     0xd94c, 0xc96d, 0xf90e, 0xe92f, 0x99c8, 0x89e9, 0xb98a, 0xa9ab, 0x5844, 0x4865, 0x7806, 0x6827,
     0x18c0, 0x08e1, 0x3882, 0x28a3, 0xcb7d, 0xdb5c, 0xeb3f, 0xfb1e, 0x8bf9, 0x9bd8, 0xabbb, 0xbb9a,
     0x4a75, 0x5a54, 0x6a37, 0x7a16, 0x0af1, 0x1ad0, 0x2ab3, 0x3a92, 0xfd2e, 0xed0f, 0xdd6c, 0xcd4d,
     0xbdaa, 0xad8b, 0x9de8, 0x8dc9, 0x7c26, 0x6c07, 0x5c64, 0x4c45, 0x3ca2, 0x2c83, 0x1ce0, 0x0cc1,
     0xef1f, 0xff3e, 0xcf5d, 0xdf7c, 0xaf9b, 0xbfba, 0x8fd9, 0x9ff8, 0x6e17, 0x7e36, 0x4e55, 0x5e74,
     0x2e93, 0x3eb2, 0x0ed1, 0x1ef0]"

text \<open>The \<^verbatim>\<open>__sink\<close> barrier does not change its operand.\<close>

definition crc_step :: "u32 \<Rightarrow> u64 \<Rightarrow> nat \<Rightarrow> u32" where
  "crc_step crc port i =
     (let key = ucast (drop_bit 8 crc) XOR drop_bit (i * 8) port
      in push_bit 8 crc XOR ucast (crc16tab ! unat (key AND 0xff)))"

definition crc16 :: "u64 \<Rightarrow> u16" where
  "crc16 port = ucast (fold (\<lambda>i crc. crc_step crc port i) [0..<6] 0)"

definition connection_crc_hash :: "u32 \<Rightarrow> u16 \<Rightarrow> u32 \<Rightarrow> u16 \<Rightarrow> u16" where
  "connection_crc_hash src src_port dest dest_port =
     (let merge = push_bit 32 (ucast src) OR ucast dest :: u64;
          crc = crc16 merge;
          merge = push_bit 48 (ucast src_port) OR push_bit 32 (ucast crc) OR push_bit 16 (ucast dest_port)
            OR ucast src_port
      in crc16 merge)"

definition XDP_PASS :: u32 where "XDP_PASS = 2"

text \<open>
  The program: what it prints, if anything, and its verdict. The packet is the bytes between
  \<^verbatim>\<open>data\<close> and \<^verbatim>\<open>data_end\<close>; the headers are 14, 20 and 20 bytes.
\<close>

definition xdp_crc :: "u8 list \<Rightarrow> u16 option \<times> u32" where
  "xdp_crc pkt =
     (let iph = 14; tcph = iph + 20 in
      if tcph + 20 > length pkt then (None, XDP_PASS)
      else if pkt ! (iph + 9) \<noteq> IPPROTO_TCP \<or> load_le (tcph + 2) 2 pkt \<noteq> bpf_htons 8080 then (None, XDP_PASS)
      else (Some (connection_crc_hash (load_le (iph + 12) 4 pkt) (load_le tcph 2 pkt)
              (load_le (iph + 16) 4 pkt) (load_le (tcph + 2) 2 pkt)), XDP_PASS))"

section \<open>The reference CRC\<close>

text \<open>One bit of the remainder's register, then the eight bits of a byte.\<close>

definition crc_bit :: "u16 \<Rightarrow> u16" where
  "crc_bit r = (if bit r 15 then push_bit 1 r XOR 0x1021 else push_bit 1 r)"

definition crc8 :: "u16 \<Rightarrow> u16" where
  "crc8 r = crc_bit (crc_bit (crc_bit (crc_bit (crc_bit (crc_bit (crc_bit (crc_bit r)))))))"

definition crc_byte :: "u16 \<Rightarrow> u8 \<Rightarrow> u16" where
  "crc_byte r b = crc8 (r XOR push_bit 8 (ucast b))"

definition crc_ccitt :: "u8 list \<Rightarrow> u16" where
  "crc_ccitt bs = foldl crc_byte 0 bs"

lemma crc_bit_xor: "crc_bit (a XOR b) = crc_bit a XOR crc_bit b"
  by (auto simp: crc_bit_def bit_simps push_bit_xor ac_simps)

lemma crc8_xor: "crc8 (a XOR b) = crc8 a XOR crc8 b"
  by (simp add: crc8_def crc_bit_xor)

lemma crc_bit_shift: "\<not> bit r 15 \<Longrightarrow> crc_bit r = push_bit 1 r"
  by (simp add: crc_bit_def)

text \<open>A register whose high byte is zero is only shifted.\<close>

lemma crc8_low: "crc8 (ucast (b :: u8)) = push_bit 8 (ucast b)"
proof -
  define p where "p n = push_bit n (ucast b :: u16)" for n
  have step: "crc_bit (p n) = p (Suc n)" if "n < 8" for n
    unfolding p_def using that by (subst crc_bit_shift) (auto simp: bit_simps dest: bit_imp_le_length)
  have "crc8 (p 0) = p 8" by (simp add: crc8_def step eval_nat_numeral)
  then show ?thesis by (simp add: p_def)
qed

section \<open>The table\<close>

fun index_check :: "u16 \<Rightarrow> u16 list \<Rightarrow> bool" where
  "index_check w [] = True"
| "index_check w (t # ts) = (t = crc8 (push_bit 8 w) \<and> index_check (w + 1) ts)"

lemma index_check_append:
  "index_check w (xs @ ys) \<longleftrightarrow> index_check w xs \<and> index_check (w + of_nat (length xs)) ys"
  by (induction xs arbitrary: w) (auto simp: ac_simps)

lemma index_check_nth:
  "index_check w ts \<Longrightarrow> i < length ts \<Longrightarrow> ts ! i = crc8 (push_bit 8 (w + of_nat i))"
  by (induction ts arbitrary: w i) (auto simp: nth_Cons ac_simps split: nat.split)

text \<open>The table holds the CRC of each byte value; checked in eight parts.\<close>

lemmas tab_eval = crc16tab_def crc8_def crc_bit_def

lemma tab_part0: "index_check 0 (take 32 (drop 0 crc16tab))"
  by (simp add: tab_eval)

lemma tab_part1: "index_check 32 (take 32 (drop 32 crc16tab))"
  by (simp add: tab_eval)

lemma tab_part2: "index_check 64 (take 32 (drop 64 crc16tab))"
  by (simp add: tab_eval)

lemma tab_part3: "index_check 96 (take 32 (drop 96 crc16tab))"
  by (simp add: tab_eval)

lemma tab_part4: "index_check 128 (take 32 (drop 128 crc16tab))"
  by (simp add: tab_eval)

lemma tab_part5: "index_check 160 (take 32 (drop 160 crc16tab))"
  by (simp add: tab_eval)

lemma tab_part6: "index_check 192 (take 32 (drop 192 crc16tab))"
  by (simp add: tab_eval)

lemma tab_part7: "index_check 224 (take 32 (drop 224 crc16tab))"
  by (simp add: tab_eval)

lemma length_crc16tab: "length crc16tab = 256"
  by (simp add: crc16tab_def)

lemma crc16tab_check: "index_check 0 crc16tab"
proof -
  have s: "index_check w ts \<longleftrightarrow> index_check w (take 32 ts) \<and> index_check (w + 32) (drop 32 ts)"
    if "32 \<le> length ts" for w and ts :: "u16 list"
    using index_check_append [of w "take 32 ts" "drop 32 ts"] that by simp
  note parts = tab_part0 tab_part1 tab_part2 tab_part3 tab_part4 tab_part5 tab_part6 tab_part7
  have e: "drop 256 crc16tab = []" by (simp add: length_crc16tab)
  have "index_check (of_nat (32 * k)) (drop (32 * k) crc16tab) \<longleftrightarrow>
      index_check (of_nat (32 * k)) (take 32 (drop (32 * k) crc16tab)) \<and>
      index_check (of_nat (32 * Suc k)) (drop (32 * Suc k) crc16tab)" if "k < 8" for k
    using s [of "drop (32 * k) crc16tab" "of_nat (32 * k)"] that by (simp add: length_crc16tab ac_simps)
  from this [of 0] this [of 1] this [of 2] this [of 3] this [of 4] this [of 5] this [of 6] this [of 7]
  show ?thesis using parts e by simp
qed

lemma crc16tab_nth: "i < 256 \<Longrightarrow> crc16tab ! i = crc8 (push_bit 8 (of_nat i))"
  using index_check_nth [OF crc16tab_check, of i] by (simp add: length_crc16tab)

section \<open>The program computes the reference CRC\<close>

lemma unat_low_byte: "unat (w AND 0xff :: u64) = unat (ucast w :: u8)"
proof -
  have "w AND 0xff = take_bit 8 w" by (simp only: take_bit_eq_mask) (simp add: mask_eq_exp_minus_1)
  then have "unat (w AND 0xff) = take_bit 8 (unat w)" by (simp only: unsigned_take_bit_eq)
  then show ?thesis by (simp only: unsigned_ucast_eq) simp
qed

lemma crc_step_low:
  "(ucast (crc_step crc port i) :: u16) = crc_byte (ucast crc) (ucast (drop_bit (8 * i) port))"
proof -
  define r where "r = (ucast crc :: u16)"
  define hi where "hi = (ucast (drop_bit 8 crc) :: u8)"
  define b where "b = (ucast (drop_bit (8 * i) port) :: u8)"
  define key where "key = (ucast (drop_bit 8 crc) XOR drop_bit (i * 8) port :: u64)"
  have key: "(ucast key :: u8) = hi XOR b"
    unfolding key_def hi_def b_def by (rule bit_word_eqI) (auto simp: bit_simps mult.commute)
  have "unat (ucast key :: u8) < 256" using unsigned_less [of "ucast key :: u8"] by simp
  then have tab: "crc16tab ! unat (key AND 0xff) = crc8 (push_bit 8 (ucast (hi XOR b)))"
    unfolding unat_low_byte key by (simp add: crc16tab_nth key)
  have r: "r = push_bit 8 (ucast hi) XOR ucast (ucast r :: u8)"
    unfolding r_def hi_def by (rule bit_word_eqI) (auto simp: bit_simps)
  have low: "push_bit 8 (ucast (ucast r :: u8)) = push_bit 8 r"
    by (rule bit_word_eqI) (auto simp: bit_simps)
  have "ucast (crc_step crc port i) = push_bit 8 r XOR crc16tab ! unat (key AND 0xff)"
    unfolding crc_step_def Let_def key_def [symmetric] r_def
    by (rule bit_word_eqI) (auto simp: bit_simps)
  also have "\<dots> = crc8 (ucast (ucast r :: u8)) XOR crc8 (push_bit 8 (ucast (hi XOR b)))"
    by (simp only: tab crc8_low low)
  also have "\<dots> = crc8 (ucast (ucast r :: u8) XOR push_bit 8 (ucast (hi XOR b)))"
    by (rule crc8_xor [symmetric])
  also have "ucast (ucast r :: u8) XOR push_bit 8 (ucast (hi XOR b)) = r XOR push_bit 8 (ucast b)"
  proof -
    have "push_bit 8 (ucast (hi XOR b)) = push_bit 8 (ucast hi) XOR (push_bit 8 (ucast b) :: u16)"
      by (rule bit_word_eqI) (auto simp: bit_simps)
    then show ?thesis by (subst (2) r) (simp add: ac_simps)
  qed
  finally show ?thesis by (simp add: crc_byte_def r_def b_def)
qed

lemma crc_fold_low:
  "(ucast (fold (\<lambda>i crc. crc_step crc port i) is c) :: u16) =
     foldl crc_byte (ucast c) (map (\<lambda>i. ucast (drop_bit (8 * i) port)) is)"
  by (induction "is" arbitrary: c) (simp_all add: crc_step_low)

lemma crc16_ccitt: "crc16 port = crc_ccitt (le_bytes 6 port)"
  unfolding crc16_def crc_fold_low crc_ccitt_def le_bytes_def by simp

text \<open>C38: the hash of a connection is the bitwise CRC-16 with polynomial 0x1021 and initial value
  zero, over the six bytes source port, destination port, and a CRC-16 over the four bytes
  of the destination address and the low two of the source address: of the source
  address, the other two bytes never enter it.\<close>

theorem connection_crc_hash_ccitt:
  "connection_crc_hash src src_port dest dest_port =
     crc_ccitt (le_bytes 2 src_port @ le_bytes 2 dest_port @
       le_bytes 2 (crc_ccitt (le_bytes 4 dest @ le_bytes 2 src)))"
proof -
  let ?c = "crc_ccitt (le_bytes 4 dest @ le_bytes 2 src)"
  have up: "[0..<6] = [0, 1, 2, 3, 4, 5 :: nat]" "[0..<4] = [0, 1, 2, 3 :: nat]" "[0..<2] = [0, 1 :: nat]"
    by (simp_all add: upt_rec)
  have 1: "le_bytes 6 (push_bit 32 (ucast src) OR ucast dest :: u64) = le_bytes 4 dest @ le_bytes 2 src"
    unfolding le_bytes_def up by (simp, intro conjI; rule bit_word_eqI; auto simp: bit_simps dest: bit_imp_le_length)
  have 2: "le_bytes 6 (push_bit 48 (ucast src_port) OR push_bit 32 (ucast c) OR push_bit 16 (ucast dest_port)
        OR ucast src_port :: u64) = le_bytes 2 src_port @ le_bytes 2 dest_port @ le_bytes 2 c" for c :: u16
    unfolding le_bytes_def up by (simp, intro conjI; rule bit_word_eqI; auto simp: bit_simps dest: bit_imp_le_length)
  show ?thesis unfolding connection_crc_hash_def crc16_ccitt Let_def 1 2 ..
qed

end
