(* ===== verification/Ebpf.thy ===== *)
theory Ebpf
  imports Tracer
begin

text \<open>
  The eBPF code the loader generates and splices into the programs. An instruction is what the
  loader's assembler builds: an operation with the symbol it defines and the symbol it refers
  to. The machine is the one the kernel's verifier checks code against: a register holds
  nothing, a number, or a pointer with an offset into one of the areas the subprogram was given;
  an access outside its area, a read of an unset register or a store of a pointer faults. The one
  kernel function called by number casts an address to a pointer through which kernel memory is
  loaded, as the probing helper reads it.
\<close>

section \<open>Instructions\<close>

datatype reg = R0 | R1 | R2 | R3 | R4 | R5 | R6 | R7 | R8 | R9 | RFP

text \<open>
  The arithmetic on numbers and the comparisons, all of 64 bits and unsigned. A division by zero
  gives zero, a remainder by zero leaves the dividend, and shifts use the count modulo 64. An
  immediate is extended with its sign.
\<close>

datatype alu = ALU_Add | ALU_Sub | ALU_Mul | ALU_Div | ALU_Mod | ALU_And | ALU_Or | ALU_Xor | ALU_LSh | ALU_RSh

datatype cmp = CMP_Eq | CMP_NE | CMP_GT | CMP_GE | CMP_LT | CMP_LE

fun alu_op :: "alu \<Rightarrow> u64 \<Rightarrow> u64 \<Rightarrow> u64" where
  "alu_op ALU_Add a b = a + b"
| "alu_op ALU_Sub a b = a - b"
| "alu_op ALU_Mul a b = a * b"
| "alu_op ALU_Div a b = (if b = 0 then 0 else a div b)"
| "alu_op ALU_Mod a b = (if b = 0 then a else a mod b)"
| "alu_op ALU_And a b = a AND b"
| "alu_op ALU_Or a b = a OR b"
| "alu_op ALU_Xor a b = a XOR b"
| "alu_op ALU_LSh a b = push_bit (unat b mod 64) a"
| "alu_op ALU_RSh a b = drop_bit (unat b mod 64) a"

fun cmp_op :: "cmp \<Rightarrow> u64 \<Rightarrow> u64 \<Rightarrow> bool" where
  "cmp_op CMP_Eq a b \<longleftrightarrow> a = b"
| "cmp_op CMP_NE a b \<longleftrightarrow> a \<noteq> b"
| "cmp_op CMP_GT a b \<longleftrightarrow> b < a"
| "cmp_op CMP_GE a b \<longleftrightarrow> b \<le> a"
| "cmp_op CMP_LT a b \<longleftrightarrow> a < b"
| "cmp_op CMP_LE a b \<longleftrightarrow> a \<le> b"

text \<open>
  The operations the generators emit; memory is read and written in double words, or, for
  the flag bytes, in bytes. The offsets are 16 bits wide and signed, the immediates 32.
\<close>

datatype opcode =
    Mov_Reg reg reg
  | Mov_Imm reg s32
  | Add_Imm reg s32
  | LoadMem reg reg "16 word"
  | LoadMem_Size reg reg "16 word" nat
  | StoreMem reg "16 word" reg
  | StoreMem_Byte reg "16 word" reg
  | JEq_Imm reg s32 "16 word"
  | Ja "16 word"
  | Alu_Imm alu reg s32
  | Alu_Reg alu reg reg
  | Neg_Reg reg
  | Jmp_Imm cmp reg s32 "16 word"
  | Jmp_Reg cmp reg reg "16 word"
  | FnProbeReadKernel_Call
  | FnProbeReadKernelStr_Call
  | Kfunc_Call s32
  | Call
  | Return

record instruction =
  ins_op :: opcode
  ins_symbol :: string
  ins_reference :: string

type_synonym instructions = "instruction list"

text \<open>An instruction without a symbol and a reference.\<close>

definition plain :: "opcode \<Rightarrow> instruction" where
  "plain c = \<lparr>ins_op = c, ins_symbol = [], ins_reference = []\<rparr>"

definition Call_Label :: "string \<Rightarrow> instruction" where
  "Call_Label l = \<lparr>ins_op = Call, ins_symbol = [], ins_reference = l\<rparr>"

definition JEq_Imm_Label :: "reg \<Rightarrow> s32 \<Rightarrow> string \<Rightarrow> instruction" where
  "JEq_Imm_Label r i l = \<lparr>ins_op = JEq_Imm r i (- 1), ins_symbol = [], ins_reference = l\<rparr>"

section \<open>The machine\<close>

datatype bval =
    Scalar u64
  | PtrArgs int
  | PtrBuff int
  | PtrFrame int
  | PtrKernel u64

text \<open>
  \<open>m_args\<close> is the array of the traced function's arguments, which no generated code writes;
  \<open>m_buff\<close> the record in the ring buffer; \<open>m_frame\<close> the 512 bytes below the frame pointer.
\<close>

record machine =
  m_regs :: "reg \<Rightarrow> bval option"
  m_args :: "u64 list"
  m_buff :: "u8 list"
  m_frame :: "u8 list"

definition set_reg :: "reg \<Rightarrow> bval \<Rightarrow> machine \<Rightarrow> machine" where
  "set_reg r v m = m\<lparr>m_regs := (m_regs m)(r \<mapsto> v)\<rparr>"

text \<open>A load of \<open>n\<close> bytes, a store, and the area \<open>[off, off + n)\<close> being in bounds.\<close>

definition FRAME :: nat where "FRAME = 512"

fun add_imm :: "bval \<Rightarrow> int \<Rightarrow> bval" where
  "add_imm (Scalar w) i = Scalar (w + word_of_int i)"
| "add_imm (PtrArgs off) i = PtrArgs (off + i)"
| "add_imm (PtrBuff off) i = PtrBuff (off + i)"
| "add_imm (PtrFrame off) i = PtrFrame (off + i)"
| "add_imm (PtrKernel a) i = PtrKernel (a + word_of_int i)"

fun load_dw :: "machine \<Rightarrow> bval \<Rightarrow> u64 option" where
  "load_dw m (Scalar w) = None"
| "load_dw m (PtrArgs off) =
     (if 0 \<le> off \<and> off mod 8 = 0 \<and> nat (off div 8) < length (m_args m)
      then Some (m_args m ! nat (off div 8)) else None)"
| "load_dw m (PtrBuff off) =
     (if 0 \<le> off \<and> nat off + 8 \<le> length (m_buff m) then Some (load_le (nat off) 8 (m_buff m)) else None)"
| "load_dw m (PtrFrame off) =
     (if - int FRAME \<le> off \<and> off + 8 \<le> 0 then Some (load_le (nat (int FRAME + off)) 8 (m_frame m)) else None)"
| "load_dw m (PtrKernel a) = None"

fun store_bytes :: "machine \<Rightarrow> bval \<Rightarrow> u8 list \<Rightarrow> machine option" where
  "store_bytes m (Scalar w) bs = None"
| "store_bytes m (PtrArgs off) bs = None"
| "store_bytes m (PtrBuff off) bs =
     (if 0 \<le> off \<and> nat off + length bs \<le> length (m_buff m)
      then Some (m\<lparr>m_buff := store (nat off) bs (m_buff m)\<rparr>) else None)"
| "store_bytes m (PtrFrame off) bs =
     (if - int FRAME \<le> off \<and> off + int (length bs) \<le> 0
      then Some (m\<lparr>m_frame := store (nat (int FRAME + off)) bs (m_frame m)\<rparr>) else None)"
| "store_bytes m (PtrKernel a) bs = None"

text \<open>A call sets R0, leaves R1 to R5 unset and keeps the others.\<close>

definition clobber :: "bval option \<Rightarrow> machine \<Rightarrow> machine" where
  "clobber r0 m = m\<lparr>m_regs := (m_regs m)(R0 := r0, R1 := None, R2 := None, R3 := None, R4 := None, R5 := None)\<rparr>"

definition the_scalar :: "bval option \<Rightarrow> u64 option" where
  "the_scalar v = (case v of Some (Scalar w) \<Rightarrow> Some w | _ \<Rightarrow> None)"

text \<open>The two probe helpers: R1 is the destination, R2 the size, R3 the kernel address.\<close>

definition probe_call ::
  "(u64 \<Rightarrow> nat \<Rightarrow> s64) \<Rightarrow> (u64 \<Rightarrow> nat \<Rightarrow> u8 list) \<Rightarrow> machine \<Rightarrow> machine option" where
  "probe_call err rd m =
     (case (m_regs m R1, the_scalar (m_regs m R2), the_scalar (m_regs m R3)) of
        (Some dst, Some n, Some a) \<Rightarrow>
          map_option (clobber (Some (Scalar (err a (unat n))))) (store_bytes m dst (rd a (unat n)))
      | _ \<Rightarrow> None)"

section \<open>Execution\<close>

text \<open>Where a step leads; the subprograms a program calls are an argument.\<close>

datatype flow = Next machine | Jump int machine | Stop machine | Fault

definition next_or_fault :: "machine option \<Rightarrow> flow" where
  "next_or_fault r = (case r of None \<Rightarrow> Fault | Some m \<Rightarrow> Next m)"

fun step :: "helpers \<Rightarrow> (string \<Rightarrow> machine \<Rightarrow> machine option) \<Rightarrow> opcode \<Rightarrow> string \<Rightarrow> machine \<Rightarrow> flow" where
  "step h subs (Mov_Reg d s) l m =
     (case m_regs m s of None \<Rightarrow> Fault | Some v \<Rightarrow> Next (set_reg d v m))"
| "step h subs (Mov_Imm d i) l m = Next (set_reg d (Scalar (scast i)) m)"
| "step h subs (Add_Imm d i) l m =
     (case m_regs m d of None \<Rightarrow> Fault | Some v \<Rightarrow> Next (set_reg d (add_imm v (sint i)) m))"
| "step h subs (LoadMem d s off) l m =
     (case m_regs m s of None \<Rightarrow> Fault
      | Some p \<Rightarrow> (case load_dw m (add_imm p (sint off)) of None \<Rightarrow> Fault
         | Some w \<Rightarrow> Next (set_reg d (Scalar w) m)))"
| "step h subs (LoadMem_Size d s off n) l m =
     (case map_option (\<lambda>p. add_imm p (sint off)) (m_regs m s) of
        Some (PtrKernel a) \<Rightarrow> Next (set_reg d (Scalar (probe_word h a n)) m)
      | _ \<Rightarrow> Fault)"
| "step h subs (StoreMem d off s) l m =
     (case (m_regs m d, the_scalar (m_regs m s)) of
        (Some p, Some w) \<Rightarrow> next_or_fault (store_bytes m (add_imm p (sint off)) (le_bytes 8 w))
      | _ \<Rightarrow> Fault)"
| "step h subs (StoreMem_Byte d off s) l m =
     (case (m_regs m d, the_scalar (m_regs m s)) of
        (Some p, Some w) \<Rightarrow> next_or_fault (store_bytes m (add_imm p (sint off)) (le_bytes 1 w))
      | _ \<Rightarrow> Fault)"
| "step h subs (JEq_Imm d i off) l m =
     (case the_scalar (m_regs m d) of None \<Rightarrow> Fault
      | Some w \<Rightarrow> if w = scast i then Jump (sint off) m else Next m)"
| "step h subs (Ja off) l m = Jump (sint off) m"
| "step h subs (Alu_Imm f d i) l m =
     (case the_scalar (m_regs m d) of None \<Rightarrow> Fault
      | Some a \<Rightarrow> Next (set_reg d (Scalar (alu_op f a (scast i))) m))"
| "step h subs (Alu_Reg f d s) l m =
     (case (the_scalar (m_regs m d), the_scalar (m_regs m s)) of
        (Some a, Some b) \<Rightarrow> Next (set_reg d (Scalar (alu_op f a b)) m)
      | _ \<Rightarrow> Fault)"
| "step h subs (Neg_Reg d) l m =
     (case the_scalar (m_regs m d) of None \<Rightarrow> Fault
      | Some a \<Rightarrow> Next (set_reg d (Scalar (- a)) m))"
| "step h subs (Jmp_Imm f d i off) l m =
     (case the_scalar (m_regs m d) of None \<Rightarrow> Fault
      | Some a \<Rightarrow> if cmp_op f a (scast i) then Jump (sint off) m else Next m)"
| "step h subs (Jmp_Reg f d s off) l m =
     (case (the_scalar (m_regs m d), the_scalar (m_regs m s)) of
        (Some a, Some b) \<Rightarrow> if cmp_op f a b then Jump (sint off) m else Next m
      | _ \<Rightarrow> Fault)"
| "step h subs FnProbeReadKernel_Call l m = next_or_fault (probe_call (probe_err h) (probe_bytes h) m)"
| "step h subs FnProbeReadKernelStr_Call l m =
     next_or_fault (probe_call (\<lambda>a n. fst (bpf_probe_read_kernel_str h a n)) (probe_str h) m)"
| "step h subs (Kfunc_Call i) l m =
     (case (the_scalar (m_regs m R1), the_scalar (m_regs m R2)) of
        (Some a, Some t) \<Rightarrow> Next (clobber (Some (PtrKernel a)) m)
      | _ \<Rightarrow> Fault)"
| "step h subs Call l m =
     (case subs l m of None \<Rightarrow> Fault
      | Some m' \<Rightarrow> Next (clobber (m_regs m' R0) (m\<lparr>m_buff := m_buff m'\<rparr>)))"
| "step h subs Return l m = Stop m"

text \<open>
  A jump is relative to the next instruction; one with a reference goes to the instruction
  that defines the symbol.
\<close>

fun find_symbol :: "string \<Rightarrow> instructions \<Rightarrow> nat option" where
  "find_symbol l [] = None"
| "find_symbol l (i # is) =
     (if ins_symbol i = l then Some 0 else map_option Suc (find_symbol l is))"

definition jump_to :: "instructions \<Rightarrow> nat \<Rightarrow> instruction \<Rightarrow> int \<Rightarrow> nat option" where
  "jump_to prog pc i off =
     (if ins_reference i \<noteq> [] then find_symbol (ins_reference i) prog
      else if 0 \<le> int pc + 1 + off then Some (nat (int pc + 1 + off)) else None)"

datatype outcome = Halted machine | Faulted | Unfinished

fun exec ::
  "helpers \<Rightarrow> (string \<Rightarrow> machine \<Rightarrow> machine option) \<Rightarrow> instructions \<Rightarrow> nat \<Rightarrow> nat \<Rightarrow> machine \<Rightarrow> outcome" where
  "exec h subs prog 0 pc m = Unfinished"
| "exec h subs prog (Suc fuel) pc m =
     (if length prog \<le> pc then Faulted
      else case step h subs (ins_op (prog ! pc)) (ins_reference (prog ! pc)) m of
        Next m' \<Rightarrow> exec h subs prog fuel (Suc pc) m'
      | Jump off m' \<Rightarrow> (case jump_to prog pc (prog ! pc) off of None \<Rightarrow> Faulted
          | Some pc' \<Rightarrow> exec h subs prog fuel pc' m')
      | Stop m' \<Rightarrow> Halted m'
      | Fault \<Rightarrow> Faulted)"

text \<open>More fuel does not change what a program does once it has ended.\<close>

lemma exec_more_fuel:
  "exec h subs prog fuel pc m \<noteq> Unfinished \<Longrightarrow> exec h subs prog (fuel + n) pc m = exec h subs prog fuel pc m"
proof (induction fuel arbitrary: pc m)
  case (Suc fuel)
  then show ?case by (auto split: flow.splits option.splits)
qed simp

section \<open>Straight-line code\<close>

text \<open>A block without jumps, run from its first to its last instruction.\<close>

fun block :: "helpers \<Rightarrow> (string \<Rightarrow> machine \<Rightarrow> machine option) \<Rightarrow> instructions \<Rightarrow> machine \<Rightarrow> machine option" where
  "block h subs [] m = Some m"
| "block h subs (i # is) m =
     (case step h subs (ins_op i) (ins_reference i) m of Next m' \<Rightarrow> block h subs is m' | _ \<Rightarrow> None)"

lemma block_append:
  "block h subs (xs @ ys) m = Option.bind (block h subs xs m) (block h subs ys)"
  by (induction xs arbitrary: m) (auto split: flow.splits)

section \<open>Programs without backward jumps\<close>

text \<open>Every jump of the program leads forward; then it ends within as many steps as it is long.\<close>

fun jump_offset :: "opcode \<Rightarrow> int option" where
  "jump_offset (JEq_Imm d i off) = Some (sint off)"
| "jump_offset (Ja off) = Some (sint off)"
| "jump_offset (Jmp_Imm f d i off) = Some (sint off)"
| "jump_offset (Jmp_Reg f d s off) = Some (sint off)"
| "jump_offset _ = None"

definition forward :: "instructions \<Rightarrow> bool" where
  "forward prog \<longleftrightarrow> list_all (\<lambda>pc. case jump_offset (ins_op (prog ! pc)) of None \<Rightarrow> True
     | Some off \<Rightarrow> (case jump_to prog pc (prog ! pc) off of None \<Rightarrow> True | Some pc' \<Rightarrow> pc < pc'))
     [0..<length prog]"

lemma step_jump: "step h subs c l m = Jump off m' \<Longrightarrow> jump_offset c = Some off"
  by (cases c) (auto simp: next_or_fault_def split: option.splits prod.splits if_splits bval.splits)

lemma forward_jump:
  assumes "forward prog" "pc < length prog" "step h subs (ins_op (prog ! pc)) l m = Jump off m'"
    and "jump_to prog pc (prog ! pc) off = Some pc'"
  shows "pc < pc'"
proof -
  have "pc \<in> set [0..<length prog]" using assms(2) by simp
  with assms(1) step_jump [OF assms(3)] assms(4) show ?thesis
    unfolding forward_def list_all_iff by fastforce
qed

lemma forward_ends:
  assumes fw: "forward prog"
  shows "length prog - pc < fuel \<Longrightarrow> exec h subs prog fuel pc m \<noteq> Unfinished"
proof (induction fuel arbitrary: pc m)
  case (Suc fuel)
  show ?case
  proof (cases "length prog \<le> pc")
    case False
    then have pc: "pc < length prog" by simp
    have later: "exec h subs prog fuel pc' m' \<noteq> Unfinished" if "pc < pc'" for pc' m'
      using Suc pc that by simp
    show ?thesis
      using later later [OF forward_jump [OF fw pc]] pc
      by (auto split: flow.splits option.splits)
  qed simp
qed simp

text \<open>Code without jumps that ends in a return does what its block does, and takes as many steps.\<close>

definition straight :: "instructions \<Rightarrow> bool" where
  "straight prog \<longleftrightarrow> list_all (\<lambda>i. jump_offset (ins_op i) = None \<and> ins_op i \<noteq> Return) prog"

lemma straight_simps [simp]:
  "straight []" "straight (i # is) \<longleftrightarrow> jump_offset (ins_op i) = None \<and> ins_op i \<noteq> Return \<and> straight is"
  "straight (xs @ ys) \<longleftrightarrow> straight xs \<and> straight ys"
  by (simp_all add: straight_def)

lemma step_stop: "step h subs c l m = Stop m' \<Longrightarrow> c = Return"
  by (cases c) (auto simp: next_or_fault_def split: option.splits prod.splits if_splits bval.splits)

lemma exec_straight:
  assumes "straight is"
  shows "exec h subs (pre @ is @ [plain Return]) (Suc (length is)) (length pre) m =
    (case block h subs is m of Some m' \<Rightarrow> Halted m' | None \<Rightarrow> Faulted)"
  using assms
proof (induction "is" arbitrary: pre m)
  case Nil
  then show ?case by (simp add: nth_append plain_def)
next
  case (Cons i "is")
  then have i: "jump_offset (ins_op i) = None" "ins_op i \<noteq> Return" and st: "straight is"
    by (simp_all add: straight_def)
  show ?case
  proof (cases "step h subs (ins_op i) (ins_reference i) m")
    case (Next m1)
    with Cons.IH [OF st, of "pre @ [i]" m1] show ?thesis by (simp add: nth_append)
  qed (use i in \<open>auto dest: step_jump step_stop simp: nth_append\<close>)
qed

lemma forward_straight: "straight is \<Longrightarrow> forward (is @ [plain Return])"
  by (auto simp: forward_def straight_def list_all_iff nth_append plain_def split: option.splits)

end
