(* ===== verification/Gen_Args.thy ===== *)
theory Gen_Args
  imports Ebpf
begin

text \<open>
  The generator of \<^verbatim>\<open>output_fn_args\<close> (\<^verbatim>\<open>internal/bpfsnoop/func_arg.go\<close>): from the flags of a
  function's parameters it builds the eBPF code that copies the arguments, and in an exit the
  return value, into the record.
\<close>

definition maxOutputStrLen :: nat where "maxOutputStrLen = 64"

record FuncParamFlags =
  IsNumberPtr :: bool
  IsStr :: bool
  partOfPrevParam :: bool

section \<open>The flags of a signature\<close>

text \<open>
  What the loader asks of a parameter's BTF type: whether it is a constant string, its size
  (\<open>None\<close>: an error), and whether it points to a number.
\<close>

record btf_param =
  IsConstCharPtr :: bool
  Sizeof :: "nat option"
  IsNumberPointer :: bool

datatype params_error = Sizeof_failed | Too_large nat

fun params_loop :: "bool \<Rightarrow> btf_param list \<Rightarrow> params_error + FuncParamFlags list" where
  "params_loop strUsed [] = Inr []"
| "params_loop strUsed (p # ps) =
     (let v = IsConstCharPtr p; isStr = v \<and> \<not> strUsed; strUsed = (strUsed \<or> v) in
      case Sizeof p of None \<Rightarrow> Inl Sizeof_failed
      | Some n \<Rightarrow>
        if 16 < n then Inl (Too_large n)
        else map_sum id (append
          (if 8 < n
           then [\<lparr>IsNumberPtr = False, IsStr = False, partOfPrevParam = False\<rparr>,
                 \<lparr>IsNumberPtr = False, IsStr = False, partOfPrevParam = True\<rparr>]
           else [\<lparr>IsNumberPtr = IsNumberPointer p, IsStr = isStr, partOfPrevParam = False\<rparr>]))
          (params_loop strUsed ps))"

definition getFuncParams ::
  "btf_param list \<Rightarrow> btf_param \<Rightarrow> params_error + (FuncParamFlags list \<times> FuncParamFlags)" where
  "getFuncParams fnParams rettype =
     map_sum id (\<lambda>params. (params, \<lparr>IsNumberPtr = IsNumberPointer rettype,
       IsStr = IsConstCharPtr rettype, partOfPrevParam = False\<rparr>)) (params_loop False fnParams)"

section \<open>The generator\<close>

text \<open>
  \<open>R6\<close> keeps the argument array, \<open>R7\<close> the destination, \<open>R8\<close> the return value. The three ways to
  copy a value: as a number, as what a pointer to a number points to, through the top of the
  stack, and as a string.
\<close>

definition gen_number :: "nat \<Rightarrow> reg \<Rightarrow> opcode list" where
  "gen_number offset r = [StoreMem R7 (of_nat offset) r]"

definition gen_deref :: "nat \<Rightarrow> reg \<Rightarrow> opcode list" where
  "gen_deref offset r =
     [Mov_Imm R2 8, Mov_Reg R1 RFP, Add_Imm R1 (- 8), FnProbeReadKernel_Call,
      LoadMem r RFP (- 8), StoreMem R7 (of_nat offset) r]"

definition gen_str :: "nat \<Rightarrow> opcode list" where
  "gen_str offset =
     (if offset \<noteq> 0
      then [Mov_Imm R2 (of_nat maxOutputStrLen), Mov_Reg R1 R7, Add_Imm R1 (of_nat offset),
            FnProbeReadKernelStr_Call]
      else [Mov_Imm R2 (of_nat maxOutputStrLen), Mov_Reg R1 R7, FnProbeReadKernelStr_Call])"

definition gen_prm :: "nat \<Rightarrow> nat \<Rightarrow> FuncParamFlags \<Rightarrow> opcode list \<times> nat" where
  "gen_prm i offset prm =
     (let insns = [LoadMem R3 R6 (of_nat (i * 8))] in
      if \<not> IsStr prm then
        let insns = insns @ gen_number offset R3; offset = offset + 8 in
        if IsNumberPtr prm then (insns @ gen_deref offset R3, offset + 8) else (insns, offset)
      else (insns @ gen_str offset, offset + maxOutputStrLen))"

fun gen_prms :: "nat \<Rightarrow> nat \<Rightarrow> FuncParamFlags list \<Rightarrow> opcode list \<times> nat" where
  "gen_prms i offset [] = ([], offset)"
| "gen_prms i offset (prm # prms) =
     (let (insns, offset) = gen_prm i offset prm;
          (rest, offset) = gen_prms (Suc i) offset prms
      in (insns @ rest, offset))"

definition gen_ret :: "nat \<Rightarrow> FuncParamFlags \<Rightarrow> opcode list \<times> nat" where
  "gen_ret offset ret =
     (if \<not> IsStr ret then
        let insns = gen_number offset R8; offset = offset + 8 in
        if IsNumberPtr ret then (insns @ [Mov_Reg R3 R8] @ gen_deref offset R8, offset + 8)
        else (insns, offset)
      else ([Mov_Reg R3 R8] @ gen_str offset, offset + maxOutputStrLen))"

definition genOutputFuncArgs ::
  "FuncParamFlags list \<Rightarrow> FuncParamFlags \<Rightarrow> bool \<Rightarrow> instructions \<times> nat" where
  "genOutputFuncArgs prms ret withRetval =
     (let backup = [Mov_Reg R6 R1, Mov_Reg R7 R2, Mov_Reg R8 R3];
          (insns, offset) = gen_prms 0 0 prms;
          (rest, offset) = (if \<not> withRetval then ([], offset) else gen_ret offset ret)
      in (map plain (backup @ insns @ rest) @ [plain Return], offset))"

section \<open>What it has to write\<close>

text \<open>
  The serialised value of a parameter: the string's 64 bytes, or the number and, for a pointer to
  one, the number behind it.
\<close>

definition prm_bytes :: "helpers \<Rightarrow> FuncParamFlags \<Rightarrow> u64 \<Rightarrow> u8 list" where
  "prm_bytes h prm v =
     (if IsStr prm then probe_str h v maxOutputStrLen
      else le_bytes 8 v @ (if IsNumberPtr prm then probe_bytes h v 8 else []))"

definition prm_size :: "FuncParamFlags \<Rightarrow> nat" where
  "prm_size prm = (if IsStr prm then maxOutputStrLen else if IsNumberPtr prm then 16 else 8)"

definition serial ::
  "helpers \<Rightarrow> FuncParamFlags list \<Rightarrow> FuncParamFlags \<Rightarrow> bool \<Rightarrow> u64 list \<Rightarrow> u64 \<Rightarrow> u8 list" where
  "serial h prms ret withRetval args rv =
     concat (map2 (prm_bytes h) prms args) @ (if withRetval then prm_bytes h ret rv else [])"

definition serial_size :: "FuncParamFlags list \<Rightarrow> FuncParamFlags \<Rightarrow> bool \<Rightarrow> nat" where
  "serial_size prms ret withRetval =
     sum_list (map prm_size prms) + (if withRetval then prm_size ret else 0)"

lemma length_prm_bytes [simp]: "length (prm_bytes h prm v) = prm_size prm"
  by (simp add: prm_bytes_def prm_size_def)

lemma snd_gen_prm: "snd (gen_prm i offset prm) = offset + prm_size prm"
  by (simp add: gen_prm_def prm_size_def Let_def)

lemma snd_gen_ret: "snd (gen_ret offset prm) = offset + prm_size prm"
  by (simp add: gen_ret_def prm_size_def Let_def)

lemma snd_gen_prms: "snd (gen_prms i offset prms) = offset + sum_list (map prm_size prms)"
proof (induction prms arbitrary: i offset)
  case (Cons p ps)
  then show ?case using snd_gen_prm [of i offset p] by (simp add: Let_def split_beta)
qed simp

lemma gen_prms_cons:
  "fst (gen_prms i off (p # ps)) = fst (gen_prm i off p) @ fst (gen_prms (Suc i) (off + prm_size p) ps)"
  using snd_gen_prm [of i off p] by (simp add: Let_def split_beta)

text \<open>No parameter takes less than eight bytes.\<close>

lemma prm_size_ge: "8 * length prms \<le> sum_list (map prm_size prms)"
proof (induction prms)
  case (Cons p ps)
  have "8 \<le> prm_size p" by (simp add: prm_size_def maxOutputStrLen_def)
  with Cons show ?case by simp
qed simp

lemma length_serial:
  "length prms \<le> length args \<Longrightarrow> length (serial h prms ret wr args rv) = serial_size prms ret wr"
proof -
  have "length prms \<le> length args \<Longrightarrow>
      length (concat (map2 (prm_bytes h) prms args)) = sum_list (map prm_size prms)"
  proof (induction prms arbitrary: args)
    case (Cons p ps)
    then show ?case by (cases args) auto
  qed simp
  moreover assume "length prms \<le> length args"
  ultimately show ?thesis by (simp add: serial_def serial_size_def)
qed

section \<open>The blocks of the generated code\<close>

lemma sint_of_nat_small: "n < 2 ^ (LENGTH('a) - 1) \<Longrightarrow> sint (of_nat n :: 'a::len word) = int n"
  by (simp add: signed_of_nat) (rule signed_take_bit_int_eq_self, auto simp: order.trans [of _ "0 :: int"])

text \<open>What the prologue sets up and every block keeps.\<close>

definition gen_ctx :: "nat \<Rightarrow> u64 list \<Rightarrow> u64 \<Rightarrow> machine \<Rightarrow> bool" where
  "gen_ctx base args rv m \<longleftrightarrow>
     m_regs m R6 = Some (PtrArgs 0) \<and> m_regs m R7 = Some (PtrBuff (int base)) \<and>
     m_regs m R8 = Some (Scalar rv) \<and> m_regs m RFP = Some (PtrFrame 0) \<and>
     m_args m = args \<and> length (m_frame m) = FRAME"

lemmas machine_defs = set_reg_def clobber_def the_scalar_def next_or_fault_def probe_call_def plain_def

lemma store_append:
  "k + length xs + length ys \<le> length buf \<Longrightarrow> store k (xs @ ys) buf = store (k + length xs) ys (store k xs buf)"
  by (rule nth_equalityI) (auto simp: nth_store nth_append)

lemma ucast_small_word [simp]:
  "unat (scast (8 :: s32) :: u64) = 8" "unat (scast (of_nat maxOutputStrLen :: s32) :: u64) = maxOutputStrLen"
  by (simp_all add: maxOutputStrLen_def)

lemma gen_number_block:
  assumes m: "m_regs m R7 = Some (PtrBuff (int base))" "m_regs m r = Some (Scalar v)"
    and fit: "base + off + 8 \<le> length (m_buff m)" "off + 8 \<le> 2 ^ 15"
  shows "block h subs (map plain (gen_number off r)) m = Some (m\<lparr>m_buff := store (base + off) (le_bytes 8 v) (m_buff m)\<rparr>)"
  using assms by (simp add: gen_number_def machine_defs sint_of_nat_small nat_int_add)

lemma gen_deref_block:
  assumes m: "m_regs m R7 = Some (PtrBuff (int base))" "m_regs m R3 = Some (Scalar v)" "m_regs m RFP = Some (PtrFrame 0)"
      "length (m_frame m) = FRAME" "r = R3 \<or> r = R8"
    and fit: "base + off + 8 \<le> length (m_buff m)" "off + 8 \<le> 2 ^ 15"
  shows "\<exists>m'. block h subs (map plain (gen_deref off r)) m = Some m' \<and> 
     m_buff m' = store (base + off) (probe_bytes h v 8) (m_buff m) \<and> m_args m' = m_args m \<and> length (m_frame m') = FRAME \<and>
     m_regs m' R6 = m_regs m R6 \<and> m_regs m' R7 = m_regs m R7 \<and> (r \<noteq> R8 \<longrightarrow> m_regs m' R8 = m_regs m R8) \<and> m_regs m' RFP = m_regs m RFP"
  using assms
  by (auto simp: gen_deref_def machine_defs sint_of_nat_small nat_int_add FRAME_def buf_simps load_le_def
      le_bytes_le_word)

lemma gen_str_block:
  assumes m: "m_regs m R7 = Some (PtrBuff (int base))" "m_regs m R3 = Some (Scalar v)" 
    and fit: "base + off + maxOutputStrLen \<le> length (m_buff m)" "off + maxOutputStrLen \<le> 2 ^ 15"
  shows "\<exists>m'. block h subs (map plain (gen_str off)) m = Some m' \<and> 
     m_buff m' = store (base + off) (probe_str h v maxOutputStrLen) (m_buff m) \<and> m_args m' = m_args m \<and> m_frame m' = m_frame m \<and>
     m_regs m' R6 = m_regs m R6 \<and> m_regs m' R7 = m_regs m R7 \<and> m_regs m' R8 = m_regs m R8 \<and> m_regs m' RFP = m_regs m RFP"
  using assms by (auto simp: gen_str_def machine_defs sint_of_nat_small nat_int_add)

lemma gen_prm_block:
  assumes m: "gen_ctx base args rv m" and i: "i < length args" "i < 4096"
    and fit: "base + off + prm_size prm \<le> length (m_buff m)" "off + prm_size prm \<le> 2 ^ 15"
  shows "\<exists>m'. block h subs (map plain (fst (gen_prm i off prm))) m = Some m' \<and> gen_ctx base args rv m' \<and>
    m_buff m' = store (base + off) (prm_bytes h prm (args ! i)) (m_buff m)"
proof -
  let ?m = "set_reg R3 (Scalar (args ! i)) m"
  have ld: "block h subs (plain (LoadMem R3 R6 (of_nat (i * 8))) # is) m = block h subs is ?m" for "is"
    using m i sint_of_nat_small [of "i * 8", where 'a = 16]
    by (simp add: gen_ctx_def plain_def mult.commute)
  have r: "m_regs ?m R7 = Some (PtrBuff (int base))" "m_regs ?m R3 = Some (Scalar (args ! i))"
    "m_regs ?m RFP = Some (PtrFrame 0)" "length (m_frame ?m) = FRAME" "m_regs ?m R6 = Some (PtrArgs 0)"
    "m_regs ?m R8 = Some (Scalar rv)" "m_args ?m = args" "m_buff ?m = m_buff m"
    using m by (simp_all add: gen_ctx_def set_reg_def)
  note fit8 = fit [unfolded prm_size_def]
  consider (num) "\<not> IsStr prm" "\<not> IsNumberPtr prm" | (ptr) "\<not> IsStr prm" "IsNumberPtr prm" | (str) "IsStr prm" by blast
  then show ?thesis
  proof cases
    case num
    with fit8 gen_number_block [OF r(1,2), of off h subs] r m show ?thesis
      by (auto simp: gen_prm_def Let_def ld prm_bytes_def gen_ctx_def simp del: block.simps(2) of_nat_mult)
  next
    case ptr
    let ?m1 = "?m\<lparr>m_buff := store (base + off) (le_bytes 8 (args ! i)) (m_buff ?m)\<rparr>"
    have n: "block h subs (map plain (gen_number off R3)) ?m = Some ?m1"
      by (rule gen_number_block [OF r(1,2)]) (use fit8 ptr r(8) in simp_all)
    have "\<exists>m'. block h subs (map plain (gen_deref (off + 8) R3)) ?m1 = Some m' \<and>
        m_buff m' = store (base + (off + 8)) (probe_bytes h (args ! i) 8) (m_buff ?m1) \<and>
        m_args m' = m_args ?m1 \<and> length (m_frame m') = FRAME \<and>
        m_regs m' R6 = m_regs ?m1 R6 \<and> m_regs m' R7 = m_regs ?m1 R7 \<and>
        (R3 \<noteq> R8 \<longrightarrow> m_regs m' R8 = m_regs ?m1 R8) \<and> m_regs m' RFP = m_regs ?m1 RFP"
      by (rule gen_deref_block) (use fit8 ptr r in simp_all)
    then show ?thesis
      using n ptr r fit8 store_append [of "base + off" "le_bytes 8 (args ! i)" "probe_bytes h (args ! i) 8" "m_buff m"]
      by (auto simp: gen_prm_def Let_def ld prm_bytes_def gen_ctx_def block_append add.assoc
        simp del: block.simps(2) of_nat_mult)
  next
    case str
    with fit8 gen_str_block [OF r(1,2), of off h subs] r show ?thesis
      by (auto simp: gen_prm_def Let_def ld prm_bytes_def gen_ctx_def simp del: block.simps(2) of_nat_mult)
  qed
qed

lemma gen_prms_block:
  assumes "gen_ctx base args rv m" "i + length prms \<le> length args" "i + length prms \<le> 4096"
    and "base + off + sum_list (map prm_size prms) \<le> length (m_buff m)" "off + sum_list (map prm_size prms) \<le> 2 ^ 15"
  shows "\<exists>m'. block h subs (map plain (fst (gen_prms i off prms))) m = Some m' \<and> gen_ctx base args rv m' \<and>
    m_buff m' = store (base + off) (concat (map2 (prm_bytes h) prms (drop i args))) (m_buff m)"
  using assms
proof (induction prms arbitrary: i off m)
  case Nil
  then show ?case by (simp add: store_def)
next
  case (Cons p ps)
  obtain m1 where m1: "block h subs (map plain (fst (gen_prm i off p))) m = Some m1" "gen_ctx base args rv m1"
      "m_buff m1 = store (base + off) (prm_bytes h p (args ! i)) (m_buff m)"
    using gen_prm_block [of base args rv m i off p h subs] Cons.prems by auto
  obtain m2 where m2: "block h subs (map plain (fst (gen_prms (Suc i) (off + prm_size p) ps))) m1 = Some m2"
      "gen_ctx base args rv m2"
      "m_buff m2 = store (base + (off + prm_size p)) (concat (map2 (prm_bytes h) ps (drop (Suc i) args))) (m_buff m1)"
    using Cons.IH [of m1 "Suc i" "off + prm_size p"] Cons.prems m1 by (auto simp: ac_simps)
  let ?bs = "concat (map2 (prm_bytes h) ps (drop (Suc i) args))"
  have len: "length ?bs = sum_list (map prm_size ps)"
    using length_serial [of ps "drop (Suc i) args" h p False] Cons.prems by (simp add: serial_def serial_size_def)
  have "drop i args = args ! i # drop (Suc i) args" using Cons.prems by (simp add: Cons_nth_drop_Suc)
  with m1 m2 len Cons.prems show ?case
    by (auto simp: gen_prms_cons block_append store_append [of "base + off" _ ?bs] ac_simps simp del: gen_prms.simps)
qed

lemma gen_ret_block:
  assumes m: "gen_ctx base args rv m"
    and fit: "base + off + prm_size ret \<le> length (m_buff m)" "off + prm_size ret \<le> 2 ^ 15"
  shows "\<exists>m'. block h subs (map plain (fst (gen_ret off ret))) m = Some m' \<and>
    m_buff m' = store (base + off) (prm_bytes h ret rv) (m_buff m)"
proof -
  note r = m [unfolded gen_ctx_def]
  note fit8 = fit [unfolded prm_size_def]
  have mv: "block h subs (plain (Mov_Reg R3 R8) # is) m' = block h subs is (set_reg R3 (Scalar rv) m')"
    if "m_regs m' R8 = Some (Scalar rv)" for "is" m'
    using that by (simp add: plain_def)
  consider (num) "\<not> IsStr ret" "\<not> IsNumberPtr ret" | (ptr) "\<not> IsStr ret" "IsNumberPtr ret" | (str) "IsStr ret" by blast
  then show ?thesis
  proof cases
    case num
    with fit8 gen_number_block [of m base R8 rv off h subs] r show ?thesis
      by (auto simp: gen_ret_def Let_def prm_bytes_def)
  next
    case ptr
    let ?m1 = "m\<lparr>m_buff := store (base + off) (le_bytes 8 rv) (m_buff m)\<rparr>"
    have n: "block h subs (map plain (gen_number off R8)) m = Some ?m1"
      by (rule gen_number_block) (use fit8 ptr r in simp_all)
    have "\<exists>m'. block h subs (map plain (gen_deref (off + 8) R8)) (set_reg R3 (Scalar rv) ?m1) = Some m' \<and>
        m_buff m' = store (base + (off + 8)) (probe_bytes h rv 8) (m_buff ?m1)"
      using gen_deref_block [of "set_reg R3 (Scalar rv) ?m1" base rv R8 "off + 8" h subs] fit8 ptr r
      by (auto simp: set_reg_def)
    then show ?thesis
      using n ptr r fit8 mv [of ?m1] store_append [of "base + off" "le_bytes 8 rv" "probe_bytes h rv 8" "m_buff m"]
      by (auto simp: gen_ret_def Let_def prm_bytes_def block_append add.assoc)
  next
    case str
    with fit8 gen_str_block [of "set_reg R3 (Scalar rv) m" base rv off h subs] r mv [of m] show ?thesis
      by (auto simp: gen_ret_def Let_def prm_bytes_def set_reg_def)
  qed
qed

text \<open>How the subprogram is called: \<open>output_fn_args(args, buff, retval)\<close>.\<close>

definition call_regs :: "nat \<Rightarrow> u64 \<Rightarrow> reg \<Rightarrow> bval option" where
  "call_regs base rv = [R1 \<mapsto> PtrArgs 0, R2 \<mapsto> PtrBuff (int base), R3 \<mapsto> Scalar rv, RFP \<mapsto> PtrFrame 0]"

lemma genOutputFuncArgs_size: "snd (genOutputFuncArgs prms ret wr) = serial_size prms ret wr"
  using snd_gen_prms [of 0 0 prms]
  by (auto simp: genOutputFuncArgs_def serial_size_def Let_def split_beta snd_gen_ret)

lemma genOutputFuncArgs_code:
  "fst (genOutputFuncArgs prms ret wr) =
     map plain ([Mov_Reg R6 R1, Mov_Reg R7 R2, Mov_Reg R8 R3] @ fst (gen_prms 0 0 prms) @
       (if wr then fst (gen_ret (sum_list (map prm_size prms)) ret) else [])) @ [plain Return]"
  using snd_gen_prms [of 0 0 prms] by (simp add: genOutputFuncArgs_def Let_def split_beta)

lemma genOutputFuncArgs_block:
  assumes regs: "m_regs m = call_regs base rv" "m_args m = args" "length (m_frame m) = FRAME"
    and args: "length prms \<le> length args"
    and fit: "base + serial_size prms ret wr \<le> length (m_buff m)" "serial_size prms ret wr \<le> 2 ^ 15"
  shows "\<exists>is m'. fst (genOutputFuncArgs prms ret wr) = is @ [plain Return] \<and> block h subs is m = Some m' \<and>
    m_buff m' = store base (serial h prms ret wr args rv) (m_buff m)"
proof -
  let ?m = "set_reg R8 (Scalar rv) (set_reg R7 (PtrBuff (int base)) (set_reg R6 (PtrArgs 0) m))"
  let ?b = "[Mov_Reg R6 R1, Mov_Reg R7 R2, Mov_Reg R8 R3]"
  let ?ps = "fst (gen_prms 0 0 prms)" and ?off = "sum_list (map prm_size prms)"
  let ?r = "if wr then fst (gen_ret ?off ret) else []"
  have pro: "block h subs (map plain ?b) m = Some ?m"
    using regs by (simp add: plain_def call_regs_def set_reg_def)
  have ctx: "gen_ctx base args rv ?m" using regs by (simp add: gen_ctx_def set_reg_def call_regs_def)
  have len: "length prms \<le> 4096" using fit(2) prm_size_ge [of prms] by (simp add: serial_size_def)
  have fits: "base + 0 + ?off \<le> length (m_buff ?m)" "0 + ?off \<le> 2 ^ 15"
    using fit by (simp_all add: serial_size_def set_reg_def)
  obtain m1 where m1: "block h subs (map plain ?ps) ?m = Some m1" "gen_ctx base args rv m1"
      "m_buff m1 = store base (concat (map2 (prm_bytes h) prms args)) (m_buff m)"
    using gen_prms_block [OF ctx _ _ fits, of 0 h subs] args len by (auto simp: set_reg_def)
  have lc: "length (concat (map2 (prm_bytes h) prms args)) = ?off"
    using length_serial [of prms args h ret False] args by (simp add: serial_def serial_size_def)
  have "\<exists>m'. block h subs (map plain ?r) m1 = Some m' \<and>
      m_buff m' = store base (serial h prms ret wr args rv) (m_buff m)"
  proof (cases wr)
    case True
    with gen_ret_block [OF m1(2), of ?off ret h subs] fit lc show ?thesis
      by (auto simp: m1(3) serial_size_def serial_def store_append)
  qed (use m1(3) in \<open>simp add: serial_def\<close>)
  then obtain m' where r: "block h subs (map plain ?r) m1 = Some m'"
    and buff: "m_buff m' = store base (serial h prms ret wr args rv) (m_buff m)" by blast
  have "block h subs (map plain (?b @ ?ps @ ?r)) m = Some m'"
    by (simp only: map_append block_append pro m1(1) r bind.bind_lunit)
  with buff genOutputFuncArgs_code show ?thesis by blast
qed

lemma gen_number_fits:
  assumes "m_regs m R7 = Some (PtrBuff (int base))" "m_regs m r = Some (Scalar v)" "off + 8 \<le> 2 ^ 15"
    and "block h subs (map plain (gen_number off r)) m = Some m'"
  shows "base + off + 8 \<le> length (m_buff m)"
  using assms by (simp add: gen_number_def machine_defs sint_of_nat_small nat_int_add split: if_splits)

lemma gen_deref_fits:
  assumes "m_regs m R7 = Some (PtrBuff (int base))" "m_regs m R3 = Some (Scalar v)" "m_regs m RFP = Some (PtrFrame 0)"
      "off + 8 \<le> 2 ^ 15" "r = R3 \<or> r = R8"
    and "block h subs (map plain (gen_deref off r)) m = Some m'"
  shows "base + off + 8 \<le> length (m_buff m)"
  using assms
  by (auto simp: gen_deref_def machine_defs sint_of_nat_small nat_int_add FRAME_def split: if_splits)

lemma gen_str_fits:
  assumes "m_regs m R7 = Some (PtrBuff (int base))" "m_regs m R3 = Some (Scalar v)" "off + maxOutputStrLen \<le> 2 ^ 15"
    and "block h subs (map plain (gen_str off)) m = Some m'"
  shows "base + off + maxOutputStrLen \<le> length (m_buff m)"
  using assms
  by (auto simp: gen_str_def machine_defs sint_of_nat_small nat_int_add split: if_splits)

lemma load_arg:
  assumes "gen_ctx base args rv m" "i < 4096"
  shows "block h subs (map plain (LoadMem R3 R6 (of_nat (i * 8)) # is)) m =
    (if i < length args then block h subs (map plain is) (set_reg R3 (Scalar (args ! i)) m) else None)"
  using assms sint_of_nat_small [of "i * 8", where 'a = 16]
  by (simp add: gen_ctx_def plain_def mult.commute)

lemma gen_prm_fits:
  assumes ctx: "gen_ctx base args rv m" and i: "i < 4096" and off: "off + prm_size prm \<le> 2 ^ 15"
    and b: "block h subs (map plain (fst (gen_prm i off prm))) m = Some m'"
  shows "i < length args \<and> base + off + prm_size prm \<le> length (m_buff m)"
proof -
  note [simp del] = block.simps(2) of_nat_mult
  note ld = load_arg [OF ctx i, of h subs]
  have a: "i < length args"
    using b by (auto simp: gen_prm_def Let_def ld simp flip: list.map(2) map_append split: if_splits)
  let ?m = "set_reg R3 (Scalar (args ! i)) m"
  have r: "m_regs ?m R7 = Some (PtrBuff (int base))" "m_regs ?m R3 = Some (Scalar (args ! i))"
    "m_regs ?m RFP = Some (PtrFrame 0)" "m_buff ?m = m_buff m"
    using ctx by (simp_all add: gen_ctx_def set_reg_def)
  note offs = off [unfolded prm_size_def]
  consider (num) "\<not> IsStr prm" "\<not> IsNumberPtr prm" | (ptr) "\<not> IsStr prm" "IsNumberPtr prm" | (str) "IsStr prm" by blast
  then have "base + off + prm_size prm \<le> length (m_buff m)"
  proof cases
    case num
    with b a offs gen_number_fits [OF r(1,2), of off h subs m'] r(4) show ?thesis
      by (auto simp: gen_prm_def Let_def ld prm_size_def simp flip: list.map(2))
  next
    case ptr
    with b a obtain m1 where m1: "block h subs (map plain (gen_number off R3)) ?m = Some m1"
        and m2: "block h subs (map plain (gen_deref (off + 8) R3)) m1 = Some m'"
      by (auto simp: gen_prm_def Let_def ld block_append bind_eq_Some_conv simp flip: list.map(2))
    have fit: "base + off + 8 \<le> length (m_buff ?m)"
      by (rule gen_number_fits [OF r(1,2) _ m1]) (use offs ptr in simp)
    have "m1 = ?m\<lparr>m_buff := store (base + off) (le_bytes 8 (args ! i)) (m_buff ?m)\<rparr>"
      using gen_number_block [OF r(1,2) fit, of h subs] m1 offs ptr by simp
    with gen_deref_fits [OF _ _ _ _ _ m2, of base "args ! i"] r offs ptr show ?thesis
      by (simp add: prm_size_def)
  next
    case str
    with b a offs gen_str_fits [OF r(1,2), of off h subs m'] r(4) show ?thesis
      by (auto simp: gen_prm_def Let_def ld prm_size_def simp flip: list.map(2))
  qed
  with a show ?thesis ..
qed

section \<open>What does not fit faults\<close>

lemma gen_prms_fits:
  assumes "gen_ctx base args rv m" "i + length prms \<le> 4096" "off + sum_list (map prm_size prms) \<le> 2 ^ 15"
    and "block h subs (map plain (fst (gen_prms i off prms))) m = Some m'"
    and "i \<le> length args"
  shows "i + length prms \<le> length args \<and>
    (prms \<noteq> [] \<longrightarrow> base + off + sum_list (map prm_size prms) \<le> length (m_buff m))"
  using assms
proof (induction prms arbitrary: i off m)
  case (Cons p ps)
  from Cons.prems(4) obtain m1 where m1: "block h subs (map plain (fst (gen_prm i off p))) m = Some m1"
      and m2: "block h subs (map plain (fst (gen_prms (Suc i) (off + prm_size p) ps))) m1 = Some m'"
    by (auto simp: gen_prms_cons block_append bind_eq_Some_conv simp del: gen_prms.simps)
  have off: "off + prm_size p \<le> 2 ^ 15" "i < 4096" using Cons.prems(2,3) by simp_all
  have f: "i < length args" "base + off + prm_size p \<le> length (m_buff m)"
    using gen_prm_fits [OF Cons.prems(1) off(2,1) m1] by simp_all
  have m1': "gen_ctx base args rv m1" "length (m_buff m1) = length (m_buff m)"
    using gen_prm_block [OF Cons.prems(1) f(1) off(2) f(2) off(1), of h subs] m1 by auto
  show ?case using Cons.IH [OF m1'(1) _ _ m2] Cons.prems(2,3) f m1'(2) by (cases ps) (simp_all add: ac_simps)
qed simp

lemma gen_ret_fits:
  assumes ctx: "gen_ctx base args rv m" and off: "off + prm_size ret \<le> 2 ^ 15"
    and b: "block h subs (map plain (fst (gen_ret off ret))) m = Some m'"
  shows "base + off + prm_size ret \<le> length (m_buff m)"
proof -
  note r = ctx [unfolded gen_ctx_def]
  note offs = off [unfolded prm_size_def]
  have mv: "block h subs (plain (Mov_Reg R3 R8) # is) m' = block h subs is (set_reg R3 (Scalar rv) m')"
    if "m_regs m' R8 = Some (Scalar rv)" for "is" m'
    using that by (simp add: plain_def)
  consider (num) "\<not> IsStr ret" "\<not> IsNumberPtr ret" | (ptr) "\<not> IsStr ret" "IsNumberPtr ret" | (str) "IsStr ret" by blast
  then show ?thesis
  proof cases
    case num
    with b offs r gen_number_fits [of m base R8 rv off h subs m'] show ?thesis
      by (simp add: gen_ret_def Let_def prm_size_def)
  next
    case ptr
    with b obtain m1 where m1: "block h subs (map plain (gen_number off R8)) m = Some m1"
        and m2: "block h subs (map plain (Mov_Reg R3 R8 # gen_deref (off + 8) R8)) m1 = Some m'"
      by (auto simp: gen_ret_def Let_def block_append bind_eq_Some_conv simp del: block.simps(2))
    have fit: "base + off + 8 \<le> length (m_buff m)"
      by (rule gen_number_fits [OF _ _ _ m1]) (use offs ptr r in simp_all)
    have m1': "m1 = m\<lparr>m_buff := store (base + off) (le_bytes 8 rv) (m_buff m)\<rparr>"
      using gen_number_block [OF _ _ fit, of R8 rv h subs] m1 offs ptr r by simp
    have "block h subs (map plain (gen_deref (off + 8) R8)) (set_reg R3 (Scalar rv) m1) = Some m'"
      using m2 mv [of m1] r by (simp add: m1' del: block.simps(2))
    from gen_deref_fits [OF _ _ _ _ _ this, of base rv] r offs ptr show ?thesis
      by (simp add: prm_size_def m1' set_reg_def)
  next
    case str
    with b offs r mv [of m] gen_str_fits [of "set_reg R3 (Scalar rv) m" base rv off h subs m'] show ?thesis
      by (simp add: gen_ret_def Let_def prm_size_def set_reg_def del: block.simps(2))
  qed
qed



lemma genOutputFuncArgs_fits:
  assumes regs: "m_regs m = call_regs base rv" "m_args m = args" "length (m_frame m) = FRAME"
    and size: "serial_size prms ret wr \<le> 2 ^ 15"
    and code: "fst (genOutputFuncArgs prms ret wr) = is @ [plain Return]" and b: "block h subs is m = Some m'"
  shows "length prms \<le> length args \<and>
    (serial_size prms ret wr \<noteq> 0 \<longrightarrow> base + serial_size prms ret wr \<le> length (m_buff m))"
proof -
  let ?m = "set_reg R8 (Scalar rv) (set_reg R7 (PtrBuff (int base)) (set_reg R6 (PtrArgs 0) m))"
  let ?b = "[Mov_Reg R6 R1, Mov_Reg R7 R2, Mov_Reg R8 R3]"
  let ?ps = "fst (gen_prms 0 0 prms)" and ?off = "sum_list (map prm_size prms)"
  have "is": "is = map plain (?b @ ?ps @ (if wr then fst (gen_ret ?off ret) else []))"
    using code by (simp add: genOutputFuncArgs_code)
  have pro: "block h subs (map plain ?b) m = Some ?m"
    using regs by (simp add: plain_def call_regs_def set_reg_def)
  have ctx: "gen_ctx base args rv ?m" using regs by (simp add: gen_ctx_def set_reg_def call_regs_def)
  from b obtain m1 where m1: "block h subs (map plain ?ps) ?m = Some m1"
    and m2: "block h subs (map plain (if wr then fst (gen_ret ?off ret) else [])) m1 = Some m'"
    unfolding "is" map_append block_append pro by (auto simp: bind_eq_Some_conv)
  have off: "?off \<le> 2 ^ 15" "length prms \<le> 4096"
    using size prm_size_ge [of prms] by (simp_all add: serial_size_def)
  have f: "length prms \<le> length args" "prms \<noteq> [] \<longrightarrow> base + ?off \<le> length (m_buff m)"
    using gen_prms_fits [OF ctx _ _ m1] off by (simp_all add: set_reg_def)
  have "gen_ctx base args rv m1 \<and> length (m_buff m1) = length (m_buff m)"
  proof (cases "prms = []")
    case True
    with m1 ctx show ?thesis by (auto simp: set_reg_def)
  next
    case False
    with gen_prms_block [OF ctx, of 0 prms 0 h subs] f off m1 show ?thesis by (auto simp: set_reg_def)
  qed
  with gen_ret_fits [of base args rv m1 ?off ret h subs m'] m2 size f show ?thesis
    by (auto simp: serial_size_def split: if_splits)
qed

section \<open>The code is straight\<close>

lemma straight_code:
  "straight (map plain (gen_number off r))" "straight (map plain (gen_deref off r))" "straight (map plain (gen_str off))"
  by (simp_all add: straight_def gen_number_def gen_deref_def gen_str_def plain_def)

lemma straight_gen_prms: "straight (map plain (fst (gen_prms i off prms)))"
proof (induction prms arbitrary: i off)
  case (Cons p ps)
  have "straight (map plain (fst (gen_prm i off p)))"
    by (simp add: gen_prm_def Let_def straight_code plain_def)
  with Cons show ?case by (simp add: gen_prms_cons del: gen_prms.simps)
qed (simp add: straight_def)

lemma genOutputFuncArgs_straight:
  obtains "is" where "fst (genOutputFuncArgs prms ret wr) = is @ [plain Return]" "straight is"
proof
  have "straight (map plain (fst (gen_ret off ret)))" for off
    by (simp add: gen_ret_def Let_def straight_code plain_def)
  then show "straight (map plain ([Mov_Reg R6 R1, Mov_Reg R7 R2, Mov_Reg R8 R3] @ fst (gen_prms 0 0 prms) @
       (if wr then fst (gen_ret (sum_list (map prm_size prms)) ret) else [])))"
    using straight_gen_prms by (simp add: plain_def)
qed (rule genOutputFuncArgs_code)

section \<open>The routine the loader installs\<close>

text \<open>
  The generated code in place of \<^verbatim>\<open>output_fn_args\<close>, called with a pointer to offset \<open>off\<close> of
  the record; \<open>stack\<close> is what its stack frame holds before. Code that faults is not loaded,
  so that it writes nothing.
\<close>

definition gen_entry :: "u8 list \<Rightarrow> u64 list \<Rightarrow> u64 \<Rightarrow> nat \<Rightarrow> u8 list \<Rightarrow> machine" where
  "gen_entry stack args rv off buf =
     \<lparr>m_regs = call_regs off rv, m_args = args, m_buff = buf, m_frame = stack\<rparr>"

definition gen_output_fn_args ::
  "helpers \<Rightarrow> u8 list \<Rightarrow> FuncParamFlags list \<Rightarrow> FuncParamFlags \<Rightarrow> bool
     \<Rightarrow> u64 list \<Rightarrow> u64 \<Rightarrow> nat \<Rightarrow> u8 list \<Rightarrow> u8 list" where
  "gen_output_fn_args h stack prms ret wr args rv off buf =
     (let code = fst (genOutputFuncArgs prms ret wr) in
      case exec h (\<lambda>_ _. None) code (length code) 0 (gen_entry stack args rv off buf) of
        Halted m \<Rightarrow> m_buff m | _ \<Rightarrow> buf)"

lemma exec_gen:
  assumes args: "length prms \<le> length args" and stack: "length stack = FRAME"
    and fit: "off + serial_size prms ret wr \<le> length buf" "serial_size prms ret wr \<le> 2 ^ 15"
  shows "\<exists>m'. exec h subs (fst (genOutputFuncArgs prms ret wr)) (length (fst (genOutputFuncArgs prms ret wr))) 0
      (gen_entry stack args rv off buf) = Halted m' \<and> m_buff m' = store off (serial h prms ret wr args rv) buf"
proof -
  obtain "is" where code: "fst (genOutputFuncArgs prms ret wr) = is @ [plain Return]" "straight is"
    by (rule genOutputFuncArgs_straight)
  obtain m' where "block h subs is (gen_entry stack args rv off buf) = Some m'"
      "m_buff m' = store off (serial h prms ret wr args rv) buf"
    using genOutputFuncArgs_block [of "gen_entry stack args rv off buf" off rv args prms ret wr h subs] assms code
    by (auto simp: gen_entry_def)
  with exec_straight [OF code(2), of h subs "[]"] code(1) show ?thesis by simp
qed

lemma gen_output_fn_args_eq:
  assumes "length stack = FRAME" "serial_size prms ret wr \<le> 2 ^ 15"
  shows "gen_output_fn_args h stack prms ret wr args rv off buf =
    (if length prms \<le> length args \<and> off + serial_size prms ret wr \<le> length buf
     then store off (serial h prms ret wr args rv) buf else buf)"
proof (cases "length prms \<le> length args \<and> off + serial_size prms ret wr \<le> length buf")
  case True
  with exec_gen [of prms args stack off ret wr buf h "\<lambda>_ _. None" rv] assms show ?thesis
    by (auto simp: gen_output_fn_args_def Let_def)
next
  case False
  obtain "is" where code: "fst (genOutputFuncArgs prms ret wr) = is @ [plain Return]" "straight is"
    by (rule genOutputFuncArgs_straight)
  let ?m = "gen_entry stack args rv off buf"
  have ex: "exec h (\<lambda>_ _. None) (is @ [plain Return]) (Suc (length is)) 0 ?m =
      (case block h (\<lambda>_ _. None) is ?m of Some m' \<Rightarrow> Halted m' | None \<Rightarrow> Faulted)"
    using exec_straight [OF code(2), of h "\<lambda>_ _. None" "[]"] by simp
  show ?thesis
  proof (cases "block h (\<lambda>_ _. None) is ?m")
    case None
    with ex code(1) False show ?thesis by (auto simp: gen_output_fn_args_def Let_def simp del: exec.simps)
  next
    case (Some m')
    from genOutputFuncArgs_fits [OF _ _ _ assms(2) code(1) Some, of off rv args] assms(1) False
    have "serial_size prms ret wr = 0" by (auto simp: gen_entry_def)
    then have "prms = []" "\<not> wr"
      using prm_size_ge [of prms] prm_size_ge [of "[ret]"] by (auto simp: serial_size_def simp del: sum_list_eq_0_iff split: if_splits)
    with code(1) have "is = map plain [Mov_Reg R6 R1, Mov_Reg R7 R2, Mov_Reg R8 R3]"
      by (simp add: genOutputFuncArgs_code)
    with Some have "m_buff m' = buf"
      by (auto simp: plain_def gen_entry_def call_regs_def set_reg_def)
    with Some ex code(1) False show ?thesis by (auto simp: gen_output_fn_args_def Let_def simp del: exec.simps)
  qed
qed

lemma gen_output_fn_args_within:
  assumes "length stack = FRAME" "serial_size prms ret wr \<le> 2 ^ 15"
  shows "writes_within (gen_output_fn_args h stack prms ret wr args rv off) off (serial_size prms ret wr)"
  unfolding writes_within_def
  by (auto simp: gen_output_fn_args_eq [OF assms] nth_store length_serial)

lemma length_gen_prms: "length (fst (gen_prms i off prms)) \<le> 8 * length prms"
proof (induction prms arbitrary: i off)
  case (Cons p ps)
  have "length (fst (gen_prm i off p)) \<le> 8"
    by (simp add: gen_prm_def gen_number_def gen_deref_def gen_str_def Let_def)
  with Cons [of "Suc i" "off + prm_size p"] show ?case by (simp add: gen_prms_cons del: gen_prms.simps)
qed simp

lemma length_gen_ret: "length (fst (gen_ret off ret)) \<le> 8"
  by (simp add: gen_ret_def gen_number_def gen_deref_def gen_str_def Let_def)

text \<open>A parameter the loader refuses, and the registers the others take.\<close>

definition refused :: "btf_param \<Rightarrow> bool" where
  "refused p = (case Sizeof p of None \<Rightarrow> True | Some n \<Rightarrow> 16 < n)"

definition refusal :: "btf_param \<Rightarrow> params_error" where
  "refusal p = (case Sizeof p of None \<Rightarrow> Sizeof_failed | Some n \<Rightarrow> Too_large n)"

definition param_regs :: "btf_param \<Rightarrow> nat" where
  "param_regs p = (if 8 < the (Sizeof p) then 2 else 1)"

lemma params_loop_result:
  "case find refused ps of Some p \<Rightarrow> params_loop used ps = Inl (refusal p)
   | None \<Rightarrow> \<exists>fs. params_loop used ps = Inr fs \<and> length fs = sum_list (map param_regs ps) \<and>
       length (filter IsStr fs) \<le> (if used then 0 else 1)"
proof (induction ps arbitrary: used)
  case (Cons p ps)
  show ?case
  proof (cases "refused p")
    case True
    then show ?thesis by (auto simp: refused_def refusal_def Let_def split: option.splits)
  next
    case False
    then obtain n where n: "Sizeof p = Some n" "n \<le> 16" by (auto simp: refused_def split: option.splits)
    from Cons [of "used \<or> IsConstCharPtr p"] False n show ?thesis
      by (cases "find refused ps"; cases "IsConstCharPtr p"; cases used) (auto simp: Let_def param_regs_def)
  qed
qed simp

lemma serial_size_strings:
  "serial_size fs r wr \<le> 16 * length fs + 48 * length (filter IsStr fs) + maxOutputStrLen"
proof -
  have "sum_list (map prm_size fs) \<le> 16 * length fs + 48 * length (filter IsStr fs)"
    by (induction fs) (auto simp: prm_size_def maxOutputStrLen_def)
  moreover have "prm_size r \<le> maxOutputStrLen" by (simp add: prm_size_def maxOutputStrLen_def)
  ultimately show ?thesis by (simp add: serial_size_def)
qed

section \<open>Properties\<close>


text \<open>C7: called with the arguments of a function that has at least as many as its signature says and
  with room in the record, the generated code runs to its return without a fault, with any fuel
  from its length on; the record then holds the serialised values at the offset it was given and is
  unchanged everywhere else; and the size the generator tells the loader is theirs.\<close>

theorem generated_code_writes_values:
  assumes "length prms \<le> length args" "length stack = FRAME"
    and fit: "off + snd (genOutputFuncArgs prms ret wr) \<le> length buf" "snd (genOutputFuncArgs prms ret wr) \<le> 2 ^ 15"
    and fuel: "length (fst (genOutputFuncArgs prms ret wr)) \<le> fuel"
  shows "\<exists>m'. exec h subs (fst (genOutputFuncArgs prms ret wr)) fuel 0 (gen_entry stack args rv off buf) = Halted m' \<and>
    m_buff m' = store off (serial h prms ret wr args rv) buf \<and>
    length (serial h prms ret wr args rv) = snd (genOutputFuncArgs prms ret wr)"
proof -
  let ?code = "fst (genOutputFuncArgs prms ret wr)" and ?m = "gen_entry stack args rv off buf"
  note fit' = fit [unfolded genOutputFuncArgs_size]
  obtain m' where m': "exec h subs ?code (length ?code) 0 ?m = Halted m'"
      "m_buff m' = store off (serial h prms ret wr args rv) buf"
    using exec_gen [OF assms(1,2) fit', of h subs rv] by blast
  from fuel obtain k where "fuel = length ?code + k" by (rule less_eqE)
  with m' exec_more_fuel [of h subs ?code "length ?code" 0 ?m k] show ?thesis
    by (simp add: length_serial [OF assms(1)] genOutputFuncArgs_size)
qed

text \<open>C32: the flags of a signature: the first parameter whose size is unknown or above 16 bytes is the
  error; otherwise there is one flag for each register the parameters take, at most one of them is a
  string, whatever the number of string parameters, and so the area reserved for the values is at most
  16 bytes for each register and 112 more.\<close>

theorem signature_flags:
  "case find refused ps of Some p \<Rightarrow> getFuncParams ps rt = Inl (refusal p)
   | None \<Rightarrow> \<exists>prms ret. getFuncParams ps rt = Inr (prms, ret) \<and> length prms = sum_list (map param_regs ps) \<and>
       length (filter IsStr prms) \<le> 1 \<and> snd (genOutputFuncArgs prms ret wr) \<le> 16 * length prms + 112"
proof (cases "find refused ps")
  case None
  with params_loop_result [where ps = ps and used = False] obtain fs where fs: "params_loop False ps = Inr fs"
      "length fs = sum_list (map param_regs ps)" "length (filter IsStr fs) \<le> 1" by auto
  have "serial_size fs r wr \<le> 16 * length fs + 112" for r
    using serial_size_strings [of fs r wr] fs(3) by (simp add: maxOutputStrLen_def)
  with fs None show ?thesis by (simp add: getFuncParams_def genOutputFuncArgs_size)
next
  case (Some p)
  with params_loop_result [where ps = ps and used = False] show ?thesis by (simp add: getFuncParams_def)
qed

end
