(* ===== verification/Inject.thy ===== *)
theory Inject
  imports Gen_Args
begin

text \<open>
  Splicing code into a program (\<^verbatim>\<open>internal/bpfsnoop/bpf_asm.go\<close>). A program is one list of
  instructions; each of its functions starts at an instruction with a symbol. The loader finds a
  function by its symbol and replaces its instructions, or removes it with all calls to it.
\<close>

section \<open>The operations\<close>

text \<open>The position of the function's first instruction.\<close>

definition findStartIndex :: "instructions \<Rightarrow> string \<Rightarrow> nat option" where
  "findStartIndex prog stub = find_symbol stub prog"

text \<open>The loop that looks for the next symbol, from \<open>idx\<close>; the end is the position before it.\<close>

function end_loop :: "instructions \<Rightarrow> nat \<Rightarrow> nat" where
  "end_loop prog idx =
     (if idx < length prog then if ins_symbol (prog ! idx) \<noteq> [] then idx else end_loop prog (idx + 1)
      else idx)"
  by auto
termination by (relation "measure (\<lambda>(prog, idx). length prog - idx)") auto

declare end_loop.simps [simp del]

definition findEndIndex :: "instructions \<Rightarrow> nat \<Rightarrow> nat" where
  "findEndIndex prog start = end_loop prog (start + 1) - 1"

text \<open>The first injected instruction takes the symbol and the reference of the first one replaced.\<close>

definition with_metadata :: "instruction \<Rightarrow> instructions \<Rightarrow> instructions" where
  "with_metadata i is = (case is of [] \<Rightarrow> []
     | j # js \<Rightarrow> j\<lparr>ins_symbol := ins_symbol i, ins_reference := ins_reference i\<rparr> # js)"

definition injectInsns :: "instructions \<Rightarrow> string \<Rightarrow> instructions \<Rightarrow> instructions" where
  "injectInsns prog stub insns =
     (case findStartIndex prog stub of None \<Rightarrow> prog
      | Some injIdx \<Rightarrow>
        let endIdx = findEndIndex prog injIdx;
            insns = with_metadata (prog ! injIdx) insns
        in take injIdx prog @ insns @ drop (endIdx + 1) prog)"

definition clear_reference :: "string \<Rightarrow> bool \<Rightarrow> instruction \<Rightarrow> instruction" where
  "clear_reference stub isFilter i =
     (if ins_reference i = stub then plain (Mov_Imm R0 (of_bool isFilter)) else i)"

definition clearSubprog :: "instructions \<Rightarrow> string \<Rightarrow> bool \<Rightarrow> instructions" where
  "clearSubprog prog stub isFilter = map (clear_reference stub isFilter) (injectInsns prog stub [])"

definition clearOutputSubprog :: "instructions \<Rightarrow> string \<Rightarrow> instructions" where
  "clearOutputSubprog prog stub = clearSubprog prog stub False"

definition clearFilterSubprog :: "instructions \<Rightarrow> string \<Rightarrow> instructions" where
  "clearFilterSubprog prog stub = clearSubprog prog stub True"

section \<open>The routine that prints the arguments\<close>

definition clearOutputFuncArgs :: "instructions \<Rightarrow> instructions" where
  "clearOutputFuncArgs prog = clearOutputSubprog prog ''output_fn_args''"

definition injectOutputFuncArgs ::
  "instructions \<Rightarrow> FuncParamFlags list \<Rightarrow> FuncParamFlags \<Rightarrow> bool \<Rightarrow> instructions \<times> nat" where
  "injectOutputFuncArgs prog prms ret withRetval =
     (if prms = [] \<and> \<not> withRetval then (clearOutputFuncArgs prog, 0)
      else let (insns, sz) = genOutputFuncArgs prms ret withRetval
           in (injectInsns prog ''output_fn_args'' insns, sz))"

section \<open>The packet routines\<close>

definition genAccessArg :: "nat \<Rightarrow> reg \<Rightarrow> instructions" where
  "genAccessArg index dst = [plain (LoadMem dst R1 (of_nat (index * 8)))]"

definition stub_code :: "nat \<Rightarrow> string \<Rightarrow> instructions" where
  "stub_code index stub = genAccessArg index R1 @ [Call_Label stub, plain Return]"

definition injectStub :: "instructions \<Rightarrow> nat \<Rightarrow> string \<Rightarrow> string list \<Rightarrow> instructions" where
  "injectStub prog index stub clears =
     (let prog = fold (\<lambda>c p. clearOutputSubprog p c) clears prog
      in injectInsns prog ''output_pkt'' (stub_code index stub))"

definition outputSkb :: "instructions \<Rightarrow> nat \<Rightarrow> instructions" where
  "outputSkb prog index =
     injectStub prog index ''output_skb'' [''output_pskb'', ''output_xdp_buff'', ''output_xdp_frame'']"

definition outputPskb :: "instructions \<Rightarrow> nat \<Rightarrow> instructions" where
  "outputPskb prog index =
     injectStub prog index ''output_pskb'' [''output_xdp_buff'', ''output_xdp_frame'']"

definition outputXdpBuff :: "instructions \<Rightarrow> nat \<Rightarrow> instructions" where
  "outputXdpBuff prog index =
     injectStub prog index ''output_xdp_buff'' [''output_skb'', ''output_pskb'', ''output_xdp_frame'']"

definition outputXdpFrame :: "instructions \<Rightarrow> nat \<Rightarrow> instructions" where
  "outputXdpFrame prog index =
     injectStub prog index ''output_xdp_frame'' [''output_skb'', ''output_pskb'', ''output_xdp_buff'']"

definition clearPktOutput :: "instructions \<Rightarrow> instructions" where
  "clearPktOutput prog =
     fold (\<lambda>c p. clearOutputSubprog p c)
       [''output_pkt'', ''output_skb'', ''output_pskb'', ''output_xdp_buff'', ''output_xdp_frame''] prog"

section \<open>A program as a list of functions\<close>

text \<open>
  The abstract view: the functions of a program in order, with their code. A program that starts
  with a symbol is the concatenation of its functions.
\<close>

abbreviation no_symbol :: "instruction \<Rightarrow> bool" where
  "no_symbol i \<equiv> ins_symbol i = []"

function funcs :: "instructions \<Rightarrow> (string \<times> instructions) list" where
  "funcs [] = []"
| "funcs (i # is) = (ins_symbol i, i # takeWhile no_symbol is) # funcs (dropWhile no_symbol is)"
  by pat_completeness auto
termination by (relation "measure length") (auto simp: length_dropWhile_le le_imp_less_Suc)

text \<open>What the operations do to the functions.\<close>

definition replace_func :: "string \<Rightarrow> instructions \<Rightarrow> (string \<times> instructions) list \<Rightarrow> (string \<times> instructions) list" where
  "replace_func stub is fs =
     (if is = [] then filter (\<lambda>(f, b). f \<noteq> stub) fs
      else map (\<lambda>(f, b). (f, if f = stub then with_metadata (hd b) is else b)) fs)"

definition clear_refs :: "string \<Rightarrow> bool \<Rightarrow> (string \<times> instructions) list \<Rightarrow> (string \<times> instructions) list" where
  "clear_refs stub isFilter fs = map (\<lambda>(f, b). (f, map (clear_reference stub isFilter) b)) fs"

text \<open>A program the loader can work on: it starts with a function, and no two have the same name.\<close>

definition well_formed :: "instructions \<Rightarrow> bool" where
  "well_formed prog \<longleftrightarrow> (prog \<noteq> [] \<longrightarrow> \<not> no_symbol (hd prog)) \<and> distinct (map fst (funcs prog))"

lemma concat_funcs: "concat (map snd (funcs prog)) = prog"
  by (induction prog rule: funcs.induct) simp_all

lemma end_loop_eq: "idx \<le> length prog \<Longrightarrow> end_loop prog idx = idx + length (takeWhile no_symbol (drop idx prog))"
proof (induction prog idx rule: end_loop.induct)
  case (1 prog idx)
  show ?case
  proof (cases "idx < length prog")
    case True
    then have "drop idx prog = prog ! idx # drop (Suc idx) prog" by (simp add: Cons_nth_drop_Suc)
    with True 1 show ?thesis by (subst end_loop.simps) simp
  qed (use 1 in \<open>subst end_loop.simps; simp\<close>)
qed

lemma find_symbol_SomeD:
  "find_symbol l prog = Some k \<Longrightarrow> k < length prog \<and> ins_symbol (prog ! k) = l \<and> (\<forall>j<k. ins_symbol (prog ! j) \<noteq> l)"
proof (induction prog arbitrary: k)
  case (Cons i "is")
  then show ?case by (cases k) (auto split: if_splits simp: less_Suc_eq_0_disj)
qed simp

lemma funcs_append:
  assumes "ys = [] \<or> \<not> no_symbol (hd ys)"
  shows "funcs (xs @ ys) = funcs xs @ funcs ys"
proof (induction xs rule: funcs.induct)
  case (2 i "is")
  show ?case
  proof (cases "\<exists>j\<in>set is. \<not> no_symbol j")
    case True
    then have "takeWhile no_symbol (is @ ys) = takeWhile no_symbol is"
      "dropWhile no_symbol (is @ ys) = dropWhile no_symbol is @ ys"
      by (auto simp: takeWhile_append1 dropWhile_append1)
    with 2 show ?thesis by simp
  next
    case False
    then have "takeWhile no_symbol (is @ ys) = is" "dropWhile no_symbol (is @ ys) = ys"
      using assms by (cases ys; auto simp: takeWhile_append2 dropWhile_append2)+
    moreover have "takeWhile no_symbol is = is" "dropWhile no_symbol is = []"
      using False by (simp_all add: takeWhile_eq_all_conv dropWhile_eq_Nil_conv)
    ultimately show ?thesis by (simp only: append_Cons funcs.simps append_Nil)
  qed
qed simp

lemma funcs_one: "list_all no_symbol is \<Longrightarrow> funcs (i # is) = [(ins_symbol i, i # is)]"
  by (simp add: list_all_iff takeWhile_eq_all_conv [THEN iffD2] dropWhile_eq_Nil_conv [THEN iffD2])

lemma funcs_names: "fst ` set (funcs prog) \<subseteq> ins_symbol ` set prog"
proof (induction prog rule: funcs.induct)
  case (2 i "is")
  then show ?case by (auto dest: set_dropWhileD)
qed simp

lemma find_symbol_None: "find_symbol l prog = None \<longleftrightarrow> l \<notin> ins_symbol ` set prog"
  by (induction prog) (auto simp: image_iff)

text \<open>Where the function lies, and what is left of the program without it.\<close>

lemma findStartIndex_split:
  assumes "findStartIndex prog stub = Some k" "stub \<noteq> []"
  obtains pre i body post where "prog = pre @ (i # body) @ post" "ins_symbol i = stub" "list_all no_symbol body"
    "post = [] \<or> \<not> no_symbol (hd post)" "pre = take k prog" "prog ! k = i" "findEndIndex prog k + 1 = length pre + Suc (length body)"
proof
  from find_symbol_SomeD [OF assms(1) [unfolded findStartIndex_def]]
  have k: "k < length prog" "ins_symbol (prog ! k) = stub" by simp_all
  let ?rest = "drop (Suc k) prog"
  show "prog = take k prog @ (prog ! k # takeWhile no_symbol ?rest) @ dropWhile no_symbol ?rest"
    using k by (simp add: id_take_nth_drop)
  show "findEndIndex prog k + 1 = length (take k prog) + Suc (length (takeWhile no_symbol ?rest))"
    using k by (simp add: findEndIndex_def end_loop_eq)
  show "list_all no_symbol (takeWhile no_symbol ?rest)" by (auto simp: list_all_iff dest: set_takeWhileD)
  show "dropWhile no_symbol ?rest = [] \<or> \<not> no_symbol (hd (dropWhile no_symbol ?rest))"
    using hd_dropWhile by blast
qed (use find_symbol_SomeD [OF assms(1) [unfolded findStartIndex_def]] in simp_all)

lemma replace_func_absent: "stub \<notin> fst ` set fs \<Longrightarrow> replace_func stub insns fs = fs"
  by (force simp: replace_func_def intro!: filter_True map_idI)

lemma injectInsns_funcs:
  assumes wf: "well_formed prog" and stub: "stub \<noteq> []" and insns: "list_all no_symbol insns"
  shows "funcs (injectInsns prog stub insns) = replace_func stub insns (funcs prog)"
proof (cases "findStartIndex prog stub")
  case None
  then have "stub \<notin> fst ` set (funcs prog)"
    using funcs_names [of prog] by (auto simp: findStartIndex_def find_symbol_None)
  then show ?thesis by (simp add: injectInsns_def None replace_func_absent)
next
  case (Some k)
  from findStartIndex_split [OF Some stub] obtain pre i body post
    where p: "prog = pre @ (i # body) @ post" "ins_symbol i = stub" "list_all no_symbol body"
      "post = [] \<or> \<not> no_symbol (hd post)" "pre = take k prog" "prog ! k = i"
      "findEndIndex prog k + 1 = length pre + Suc (length body)" .
  have fs: "funcs prog = funcs pre @ (stub, i # body) # funcs post"
    using p stub funcs_append [of "(i # body) @ post" pre] funcs_append [OF p(4), of "i # body"] funcs_one [OF p(3), of i]
    by simp
  have "distinct (map fst (funcs prog))" using wf by (simp add: well_formed_def)
  then have other: "stub \<notin> fst ` set (funcs pre)" "stub \<notin> fst ` set (funcs post)" by (auto simp: fs)
  have "drop (findEndIndex prog k + 1) prog = post" unfolding p(7) by (subst p(1)) simp
  then have inj: "injectInsns prog stub insns = pre @ with_metadata i insns @ post"
    by (simp add: injectInsns_def Some p(5,6))
  show ?thesis
  proof (cases insns)
    case Nil
    have "filter (\<lambda>(f, b). f \<noteq> stub) (funcs pre) = funcs pre" "filter (\<lambda>(f, b). f \<noteq> stub) (funcs post) = funcs post"
      using other by (force intro!: filter_True)+
    then have "filter (\<lambda>(f, b). f \<noteq> stub) (funcs prog) = funcs pre @ funcs post" by (simp add: fs)
    then show ?thesis
      unfolding inj using Nil p(4) by (simp add: with_metadata_def replace_func_def funcs_append)
  next
    case (Cons j js)
    define m where "m = with_metadata i insns"
    have m: "m = j\<lparr>ins_symbol := stub, ins_reference := ins_reference i\<rparr> # js"
      using p(2) by (simp add: m_def with_metadata_def Cons)
    have "funcs m = [(stub, m)]" unfolding m using insns by (subst funcs_one) (simp_all add: Cons)
    moreover have "funcs (pre @ m @ post) = funcs pre @ funcs m @ funcs post"
      using funcs_append [of "m @ post" pre] funcs_append [OF p(4), of m] stub by (simp add: m)
    moreover have "map (\<lambda>(f, b). (f, if f = stub then with_metadata (hd b) insns else b)) (funcs prog) =
        funcs pre @ (stub, m) # funcs post"
      using other by (auto simp: fs image_iff m_def intro!: map_idI)
    moreover have "insns \<noteq> []" by (simp add: Cons)
    ultimately show ?thesis
      unfolding inj m_def [symmetric] replace_func_def by (simp only: if_False append_Cons append_Nil)
  qed
qed

lemma funcs_map:
  assumes "\<And>i. i \<in> set prog \<Longrightarrow> ins_symbol (g i) = ins_symbol i"
  shows "funcs (map g prog) = map (\<lambda>(f, b). (f, map g b)) (funcs prog)"
  using assms
proof (induction prog rule: funcs.induct)
  case (2 i "is")
  have s: "\<And>j. j \<in> set is \<Longrightarrow> no_symbol (g j) = no_symbol j" using 2 by simp
  have "takeWhile no_symbol (map g is) = map g (takeWhile no_symbol is)"
    using s by (induction "is") auto
  moreover have "dropWhile no_symbol (map g is) = map g (dropWhile no_symbol is)"
    using s by (induction "is") auto
  moreover have "funcs (map g (dropWhile no_symbol is)) = map (\<lambda>(f, b). (f, map g b)) (funcs (dropWhile no_symbol is))"
    by (rule 2) (use 2 in \<open>auto dest: set_dropWhileD\<close>)
  moreover have "ins_symbol (g i) = ins_symbol i" using 2 by simp
  ultimately show ?case by simp
qed simp

text \<open>Removing a function removes the calls to it; no function begins with one.\<close>

definition no_entry_call :: "instructions \<Rightarrow> string \<Rightarrow> bool" where
  "no_entry_call prog stub \<longleftrightarrow> list_all (\<lambda>i. ins_reference i = stub \<longrightarrow> no_symbol i) prog"

lemma injectInsns_nil_subset: "set (injectInsns prog stub []) \<subseteq> set prog"
  by (auto simp: injectInsns_def with_metadata_def Let_def split: option.splits dest: in_set_takeD in_set_dropD)

lemma clearSubprog_funcs:
  assumes "well_formed prog" "stub \<noteq> []" "no_entry_call prog stub"
  shows "funcs (clearSubprog prog stub isFilter) =
    clear_refs stub isFilter (filter (\<lambda>(f, b). f \<noteq> stub) (funcs prog))"
proof -
  have "ins_symbol (clear_reference stub isFilter i) = ins_symbol i" if "i \<in> set (injectInsns prog stub [])" for i
    using that assms(3) injectInsns_nil_subset [of prog stub]
    by (auto simp: clear_reference_def no_entry_call_def list_all_iff plain_def)
  with injectInsns_funcs [OF assms(1,2), of "[]"] show ?thesis
    by (simp add: clearSubprog_def funcs_map clear_refs_def replace_func_def)
qed

lemma clearSubprog_no_reference:
  "stub \<noteq> [] \<Longrightarrow> i \<in> set (clearSubprog prog stub isFilter) \<Longrightarrow> ins_reference i \<noteq> stub"
  by (auto simp: clearSubprog_def clear_reference_def plain_def split: if_splits)

section \<open>The operations keep programs well formed\<close>

definition names :: "instructions \<Rightarrow> string list" where
  "names prog = map fst (funcs prog)"

lemma well_formed_names: "well_formed prog \<longleftrightarrow> [] \<notin> set (names prog) \<and> distinct (names prog)"
proof -
  have "[] \<notin> set (names prog)" if "prog \<noteq> [] \<longrightarrow> \<not> no_symbol (hd prog)" for prog
    using that
  proof (induction prog rule: funcs.induct)
    case (2 i "is")
    have "dropWhile no_symbol is \<noteq> [] \<longrightarrow> \<not> no_symbol (hd (dropWhile no_symbol is))" using hd_dropWhile by blast
    with 2 show ?case by (simp add: names_def)
  qed (simp add: names_def)
  from this [of prog] show ?thesis by (cases prog) (auto simp: well_formed_def names_def)
qed

lemma names_filter: "map fst (filter (\<lambda>(f, b). f \<noteq> stub) fs) = filter (\<lambda>f. f \<noteq> stub) (map fst fs)"
  by (induction fs) auto

lemma names_injectInsns:
  assumes "well_formed prog" "stub \<noteq> []" "list_all no_symbol insns"
  shows "names (injectInsns prog stub insns) = (if insns = [] then filter (\<lambda>f. f \<noteq> stub) (names prog) else names prog)"
proof -
  have "map fst (map (\<lambda>(f, b). (f, if f = stub then with_metadata (hd b) insns else b)) fs) = map fst fs" for fs
    by (induction fs) auto
  then show ?thesis by (simp only: names_def injectInsns_funcs [OF assms] replace_func_def names_filter split: if_split) simp
qed

lemma names_clearSubprog:
  assumes "well_formed prog" "stub \<noteq> []" "no_entry_call prog stub"
  shows "names (clearSubprog prog stub isFilter) = filter (\<lambda>f. f \<noteq> stub) (names prog)"
proof -
  have "map fst (clear_refs stub isFilter fs) = map fst fs" for fs
    by (induction fs) (auto simp: clear_refs_def)
  then show ?thesis by (simp add: names_def clearSubprog_funcs [OF assms] names_filter)
qed

lemma injectInsns_well_formed:
  "well_formed prog \<Longrightarrow> stub \<noteq> [] \<Longrightarrow> list_all no_symbol insns \<Longrightarrow> well_formed (injectInsns prog stub insns)"
  by (simp add: well_formed_names [of "injectInsns prog stub insns"] names_injectInsns) (simp add: well_formed_names)

lemma clearSubprog_well_formed:
  "well_formed prog \<Longrightarrow> stub \<noteq> [] \<Longrightarrow> no_entry_call prog stub \<Longrightarrow> well_formed (clearSubprog prog stub isFilter)"
  by (simp add: well_formed_names [of "clearSubprog prog stub isFilter"] names_clearSubprog) (simp add: well_formed_names)

lemma set_clearSubprog: "set (clearSubprog prog stub isFilter) \<subseteq> clear_reference stub isFilter ` set prog"
  using injectInsns_nil_subset [of prog stub] by (auto simp: clearSubprog_def)

lemma no_entry_call_clear:
  "l \<noteq> [] \<Longrightarrow> no_entry_call prog l \<Longrightarrow> no_entry_call (clearSubprog prog stub isFilter) l"
  using set_clearSubprog [of prog stub isFilter]
  by (fastforce simp: no_entry_call_def list_all_iff clear_reference_def plain_def)

text \<open>A list of functions, cleared one after the other.\<close>

definition clear_list :: "bool \<Rightarrow> string list \<Rightarrow> instructions \<Rightarrow> instructions" where
  "clear_list isFilter cs prog = fold (\<lambda>c p. clearSubprog p c isFilter) cs prog"

lemma clear_list_simps [simp]:
  "clear_list isFilter [] prog = prog"
  "clear_list isFilter (c # cs) prog = clear_list isFilter cs (clearSubprog prog c isFilter)"
  by (simp_all add: clear_list_def)

lemma clear_list_keeps:
  assumes "well_formed prog" "[] \<notin> set cs" "list_all (no_entry_call prog) cs"
  shows "well_formed (clear_list isFilter cs prog) \<and>
    names (clear_list isFilter cs prog) = filter (\<lambda>f. f \<notin> set cs) (names prog)"
  using assms
proof (induction cs arbitrary: prog)
  case (Cons c cs)
  let ?p = "clearSubprog prog c isFilter"
  have w: "well_formed ?p" using Cons.prems by (auto intro: clearSubprog_well_formed)
  have e: "list_all (no_entry_call ?p) cs"
    using Cons.prems unfolding list_all_iff by (metis list.set_intros(2) no_entry_call_clear)
  have "filter (\<lambda>f. f \<notin> set cs) (filter (\<lambda>f. f \<noteq> c) fs) = filter (\<lambda>f. f \<notin> set (c # cs)) fs" for fs
    by (induction fs) auto
  with Cons.IH [OF w _ e] names_clearSubprog [of prog c isFilter] Cons.prems show ?case by auto
qed simp

lemma clear_list_no_reference:
  assumes "[] \<notin> set cs" "i \<in> set (clear_list isFilter cs prog)"
  shows "ins_reference i \<notin> set cs"
proof -
  have keep: "\<forall>j\<in>set (clear_list isFilter cs prog). ins_reference j \<noteq> l"
    if "l \<noteq> []" "\<forall>j\<in>set prog. ins_reference j \<noteq> l" for l cs prog
    using that
  proof (induction cs arbitrary: prog)
    case (Cons c cs)
    have "\<forall>j\<in>set (clearSubprog prog c isFilter). ins_reference j \<noteq> l"
      using set_clearSubprog [of prog c isFilter] Cons.prems(1,2) by (auto simp: clear_reference_def plain_def)
    with Cons.IH [of "clearSubprog prog c isFilter"] Cons.prems(1) show ?case by simp
  qed simp
  show ?thesis
    using assms
  proof (induction cs arbitrary: prog)
    case (Cons c cs)
    then have "c \<noteq> []" by auto
    then have "\<forall>j\<in>set (clearSubprog prog c isFilter). ins_reference j \<noteq> c"
      by (auto dest: clearSubprog_no_reference)
    from keep [OF \<open>c \<noteq> []\<close> this] Cons.prems have "ins_reference i \<noteq> c" by auto
    moreover have "ins_reference i \<notin> set cs" by (rule Cons.IH) (use Cons.prems in auto)
    ultimately show ?case by simp
  qed simp
qed

section \<open>Running a spliced function\<close>

text \<open>The symbol and the reference of an instruction that is no call and no jump do not matter.\<close>

lemma step_reference: "c \<noteq> Call \<Longrightarrow> step h subs c l m = step h subs c l' m"
  by (cases c) simp_all

definition func_code :: "instructions \<Rightarrow> string \<Rightarrow> instructions option" where
  "func_code prog f = map_of (funcs prog) f"

lemma func_code_inject:
  assumes "well_formed prog" "stub \<noteq> []" "list_all no_symbol insns" "insns \<noteq> []" "stub \<in> set (names prog)"
  shows "\<exists>i. func_code (injectInsns prog stub insns) stub = Some (with_metadata i insns)"
    and "f \<noteq> stub \<Longrightarrow> func_code (injectInsns prog stub insns) f = func_code prog f"
proof -
  let ?g = "\<lambda>(f, b). (f, if f = stub then with_metadata (hd b) insns else b)"
  have e: "funcs (injectInsns prog stub insns) = map ?g (funcs prog)"
    using assms(4) by (simp add: injectInsns_funcs [OF assms(1-3)] replace_func_def)
  have "stub \<in> fst ` set fs \<Longrightarrow> \<exists>i. map_of (map ?g fs) stub = Some (with_metadata i insns)" for fs
    by (induction fs) auto
  with assms(5) show "\<exists>i. func_code (injectInsns prog stub insns) stub = Some (with_metadata i insns)"
    by (simp add: func_code_def e names_def)
  show "func_code (injectInsns prog stub insns) f = func_code prog f" if "f \<noteq> stub"
  proof -
    have "map_of (map ?g fs) f = map_of fs f" for fs using that by (induction fs) auto
    then show ?thesis by (simp add: func_code_def e)
  qed
qed

lemma exec_with_metadata:
  assumes "straight is" "is \<noteq> []" "ins_op (hd is) \<noteq> Call"
  shows "exec h subs (with_metadata i (is @ [plain Return])) (length (is @ [plain Return])) 0 m =
    exec h subs (is @ [plain Return]) (length (is @ [plain Return])) 0 m"
proof -
  obtain j js where "is": "is = j # js" using assms(2) by (cases "is") auto
  let ?js = "j\<lparr>ins_symbol := ins_symbol i, ins_reference := ins_reference i\<rparr> # js"
  have w: "with_metadata i (is @ [plain Return]) = ?js @ [plain Return]"
    by (simp add: "is" with_metadata_def)
  have "block h subs ?js m = block h subs is m"
    using assms(3) step_reference [of "ins_op j" h subs "ins_reference i" m "ins_reference j"] by (simp add: "is")
  moreover have "straight ?js" using assms(1) by (simp add: "is")
  ultimately show ?thesis
    unfolding w using exec_straight [of ?js h subs "[]" m] exec_straight [OF assms(1), of h subs "[]" m]
    by (simp add: "is" del: exec.simps block.simps)
qed

section \<open>Choosing the packet routine\<close>

text \<open>
  What the loader sees of a parameter's type (\<^verbatim>\<open>internal/bpfsnoop/bpf_tracing.go\<close>): a pointer to a
  structure of some name, a pointer to such a pointer, or neither.
\<close>

datatype param_type = Ptr_Struct string | Ptr_Ptr_Struct string | Other_Type

fun injectPktOutput_loop :: "nat \<Rightarrow> param_type list \<Rightarrow> instructions \<Rightarrow> instructions \<times> bool" where
  "injectPktOutput_loop i [] prog = (clearPktOutput prog, False)"
| "injectPktOutput_loop i (Other_Type # ps) prog = injectPktOutput_loop (Suc i) ps prog"
| "injectPktOutput_loop i (Ptr_Struct s # ps) prog =
     (if s = ''sk_buff'' \<or> s = ''__sk_buff'' then (outputSkb prog i, True)
      else if s = ''xdp_buff'' \<or> s = ''xdp_md'' then (outputXdpBuff prog i, True)
      else if s = ''xdp_frame'' then (outputXdpFrame prog i, True)
      else injectPktOutput_loop (Suc i) ps prog)"
| "injectPktOutput_loop i (Ptr_Ptr_Struct s # ps) prog =
     (if s = ''sk_buff'' \<or> s = ''__sk_buff'' then (outputPskb prog i, True)
      else if s = ''xdp_buff'' \<or> s = ''xdp_md'' then (outputXdpBuff prog i, True)
      else if s = ''xdp_frame'' then (outputXdpFrame prog i, True)
      else injectPktOutput_loop (Suc i) ps prog)"

definition injectPktOutput :: "bool \<Rightarrow> param_type list \<Rightarrow> instructions \<Rightarrow> instructions \<times> bool" where
  "injectPktOutput pkt params prog =
     (if \<not> pkt then (clearPktOutput prog, False) else injectPktOutput_loop 0 params prog)"

text \<open>The reference: the first parameter that is a packet, and the routine for its type.\<close>

definition pkt_routine_of :: "param_type \<Rightarrow> string option" where
  "pkt_routine_of p =
     (case p of
        Ptr_Struct s \<Rightarrow> map_of [(''sk_buff'', ''output_skb''), (''__sk_buff'', ''output_skb''),
          (''xdp_buff'', ''output_xdp_buff''), (''xdp_md'', ''output_xdp_buff''), (''xdp_frame'', ''output_xdp_frame'')] s
      | Ptr_Ptr_Struct s \<Rightarrow> map_of [(''sk_buff'', ''output_pskb''), (''__sk_buff'', ''output_pskb''),
          (''xdp_buff'', ''output_xdp_buff''), (''xdp_md'', ''output_xdp_buff''), (''xdp_frame'', ''output_xdp_frame'')] s
      | Other_Type \<Rightarrow> None)"

fun pkt_param :: "nat \<Rightarrow> param_type list \<Rightarrow> (nat \<times> string) option" where
  "pkt_param i [] = None"
| "pkt_param i (p # ps) = (case pkt_routine_of p of Some stub \<Rightarrow> Some (i, stub) | None \<Rightarrow> pkt_param (Suc i) ps)"

text \<open>The routines each choice drops; \<^verbatim>\<open>output_pskb\<close> calls \<^verbatim>\<open>output_skb\<close>, which it keeps.\<close>

definition dropped :: "string \<Rightarrow> string list" where
  "dropped stub =
     (if stub = ''output_skb'' then [''output_pskb'', ''output_xdp_buff'', ''output_xdp_frame'']
      else if stub = ''output_pskb'' then [''output_xdp_buff'', ''output_xdp_frame'']
      else if stub = ''output_xdp_buff'' then [''output_skb'', ''output_pskb'', ''output_xdp_frame'']
      else [''output_skb'', ''output_pskb'', ''output_xdp_buff''])"

abbreviation all_pkt_routines :: "string list" where
  "all_pkt_routines \<equiv> [''output_pkt'', ''output_skb'', ''output_pskb'', ''output_xdp_buff'', ''output_xdp_frame'']"

lemma injectPktOutput_loop_eq:
  "injectPktOutput_loop i ps prog =
     (case pkt_param i ps of None \<Rightarrow> (clearPktOutput prog, False)
      | Some (k, stub) \<Rightarrow> (injectStub prog k stub (dropped stub), True))"
  by (induction i ps prog rule: injectPktOutput_loop.induct)
    (simp_all add: pkt_routine_of_def dropped_def outputSkb_def outputPskb_def outputXdpBuff_def outputXdpFrame_def)

lemma pkt_param_routine:
  "pkt_param i ps = Some (k, stub) \<Longrightarrow> i \<le> k \<and> k < i + length ps \<and>
     stub \<in> set [''output_skb'', ''output_pskb'', ''output_xdp_buff'', ''output_xdp_frame'']"
proof (induction ps arbitrary: i)
  case (Cons p ps)
  show ?case
  proof (cases "pkt_routine_of p")
    case None
    with Cons.IH [of "Suc i"] Cons.prems show ?thesis by auto
  next
    case (Some r)
    with Cons.prems show ?thesis
      by (auto simp: pkt_routine_of_def split: param_type.splits if_splits)
  qed
qed simp

lemma injectStub_clear: "injectStub prog index stub clears =
    injectInsns (clear_list False clears prog) ''output_pkt'' (stub_code index stub)"
  by (simp add: injectStub_def clear_list_def clearOutputSubprog_def)

lemma clearPktOutput_clear: "clearPktOutput prog = clear_list False all_pkt_routines prog"
  by (simp add: clearPktOutput_def clearOutputSubprog_def)

text \<open>The code of the specialised \<^verbatim>\<open>output_pkt\<close>.\<close>

lemma exec_stub_code:
  assumes regs: "m_regs m R1 = Some (PtrArgs 0)" and i: "index < length (m_args m)" "index < 4096"
  shows "exec h subs (with_metadata j (stub_code index stub)) 3 0 m =
    (case subs stub (set_reg R1 (Scalar (m_args m ! index)) m) of None \<Rightarrow> Faulted
     | Some m' \<Rightarrow> Halted (clobber (m_regs m' R0)
         ((set_reg R1 (Scalar (m_args m ! index)) m)\<lparr>m_buff := m_buff m'\<rparr>)))"
  using assms sint_of_nat_small [of "index * 8", where 'a = 16]
  by (auto simp: stub_code_def genAccessArg_def with_metadata_def plain_def Call_Label_def numeral_3_eq_3
      mult.commute split: option.splits)

text \<open>
  The compiled routines of the C file, as the specialised \<^verbatim>\<open>output_pkt\<close> calls them: with the packet
  in \<open>R1\<close> and the packet record's place in \<open>R2\<close>.
\<close>

definition pkt_routine :: "helpers \<Rightarrow> layout \<Rightarrow> u32 \<Rightarrow> string \<Rightarrow> u64 \<Rightarrow> bpfsnoop_pkt_data \<Rightarrow> bpfsnoop_pkt_data" where
  "pkt_routine h L T stub =
     (if stub = ''output_skb'' then output_skb h L T
      else if stub = ''output_pskb'' then output_pskb h L T
      else if stub = ''output_xdp_buff'' then output_xdp_buff h L T
      else output_xdp_frame h L T)"

definition calls_c_routines ::
  "helpers \<Rightarrow> layout \<Rightarrow> u32 \<Rightarrow> (string \<Rightarrow> machine \<Rightarrow> machine option) \<Rightarrow> bool" where
  "calls_c_routines h L T subs \<longleftrightarrow>
     (\<forall>stub m v off. m_regs m R1 = Some (Scalar v) \<and> m_regs m R2 = Some (PtrBuff (int off)) \<longrightarrow>
        (\<exists>r0. subs stub m = Some (m\<lparr>m_regs := (m_regs m)(R0 := r0),
           m_buff := pkt_in_buffer (pkt_routine h L T stub v) off (m_buff m)\<rparr>)))"

lemma calls_c_routinesD:
  assumes "calls_c_routines h L T subs" "m_regs m R1 = Some (Scalar v)" "m_regs m R2 = Some (PtrBuff (int off))"
  shows "\<exists>m'. subs stub m = Some m' \<and> m_buff m' = pkt_in_buffer (pkt_routine h L T stub v) off (m_buff m)"
  using assms unfolding calls_c_routines_def by fastforce

text \<open>An injection with the four choices; the routine it calls is still there.\<close>

lemma injectStub_names:
  assumes wf: "well_formed prog" and entry: "list_all (no_entry_call prog) all_pkt_routines"
    and stub: "stub \<in> set (tl all_pkt_routines)"
  shows "well_formed (injectStub prog index stub (dropped stub)) \<and>
    names (injectStub prog index stub (dropped stub)) = filter (\<lambda>f. f \<notin> set (dropped stub)) (names prog) \<and>
    (\<forall>f. f \<noteq> ''output_pkt'' \<longrightarrow> func_code (injectStub prog index stub (dropped stub)) f =
       func_code (clear_list False (dropped stub) prog) f)"
proof -
  have d: "[] \<notin> set (dropped stub)" "list_all (no_entry_call prog) (dropped stub)"
    using entry by (auto simp: dropped_def)
  note c = clear_list_keeps [OF wf d, of False]
  have code: "list_all no_symbol (stub_code index stub)" "stub_code index stub \<noteq> []"
    by (simp_all add: stub_code_def genAccessArg_def plain_def Call_Label_def)
  note n = names_injectInsns [of "clear_list False (dropped stub) prog" "''output_pkt''", OF _ _ code(1)]
    injectInsns_well_formed [of "clear_list False (dropped stub) prog" "''output_pkt''", OF _ _ code(1)]
  have "func_code (injectStub prog index stub (dropped stub)) f = func_code (clear_list False (dropped stub) prog) f"
    if "f \<noteq> ''output_pkt''" for f
  proof (cases "''output_pkt'' \<in> set (names (clear_list False (dropped stub) prog))")
    case True
    show ?thesis
      unfolding injectStub_clear
      by (rule func_code_inject(2) [OF _ _ code(1,2) True that]) (use c in simp_all)
  next
    case False
    then have "replace_func ''output_pkt'' (stub_code index stub) (funcs (clear_list False (dropped stub) prog)) =
        funcs (clear_list False (dropped stub) prog)"
      by (intro replace_func_absent) (simp add: names_def)
    then show ?thesis
      unfolding injectStub_clear func_code_def
      using injectInsns_funcs [of "clear_list False (dropped stub) prog" "''output_pkt''", OF _ _ code(1)] c by simp
  qed
  then show ?thesis using c n code(2) by (simp add: injectStub_clear)
qed

section \<open>Properties\<close>

text \<open>C15: splicing is replacement: on a well-formed program, as a list of named functions, injecting code
  for a function gives the same functions with that one's code replaced (its first instruction keeps the
  old one's symbol), or, with no code, the list without it; a name the program does not have changes
  nothing; and the program stays well formed.\<close>

theorem splicing_refines:
  assumes "well_formed prog" "stub \<noteq> []" "list_all no_symbol insns"
  shows "funcs (injectInsns prog stub insns) = replace_func stub insns (funcs prog) \<and>
    well_formed (injectInsns prog stub insns) \<and>
    (stub \<notin> set (names prog) \<longrightarrow> funcs (injectInsns prog stub insns) = funcs prog)"
  using injectInsns_funcs [OF assms] injectInsns_well_formed [OF assms] replace_func_absent
  by (simp add: names_def)

text \<open>Clearing a function leaves neither the function nor a call to it: every call becomes the constant
  that stands for its result (0 for an output, 1, which accepts, for a filter), all other
  instructions are kept, and so is the order of the functions.\<close>

lemma cleared_function_is_gone:
  assumes "well_formed prog" "stub \<noteq> []" "no_entry_call prog stub"
  shows "funcs (clearSubprog prog stub isFilter) =
      clear_refs stub isFilter (filter (\<lambda>(f, b). f \<noteq> stub) (funcs prog)) \<and>
    stub \<notin> set (names (clearSubprog prog stub isFilter)) \<and>
    (\<forall>i\<in>set (clearSubprog prog stub isFilter). ins_reference i \<noteq> stub) \<and>
    well_formed (clearSubprog prog stub isFilter)"
  using clearSubprog_funcs [OF assms] names_clearSubprog [OF assms] clearSubprog_well_formed [OF assms]
    clearSubprog_no_reference [OF assms(2)] by auto

text \<open>C19: the program the loader makes for a signature: its \<^verbatim>\<open>output_fn_args\<close> runs to its end and writes the
  serialised values, of the size the loader reserves, wherever the record's place is; every other
  function is what it was.\<close>

theorem spliced_routine_writes_values:
  assumes wf: "well_formed prog" "''output_fn_args'' \<in> set (names prog)"
    and some: "prms \<noteq> [] \<or> wr" and inj: "injectOutputFuncArgs prog prms ret wr = (prog', sz)"
    and args: "length prms \<le> length args" "length stack = FRAME"
    and fit: "off + sz \<le> length buf" "sz \<le> 2 ^ 15"
  shows "\<exists>code m'. func_code prog' ''output_fn_args'' = Some code \<and>
      exec h subs code (length code) 0 (gen_entry stack args rv off buf) = Halted m' \<and>
      m_buff m' = store off (serial h prms ret wr args rv) buf \<and> sz = length (serial h prms ret wr args rv) \<and>
      (\<forall>f. f \<noteq> ''output_fn_args'' \<longrightarrow> func_code prog' f = func_code prog f)"
proof -
  let ?gen = "fst (genOutputFuncArgs prms ret wr)"
  have p: "prog' = injectInsns prog ''output_fn_args'' ?gen" "sz = serial_size prms ret wr"
    using inj some by (auto simp: injectOutputFuncArgs_def split_beta genOutputFuncArgs_size)
  have plain: "list_all no_symbol ?gen" "?gen \<noteq> []"
    by (auto simp: genOutputFuncArgs_code list_all_iff plain_def)
  obtain i where i: "func_code prog' ''output_fn_args'' = Some (with_metadata i ?gen)"
    using func_code_inject(1) [OF wf(1) _ plain wf(2)] p(1) by auto
  have others: "func_code prog' f = func_code prog f" if "f \<noteq> ''output_fn_args''" for f
    unfolding p(1) by (rule func_code_inject(2) [OF wf(1) _ plain wf(2) that]) simp
  obtain "is" where code: "?gen = is @ [plain Return]" "straight is" by (rule genOutputFuncArgs_straight)
  have "is \<noteq> []" "ins_op (hd is) \<noteq> Call"
    using code(1) by (auto simp: genOutputFuncArgs_code plain_def)
  from exec_with_metadata [OF code(2) this, of h subs i] code(1)
  have "exec h subs (with_metadata i ?gen) (length ?gen) 0 m = exec h subs ?gen (length ?gen) 0 m" for m by simp
  moreover have "length (with_metadata i ?gen) = length ?gen" by (simp add: with_metadata_def split: list.split)
  ultimately show ?thesis
    using exec_gen [OF args fit [unfolded p(2)], of h subs rv] i others length_serial [OF args(1), of h ret wr rv] p(2)
    by auto
qed

text \<open>C20: the packet routine for a signature: if a parameter is a packet, the \<^verbatim>\<open>output_pkt\<close> the loader makes
  reports the first such argument with the routine for its type, into the place it is given, and that
  routine is still in the program; if none is, no packet routine and no call to one is left.\<close>

theorem specialised_packet_output:
  assumes wf: "well_formed prog" and entry: "list_all (no_entry_call prog) all_pkt_routines"
    and names: "set all_pkt_routines \<subseteq> set (names prog)"
    and inj: "injectPktOutput True params prog = (prog', used)"
    and c: "calls_c_routines h L T subs"
    and m: "m_regs m R1 = Some (PtrArgs 0)" "m_regs m R2 = Some (PtrBuff (int off))"
    and args: "length params \<le> length (m_args m)" "length params \<le> 4096"
  shows "case pkt_param 0 params of
      None \<Rightarrow> \<not> used \<and> set (names prog') \<inter> set all_pkt_routines = {} \<and>
        (\<forall>i\<in>set prog'. ins_reference i \<notin> set all_pkt_routines)
    | Some (k, stub) \<Rightarrow> used \<and> stub \<in> set (names prog') \<and>
        (\<exists>code m'. func_code prog' ''output_pkt'' = Some code \<and> exec h subs code 3 0 m = Halted m' \<and>
           m_buff m' = pkt_in_buffer (pkt_routine h L T stub (m_args m ! k)) off (m_buff m))"
proof (cases "pkt_param 0 params")
  case None
  then have p: "prog' = clear_list False all_pkt_routines prog" "\<not> used"
    using inj by (simp_all add: injectPktOutput_def injectPktOutput_loop_eq clearPktOutput_clear)
  have "[] \<notin> set all_pkt_routines" by simp
  from clear_list_keeps [OF wf this entry, of False] clear_list_no_reference [OF this] p None
  show ?thesis by auto
next
  case (Some ks)
  then obtain k stub where ks: "pkt_param 0 params = Some (k, stub)" by (cases ks) auto
  then have p: "prog' = injectStub prog k stub (dropped stub)" "used"
    using inj by (simp_all add: injectPktOutput_def injectPktOutput_loop_eq)
  from pkt_param_routine [OF ks] have k: "k < length params" and stub: "stub \<in> set (tl all_pkt_routines)"
    by simp_all
  note nm = injectStub_names [OF wf entry stub, of k, folded p(1)]
  have kept: "''output_pkt'' \<notin> set (dropped stub)" "stub \<notin> set (dropped stub)"
    using stub by (auto simp: dropped_def)
  have d: "[] \<notin> set (dropped stub)" "list_all (no_entry_call prog) (dropped stub)"
    using entry by (auto simp: dropped_def)
  note cl = clear_list_keeps [OF wf d, of False]
  have in_list: "''output_pkt'' \<in> set (names (clear_list False (dropped stub) prog))" "stub \<in> set (names prog')"
    using cl nm names stub kept by auto
  have "list_all no_symbol (stub_code k stub)" "stub_code k stub \<noteq> []"
    by (simp_all add: stub_code_def genAccessArg_def plain_def Call_Label_def)
  then obtain i where i: "func_code prog' ''output_pkt'' = Some (with_metadata i (stub_code k stub))"
    using func_code_inject(1) [of "clear_list False (dropped stub) prog" "''output_pkt''" "stub_code k stub"]
      cl in_list(1) by (auto simp: p(1) injectStub_clear)
  let ?m = "set_reg R1 (Scalar (m_args m ! k)) m"
  obtain m' where m': "subs stub ?m = Some m'"
      "m_buff m' = pkt_in_buffer (pkt_routine h L T stub (m_args m ! k)) off (m_buff ?m)"
    using calls_c_routinesD [OF c, of ?m "m_args m ! k" off stub] m(2) by (auto simp: set_reg_def)
  have "exec h subs (with_metadata i (stub_code k stub)) 3 0 m =
      Halted (clobber (m_regs m' R0) (?m\<lparr>m_buff := m_buff m'\<rparr>))"
    using exec_stub_code [OF m(1), of k h subs i stub] k args m'(1) by simp
  with i p(2) in_list(2) m'(2) ks show ?thesis by (simp add: clobber_def set_reg_def)
qed

end
