(* ===== verification/Inject_Filter.thy ===== *)
theory Inject_Filter
  imports Inject Pkt_Filter
begin

text \<open>
  Specialising the packet filter (\<^verbatim>\<open>internal/bpfsnoop/filter_pkt.go\<close> and \<^verbatim>\<open>injectPktFilter\<close> in
  \<^verbatim>\<open>bpf_tracing.go\<close>): the loader compiles the pcap expression into the two stubs, drops the routines
  for other kinds of packets, and makes \<^verbatim>\<open>filter_pkt\<close> call the one for the signature.
\<close>

section \<open>The compiler of pcap expressions\<close>

record pcap_options =
  AtBpf2Bpf :: string
  DirectRead :: bool
  L2Skb :: bool

text \<open>
  \<^verbatim>\<open>elibpcap.Inject\<close> is a library: an expression is compiled and injected into the function that the
  options name; the flag of the result says that it failed.
\<close>

type_synonym pcap_inject = "string \<Rightarrow> instructions \<Rightarrow> pcap_options \<Rightarrow> instructions \<times> bool"

definition l2_options :: pcap_options where
  "l2_options = \<lparr>AtBpf2Bpf = ''filter_pcap_l2'', DirectRead = False, L2Skb = True\<rparr>"

definition l3_options :: pcap_options where
  "l3_options = \<lparr>AtBpf2Bpf = ''filter_pcap_l3'', DirectRead = False, L2Skb = False\<rparr>"

text \<open>What the loader relies on: an injection that succeeds changes the named function only, with code
  that calls no function of the program.\<close>

locale pcap_injector =
  fixes Inject :: pcap_inject
  assumes inject_keeps: "well_formed prog \<Longrightarrow> AtBpf2Bpf opt \<in> set (names prog) \<Longrightarrow>
      Inject expr prog opt = (prog', False) \<Longrightarrow>
      well_formed prog' \<and> names prog' = names prog \<and>
      (\<forall>f. f \<noteq> AtBpf2Bpf opt \<longrightarrow> func_code prog' f = func_code prog f)"
    and inject_calls: "Inject expr prog opt = (prog', False) \<Longrightarrow> f \<noteq> [] \<Longrightarrow>
      no_entry_call prog f \<Longrightarrow> no_entry_call prog' f"

section \<open>The packet filter\<close>

datatype filter_error = Inject_l2_failed | No_such_struct string

definition clearSpecializedStubs :: "instructions \<Rightarrow> instructions" where
  "clearSpecializedStubs prog =
     clearFilterSubprog (clearFilterSubprog prog ''filter_pcap_l2.specialized.1'') ''filter_pcap_l3.specialized.1''"

definition clearPktFilter :: "instructions \<Rightarrow> instructions" where
  "clearPktFilter prog =
     fold (\<lambda>c p. clearFilterSubprog p c)
       [''filter_pcap_l2'', ''filter_pcap_l3'', ''filter_skb'', ''filter_pskb'', ''filter_xdp_buff'',
        ''filter_xdp_frame'', ''filter_pkt''] (clearSpecializedStubs prog)"

text \<open>
  An expression that the layer-3 compiler rejects, as one on Ethernet addresses, becomes a filter
  that rejects packets without a link-layer header.
\<close>

definition filterSkb ::
  "pcap_inject \<Rightarrow> string \<Rightarrow> instructions \<Rightarrow> nat \<Rightarrow> param_type \<Rightarrow> instructions \<times> filter_error option" where
  "filterSkb Inject expr prog index t =
     (if expr = [] then (prog, None)
      else
        let isPskb = (case t of Ptr_Struct s \<Rightarrow> False | _ \<Rightarrow> True);
            filterFunc = (if isPskb then ''filter_pskb'' else ''filter_skb'');
            (prog, err) = Inject expr prog l2_options
        in if err then (prog, Some Inject_l2_failed)
        else
          let (prog, err) = Inject expr prog l3_options;
              prog = (if err then fst (Inject ''__reject_all__'' prog l3_options) else prog);
              prog = clearSpecializedStubs prog;
              prog = (if \<not> isPskb then clearFilterSubprog prog ''filter_pskb'' else prog);
              prog = clearFilterSubprog prog ''filter_xdp_buff'';
              prog = clearFilterSubprog prog ''filter_xdp_frame''
          in (injectInsns prog ''filter_pkt'' (genAccessArg index R1 @ [Call_Label filterFunc, plain Return]), None))"

definition injectFilterXdp ::
  "pcap_inject \<Rightarrow> string \<Rightarrow> instructions \<Rightarrow> nat \<Rightarrow> string \<Rightarrow> string \<Rightarrow> instructions \<times> filter_error option" where
  "injectFilterXdp Inject expr prog index stub otherStub =
     (if expr = [] then (prog, None)
      else
        let (prog, err) = Inject expr prog l2_options
        in if err then (prog, Some Inject_l2_failed)
        else
          let prog = clearSpecializedStubs prog;
              prog = clearFilterSubprog prog ''filter_skb'';
              prog = clearFilterSubprog prog otherStub;
              prog = clearFilterSubprog prog ''filter_pcap_l3''
          in (injectInsns prog ''filter_pkt'' (genAccessArg index R1 @ [Call_Label stub, plain Return]), None))"

definition filterXdp :: "pcap_inject \<Rightarrow> string \<Rightarrow> instructions \<Rightarrow> nat \<Rightarrow> instructions \<times> filter_error option" where
  "filterXdp Inject expr prog index = injectFilterXdp Inject expr prog index ''filter_xdp_buff'' ''filter_xdp_frame''"

definition filterXdpFrame :: "pcap_inject \<Rightarrow> string \<Rightarrow> instructions \<Rightarrow> nat \<Rightarrow> instructions \<times> filter_error option" where
  "filterXdpFrame Inject expr prog index = injectFilterXdp Inject expr prog index ''filter_xdp_frame'' ''filter_xdp_buff''"

text \<open>
  The search for the packet among the parameters; \<open>kbtf\<close> says whether the kernel's BTF has a
  structure. For the context types of programs, \<^verbatim>\<open>__sk_buff\<close> and \<^verbatim>\<open>xdp_md\<close>, the error of the
  injection is assigned to a variable of the inner scope, so that the outer one stays nil.
\<close>

definition inject_one ::
  "pcap_inject \<Rightarrow> (string \<Rightarrow> bool) \<Rightarrow> string \<Rightarrow> instructions \<Rightarrow> nat \<Rightarrow> param_type \<Rightarrow> string
     \<Rightarrow> (instructions \<times> filter_error option) option" where
  "inject_one Inject kbtf expr prog i typ s =
     (if s = ''sk_buff'' then Some (filterSkb Inject expr prog i typ)
      else if s = ''__sk_buff'' then
        Some (if \<not> kbtf ''sk_buff'' then (prog, Some (No_such_struct ''sk_buff''))
              else (fst (filterSkb Inject expr prog i (Ptr_Struct ''sk_buff'')), None))
      else if s = ''xdp_buff'' then Some (filterXdp Inject expr prog i)
      else if s = ''xdp_md'' then
        Some (if \<not> kbtf ''xdp_buff'' then (prog, Some (No_such_struct ''xdp_buff''))
              else (fst (filterXdp Inject expr prog i), None))
      else if s = ''xdp_frame'' then Some (filterXdpFrame Inject expr prog i)
      else None)"

fun injectPktFilter_loop ::
  "pcap_inject \<Rightarrow> (string \<Rightarrow> bool) \<Rightarrow> string \<Rightarrow> nat \<Rightarrow> param_type list \<Rightarrow> instructions
     \<Rightarrow> instructions \<times> filter_error option" where
  "injectPktFilter_loop Inject kbtf expr i [] prog = (clearPktFilter prog, None)"
| "injectPktFilter_loop Inject kbtf expr i (typ # ps) prog =
     (case typ of
        Other_Type \<Rightarrow> injectPktFilter_loop Inject kbtf expr (Suc i) ps prog
      | Ptr_Struct s \<Rightarrow> (case inject_one Inject kbtf expr prog i typ s of
          Some r \<Rightarrow> r | None \<Rightarrow> injectPktFilter_loop Inject kbtf expr (Suc i) ps prog)
      | Ptr_Ptr_Struct s \<Rightarrow> (case inject_one Inject kbtf expr prog i typ s of
          Some r \<Rightarrow> r | None \<Rightarrow> injectPktFilter_loop Inject kbtf expr (Suc i) ps prog))"

definition injectPktFilter ::
  "pcap_inject \<Rightarrow> (string \<Rightarrow> bool) \<Rightarrow> string \<Rightarrow> param_type list \<Rightarrow> instructions
     \<Rightarrow> instructions \<times> filter_error option" where
  "injectPktFilter Inject kbtf expr params prog =
     (if expr = [] then (prog, None) else injectPktFilter_loop Inject kbtf expr 0 params prog)"


section \<open>A reference compiler\<close>

text \<open>It splices the code it is given, if that is code without labels and calls.\<close>

definition splice_inject :: "(string \<Rightarrow> pcap_options \<Rightarrow> instructions option) \<Rightarrow> pcap_inject" where
  "splice_inject compile expr prog opt =
     (case compile expr opt of
        Some code \<Rightarrow>
          if code \<noteq> [] \<and> list_all (\<lambda>i. no_symbol i \<and> ins_reference i = []) code
          then (injectInsns prog (AtBpf2Bpf opt) code, False) else (prog, True)
      | None \<Rightarrow> (prog, True))"

lemma injectInsns_no_entry_call:
  assumes "no_entry_call prog f" "f \<noteq> []" "list_all (\<lambda>i. no_symbol i \<and> ins_reference i = []) code"
  shows "no_entry_call (injectInsns prog stub code) f"
proof (cases "findStartIndex prog stub")
  case (Some k)
  then have k: "k < length prog" using find_symbol_SomeD by (simp add: findStartIndex_def)
  from assms(1) have p: "\<And>i. i \<in> set prog \<Longrightarrow> ins_reference i = f \<Longrightarrow> no_symbol i"
    by (simp add: no_entry_call_def list_all_iff)
  have "ins_reference i = f \<longrightarrow> no_symbol i" if "i \<in> set (with_metadata (prog ! k) code)" for i
    using that assms(2,3) nth_mem [OF k]
    by (cases code) (auto simp: with_metadata_def list_all_iff intro: p)
  moreover have "set (injectInsns prog stub code) \<subseteq> set prog \<union> set (with_metadata (prog ! k) code)"
    using Some by (auto simp: injectInsns_def Let_def dest: in_set_takeD in_set_dropD)
  ultimately show ?thesis
    using p unfolding no_entry_call_def list_all_iff by blast
qed (use assms in \<open>simp add: injectInsns_def\<close>)

interpretation splice: pcap_injector "splice_inject compile" for compile
proof
  fix prog prog' :: instructions and opt expr f
  assume wf: "well_formed prog" and o: "AtBpf2Bpf opt \<in> set (names prog)"
    and i: "splice_inject compile expr prog opt = (prog', False)"
  from i obtain code where c: "prog' = injectInsns prog (AtBpf2Bpf opt) code" "code \<noteq> []" "list_all no_symbol code"
    by (auto simp: splice_inject_def list_all_iff split: option.splits if_splits)
  have ne: "AtBpf2Bpf opt \<noteq> []" using wf o by (auto simp: well_formed_names)
  show "well_formed prog' \<and> names prog' = names prog \<and>
      (\<forall>f. f \<noteq> AtBpf2Bpf opt \<longrightarrow> func_code prog' f = func_code prog f)"
    using injectInsns_well_formed [OF wf ne c(3)] names_injectInsns [OF wf ne c(3)]
      func_code_inject(2) [OF wf ne c(3,2) o] c(1,2) by simp
next
  fix prog prog' :: instructions and opt expr f
  assume "splice_inject compile expr prog opt = (prog', False)" "f \<noteq> []" "no_entry_call prog f"
  then show "no_entry_call prog' f"
    by (auto simp: splice_inject_def injectInsns_no_entry_call split: option.splits if_splits)
qed

section \<open>Choosing the filter routine\<close>

text \<open>The reference: the first parameter that is a packet, the routine for its type, and what is dropped.\<close>

definition filter_routine_of :: "param_type \<Rightarrow> string option" where
  "filter_routine_of p =
     (case p of
        Ptr_Struct s \<Rightarrow> map_of [(''sk_buff'', ''filter_skb''), (''__sk_buff'', ''filter_skb''),
          (''xdp_buff'', ''filter_xdp_buff''), (''xdp_md'', ''filter_xdp_buff''), (''xdp_frame'', ''filter_xdp_frame'')] s
      | Ptr_Ptr_Struct s \<Rightarrow> map_of [(''sk_buff'', ''filter_pskb''), (''__sk_buff'', ''filter_skb''),
          (''xdp_buff'', ''filter_xdp_buff''), (''xdp_md'', ''filter_xdp_buff''), (''xdp_frame'', ''filter_xdp_frame'')] s
      | Other_Type \<Rightarrow> None)"

fun filter_param :: "nat \<Rightarrow> param_type list \<Rightarrow> (nat \<times> string) option" where
  "filter_param i [] = None"
| "filter_param i (p # ps) = (case filter_routine_of p of Some stub \<Rightarrow> Some (i, stub) | None \<Rightarrow> filter_param (Suc i) ps)"

abbreviation all_filter_routines :: "string list" where
  "all_filter_routines \<equiv>
     [''filter_pcap_l2.specialized.1'', ''filter_pcap_l3.specialized.1'', ''filter_pcap_l2'', ''filter_pcap_l3'',
      ''filter_skb'', ''filter_pskb'', ''filter_xdp_buff'', ''filter_xdp_frame'', ''filter_pkt'']"

definition filter_dropped :: "string \<Rightarrow> string list" where
  "filter_dropped stub = [''filter_pcap_l2.specialized.1'', ''filter_pcap_l3.specialized.1''] @
     (if stub = ''filter_skb'' then [''filter_pskb'', ''filter_xdp_buff'', ''filter_xdp_frame'']
      else if stub = ''filter_pskb'' then [''filter_xdp_buff'', ''filter_xdp_frame'']
      else if stub = ''filter_xdp_buff'' then [''filter_skb'', ''filter_xdp_frame'', ''filter_pcap_l3'']
      else [''filter_skb'', ''filter_xdp_buff'', ''filter_pcap_l3''])"

text \<open>The routine with all that it calls, by the C file.\<close>

definition filter_callees :: "string \<Rightarrow> string list" where
  "filter_callees stub =
     (if stub = ''filter_skb'' then [''filter_pcap_l2'', ''filter_pcap_l3'']
      else if stub = ''filter_pskb'' then [''filter_skb'', ''filter_pcap_l2'', ''filter_pcap_l3'']
      else [''filter_pcap_l2''])"

text \<open>The program with the expression compiled in, for each kind of packet.\<close>

definition compiled :: "pcap_inject \<Rightarrow> string \<Rightarrow> string \<Rightarrow> instructions \<Rightarrow> instructions" where
  "compiled Inject expr stub prog =
     (let prog = fst (Inject expr prog l2_options)
      in if stub \<in> {''filter_skb'', ''filter_pskb''} then fst (Inject expr prog l3_options) else prog)"

lemma filters_eq:
  assumes ok: "\<And>prog opt. \<not> snd (Inject expr prog opt)" and e: "expr \<noteq> []"
  shows "filterSkb Inject expr prog k (Ptr_Struct s) =
      (injectInsns (clear_list True (filter_dropped ''filter_skb'') (compiled Inject expr ''filter_skb'' prog))
        ''filter_pkt'' (stub_code k ''filter_skb''), None)"
    "filterSkb Inject expr prog k (Ptr_Ptr_Struct s) =
      (injectInsns (clear_list True (filter_dropped ''filter_pskb'') (compiled Inject expr ''filter_pskb'' prog))
        ''filter_pkt'' (stub_code k ''filter_pskb''), None)"
    "filterXdp Inject expr prog k =
      (injectInsns (clear_list True (filter_dropped ''filter_xdp_buff'') (compiled Inject expr ''filter_xdp_buff'' prog))
        ''filter_pkt'' (stub_code k ''filter_xdp_buff''), None)"
    "filterXdpFrame Inject expr prog k =
      (injectInsns (clear_list True (filter_dropped ''filter_xdp_frame'') (compiled Inject expr ''filter_xdp_frame'' prog))
        ''filter_pkt'' (stub_code k ''filter_xdp_frame''), None)"
  using e ok by (simp_all add: filterSkb_def filterXdp_def filterXdpFrame_def injectFilterXdp_def compiled_def
      filter_dropped_def stub_code_def clearSpecializedStubs_def clearFilterSubprog_def split_beta Let_def)

lemma injectPktFilter_loop_eq:
  assumes ok: "\<And>prog opt. \<not> snd (Inject expr prog opt)" and e: "expr \<noteq> []" and kbtf: "\<And>s. kbtf s"
  shows "injectPktFilter_loop Inject kbtf expr i ps prog =
     (case filter_param i ps of None \<Rightarrow> (clearPktFilter prog, None)
      | Some (k, stub) \<Rightarrow> (injectInsns (clear_list True (filter_dropped stub) (compiled Inject expr stub prog))
          ''filter_pkt'' (stub_code k stub), None))"
  by (induction i ps arbitrary: prog rule: filter_param.induct)
    (auto simp: inject_one_def filters_eq [where Inject = Inject and expr = expr, OF ok e] kbtf filter_routine_of_def split: param_type.splits)

lemma clearPktFilter_clear: "clearPktFilter prog = clear_list True all_filter_routines prog"
  by (simp add: clearPktFilter_def clearSpecializedStubs_def clearFilterSubprog_def)

lemma filter_param_routine:
  "filter_param i ps = Some (k, stub) \<Longrightarrow> i \<le> k \<and> k < i + length ps \<and>
     stub \<in> {''filter_skb'', ''filter_pskb'', ''filter_xdp_buff'', ''filter_xdp_frame''}"
proof (induction ps arbitrary: i)
  case (Cons p ps)
  show ?case
  proof (cases "filter_routine_of p")
    case None
    with Cons.IH [of "Suc i"] Cons.prems show ?thesis by auto
  next
    case (Some r)
    with Cons.prems show ?thesis
      by (auto simp: filter_routine_of_def split: param_type.splits if_splits)
  qed
qed simp

context pcap_injector
begin

lemma compiled_keeps:
  assumes wf: "well_formed prog" and names: "{''filter_pcap_l2'', ''filter_pcap_l3''} \<subseteq> set (names prog)"
    and ok: "\<And>prog opt. \<not> snd (Inject expr prog opt)"
  shows "well_formed (compiled Inject expr stub prog)" "names (compiled Inject expr stub prog) = names prog"
    "f \<noteq> [] \<Longrightarrow> no_entry_call prog f \<Longrightarrow> no_entry_call (compiled Inject expr stub prog) f"
proof -
  have step: "Inject expr p opt = (fst (Inject expr p opt), False)" for p opt
    using ok [of p opt] by (simp add: prod_eq_iff)
  let ?p = "fst (Inject expr prog l2_options)"
  have at: "AtBpf2Bpf l2_options \<in> set (names prog)" "AtBpf2Bpf l3_options \<in> set (names prog)"
    using names by (auto simp: l2_options_def l3_options_def)
  have 1: "well_formed ?p \<and> names ?p = names prog" using inject_keeps [OF wf at(1) step] by blast
  then have 2: "well_formed (fst (Inject expr ?p l3_options)) \<and> names (fst (Inject expr ?p l3_options)) = names prog"
    using inject_keeps [OF _ _ step, of ?p l3_options] at(2) by metis
  show "well_formed (compiled Inject expr stub prog)" "names (compiled Inject expr stub prog) = names prog"
    using 1 2 by (simp_all add: compiled_def Let_def)
  show "f \<noteq> [] \<Longrightarrow> no_entry_call prog f \<Longrightarrow> no_entry_call (compiled Inject expr stub prog) f"
    using inject_calls [OF step] by (simp add: compiled_def Let_def)
qed

end


text \<open>The compiled routines of the C file, as the specialised \<^verbatim>\<open>filter_pkt\<close> calls them.\<close>

definition filter_routine :: "helpers \<Rightarrow> layout \<Rightarrow> u32 \<Rightarrow> pcap_hooks \<Rightarrow> string \<Rightarrow> u64 \<Rightarrow> bool" where
  "filter_routine h L T P stub =
     (if stub = ''filter_skb'' then filter_skb h L T P
      else if stub = ''filter_pskb'' then filter_pskb h L T P
      else if stub = ''filter_xdp_buff'' then filter_xdp_buff h L T P
      else filter_xdp_frame h L T P)"

definition calls_filter_routines ::
  "helpers \<Rightarrow> layout \<Rightarrow> u32 \<Rightarrow> pcap_hooks \<Rightarrow> (string \<Rightarrow> machine \<Rightarrow> machine option) \<Rightarrow> bool" where
  "calls_filter_routines h L T P subs \<longleftrightarrow>
     (\<forall>stub m v. m_regs m R1 = Some (Scalar v) \<longrightarrow>
        subs stub m = Some (set_reg R0 (Scalar (of_bool (filter_routine h L T P stub v))) m))"

text \<open>Specialising a program for one of the four routines.\<close>

lemma specialised_filter:
  assumes wf: "well_formed prog" and entry: "list_all (no_entry_call prog) all_filter_routines"
    and names: "set (drop 2 all_filter_routines) \<subseteq> set (names prog)"
    and stub: "stub \<in> {''filter_skb'', ''filter_pskb'', ''filter_xdp_buff'', ''filter_xdp_frame''}"
    and p: "prog' = injectInsns (clear_list True (filter_dropped stub) prog) ''filter_pkt'' (stub_code k stub)"
  shows "set (stub # filter_callees stub) \<subseteq> set (names prog') \<and>
    set (names prog') \<inter> set (filter_dropped stub) = {} \<and>
    (\<exists>i. func_code prog' ''filter_pkt'' = Some (with_metadata i (stub_code k stub)))"
proof -
  let ?q = "clear_list True (filter_dropped stub) prog"
  have d: "[] \<notin> set (filter_dropped stub)" "list_all (no_entry_call prog) (filter_dropped stub)"
    using stub entry by (auto simp: filter_dropped_def)
  note q = clear_list_keeps [OF wf d, of True]
  have kept: "set (''filter_pkt'' # stub # filter_callees stub) \<inter> set (filter_dropped stub) = {}"
    "set (''filter_pkt'' # stub # filter_callees stub) \<subseteq> set (drop 2 all_filter_routines)"
    using stub by (auto simp: filter_dropped_def filter_callees_def)
  have code: "list_all no_symbol (stub_code k stub)" "stub_code k stub \<noteq> []"
    by (simp_all add: stub_code_def genAccessArg_def plain_def Call_Label_def)
  have nm: "set (''filter_pkt'' # stub # filter_callees stub) \<subseteq> set (names ?q)"
    using q kept names by auto
  have "names prog' = names ?q"
    using names_injectInsns [OF _ _ code(1), of ?q "''filter_pkt''"] q code(2) p by simp
  moreover have "\<exists>i. func_code prog' ''filter_pkt'' = Some (with_metadata i (stub_code k stub))"
    unfolding p using func_code_inject(1) [OF _ _ code, of ?q "''filter_pkt''"] q nm by simp
  ultimately show ?thesis using q nm by auto
qed

section \<open>Properties\<close>


text \<open>
  For a program whose packet is its context, an expression that does not compile goes unreported:
  the loader goes on with what the failed injection left.
\<close>

lemma context_filter_error_is_lost:
  assumes "snd (Inject expr prog l2_options)" "expr \<noteq> []" "\<And>s. kbtf s" "s \<in> {''__sk_buff'', ''xdp_md''}"
  shows "injectPktFilter Inject kbtf expr (Ptr_Struct s # ps) prog = (fst (Inject expr prog l2_options), None)"
  using assms by (auto simp: injectPktFilter_def inject_one_def filterSkb_def filterXdp_def injectFilterXdp_def split_beta)

lemma kernel_filter_error_is_reported:
  assumes "snd (Inject expr prog l2_options)" "expr \<noteq> []" "s \<in> {''sk_buff'', ''xdp_buff'', ''xdp_frame''}"
  shows "injectPktFilter Inject kbtf expr (Ptr_Struct s # ps) prog =
    (fst (Inject expr prog l2_options), Some Inject_l2_failed)"
  using assms by (auto simp: injectPktFilter_def inject_one_def filterSkb_def filterXdp_def filterXdpFrame_def
      injectFilterXdp_def split_beta)

end
