(* ===== verification/Go_Consumer.thy ===== *)
theory Go_Consumer
  imports Gen_Args
begin

text \<open>
  The consumer's side of a function's arguments (\<^verbatim>\<open>internal/bpfsnoop/bpfsnoop_func_args.go\<close>): it
  takes the values apart again, parameter by parameter, and prints them. What is modelled is
  what it hands to the printing routine; a slice out of range, where Go panics, is \<open>None\<close>.
\<close>

section \<open>Reading values\<close>

definition NullTerminated :: "u8 list \<Rightarrow> u8 list" where
  "NullTerminated b = takeWhile (\<lambda>c. c \<noteq> 0) b"

definition getU64 :: "u8 list \<Rightarrow> u64 option" where
  "getU64 data = (if length data < 8 then None else Some (load_le 0 8 data))"

definition readUint64 :: "u8 list \<Rightarrow> (u64 \<times> u8 list) option" where
  "readUint64 data = map_option (\<lambda>v. (v, drop 8 data)) (getU64 data)"

definition readStrN :: "u8 list \<Rightarrow> nat \<Rightarrow> (u8 list \<times> u8 list) option" where
  "readStrN data n =
     (if length data < n then None else Some (NullTerminated (take n data), drop n data))"

definition readStr :: "u8 list \<Rightarrow> (u8 list \<times> u8 list) option" where
  "readStr data = readStrN data maxOutputStrLen"

section \<open>The loop over the parameters\<close>

text \<open>What is printed for one parameter: \<open>p_index\<close> is the parameter of the signature.\<close>

record printed =
  p_index :: nat
  p_arg :: u64
  p_argVal :: u64
  p_valNext :: u64
  p_argStr :: "u8 list"

text \<open>
  \<open>nparams\<close> is the number of parameters in the signature, \<open>i\<close> counts the flags, \<open>idx\<close> the
  parameters printed.
\<close>

definition print_param ::
  "nat \<Rightarrow> nat \<Rightarrow> nat \<Rightarrow> FuncParamFlags \<Rightarrow> u8 list \<Rightarrow> (printed \<times> u8 list) option" where
  "print_param nparams i idx param data =
     Option.bind
       (if IsStr param then map_option (\<lambda>(s, d). (0, 0, s, d)) (readStr data)
        else Option.bind (readUint64 data) (\<lambda>(arg, data).
          if IsNumberPtr param then map_option (\<lambda>(v, d). (arg, v, [], d)) (readUint64 data)
          else Some (arg, 0, [], data)))
       (\<lambda>(arg, argVal, argStr, data).
         Option.bind (if Suc i < nparams then getU64 data else Some 0) (\<lambda>valNext.
         if nparams \<le> idx then None
         else Some (\<lparr>p_index = idx, p_arg = arg, p_argVal = argVal, p_valNext = valNext,
           p_argStr = argStr\<rparr>, data)))"

fun print_params ::
  "nat \<Rightarrow> nat \<Rightarrow> nat \<Rightarrow> FuncParamFlags list \<Rightarrow> u8 list \<Rightarrow> (printed list \<times> u8 list) option" where
  "print_params nparams i idx [] data = Some ([], data)"
| "print_params nparams i idx (param # params) data =
     (if partOfPrevParam param then print_params nparams (Suc i) idx params data
      else Option.bind (print_param nparams i idx param data) (\<lambda>(p, data).
        map_option (\<lambda>(ps, d). (p # ps, d)) (print_params nparams (Suc i) (Suc idx) params data)))"

section \<open>The return value\<close>

datatype action = Named string | Number int

definition xdpActions :: "string list" where
  "xdpActions = [''XDP_ABORTED'', ''XDP_DROP'', ''XDP_PASS'', ''XDP_TX'', ''XDP_REDIRECT'']"

definition xdpAction :: "int \<Rightarrow> action" where
  "xdpAction a = (if 0 \<le> a \<and> a \<le> 4 then Named (xdpActions ! nat a) else Number a)"

definition tcActions :: "string list" where
  "tcActions =
     [''TC_ACT_UNSPEC'', ''TC_ACT_OK'', ''TC_ACT_RECLASSIFY'', ''TC_ACT_SHOT'', ''TC_ACT_PIPE'',
      ''TC_ACT_STOLEN'', ''TC_ACT_QUEUED'', ''TC_ACT_REPEAT'', ''TC_ACT_REDIRECT'', ''TC_ACT_TRAP'']"

definition tcAction :: "int \<Rightarrow> action" where
  "tcAction a = (if - 1 \<le> a \<and> a \<le> 8 then Named (tcActions ! nat (a + 1)) else Number a)"

datatype prog_type = XDP | SchedCLS | OtherProg

text \<open>
  A program's verdict, or the value, the value behind it and the string, of which the printing
  routine chooses by the type; a function without a signature prints the number alone.
\<close>

datatype retval = Action action | Value u64 u64 "u8 list" | Raw u64

definition outputFnRetval :: "prog_type option \<Rightarrow> bool \<Rightarrow> u8 list \<Rightarrow> u8 list \<Rightarrow> retval option" where
  "outputFnRetval isProg proto s data =
     (if isProg = Some XDP then
        if length data < 4 then None else Some (Action (xdpAction (uint (load_le 0 4 data :: u32))))
      else if isProg = Some SchedCLS then
        if length data < 4 then None else Some (Action (tcAction (uint (load_le 0 4 data :: u32))))
      else if proto then
        let b = store 0 (take 24 data) (replicate 24 0)
        in Some (Value (load_le 0 8 b) (load_le 8 8 b) s)
      else map_option Raw (getU64 data))"

section \<open>The arguments of a record\<close>

definition outputFnArgs ::
  "prog_type option \<Rightarrow> nat \<Rightarrow> FuncParamFlags list \<Rightarrow> FuncParamFlags \<Rightarrow> u8 list \<Rightarrow> bool
     \<Rightarrow> (printed list \<times> retval option) option" where
  "outputFnArgs isProg nparams params retParam data withRetval =
     Option.bind (print_params nparams 0 0 params data) (\<lambda>(ps, data).
       if \<not> withRetval then Some (ps, None)
       else Option.bind
         (if IsStr retParam then
            if length data < maxOutputStrLen then None else Some (NullTerminated (take maxOutputStrLen data))
          else Some [])
         (\<lambda>retStr. map_option (\<lambda>r. (ps, Some r)) (outputFnRetval isProg True retStr data)))"

section \<open>Reading what was written\<close>

text \<open>What has to be printed for the parameter with flags \<open>prm\<close> and value \<open>v\<close>.\<close>

definition printed_of :: "helpers \<Rightarrow> nat \<Rightarrow> FuncParamFlags \<Rightarrow> u64 \<Rightarrow> u64 \<Rightarrow> printed" where
  "printed_of h i prm v nxt =
     \<lparr>p_index = i, p_arg = (if IsStr prm then 0 else v),
      p_argVal = (if \<not> IsStr prm \<and> IsNumberPtr prm then probe_word h v 8 else 0), p_valNext = nxt,
      p_argStr = (if IsStr prm then NullTerminated (probe_str h v maxOutputStrLen) else [])\<rparr>"

lemma readUint64_append:
  "length bs = 8 \<Longrightarrow> readUint64 (bs @ rest) = Some (le_word bs, rest)"
  by (simp add: readUint64_def getU64_def load_le_def bslice_def)

lemma readStr_append:
  "length bs = maxOutputStrLen \<Longrightarrow> readStr (bs @ rest) = Some (NullTerminated bs, rest)"
  by (simp add: readStr_def readStrN_def)

lemma print_param_prm_bytes:
  assumes "idx < nparams" "Suc i < nparams \<Longrightarrow> getU64 rest = Some nxt" "\<not> Suc i < nparams \<Longrightarrow> nxt = 0"
  shows "print_param nparams i idx prm (prm_bytes h prm v @ rest) = Some (printed_of h idx prm v nxt, rest)"
  using assms
  by (cases "Suc i < nparams")
    (auto simp: print_param_def prm_bytes_def printed_of_def readUint64_append readStr_append
      le_word_le_bytes probe_word_def)

text \<open>The first eight bytes of the next parameter's value.\<close>

definition next_value :: "helpers \<Rightarrow> FuncParamFlags list \<Rightarrow> u64 list \<Rightarrow> u64" where
  "next_value h prms args = (case (prms, args) of
     (p # _, a # _) \<Rightarrow> load_le 0 8 (prm_bytes h p a) | _ \<Rightarrow> 0)"

fun printed_all :: "helpers \<Rightarrow> nat \<Rightarrow> FuncParamFlags list \<Rightarrow> u64 list \<Rightarrow> printed list" where
  "printed_all h i [] args = []"
| "printed_all h i (p # ps) args =
     printed_of h i p (hd args) (next_value h ps (tl args)) # printed_all h (Suc i) ps (tl args)"

lemma getU64_prm_bytes: "getU64 (prm_bytes h p a @ rest) = Some (load_le 0 8 (prm_bytes h p a))"
proof -
  have "8 \<le> prm_size p" by (simp add: prm_size_def maxOutputStrLen_def)
  then show ?thesis by (simp add: getU64_def load_le_def bslice_def)
qed

lemma print_params_serial:
  assumes "list_all (\<lambda>p. \<not> partOfPrevParam p) prms" "length prms \<le> length args" "i + length prms = n"
  shows "print_params n i i prms (concat (map2 (prm_bytes h) prms args) @ rest) = Some (printed_all h i prms args, rest)"
  using assms
proof (induction prms arbitrary: i args)
  case (Cons p ps)
  then obtain a as where args: "args = a # as" by (cases args) auto
  let ?bs = "concat (map2 (prm_bytes h) ps as) @ rest"
  have nxt: "Suc i < n \<Longrightarrow> getU64 ?bs = Some (next_value h ps as)" "\<not> Suc i < n \<Longrightarrow> next_value h ps as = 0"
    using Cons.prems args by (cases ps; cases as; auto simp: next_value_def getU64_prm_bytes)+
  have "print_params n (Suc i) (Suc i) ps ?bs = Some (printed_all h (Suc i) ps as, rest)"
    using Cons.prems args by (intro Cons.IH) auto
  with Cons.prems print_param_prm_bytes [of i n i ?bs "next_value h ps as" p h a, OF _ nxt] show ?case
    by (simp add: args)
qed simp

lemma length_printed_all [simp]: "length (printed_all h i prms args) = length prms"
  by (induction prms arbitrary: i args) simp_all

lemma nth_printed_all:
  "k < length prms \<Longrightarrow> length prms \<le> length args \<Longrightarrow> printed_all h i prms args ! k =
     printed_of h (i + k) (prms ! k) (args ! k) (next_value h (drop (Suc k) prms) (drop (Suc k) args))"
proof (induction prms arbitrary: i args k)
  case (Cons p ps)
  then obtain a as where "args = a # as" by (cases args) auto
  with Cons show ?case by (cases k) auto
qed simp

lemma outputFnRetval_prm_bytes:
  "\<exists>x y. outputFnRetval None True s (prm_bytes h ret rv) = Some (Value x y s) \<and>
     (\<not> IsStr ret \<longrightarrow> x = rv \<and> (IsNumberPtr ret \<longrightarrow> y = probe_word h rv 8))"
  by (auto simp: outputFnRetval_def prm_bytes_def Let_def store_def load_le_def bslice_def le_word_le_bytes
      probe_word_def)

lemma outputFnArgs_serial:
  assumes plain: "list_all (\<lambda>p. \<not> partOfPrevParam p) prms" and len: "length prms \<le> length args"
  shows "\<exists>ps r. outputFnArgs None (length prms) prms ret (serial h prms ret wr args rv) wr = Some (ps, r) \<and>
    length ps = length prms \<and>
    (\<forall>k<length prms. \<exists>nxt. ps ! k = printed_of h k (prms ! k) (args ! k) nxt) \<and>
    (if wr then \<exists>x y. r = Some (Value x y (if IsStr ret then NullTerminated (probe_str h rv maxOutputStrLen) else [])) \<and>
         (\<not> IsStr ret \<longrightarrow> x = rv \<and> (IsNumberPtr ret \<longrightarrow> y = probe_word h rv 8))
     else r = None)"
proof -
  let ?rest = "if wr then prm_bytes h ret rv else []"
  have "print_params (length prms) 0 0 prms (serial h prms ret wr args rv) = Some (printed_all h 0 prms args, ?rest)"
    unfolding serial_def by (rule print_params_serial) (use assms in simp_all)
  moreover have "\<exists>nxt. printed_all h 0 prms args ! k = printed_of h k (prms ! k) (args ! k) nxt" if "k < length prms" for k
    using nth_printed_all [OF that len, of h 0] by auto
  moreover have "IsStr ret \<Longrightarrow> prm_bytes h ret rv = probe_str h rv maxOutputStrLen" by (simp add: prm_bytes_def)
  ultimately show ?thesis
    using outputFnRetval_prm_bytes [of "NullTerminated (probe_str h rv maxOutputStrLen)" h ret rv]
      outputFnRetval_prm_bytes [of "[]" h ret rv]
    by (auto simp: outputFnArgs_def)
qed

text \<open>After a parameter that takes two registers, the consumer is eight bytes behind: it skips the flags
  of the second register without taking its value out, so that the next parameter is printed with
  the second half of the structure in place of its own value.\<close>

lemma struct_parameter_shifts:
  assumes s: "Sizeof s = Some n" "8 < n" "n \<le> 16" and q: "Sizeof q = Some 8" "\<not> IsConstCharPtr q" "\<not> IsNumberPointer q"
    and flags: "getFuncParams [s, q] rt = Inr (prms, ret)" and args: "args = [lo, hi, v]"
  shows "outputFnArgs None 2 prms ret (serial h prms ret False args rv) False =
    Some ([\<lparr>p_index = 0, p_arg = lo, p_argVal = 0, p_valNext = hi, p_argStr = []\<rparr>,
           \<lparr>p_index = 1, p_arg = hi, p_argVal = 0, p_valNext = 0, p_argStr = []\<rparr>], None)"
proof -
  have prms: "prms = [\<lparr>IsNumberPtr = False, IsStr = False, partOfPrevParam = False\<rparr>,
      \<lparr>IsNumberPtr = False, IsStr = False, partOfPrevParam = True\<rparr>,
      \<lparr>IsNumberPtr = False, IsStr = False, partOfPrevParam = False\<rparr>]"
    using flags s q by (simp add: getFuncParams_def)
  have "getU64 (le_bytes 8 w @ r) = Some w" for w :: u64 and r
    by (simp add: getU64_def load_le_def bslice_def le_word_le_bytes)
  then show ?thesis
    by (simp add: prms args serial_def prm_bytes_def outputFnArgs_def print_param_def readUint64_def)
qed

text \<open>
  A traffic-control verdict of -1 is never printed by its name: the consumer widens the 32-bit
  number without its sign, and looks the name of 4294967295 up.
\<close>

lemma tc_verdict_names:
  "outputFnRetval (Some SchedCLS) proto s (le_bytes 4 w @ rest) =
     Some (Action (if w \<le> 8 then Named (tcActions ! Suc (unat w)) else Number (uint (w :: u32))))"
  "tcAction (sint (- 1 :: s32)) = Named ''TC_ACT_UNSPEC''"
proof -
  have "uint w \<le> 8 \<longleftrightarrow> w \<le> 8" by (simp add: word_le_def)
  moreover have "- 1 \<le> uint w" by (rule order.trans [of _ 0]) simp_all
  moreover have "nat (uint w + 1) = Suc (unat w)" by (simp add: nat_add_distrib)
  ultimately show "outputFnRetval (Some SchedCLS) proto s (le_bytes 4 w @ rest) =
     Some (Action (if w \<le> 8 then Named (tcActions ! Suc (unat w)) else Number (uint w)))"
    by (simp add: outputFnRetval_def load_le_def bslice_def le_word_le_bytes tcAction_def)
qed (simp add: tcAction_def tcActions_def)

section \<open>Properties\<close>

text \<open>C16: what the generated code wrote is read back: for a signature without 16-byte structures, the
  consumer takes exactly the arguments out of the area, with what the pointers to numbers point
  to and the strings up to their terminator, each under its own parameter; and the return value.\<close>

theorem arguments_roundtrip:
  assumes plain: "list_all (\<lambda>p. \<not> partOfPrevParam p) prms" and len: "length prms \<le> length args"
  shows "\<exists>ps r. outputFnArgs None (length prms) prms ret (serial h prms ret wr args rv) wr = Some (ps, r) \<and>
    length ps = length prms \<and>
    (\<forall>k<length prms. \<exists>nxt. ps ! k = printed_of h k (prms ! k) (args ! k) nxt) \<and>
    (if wr then \<exists>x y. r = Some (Value x y (if IsStr ret then NullTerminated (probe_str h rv maxOutputStrLen) else [])) \<and>
         (\<not> IsStr ret \<longrightarrow> x = rv \<and> (IsNumberPtr ret \<longrightarrow> y = probe_word h rv 8))
     else r = None)"
  by (rule outputFnArgs_serial [OF assms])

end
