(* ===== verification/Loader_Hooks.thy ===== *)
theory Loader_Hooks imports Go_Consumer Fn_Props begin

section \<open>The area of the printed arguments\<close>

text \<open>The packet and argument routines, which come later, leave the area alone.\<close>

lemma fill_record_args_area:
  assumes hk: "hooks_within c hk"
  shows "bslice sizeof_event (unat (buf_size (fn_args c))) (fill_record hk c args rv buf) =
    bslice sizeof_event (unat (buf_size (fn_args c))) (hook_output_fn_args hk args rv sizeof_event buf)"
proof -
  have "writes_within (hook_output_pkt hk args (pkt_off c)) (pkt_off c) sizeof_pkt_data"
    "writes_within (hook_output_arg hk args (arg_off c)) (arg_off c) (unat (data_size (fn_args c)))"
    using hk by (simp_all add: hooks_within_def)
  moreover have "sizeof_event + unat (buf_size (fn_args c)) = pkt_off c" by (simp add: pkt_off_def)
  ultimately show ?thesis
    using record_areas(2) [of c] by (simp add: fill_record_eq Let_def writes_withinD(2))
qed

text \<open>
  How the loader sets a program up for a signature: the generated routine is spliced in, and the
  configuration tells the number of arguments, the return value and the size of the area.
\<close>

definition loaded_for ::
  "helpers \<Rightarrow> u8 list \<Rightarrow> FuncParamFlags list \<Rightarrow> FuncParamFlags \<Rightarrow> bool \<Rightarrow> bpfsnoop_config \<Rightarrow> hooks \<Rightarrow> bool" where
  "loaded_for h stack prms ret wr c hk \<longleftrightarrow>
     length stack = FRAME \<and> length prms \<le> MAX_FN_ARGS \<and>
     hook_output_fn_args hk = gen_output_fn_args h stack prms ret wr \<and>
     fn_args c = \<lparr>args_nr = of_nat (length prms), with_retval = wr,
       buf_size = of_nat (snd (genOutputFuncArgs prms ret wr)), data_size = data_size (fn_args c)\<rparr>"

lemma prm_size_le: "sum_list (map prm_size prms) \<le> 64 * length prms"
proof (induction prms)
  case (Cons p ps)
  have "prm_size p \<le> 64" by (simp add: prm_size_def maxOutputStrLen_def)
  with Cons show ?case by simp
qed simp

lemma serial_size_le: "length prms \<le> MAX_FN_ARGS \<Longrightarrow> serial_size prms ret wr \<le> 832"
  using prm_size_le [of prms] prm_size_le [of "[ret]"] by (auto simp: serial_size_def MAX_FN_ARGS_def)

lemma loaded_buf_size:
  assumes "loaded_for h stack prms ret wr c hk"
  shows "unat (buf_size (fn_args c)) = serial_size prms ret wr"
proof -
  have "fn_args c = \<lparr>args_nr = of_nat (length prms), with_retval = wr,
       buf_size = of_nat (snd (genOutputFuncArgs prms ret wr)), data_size = data_size (fn_args c)\<rparr>"
    and le: "serial_size prms ret wr \<le> 832"
    using assms serial_size_le by (simp_all add: loaded_for_def)
  then have "buf_size (fn_args c) = of_nat (serial_size prms ret wr)"
    by (metis bpfsnoop_fn_args.select_convs(3) genOutputFuncArgs_size)
  with le show ?thesis by (simp add: unat_of_nat take_bit_nat_eq_self)
qed

lemma length_read_args [simp]: "length (read_args h ctx nr) = MAX_FN_ARGS"
  by (simp add: read_args_def Let_def)

lemma fn_submit_events:
  "events (fn_submit B hk ro h ctx sid ty st) =
     (case ringbuf_record h (record_size (rd_cfg ro)) of None \<Rightarrow> events st
      | Some buf \<Rightarrow> events st @ [fill_record hk (rd_cfg ro) (fn_args_of ro h ctx) (fn_retval ro h ctx)
          (write_event (fn_header ro h ctx sid ty) buf)])"
  by (simp add: fn_submit_def submit_record_events)

text \<open>The area of a record holds the serialised values.\<close>

lemma loaded_args_area:
  assumes ld: "loaded_for h stack prms ret wr c hk" and hk: "hooks_within c hk"
    and len: "length buf = record_size c" "length prms \<le> length args"
  shows "bslice sizeof_event (serial_size prms ret wr) (fill_record hk c args rv buf) = serial h prms ret wr args rv"
proof -
  note sz = loaded_buf_size [OF ld]
  have l: "length stack = FRAME" "serial_size prms ret wr \<le> 2 ^ 15" "hook_output_fn_args hk = gen_output_fn_args h stack prms ret wr"
    using ld serial_size_le [of prms ret wr] by (auto simp: loaded_for_def)
  have fit: "sizeof_event + serial_size prms ret wr \<le> length buf"
    using len(1) sz record_areas(1-3) [of c] by (simp add: pkt_off_def)
  show ?thesis
    using fill_record_args_area [OF hk, of args rv buf] len fit
    by (simp add: sz l(3) gen_output_fn_args_eq [OF l(1,2)] buf_simps length_serial)
qed

section \<open>Properties\<close>

text \<open>A signature whose parameters fit into registers, at most twelve, gives a routine that keeps to
  the area the loader reserves for it, for any arguments, any record and any offset in it; so
  the tracer with this routine in place of the one in the C file meets the contract its properties
  rest on.\<close>

lemma loaded_hooks_within:
  assumes "loaded_for h stack prms ret wr c hk" and others: "hooks_within c (hk\<lparr>hook_output_fn_args := output_fn_args\<rparr>)"
  shows "hooks_within c hk"
proof -
  have l: "length stack = FRAME" "serial_size prms ret wr \<le> 2 ^ 15" "hook_output_fn_args hk = gen_output_fn_args h stack prms ret wr"
    using assms(1) serial_size_le [of prms ret wr] by (auto simp: loaded_for_def)
  from gen_output_fn_args_within [OF l(1,2)] loaded_buf_size [OF assms(1)] others show ?thesis
    by (simp add: hooks_within_def l(3))
qed

text \<open>C8: a matched exit, end to end: with the generated routine in place, the record the function tracer
  submits is one from which the consumer prints, under each parameter of the signature, the word the
  trampoline's context holds for it, with the string or the number it points to, and the return value
  that follows them.\<close>

theorem traced_values_are_printed:
  assumes map: "session_map S view ok" "ok (sessions st)"
    and act: "fn_active ro h st" "cfg_both_entry_exit (rd_cfg ro)" "\<not> cfg_is_entry (rd_cfg ro)"
    and fp: "fp = fn_fp ro h ctx (tramp_fp_offset st)" "view (sessions st) fp = Some s"
    and ld: "loaded_for h stack prms ret True (rd_cfg ro) hk" and hk: "hooks_within (rd_cfg ro) hk"
    and plain: "list_all (\<lambda>p. \<not> partOfPrevParam p) prms"
    and room: "bpf_ringbuf_reserve h (record_size (rd_cfg ro)) \<noteq> None"
    and st': "st' = snd (bpfsnoop_fn S B hk ro h ctx st)"
  shows "\<exists>r ps x y. events st' = events st @ [r] \<and>
    outputFnArgs None (length prms) prms ret (bslice sizeof_event (unat (buf_size (fn_args (rd_cfg ro)))) r) True =
      Some (ps, Some (Value x y (if IsStr ret then NullTerminated (probe_str h (fn_retval ro h ctx) maxOutputStrLen) else []))) \<and>
    (\<not> IsStr ret \<longrightarrow> x = fn_retval ro h ctx) \<and> length ps = length prms \<and>
    (\<forall>k<length prms. \<exists>nxt. ps ! k = printed_of h k (prms ! k) (load_le (8 * k) 8 (probe_bytes h ctx (8 * length prms))) nxt)"
proof -
  from room obtain f where f: "bpf_ringbuf_reserve h (record_size (rd_cfg ro)) = Some f" by blast
  let ?c = "rd_cfg ro" and ?rv = "fn_retval ro h ctx" and ?args = "fn_args_of ro h ctx"
  let ?buf = "write_event (fn_header ro h ctx (session_id s - 1) BPFSNOOP_EVENT_TYPE_FUNC_EXIT)
    (List.map f [0..<record_size ?c])"
  have ev: "events st' = events st @ [fill_record hk ?c ?args ?rv ?buf]"
    by (simp add: st' fn_matched_exit [OF map act fp] fn_submit_events ringbuf_record_def f)
  have n: "length prms \<le> MAX_FN_ARGS" "args_nr (fn_args ?c) = of_nat (length prms)"
    using ld unfolding loaded_for_def by (simp, metis bpfsnoop_fn_args.select_convs(1))
  then have "8 * args_nr (fn_args ?c) = of_nat (8 * length prms)" by simp
  with n(1) have nw: "unat (8 * args_nr (fn_args ?c)) = 8 * length prms"
    by (simp only: unat_of_nat) (simp add: MAX_FN_ARGS_def take_bit_nat_eq_self)
  have area: "bslice sizeof_event (unat (buf_size (fn_args ?c))) (fill_record hk ?c ?args ?rv ?buf) = serial h prms ret True ?args ?rv"
    unfolding loaded_buf_size [OF ld]
    by (rule loaded_args_area [OF ld hk]) (use n in \<open>simp_all add: fn_args_of_def\<close>)
  have args: "?args ! k = load_le (8 * k) 8 (probe_bytes h ctx (8 * length prms))" if "k < length prms" for k
    using that n nw by (simp add: fn_args_of_def read_args_def Let_def)
  have len: "length prms \<le> length ?args" using n(1) by (simp add: fn_args_of_def)
  show ?thesis
    using outputFnArgs_serial [OF plain len, where h = h and ret = ret and wr = True and rv = ?rv] args
    by (auto simp: ev area)
qed

end
