(* ===== verification/Go_Packet.thy ===== *)
theory Go_Packet
  imports Pkt_Props Tracer
begin

text \<open>
  The consumer's side of a packet (\<^verbatim>\<open>internal/bpfsnoop/bpfsnoop_pkt.go\<close>): the text it prints for the
  packet area of a record.
\<close>

section \<open>The packet record\<close>

record PktData =
  Addrs :: "u8 list"
  Ports :: "u8 list"
  Proto :: u8
  TCPFl :: u8
  PktPad :: "u8 list"

definition sizeOfPktData :: nat where
  "sizeOfPktData = 8 + 4 + 1 + 1 + 2"

text \<open>The cast of the record's bytes; a slice that is too short is a panic of the caller.\<close>

definition go_pkt_data :: "u8 list \<Rightarrow> PktData" where
  "go_pkt_data data =
     \<lparr>Addrs = bslice 0 8 data, Ports = bslice 8 4 data, Proto = data ! 12, TCPFl = data ! 13,
      PktPad = bslice 14 2 data\<rparr>"

definition pkt_zero :: "PktData \<Rightarrow> bool" where
  "pkt_zero p \<longleftrightarrow> Addrs p = replicate 8 0"

definition saddr :: "PktData \<Rightarrow> u8 list" where "saddr p = take 4 (Addrs p)"
definition daddr :: "PktData \<Rightarrow> u8 list" where "daddr p = drop 4 (Addrs p)"

definition be_Uint16 :: "u8 list \<Rightarrow> u16" where
  "be_Uint16 b = ucast (b ! 1) OR push_bit 8 (ucast (b ! 0))"

definition sport :: "PktData \<Rightarrow> u16" where "sport p = be_Uint16 (take 2 (Ports p))"
definition dport :: "PktData \<Rightarrow> u16" where "dport p = be_Uint16 (drop 2 (Ports p))"

section \<open>Its text\<close>

text \<open>The library's formatting of a number in decimal, and of an IPv4 address.\<close>

fun decimal :: "nat \<Rightarrow> string" where
  "decimal n = (if n < 10 then [char_of (48 + n)] else decimal (n div 10) @ [char_of (48 + n mod 10)])"

declare decimal.simps [simp del]

fun join :: "string \<Rightarrow> string list \<Rightarrow> string" where
  "join sep [] = []"
| "join sep [s] = s"
| "join sep (s # ss) = s @ sep @ join sep ss"

definition dotted :: "u8 list \<Rightarrow> string" where
  "dotted a = join ''.'' (map (\<lambda>b. decimal (unat b)) a)"

definition tcpFlags :: "PktData \<Rightarrow> string" where
  "tcpFlags p =
     join ''|'' (map snd (filter (\<lambda>(i, flag). TCPFl p AND push_bit i 1 \<noteq> 0)
       (enumerate 0 [''FIN'', ''SYN'', ''RST'', ''PSH'', ''ACK'', ''URG'', ''ECE'', ''CWR''])))"

definition endpoint :: "u8 list \<Rightarrow> nat \<Rightarrow> string" where
  "endpoint a port = dotted a @ '':'' @ decimal port"

definition pkt_repr :: "PktData \<Rightarrow> string" where
  "pkt_repr p =
     (if Proto p = 6 then
        endpoint (saddr p) (unat (sport p)) @ '' -> '' @ endpoint (daddr p) (unat (dport p)) @
          '' (TCP:'' @ tcpFlags p @ '')''
      else if Proto p = 17 then
        endpoint (saddr p) (unat (sport p)) @ '' -> '' @ endpoint (daddr p) (unat (dport p)) @ '' (UDP)''
      else if Proto p = 1 then dotted (saddr p) @ '' -> '' @ dotted (daddr p) @ '' (ICMP)''
      else ''..UNK..'')"

text \<open>The text without colors.\<close>

definition outputPktTuple :: "u8 list \<Rightarrow> string" where
  "outputPktTuple data =
     (let pktData = go_pkt_data data
      in if pkt_zero pktData then [] else ''Pkt tuple: '' @ pkt_repr pktData @ [char_of (10 :: nat)])"

section \<open>The text of a packet\<close>

text \<open>The reference, over the bytes of an IPv4 packet: addresses and ports are in network order.\<close>

definition net16 :: "nat \<Rightarrow> u8 list \<Rightarrow> nat" where
  "net16 i bs = 256 * unat (bs ! i) + unat (bs ! (i + 1))"

definition flag_names :: "u8 \<Rightarrow> string" where
  "flag_names fl = join ''|'' (concat (map (\<lambda>(i, f). if bit fl i then [f] else [])
     [(0, ''FIN''), (1, ''SYN''), (2, ''RST''), (3, ''PSH''), (4, ''ACK''), (5, ''URG''), (6, ''ECE''), (7, ''CWR'')]))"

definition packet_text :: "u8 list \<Rightarrow> string" where
  "packet_text ip =
     (let src = bslice 12 4 ip; dst = bslice 16 4 ip; t = ip_hdr_len ip in
      if ip ! 9 = 1 then dotted src @ '' -> '' @ dotted dst @ '' (ICMP)''
      else endpoint src (net16 t ip) @ '' -> '' @ endpoint dst (net16 (t + 2) ip) @
        (if ip ! 9 = 6 then '' (TCP:'' @ flag_names (ip ! (t + 13)) @ '')'' else '' (UDP)''))"

lemma tcpFlags_eq: "tcpFlags p = flag_names (TCPFl p)"
proof -
  have "TCPFl p AND push_bit i 1 \<noteq> 0 \<longleftrightarrow> bit (TCPFl p) i" for i
    by (simp add: push_bit_eq_mult and_exp_eq_0_iff_not_bit flip: exp_eq_0_imp_not_bit)
  then show ?thesis
    by (simp add: tcpFlags_def flag_names_def numeral_2_eq_2 numeral_3_eq_3 eval_nat_numeral del: join.simps)
qed

lemma unat_be_Uint16: "length b = 2 \<Longrightarrow> unat (be_Uint16 b) = net16 0 b"
proof -
  have "unat (ucast x OR push_bit 8 (ucast y) :: u16) = 256 * unat y + unat x" for x y :: u8
  proof -
    have lt: "unat x < 256" "unat y < 256" using unsigned_less [of x] unsigned_less [of y] by simp_all
    have "(ucast x :: u16) AND push_bit 8 (ucast y) = 0"
      by (rule bit_word_eqI) (auto simp: bit_simps dest: bit_imp_le_length)
    then have "(ucast x OR push_bit 8 (ucast y) :: u16) = ucast x + push_bit 8 (ucast y)"
      by (simp add: disjunctive_add_eq_or)
    moreover have "unat (push_bit 8 (ucast y) :: u16) = 256 * unat y"
      using lt by (simp add: push_bit_eq_mult unat_word_ariths unsigned_ucast_eq take_bit_eq_mod)
    ultimately show ?thesis
      using lt by (simp add: unat_word_ariths unsigned_ucast_eq take_bit_eq_mod)
  qed
  then show "unat (be_Uint16 b) = net16 0 b" by (simp add: be_Uint16_def net16_def)
qed


section \<open>The record of a packet\<close>

lemma bslice_bslice: "i + k \<le> n \<Longrightarrow> bslice i k (bslice j n bs) = bslice (j + i) k bs"
  by (simp add: bslice_def take_drop min_def ac_simps)

lemma go_pkt_data_bytes:
  assumes "length (pkt_pad p) = 2"
  shows "go_pkt_data (pkt_bytes p) = \<lparr>Addrs = le_bytes 8 (pkt_addrs p), Ports = le_bytes 4 (pkt_ports p),
    Proto = pkt_protocol p, TCPFl = pkt_tcp_flags p, PktPad = pkt_pad p\<rparr>"
proof -
  have "le_bytes (Suc 0) w = [w]" for w :: u8 by (simp add: le_bytes_def)
  with assms show ?thesis
    by (simp add: go_pkt_data_def pkt_bytes_def bslice_def nth_append)
qed

text \<open>What the consumer prints for the tuple of a packet.\<close>

lemma tuple_printed:
  assumes ip: "short_ipv4 ip" "ip ! 9 \<in> {1, 6, 17}" and p: "length (pkt_pad p) = 2"
    and zero: "bslice 12 8 ip \<noteq> replicate 8 0"
  shows "outputPktTuple (pkt_bytes (rfc_tuple ip p)) = ''Pkt tuple: '' @ packet_text ip @ [char_of (10 :: nat)]"
proof -
  let ?t = "ip_hdr_len ip" and ?p = "rfc_tuple ip p"
  have len: "20 \<le> length ip" "ip ! 9 \<in> {6, 17} \<Longrightarrow> ?t + 4 \<le> length ip"
    using ip(1) by (auto simp: short_ipv4_def tuple_len_def split: if_splits)
  have pad: "length (pkt_pad ?p) = 2" using p by (simp add: rfc_tuple_def)
  have addrs: "le_bytes 8 (load_le 12 8 ip :: u64) = bslice 12 8 ip"
    unfolding load_le_def by (rule le_bytes_le_word) (use len in \<open>simp_all add: length_slice\<close>)
  have ports: "le_bytes 4 (load_le ?t 4 ip :: u32) = bslice ?t 4 ip" if "ip ! 9 \<in> {6, 17}"
    unfolding load_le_def by (rule le_bytes_le_word) (use len that in \<open>simp_all add: length_slice\<close>)
  have ends: "take 4 (bslice 12 8 ip) = bslice 12 4 ip" "drop 4 (bslice 12 8 ip) = bslice 16 4 ip"
    by (simp_all add: bslice_def drop_take)
  have port: "unat (be_Uint16 (take 2 (bslice ?t 4 ip))) = net16 ?t ip"
    "unat (be_Uint16 (drop 2 (bslice ?t 4 ip))) = net16 (?t + 2) ip" if "ip ! 9 \<in> {6, 17}"
    using len(2) [OF that] by (simp_all add: unat_be_Uint16 bslice_def net16_def numeral_eq_Suc)
  from ip(2) consider "ip ! 9 = 1" | "ip ! 9 = 6" | "ip ! 9 = 17" by auto
  then show ?thesis
  proof cases
    case 1
    then show ?thesis using zero ends
      by (simp add: outputPktTuple_def go_pkt_data_bytes [OF pad] pkt_zero_def pkt_repr_def packet_text_def
          saddr_def daddr_def Let_def) (simp add: rfc_tuple_def addrs)
  next
    case 2
    then show ?thesis using zero ends port ports
      by (simp add: outputPktTuple_def go_pkt_data_bytes [OF pad] pkt_zero_def pkt_repr_def packet_text_def
          saddr_def daddr_def sport_def dport_def tcpFlags_eq Let_def) (simp add: rfc_tuple_def addrs)
  next
    case 3
    then show ?thesis using zero ends port ports
      by (simp add: outputPktTuple_def go_pkt_data_bytes [OF pad] pkt_zero_def pkt_repr_def packet_text_def
          saddr_def daddr_def sport_def dport_def Let_def) (simp add: rfc_tuple_def addrs)
  qed
qed

section \<open>Properties\<close>

text \<open>C14: tracer and consumer together: when the packet routine of a program is the one for socket buffers and
  the traced argument's packet is TCP, UDP or ICMP over IPv4 with an address that is not zero, the consumer
  prints, from the record's packet area, exactly that packet (the one in the VXLAN tunnel, if tunnels are
  skipped): its addresses, its ports in network order and its TCP flags by name.\<close>

theorem traced_packet_is_printed:
  assumes mem: "kernel_memory (bpf_probe_read_kernel h) mem" and L: "net_layout L" and at: "bytes_at mem iph ip"
    and skb: "iph = core_read h L 8 ''sk_buff'' ''head'' (args ! k) +
      ucast (core_read h L 2 ''sk_buff'' ''network_header'' (args ! k) :: u16)"
    and len: "20 \<le> length ip" "ip_hdr_len ip + 4 \<le> length ip"
    and inner: "inner = (if truthy T \<and> vxlan_ip ip then drop 14 (vxlan_payload ip) else ip)"
    and ok: "truthy T \<and> vxlan_ip ip \<Longrightarrow> ip_hdr_len ip = 20" "short_ipv4 inner"
    and shown: "inner ! 9 \<in> {1, 6, 17}" "bslice 12 8 inner \<noteq> replicate 8 0"
    and hk: "hooks_within c hk" "cfg_output_pkt c"
      "hook_output_pkt hk args (pkt_off c) = pkt_in_buffer (output_skb h L T (args ! k)) (pkt_off c)"
    and buf: "length buf = record_size c"
  shows "outputPktTuple (bslice (pkt_off c) sizeOfPktData (fill_record hk c args rv buf)) =
    ''Pkt tuple: '' @ packet_text inner @ [char_of (10 :: nat)]"
proof -
  have "output_skb h L T (args ! k) p = rfc_tuple inner p" for p
    using output_skb_reads [OF mem L at skb len inner ok] by blast
  then have f: "output_skb h L T (args ! k) = rfc_tuple inner" by blast
  let ?buf = "hook_output_fn_args hk args rv sizeof_event buf"
  let ?p = "pkt_of_bytes (bslice (pkt_off c) sizeof_pkt_data ?buf)"
  have n: "length ?buf = record_size c" using hk(1) buf unfolding hooks_within_def by (metis writes_withinD(1))
  have room: "pkt_off c + sizeof_pkt_data \<le> record_size c" using record_areas(3,4) [of c] hk(2) by simp
  have pad: "length (pkt_pad ?p) = 2" using n room by (simp add: pkt_of_bytes_def bslice_def sizeof_pkt_data_def)
  then have "length (pkt_bytes (rfc_tuple inner ?p)) = sizeof_pkt_data"
    by (intro length_pkt_bytes) (simp add: rfc_tuple_def)
  then have "bslice (pkt_off c) sizeof_pkt_data (fill_record hk c args rv buf) = pkt_bytes (rfc_tuple inner ?p)"
    using n room by (simp add: fill_record_pkt_area [OF hk(1,2)] hk(3) f pkt_in_buffer_def slice_store_same)
  moreover have "sizeOfPktData = sizeof_pkt_data" by (simp add: sizeOfPktData_def sizeof_pkt_data_def)
  ultimately show ?thesis using tuple_printed [OF ok(2) shown(1) pad shown(2)] by simp
qed

end
