(* ===== verification/Go_Sessions.thy ===== *)
theory Go_Sessions
  imports Protocol_Props Insn_Tracer Fgraph
begin

text \<open>
  The consumer's side of sessions (\<^verbatim>\<open>internal/bpfsnoop/bpfsnoop_sess.go\<close>, and the handler of a record
  in \<^verbatim>\<open>bpfsnoop.go\<close>, \<^verbatim>\<open>bpfsnoop_insn.go\<close>, \<^verbatim>\<open>bpfsnoop_graph.go\<close>). What is printed for a record is
  an argument; modelled is under which session it is kept and when it is written out.
\<close>

section \<open>Sessions\<close>

record Session =
  s_started :: u32
  s_outputs :: "string list"
  s_tstamps :: "u32 list"
  s_lastidx :: nat

type_synonym Sessions = "u64 \<rightharpoonup> Session"

text \<open>A session of a function whose callees are traced keeps a stack of time stamps.\<close>

definition Sessions_Add :: "u64 \<Rightarrow> u32 \<Rightarrow> bool \<Rightarrow> Sessions \<Rightarrow> Session \<times> Sessions" where
  "Sessions_Add sessID start graph m =
     (let sess = \<lparr>s_started = start, s_outputs = [], s_tstamps = (if graph then [start] else []), s_lastidx = 0\<rparr>
      in (sess, m(sessID \<mapsto> sess)))"

definition Sessions_Get :: "u64 \<Rightarrow> Sessions \<Rightarrow> Session option" where
  "Sessions_Get sessID m = m sessID"

definition Sessions_GetAndDel :: "u64 \<Rightarrow> Sessions \<Rightarrow> Session option \<times> Sessions" where
  "Sessions_GetAndDel sessID m =
     (case m sessID of Some sess \<Rightarrow> (Some sess, m(sessID := None)) | None \<Rightarrow> (None, m))"

text \<open>\<open>None\<close>: the index is out of range, and Go panics.\<close>

definition lastTstamp :: "Session \<Rightarrow> u32 option" where
  "lastTstamp s = (if s_lastidx s < length (s_tstamps s) then Some (s_tstamps s ! s_lastidx s) else None)"

definition pushTstamp :: "u32 \<Rightarrow> Session \<Rightarrow> Session" where
  "pushTstamp ts s = s\<lparr>s_tstamps := s_tstamps s @ [ts], s_lastidx := s_lastidx s + 1\<rparr>"

definition popTstamp :: "Session \<Rightarrow> Session" where
  "popTstamp s =
     (if s_lastidx s = 0 then s
      else s\<lparr>s_tstamps := take (s_lastidx s) (s_tstamps s), s_lastidx := s_lastidx s - 1\<rparr>)"

definition append_output :: "string \<Rightarrow> Session \<Rightarrow> Session" where
  "append_output text s = s\<lparr>s_outputs := s_outputs s @ [text]\<rparr>"

section \<open>Handling a record\<close>

text \<open>How the function of a record is traced.\<close>

record funcInfo =
  insnMode :: bool
  grphMode :: bool
  bothMode :: bool
  isTp :: bool

definition requiredSession :: "funcInfo \<Rightarrow> bool" where
  "requiredSession fnInfo \<longleftrightarrow> insnMode fnInfo \<or> grphMode fnInfo \<or> (bothMode fnInfo \<and> \<not> isTp fnInfo)"

text \<open>\<open>written\<close>: the blocks of text printed so far.\<close>

record consumer =
  go_sessions :: Sessions
  written :: "string list list"

text \<open>
  What the handlers look up: the tracing mode of a function, the instructions and the functions of
  graphs the loader knows, the text of a record (making it is taken to succeed; \<^verbatim>\<open>Go_Consumer\<close> says
  when printing the arguments does), and the least duration to report, in nanoseconds.
\<close>

record consumer_env =
  funcInfo_of :: "u64 \<Rightarrow> funcInfo"
  known_insn :: "u64 \<Rightarrow> bool"
  known_graph :: "u64 \<Rightarrow> bool"
  text_of :: "u8 list \<Rightarrow> string"
  runDelta :: nat

definition outputInsnEvent :: "consumer_env \<Rightarrow> u8 list \<Rightarrow> consumer \<Rightarrow> consumer" where
  "outputInsnEvent env data c =
     (let event = go_insn_event data in
      if \<not> known_insn env (ie_insn_ip event) then c
      else case Sessions_Get (ie_session_id event) (go_sessions c) of None \<Rightarrow> c
      | Some sess \<Rightarrow>
          c\<lparr>go_sessions := (go_sessions c)(ie_session_id event \<mapsto> append_output (text_of env data) sess)\<rparr>)"

text \<open>The time since the last stamp is part of the text, so that a missing stamp is a panic.\<close>

definition outputGraphEvent :: "consumer_env \<Rightarrow> bool \<Rightarrow> u8 list \<Rightarrow> consumer \<Rightarrow> consumer option" where
  "outputGraphEvent env isEntry data c =
     (let event = go_graph_event data in
      case Sessions_Get (fe_session_id event) (go_sessions c) of None \<Rightarrow> Some c
      | Some sess \<Rightarrow> (case lastTstamp sess of None \<Rightarrow> None
         | Some ts \<Rightarrow>
           let sess = (if isEntry then pushTstamp (fe_kernel_ts event) sess else popTstamp sess)
           in Some (c\<lparr>go_sessions :=
                (go_sessions c)(fe_session_id event \<mapsto> append_output (text_of env data) sess)\<rparr>)))"

text \<open>The time between two stamps is computed in 32 bits.\<close>

definition duration :: "u32 \<Rightarrow> u32 \<Rightarrow> nat" where
  "duration start now = unat (now - start)"

definition handle_function :: "consumer_env \<Rightarrow> u8 list \<Rightarrow> consumer \<Rightarrow> consumer" where
  "handle_function env data c =
     (let event = go_event data; fnInfo = funcInfo_of env (func_ip event); text = text_of env data;
          haveRetval = (evt_type event = event_type_code BPFSNOOP_EVENT_TYPE_FUNC_EXIT)
      in
      if requiredSession fnInfo then
        if evt_type event = event_type_code BPFSNOOP_EVENT_TYPE_FUNC_ENTRY then
          let (sess, m) = Sessions_Add (evt_session_id event) (kernel_ts event) (grphMode fnInfo) (go_sessions c)
          in c\<lparr>go_sessions := m(evt_session_id event \<mapsto> append_output text sess)\<rparr>
        else
          let (r, m) = Sessions_GetAndDel (evt_session_id event + 1) (go_sessions c); c = c\<lparr>go_sessions := m\<rparr> in
          case r of None \<Rightarrow> c
          | Some sess \<Rightarrow>
              if duration (s_started sess) (kernel_ts event) < runDelta env then c
              else let sess = append_output text sess
                in if haveRetval then c\<lparr>written := written c @ [s_outputs sess]\<rparr> else c
      else c\<lparr>written := written c @ [[text]]\<rparr>)"

text \<open>The handler of a record: \<open>None\<close> is a panic, which the first byte of an empty record is, too.\<close>

definition handle :: "consumer_env \<Rightarrow> u8 list \<Rightarrow> consumer \<Rightarrow> consumer option" where
  "handle env data c =
     (let typ = load_le 0 2 data :: u16 in
      if data = [] then None
      else if typ = event_type_code BPFSNOOP_EVENT_TYPE_INSN then Some (outputInsnEvent env data c)
      else if typ = event_type_code BPFSNOOP_EVENT_TYPE_GRAPH_ENTRY \<or>
              typ = event_type_code BPFSNOOP_EVENT_TYPE_GRAPH_EXIT
        then if \<not> known_graph env (fe_func_ip (go_graph_event data)) then Some c
          else outputGraphEvent env (typ \<noteq> event_type_code BPFSNOOP_EVENT_TYPE_GRAPH_EXIT) data c
      else if length data < sizeof_event then Some c
      else Some (handle_function env data c))"

text \<open>
  The loop over the records until the ring buffer is closed, here at the end of the list, or until
  \<open>i\<close> events were printed, unless their number is \<open>unlimited\<close>.
\<close>

fun Run_loop :: "consumer_env \<Rightarrow> bool \<Rightarrow> int \<Rightarrow> u8 list list \<Rightarrow> consumer \<Rightarrow> consumer option" where
  "Run_loop env unlimited i [] c = Some c"
| "Run_loop env unlimited i (r # rs) c =
     (if unlimited \<or> i > 0 then
        Option.bind (handle env r c) (\<lambda>c'.
          let outputEvent = (length (written c) < length (written c'))
          in Run_loop env unlimited (if outputEvent then i - 1 else i) rs c')
      else Some c)"

definition Run :: "consumer_env \<Rightarrow> nat \<Rightarrow> u8 list list \<Rightarrow> consumer \<Rightarrow> consumer option" where
  "Run env limitEvents rs c = Run_loop env (limitEvents = 0) (int limitEvents) rs c"

text \<open>Without a limit the handler is run on one record after the other.\<close>

fun consume :: "consumer_env \<Rightarrow> u8 list list \<Rightarrow> consumer \<Rightarrow> consumer option" where
  "consume env [] c = Some c"
| "consume env (r # rs) c = Option.bind (handle env r c) (consume env rs)"

lemma Run_loop_unlimited: "Run_loop env True i rs c = consume env rs c"
  by (induction rs arbitrary: i c) (simp_all add: Let_def)

text \<open>A record prints at most one block, so that a limit cuts the output off.\<close>

lemma handle_written: "handle env r c = Some c' \<Longrightarrow> written c' = written c \<or> (\<exists>b. written c' = written c @ [b])"
  by (auto simp: handle_def handle_function_def outputInsnEvent_def outputGraphEvent_def Let_def
      split: if_splits option.splits prod.splits)

lemma consume_written: "consume env rs c = Some c' \<Longrightarrow> \<exists>bs. written c' = written c @ bs"
proof (induction rs arbitrary: c)
  case (Cons r rs)
  then obtain c1 where c1: "handle env r c = Some c1" "consume env rs c1 = Some c'"
    by (auto simp: bind_eq_Some_conv)
  from handle_written [OF c1(1)] Cons.IH [OF c1(2)] show ?case by auto
qed simp

lemma Run_loop_limited:
  assumes "consume env rs c = Some c'" "0 \<le> i"
  shows "\<exists>c''. Run_loop env False i rs c = Some c'' \<and> written c'' = take (length (written c) + nat i) (written c')"
  using assms
proof (induction rs arbitrary: c i)
  case (Cons r rs)
  then obtain c1 where c1: "handle env r c = Some c1" "consume env rs c1 = Some c'"
    by (auto simp: bind_eq_Some_conv)
  show ?case
  proof (cases "i > 0")
    case True
    from handle_written [OF c1(1)] consider "written c1 = written c" | b where "written c1 = written c @ [b]" by blast
    then show ?thesis
    proof cases
      case 1
      with Cons.IH [OF c1(2) Cons.prems(2)] True c1(1) show ?thesis by simp
    next
      case 2
      with Cons.IH [OF c1(2), of "i - 1"] True c1(1) show ?thesis
        by (simp add: nat_diff_distrib Suc_diff_Suc)
    qed
  next
    case False
    with consume_written [OF Cons.prems(1)] Cons.prems(2) show ?thesis by auto
  qed
qed simp

lemma Run_consume:
  assumes "consume env rs c = Some c'"
  shows "Run env 0 rs c = Some c'"
    and "\<exists>c''. Run env (Suc n) rs c = Some c'' \<and> written c'' = take (length (written c) + Suc n) (written c')"
  using assms Run_loop_limited [OF assms, of "int (Suc n)"]
  by (simp_all add: Run_def Run_loop_unlimited nat_add_distrib del: of_nat_Suc)

section \<open>What a run of calls prints\<close>

text \<open>
  The reference, over the history of calls: a call that is closed is printed as the text of its
  entry and the text of its exit; \<open>p\<close> holds the entry's text by frame pointer.
\<close>

fun calls_printed :: "(u64 \<Rightarrow> string) \<Rightarrow> (call \<times> string) list \<Rightarrow> string list list" where
  "calls_printed p [] = []"
| "calls_printed p ((Opened fp i, t) # es) = calls_printed (p(fp := t)) es"
| "calls_printed p ((Closed fp i, t) # es) = [p fp, t] # calls_printed p es"
| "calls_printed p (e # es) = calls_printed p es"

text \<open>The ids of the entries among the records, which the random half of an id makes distinct.\<close>

definition entry_ids :: "u8 list list \<Rightarrow> u64 list" where
  "entry_ids rs = map (\<lambda>r. snd (record_report r))
     (filter (\<lambda>r. fst (record_report r) = event_type_code BPFSNOOP_EVENT_TYPE_FUNC_ENTRY) rs)"

lemma entry_ids_Cons:
  "entry_ids (r # rs) =
     (if evt_type (go_event r) = event_type_code BPFSNOOP_EVENT_TYPE_FUNC_ENTRY
      then evt_session_id (go_event r) # entry_ids rs else entry_ids rs)"
  by (simp add: entry_ids_def record_report_def)

lemma handle_entry_exit:
  assumes "sizeof_event \<le> length r" "evt_type (go_event r) = event_type_code ty"
    and "ty = BPFSNOOP_EVENT_TYPE_FUNC_ENTRY \<or> ty = BPFSNOOP_EVENT_TYPE_FUNC_EXIT"
  shows "handle env r c = Some (handle_function env r c)"
proof -
  have "load_le 0 2 r = event_type_code ty" using assms(2) by (simp add: go_event_def)
  moreover have "r \<noteq> []" using assms(1) by (auto simp: sizeof_event_def)
  ultimately show ?thesis using assms(1,3) by (auto simp: handle_def)
qed

text \<open>
  The consumer's sessions agree with the open ones: each holds the text of its entry, under an id
  of its own that no later entry has.
\<close>

definition tracked :: "(u64 \<rightharpoonup> u64) \<Rightarrow> (u64 \<Rightarrow> string) \<Rightarrow> u64 list \<Rightarrow> Sessions \<Rightarrow> bool" where
  "tracked m p ids S \<longleftrightarrow> inj_on m (dom m) \<and>
     (\<forall>fp i. m fp = Some i \<longrightarrow> i \<notin> set ids \<and> map_option s_outputs (S i) = Some [p fp])"

lemma trackedD:
  "tracked m p ids S \<Longrightarrow> m fp = Some i \<Longrightarrow> i \<notin> set ids \<and> map_option s_outputs (S i) = Some [p fp]"
  unfolding tracked_def by blast

lemma tracked_refused:
  assumes t: "tracked m p (i # ids) S"
  shows "tracked m p ids (S(i \<mapsto> s))"
  using trackedD [OF t] t unfolding tracked_def by simp

lemma tracked_opened:
  assumes t: "tracked m p (i # ids) S" and i: "i \<notin> set ids" "s_outputs s = [x]"
  shows "tracked (m(fp \<mapsto> i)) (p(fp := x)) ids (S(i \<mapsto> s))"
proof -
  have fresh: "m f \<noteq> Some i" for f using trackedD [OF t, of f i] by auto
  have "inj_on m (dom m)" using t by (simp add: tracked_def)
  then have "inj_on (m(fp \<mapsto> i)) (dom (m(fp \<mapsto> i)))"
    using fresh by (auto simp: inj_on_def dom_def)
  moreover have "j \<notin> set ids \<and> map_option s_outputs ((S(i \<mapsto> s)) j) = Some [(p(fp := x)) f]"
    if j: "(m(fp \<mapsto> i)) f = Some j" for f j
  proof (cases "f = fp")
    case False
    with j have m: "m f = Some j" by simp
    with fresh [of f] have "j \<noteq> i" by auto
    with trackedD [OF t m] False show ?thesis by simp
  qed (use j i in auto)
  ultimately show ?thesis unfolding tracked_def by blast
qed

lemma tracked_closed:
  assumes t: "tracked m p ids S" and fp: "m fp = Some i"
  shows "tracked (m(fp := None)) p ids (S(i := None))"
proof -
  have inj: "inj_on m (dom m)" using t by (simp add: tracked_def)
  then have "inj_on (m(fp := None)) (dom (m(fp := None)))"
    by (auto simp: inj_on_def dom_def)
  moreover have "j \<notin> set ids \<and> map_option s_outputs ((S(i := None)) j) = Some [p f]"
    if j: "(m(fp := None)) f = Some j" for f j
  proof -
    from j have m: "m f = Some j" "f \<noteq> fp" by (auto split: if_splits)
    with inj fp have "j \<noteq> i" unfolding inj_on_def by (metis domI)
    with trackedD [OF t m(1)] show ?thesis by simp
  qed
  ultimately show ?thesis unfolding tracked_def by blast
qed

text \<open>What the handler does with the record of an entry, and of an exit whose session it has.\<close>

lemma handle_entry:
  assumes "sizeof_event \<le> length r" "record_report r = report e" "e = Opened fp i \<or> e = Refused i"
    and info: "\<And>f. requiredSession (funcInfo_of env f)"
  shows "\<exists>c' s. handle env r c = Some c' \<and> go_sessions c' = (go_sessions c)(i \<mapsto> s) \<and>
    s_outputs s = [text_of env r] \<and> written c' = written c \<and> (\<forall>rs. entry_ids (r # rs) = i # entry_ids rs)"
proof -
  from assms(2,3) have ty: "evt_type (go_event r) = event_type_code BPFSNOOP_EVENT_TYPE_FUNC_ENTRY"
    "evt_session_id (go_event r) = i" by (auto simp: record_report_def)
  let ?g = "grphMode (funcInfo_of env (func_ip (go_event r)))"
  let ?s = "\<lparr>s_started = kernel_ts (go_event r), s_outputs = [text_of env r],
    s_tstamps = (if ?g then [kernel_ts (go_event r)] else []), s_lastidx = 0\<rparr>"
  have "handle env r c = Some (c\<lparr>go_sessions := (go_sessions c)(i \<mapsto> ?s)\<rparr>)"
    using handle_entry_exit [OF assms(1) ty(1)] info ty
    by (simp add: handle_function_def Let_def Sessions_Add_def append_output_def)
  then show ?thesis using ty by (intro exI [of _ "c\<lparr>go_sessions := (go_sessions c)(i \<mapsto> ?s)\<rparr>"] exI [of _ ?s])
      (simp add: entry_ids_Cons)
qed

lemma handle_exit:
  assumes "sizeof_event \<le> length r" "record_report r = report (Closed fp i)"
    and info: "\<And>f. requiredSession (funcInfo_of env f)" "runDelta env = 0" and s: "go_sessions c i = Some s"
  shows "\<exists>c'. handle env r c = Some c' \<and> go_sessions c' = (go_sessions c)(i := None) \<and>
    written c' = written c @ [s_outputs s @ [text_of env r]] \<and> (\<forall>rs. entry_ids (r # rs) = entry_ids rs)"
proof -
  from assms(2) have ty: "evt_type (go_event r) = event_type_code BPFSNOOP_EVENT_TYPE_FUNC_EXIT"
    "evt_session_id (go_event r) + 1 = i" by (auto simp: record_report_def)
  with handle_entry_exit [OF assms(1) ty(1)] info s show ?thesis
    by (simp add: handle_function_def Let_def Sessions_GetAndDel_def append_output_def entry_ids_Cons)
qed

lemma consume_calls:
  assumes info: "\<And>f. requiredSession (funcInfo_of env f)" "runDelta env = 0"
  shows "replay m es = Some m' \<Longrightarrow> map record_report rs = map report es \<Longrightarrow>
    list_all (\<lambda>r. sizeof_event \<le> length r) rs \<Longrightarrow> list_all (\<lambda>e. \<not> lone e) es \<Longrightarrow> distinct (entry_ids rs) \<Longrightarrow>
    tracked m p (entry_ids rs) (go_sessions c) \<Longrightarrow>
    \<exists>c'. consume env rs c = Some c' \<and> written c' = written c @ calls_printed p (zip es (map (text_of env) rs))"
proof (induction es arbitrary: m rs c p)
  case (Cons e es)
  from Cons.prems(2) obtain r rs' where rs: "rs = r # rs'" and r: "record_report r = report e"
    and rs': "map record_report rs' = map report es" by (cases rs) auto
  have len: "sizeof_event \<le> length r" "list_all (\<lambda>r. sizeof_event \<le> length r) rs'" using Cons.prems(3) rs by simp_all
  have rest: "list_all (\<lambda>e. \<not> lone e) es" using Cons.prems(4) by simp
  note IH = Cons.IH [OF _ rs' len(2) rest]
  show ?case
  proof (cases e)
    case (Opened fp i)
    then obtain c1 s where h: "handle env r c = Some c1" "go_sessions c1 = (go_sessions c)(i \<mapsto> s)"
        "s_outputs s = [text_of env r]" "written c1 = written c" "entry_ids rs = i # entry_ids rs'"
      using handle_entry [OF len(1) r _ info(1), of fp i c] rs by auto
    have "tracked (m(fp \<mapsto> i)) (p(fp := text_of env r)) (entry_ids rs') (go_sessions c1)"
      unfolding h(2) by (rule tracked_opened) (use Cons.prems(5,6) h in auto)
    from IH [OF _ _ this] Cons.prems(1,5) h show ?thesis
      by (simp add: rs [symmetric] Opened del: fun_upd_apply) (simp add: rs del: fun_upd_apply)
  next
    case (Refused i)
    then obtain c1 s where h: "handle env r c = Some c1" "go_sessions c1 = (go_sessions c)(i \<mapsto> s)"
        "written c1 = written c" "entry_ids rs = i # entry_ids rs'"
      using handle_entry [OF len(1) r _ info(1), of _ i c] rs by auto
    have "tracked m p (entry_ids rs') (go_sessions c1)"
      unfolding h(2) by (rule tracked_refused) (use Cons.prems(6) h in auto)
    from IH [OF _ _ this] Cons.prems(1,5) h show ?thesis
      by (simp add: rs [symmetric] Refused) (simp add: rs)
  next
    case (Closed fp i)
    from Cons.prems(1) Closed have m: "m fp = Some i" "replay (m(fp := None)) es = Some m'" by (auto split: if_splits)
    from trackedD [OF Cons.prems(6) m(1)] obtain s where s: "go_sessions c i = Some s" "s_outputs s = [p fp]" by auto
    obtain c1 where h: "handle env r c = Some c1" "go_sessions c1 = (go_sessions c)(i := None)"
        "written c1 = written c @ [[p fp, text_of env r]]" "entry_ids rs = entry_ids rs'"
      using handle_exit [OF len(1) r [unfolded Closed] info s(1)] s(2) rs by auto
    have "tracked (m(fp := None)) p (entry_ids rs') (go_sessions c1)"
      unfolding h(2) by (rule tracked_closed) (use Cons.prems(6) h m in auto)
    from IH [OF m(2) _ this] Cons.prems(5) h show ?thesis by (simp add: rs [symmetric] Closed) (simp add: rs Closed)
  next
    case (Lone ty i)
    with Cons.prems(4) show ?thesis by simp
  qed
qed simp

section \<open>The stack of time stamps\<close>

text \<open>The last index is the index of the last stamp, so that there is one.\<close>

definition stamped :: "Session \<Rightarrow> bool" where
  "stamped s \<longleftrightarrow> length (s_tstamps s) = s_lastidx s + 1"

lemma stamped_append [simp]: "stamped (append_output t s) \<longleftrightarrow> stamped s"
  by (simp add: stamped_def append_output_def)

lemma stamped_push [simp]: "stamped s \<Longrightarrow> stamped (pushTstamp ts s)"
  by (simp add: stamped_def pushTstamp_def)

lemma stamped_pop [simp]: "stamped s \<Longrightarrow> stamped (popTstamp s)"
  by (simp add: stamped_def popTstamp_def)

lemma stamped_last: "stamped s \<Longrightarrow> lastTstamp s = Some (last (s_tstamps s))"
  by (cases "s_tstamps s = []") (auto simp: stamped_def lastTstamp_def last_conv_nth)

definition all_stamped :: "consumer \<Rightarrow> bool" where
  "all_stamped c \<longleftrightarrow> (\<forall>i s. go_sessions c i = Some s \<longrightarrow> stamped s)"

lemma handle_stamped:
  assumes graph: "\<And>f. requiredSession (funcInfo_of env f) \<Longrightarrow> grphMode (funcInfo_of env f)" and c: "all_stamped c"
    and r: "r \<noteq> []"
  shows "\<exists>c'. handle env r c = Some c' \<and> all_stamped c'"
proof -
  have insn: "all_stamped (outputInsnEvent env r c)"
    using c by (auto simp: outputInsnEvent_def all_stamped_def Sessions_Get_def Let_def split: option.splits)
  have grph: "\<exists>c'. outputGraphEvent env b r c = Some c' \<and> all_stamped c'" for b
    using c by (auto simp: outputGraphEvent_def all_stamped_def Sessions_Get_def Let_def stamped_last
        split: option.splits)
  have "stamped \<lparr>s_started = t, s_outputs = outs, s_tstamps = [t], s_lastidx = 0\<rparr>" for t outs
    by (simp add: stamped_def)
  then have fn: "all_stamped (handle_function env r c)"
    using c graph by (auto simp: handle_function_def all_stamped_def Sessions_Add_def Sessions_GetAndDel_def
        append_output_def Let_def split: option.splits if_splits)
  show ?thesis using insn grph fn c r by (simp add: handle_def Let_def)
qed

text \<open>
  The time between entry and exit is computed in 32 bits, so that it is less than 4.3 seconds: with
  a threshold above that, every call is dropped.
\<close>

lemma long_threshold_drops_exits:
  assumes "2 ^ 32 \<le> runDelta env" "requiredSession (funcInfo_of env (func_ip (go_event r)))"
    and "evt_type (go_event r) = event_type_code BPFSNOOP_EVENT_TYPE_FUNC_EXIT"
  shows "written (handle_function env r c) = written c"
proof -
  have "unat w < 2 ^ 32" for w :: u32 using unsigned_less [of w] by simp
  from order.strict_trans2 [OF this assms(1)] have "duration a b < runDelta env" for a b
    by (simp add: duration_def)
  with assms(2,3) show ?thesis
    by (simp add: handle_function_def Sessions_GetAndDel_def Let_def split: option.split)
qed

text \<open>
  A session of a function that is not the root of a graph has no stamps; an event of a graph that
  names it, which the search for the nearest open session allows, makes the consumer panic.
\<close>

lemma graph_event_without_stamps_panics:
  assumes "snd (Sessions_Add (fe_session_id (go_graph_event r)) t False m) = go_sessions c"
  shows "outputGraphEvent env b r c = None"
proof -
  have "go_sessions c (fe_session_id (go_graph_event r)) =
      Some \<lparr>s_started = t, s_outputs = [], s_tstamps = [], s_lastidx = 0\<rparr>"
    using assms [symmetric] by (simp add: Sessions_Add_def Let_def)
  then show ?thesis by (simp add: outputGraphEvent_def Sessions_Get_def lastTstamp_def)
qed

section \<open>Properties\<close>

text \<open>C5: tracer and consumer together: in a run of the function tracer over calls whose entry and exit are
  traced, in which the ring buffer always has room and no session id comes twice, the consumer,
  which knows a call only by the id in its records, prints exactly the calls that were completed,
  in the order of their exits, each as the text of its own entry followed by the text of its exit;
  with a limit on the number of events, the first so many of them.\<close>

theorem consumer_prints_completed_calls:
  assumes "session_map S view ok" "(fn_step True True S B)\<^sup>*\<^sup>* st st'"
    and st: "ok (sessions st)" "view (sessions st) = Map.empty" "events st = []"
    and info: "\<And>f. requiredSession (funcInfo_of env f)" "runDelta env = 0"
    and ids: "distinct (entry_ids (events st'))" and c: "go_sessions c = Map.empty" "written c = []"
  shows "\<exists>es c'. replay Map.empty es = Some (fn_open view st') \<and> paired es \<and>
    map record_report (events st') = map report es \<and> Run env 0 (events st') c = Some c' \<and>
    written c' = calls_printed (\<lambda>_. []) (zip es (map (text_of env) (events st'))) \<and>
    (\<forall>n. \<exists>c''. Run env (Suc n) (events st') c = Some c'' \<and> written c'' = take (Suc n) (written c'))"
proof -
  note run = fn_protocol [OF assms(1)]
  have fresh: "fn_open view st = Map.empty" by (simp add: fn_open_def st fun_eq_iff)
  obtain es where es: "replay Map.empty es = Some (fn_open view st')" "paired es"
      "list_all (\<lambda>e. \<not> lone e) es" "map record_report (events st') = map report es"
    using session_protocol.run_history [OF run assms(2) st(1) fresh st(3)] by blast
  have len: "list_all (\<lambda>r. sizeof_event \<le> length r) (events st')"
    by (rule session_protocol.run_lengths [OF run assms(2) st(1,3)])
  have "tracked Map.empty (\<lambda>_. []) (entry_ids (events st')) (go_sessions c)" by (simp add: tracked_def)
  from consume_calls [OF info es(1,4) len es(3) ids this] c(2) obtain c'
    where c': "consume env (events st') c = Some c'"
      "written c' = calls_printed (\<lambda>_. []) (zip es (map (text_of env) (events st')))" by auto
  have "\<exists>c''. Run env (Suc n) (events st') c = Some c'' \<and> written c'' = take (Suc n) (written c')" for n
    using Run_consume(2) [OF c'(1), of n] c(2) by simp
  with Run_consume(1) [OF c'(1)] c'(2) es show ?thesis by blast
qed

text \<open>C34: a consumer that traces only roots of graphs never panics on a time stamp: whatever records
  that are not empty arrive, in whatever order, the stack of every open session has its last stamp, also after entries
  and exits of callees that do not match; and a callee's exit finds the stamp of its entry on top,
  leaving the stack as it was before the entry.\<close>

theorem graph_stamps_stay_in_range:
  assumes "\<And>f. requiredSession (funcInfo_of env f) \<Longrightarrow> grphMode (funcInfo_of env f)" "all_stamped c"
    and "list_all (\<lambda>r. r \<noteq> []) rs"
  shows "(\<exists>c'. Run env limitEvents rs c = Some c' \<and> all_stamped c') \<and>
    (\<forall>s ts. stamped s \<longrightarrow> lastTstamp (pushTstamp ts s) = Some ts \<and> popTstamp (pushTstamp ts s) = s)"
proof
  have "\<exists>c'. Run_loop env u i rs c = Some c' \<and> all_stamped c'" for u i
    using assms(2,3)
  proof (induction rs arbitrary: c i)
    case (Cons r rs)
    from handle_stamped [OF assms(1) Cons.prems(1), of r] Cons show ?case by (auto simp: Let_def)
  qed simp
  then show "\<exists>c'. Run env limitEvents rs c = Some c' \<and> all_stamped c'" by (simp add: Run_def)
  show "\<forall>s ts. stamped s \<longrightarrow> lastTstamp (pushTstamp ts s) = Some ts \<and> popTstamp (pushTstamp ts s) = s"
    by (auto simp: stamped_last pushTstamp_def popTstamp_def stamped_def lastTstamp_def nth_append)
qed

end
