(* ===== verification/Fn_Witnesses.thy ===== *)
theory Fn_Witnesses
  imports Protocol_Props Lbr_Props
begin

text \<open>
  Concrete runs of the function tracer and the kprobe tracer, on the reference hash map and a
  small memory: the hypotheses of their properties hold there.
\<close>

section \<open>A concrete kernel\<close>

text \<open>One traced call: its context holds one argument, the return value and the frame pointer.\<close>

definition demo_mem :: "u64 \<Rightarrow> u8 option" where
  "demo_mem = mem_of [(0x100, [5, 0, 0, 0, 0, 0, 0, 0,  9, 0, 0, 0, 0, 0, 0, 0,  0, 0x20, 0, 0, 0, 0, 0, 0])]"

definition demo_helpers :: "(u64 \<Rightarrow> u8 option) \<Rightarrow> helpers" where
  "demo_helpers mem =
     \<lparr>bpf_probe_read_kernel = mem_probe mem, bpf_probe_read_kernel_str = mem_probe mem,
      bpf_get_smp_processor_id = 0, bpf_get_current_pid_tgid = 0x4D2000004D2, bpf_get_prandom_u32 = 7,
      bpf_ktime_get_ns = 99, bpf_get_current_comm = (\<lambda>_. 65), bpf_get_stackid = (\<lambda>_. 3),
      bpf_get_branch_snapshot = (\<lambda>es. (es, 0)), bpf_ringbuf_reserve = (\<lambda>n. Some (\<lambda>_. 0)),
      bpf_get_func_arg_cnt = (\<lambda>_. 1), bpf_get_func_ip = (\<lambda>_. 0xFFFF800010000000),
      pt_regs_fp = (\<lambda>ctx. 0x2000), pt_regs_rc = (\<lambda>_. 9), pt_regs_parm = (\<lambda>_ i. of_nat i), uninit = (\<lambda>_. 0)\<rparr>"

definition demo_h :: helpers where "demo_h = demo_helpers demo_mem"

definition demo_hooks :: "bool \<Rightarrow> hooks" where
  "demo_hooks accept =
     \<lparr>hook_filter_arg = (\<lambda>_. accept), hook_filter_pkt = (\<lambda>_ _. True),
      hook_output_fn_args = (\<lambda>_ _ _ buf. buf), hook_output_pkt = (\<lambda>_ _ buf. buf),
      hook_output_arg = (\<lambda>_ _ buf. buf)\<rparr>"

definition demo_config :: "bool \<Rightarrow> bool \<Rightarrow> bpfsnoop_config" where
  "demo_config both entry =
     \<lparr>cfg_output_lbr = False, cfg_output_stack = True, cfg_output_pkt = False, cfg_output_arg = False,
      cfg_both_entry_exit = both, cfg_is_entry = entry, cfg_pid = 0,
      fn_args = \<lparr>args_nr = 1, with_retval = True, buf_size = 0, data_size = 0\<rparr>\<rparr>"

definition demo_ro :: "bool \<Rightarrow> bool \<Rightarrow> rodata" where
  "demo_ro both entry =
     \<lparr>PID = 1, CPU_MASK = 0, FUNC_IP = 0xFFFF800010000000, rd_cfg = demo_config both entry, rd_arch = X86\<rparr>"

definition demo_tracer :: "'s \<Rightarrow> ('s, bpfsnoop_lbr_data slots) tracer" where
  "demo_tracer m =
     \<lparr>ready = 1, sessions = m, lbr_buff = [], lbrs = [], tramp_fp_offset = 0, events = []\<rparr>"

abbreviation demo_S :: "(bpfsnoop_sess slots, bpfsnoop_sess) bpf_hash" where
  "demo_S \<equiv> ref_hash BPFSNOOP_MAX_ENTRIES"
abbreviation demo_K :: "(bpfsnoop_kprobe_sess slots, bpfsnoop_kprobe_sess) bpf_hash" where
  "demo_K \<equiv> ref_hash BPFSNOOP_MAX_ENTRIES"
abbreviation demo_B :: "(bpfsnoop_lbr_data slots, bpfsnoop_lbr_data) bpf_hash" where
  "demo_B \<equiv> ref_hash BPFSNOOP_MAX_ENTRIES"

abbreviation demo_sid :: u64 where "demo_sid \<equiv> gen_session_id demo_h 0x2000"

lemmas demo_defs = demo_hooks_def demo_config_def demo_ro_def demo_tracer_def

lemma demo_fields [simp]:
  "rd_cfg (demo_ro both entry) = demo_config both entry" "cfg_both_entry_exit (demo_config both entry) = both"
  "cfg_is_entry (demo_config both entry) = entry" "tramp_fp_offset (demo_tracer m) = 0"
  "sessions (demo_tracer m) = m" "events (demo_tracer m) = []"
  by (simp_all add: demo_defs)

lemma demo_fp [simp]: "fn_fp (demo_ro both entry) demo_h 0x100 0 = 0x2000"
proof -
  have "list_all (\<lambda>(b, e). fn_fp (demo_ro b e) demo_h 0x100 0 = 0x2000)
      [(True, True), (True, False), (False, True), (False, False)]" by code_simp
  then show ?thesis by (cases both; cases entry) simp_all
qed

lemma demo_pid: "current_pid demo_h = 0x4D2"
  by code_simp

lemma demo_active [simp]: "fn_active (demo_ro both entry) demo_h st \<longleftrightarrow> truthy (ready st)"
  "kp_active (demo_ro both entry) demo_h st \<longleftrightarrow> truthy (ready st)"
  by (simp_all add: fn_active_def kp_active_def demo_pid demo_ro_def demo_config_def truthy_def)

lemma demo_ready [simp]: "truthy (ready (demo_tracer m))"
  by (simp add: demo_tracer_def truthy_def)

lemma lbrs_demo [simp]: "lbrs (demo_tracer m) = []"
  by (simp add: demo_tracer_def)

lemma demo_hooks_within [simp]: "hooks_within c (demo_hooks a)"
  by (simp add: hooks_within_def demo_hooks_def)

lemma demo_filter [simp]: "filter_event (demo_hooks a) args sid = a" "kp_filter_event (demo_hooks a) args sid = a"
  by (simp_all add: filter_event_def kp_filter_event_def demo_hooks_def)

lemma demo_room [simp]: "bpf_ringbuf_reserve demo_h n = Some (\<lambda>_. 0)"
  by (simp add: demo_h_def demo_helpers_def)

lemma demo_add_session: "add_session demo_S fp s [] = [(Some fp, s)]"
  by (simp add: add_session_def ref_hash_def slots_update_def BPFSNOOP_MAX_ENTRIES_def BPF_ANY_def BPF_EXIST_def)

lemma demo_view: "slots_view [(Some fp, s)] = [fp \<mapsto> s]" "slots_view [] = Map.empty"
  by (auto simp: slots_view_def fun_eq_iff)

lemma demo_ok: "slots_inv BPFSNOOP_MAX_ENTRIES [(Some fp, s)]"
  by (simp add: slots_inv_def BPFSNOOP_MAX_ENTRIES_def)

section \<open>The function tracer\<close>

abbreviation demo_fresh :: "(bpfsnoop_sess slots, bpfsnoop_lbr_data slots) tracer" where
  "demo_fresh \<equiv> demo_tracer []"

text \<open>The state after the entry of the call, and after its exit.\<close>

definition demo_entered :: "(bpfsnoop_sess slots, bpfsnoop_lbr_data slots) tracer" where
  "demo_entered = snd (bpfsnoop_fn demo_S demo_B (demo_hooks True) (demo_ro True True) demo_h 0x100 (demo_tracer []))"

definition demo_exited :: "(bpfsnoop_sess slots, bpfsnoop_lbr_data slots) tracer" where
  "demo_exited = snd (bpfsnoop_fn demo_S demo_B (demo_hooks True) (demo_ro True False) demo_h 0x100 demo_entered)"

lemma demo_entered_eq:
  "demo_entered = fn_submit demo_B (demo_hooks True) (demo_ro True True) demo_h 0x100 demo_sid
     BPFSNOOP_EVENT_TYPE_FUNC_ENTRY ((fn_start (demo_ro True True) demo_h 0x100 (demo_tracer []))
       \<lparr>sessions := [(Some 0x2000, \<lparr>session_id = demo_sid\<rparr>)]\<rparr>)"
  unfolding demo_entered_def by (subst fn_accepted_entry [OF _ _ _ refl]) (simp_all add: demo_add_session)

lemma demo_entered_frame [simp]:
  "sessions demo_entered = [(Some 0x2000, \<lparr>session_id = demo_sid\<rparr>)]" "truthy (ready demo_entered)"
  by (simp_all add: demo_entered_eq)

lemma submit_record_offset [simp]: "tramp_fp_offset (submit_record B hk c h e args rv st) = tramp_fp_offset st"
  by (auto simp: submit_record_def Let_def split: option.splits)

lemma demo_entered_offset [simp]: "tramp_fp_offset demo_entered = 0"
  by (simp add: demo_entered_eq fn_submit_def fn_start_def get_tracee_caller_fp_def get_tramp_fp_def demo_defs)

theorem fn_entry_opens_session_witness:
  "slots_view (sessions demo_entered) = [0x2000 \<mapsto> \<lparr>session_id = demo_sid\<rparr>] \<and>
   (\<exists>r. events demo_entered = [r] \<and> evt_session_id (go_event r) = demo_sid)"
  using fn_entry_opens_session [OF refsess.session_map_axioms, where st = "demo_tracer []"
      and ro = "demo_ro True True" and hk = "demo_hooks True" and h = demo_h and fp = "0x2000"
      and ctx = "0x100" and st' = demo_entered and B = demo_B]
  by (auto simp: demo_entered_def [symmetric] demo_view adds_record_def fn_header_def)

theorem fn_exit_closes_session_witness:
  "slots_view (sessions demo_exited) = Map.empty \<and>
   adds_record demo_h (demo_config True False) (fn_header (demo_ro True False) demo_h 0x100 (demo_sid - 1)
     BPFSNOOP_EVENT_TYPE_FUNC_EXIT) (events demo_entered) (events demo_exited)"
proof -
  have v: "slots_view (sessions demo_entered) 0x2000 = Some \<lparr>session_id = demo_sid\<rparr>" by (simp add: demo_view)
  have fp: "0x2000 = fn_fp (demo_ro True False) demo_h 0x100 (tramp_fp_offset demo_entered)" by simp
  have ok: "slots_inv BPFSNOOP_MAX_ENTRIES (sessions demo_entered)" by (simp add: demo_ok)
  note r = fn_exit_closes_session [OF refsess.session_map_axioms ok demo_hooks_within _ _ _ fp v demo_exited_def]
  have "slots_view (sessions demo_exited) = (slots_view (sessions demo_entered))(0x2000 := None) \<and>
      adds_record demo_h (rd_cfg (demo_ro True False)) (fn_header (demo_ro True False) demo_h 0x100
        (session_id \<lparr>session_id = demo_sid\<rparr> - 1) BPFSNOOP_EVENT_TYPE_FUNC_EXIT)
        (events demo_entered) (events demo_exited)"
    by (rule r) simp_all
  then show ?thesis by (simp add: demo_view fun_upd_idem)
qed

theorem fn_entry_exit_roundtrip_witness:
  "(\<exists>r1 r2. events demo_exited = [r1, r2] \<and>
      evt_session_id (go_event r2) + 1 = evt_session_id (go_event r1)) \<and>
   slots_view (sessions demo_exited) = Map.empty"
proof -
  have act: "fn_active (demo_ro True True) demo_h demo_fresh" "fn_active (demo_ro True False) demo_h demo_entered"
    by simp_all
  have fp: "0x2000 = fn_fp (demo_ro True True) demo_h 0x100 (tramp_fp_offset demo_fresh)"
    "0x2000 = fn_fp (demo_ro True False) demo_h 0x100 (tramp_fp_offset demo_entered)" by simp_all
  have ok: "slots_inv BPFSNOOP_MAX_ENTRIES (sessions demo_fresh)" by simp
  have v: "slots_view (sessions demo_entered) 0x2000 = Some \<lparr>session_id = demo_sid\<rparr>" by (simp add: demo_view)
  note r = fn_entry_exit_roundtrip [OF refsess.session_map_axioms ok demo_hooks_within demo_hooks_within act
    _ _ _ _ fp _ demo_entered_def v _ _ demo_exited_def]
  have "(\<exists>r1 r2. events demo_exited = events demo_fresh @ [r1, r2] \<and>
      evt_type (go_event r1) = event_type_code BPFSNOOP_EVENT_TYPE_FUNC_ENTRY \<and>
      evt_type (go_event r2) = event_type_code BPFSNOOP_EVENT_TYPE_FUNC_EXIT \<and>
      evt_session_id (go_event r2) + 1 = evt_session_id (go_event r1)) \<and>
    slots_view (sessions demo_exited) = (slots_view (sessions demo_fresh))(0x2000 := None)"
    by (rule r) simp_all
  moreover have "(slots_view (sessions demo_fresh))(0x2000 := None) = Map.empty"
    by (simp add: demo_view fun_eq_iff)
  ultimately show ?thesis by simp blast
qed

definition demo_rejected :: "(bpfsnoop_sess slots, bpfsnoop_lbr_data slots) tracer" where
  "demo_rejected = snd (bpfsnoop_fn demo_S demo_B (demo_hooks False) (demo_ro True True) demo_h 0x100 (demo_tracer []))"

theorem fn_filter_rejects_witness:
  "sessions demo_rejected = [] \<and> lbrs demo_rejected = [] \<and> events demo_rejected = []"
  using fn_filter_rejects [where st = "demo_tracer []" and ro = "demo_ro True True" and h = demo_h
      and hk = "demo_hooks False" and ctx = "0x100" and st' = demo_rejected and S = demo_S and B = demo_B]
  by (simp add: demo_rejected_def [symmetric] lbrs_demo)

definition demo_missed :: "(bpfsnoop_sess slots, bpfsnoop_lbr_data slots) tracer" where
  "demo_missed = snd (bpfsnoop_fn demo_S demo_B (demo_hooks True) (demo_ro True False) demo_h 0x100 (demo_tracer []))"

theorem fn_exit_without_session_witness: "sessions demo_missed = [] \<and> events demo_missed = []"
  using fn_exit_without_session [OF refsess.session_map_axioms, where st = "demo_tracer []"
      and ro = "demo_ro True False" and h = demo_h and hk = "demo_hooks True" and ctx = "0x100"
      and st' = demo_missed and B = demo_B]
  by (simp add: demo_missed_def [symmetric] demo_view)

definition demo_single :: "(bpfsnoop_sess slots, bpfsnoop_lbr_data slots) tracer" where
  "demo_single = snd (bpfsnoop_fn demo_S demo_B (demo_hooks True) (demo_ro False True) demo_h 0x100 (demo_tracer []))"

theorem fn_single_mode_witness:
  "sessions demo_single = [] \<and> adds_record demo_h (demo_config False True)
     (fn_header (demo_ro False True) demo_h 0x100 demo_sid BPFSNOOP_EVENT_TYPE_FUNC_ENTRY) [] (events demo_single)"
  using fn_single_mode [where st = "demo_tracer []" and ro = "demo_ro False True" and h = demo_h
      and hk = "demo_hooks True" and ctx = "0x100" and st' = demo_single and S = demo_S and B = demo_B
      and fp = "0x2000"]
  by (simp add: demo_single_def [symmetric])

text \<open>A tracer that is not ready yet.\<close>

definition demo_unready :: "(bpfsnoop_sess slots, bpfsnoop_lbr_data slots) tracer" where
  "demo_unready = (demo_tracer [])\<lparr>ready := 0\<rparr>"

theorem fn_ignores_untraced_witness:
  "events (snd (bpfsnoop_fn demo_S demo_B (demo_hooks True) (demo_ro True True) demo_h 0x100 demo_unready)) = []"
  using fn_ignores_untraced [where st = demo_unready and ro = "demo_ro True True" and h = demo_h
      and hk = "demo_hooks True" and ctx = "0x100" and S = demo_S and B = demo_B]
  by (simp add: demo_unready_def truthy_def)

lemma demo_run: "(fn_step True True demo_S demo_B)\<^sup>*\<^sup>* (demo_tracer []) demo_exited"
proof -
  have "fn_step True True demo_S demo_B (demo_tracer []) demo_entered"
    unfolding demo_entered_def by (rule fn_invocation) simp_all
  moreover have "fn_step True True demo_S demo_B demo_entered demo_exited"
    unfolding demo_exited_def by (rule fn_invocation) simp_all
  ultimately show ?thesis by auto
qed

theorem fn_run_history_witness:
  "\<exists>es. replay Map.empty es = Some (fn_open slots_view demo_exited) \<and> paired es \<and> list_all keyed es \<and>
     map record_report (events demo_exited) = map report es"
  using fn_run_history [OF refsess.session_map_axioms demo_run] by (auto simp: demo_view)

theorem fn_sessions_keyed_witness: "demo_sid AND 0xFFFFFFFF = 0x2000"
proof -
  have step: "(fn_step True True demo_S demo_B)\<^sup>*\<^sup>* (demo_tracer []) demo_entered"
    unfolding demo_entered_def by (rule r_into_rtranclp, rule fn_invocation) simp_all
  have v: "slots_view (sessions demo_entered) 0x2000 = Some \<lparr>session_id = demo_sid\<rparr>" by (simp add: demo_view)
  show ?thesis using fn_sessions_keyed [OF refsess.session_map_axioms step _ _ _ v] by (simp add: demo_view)
qed

text \<open>A program that outputs branch records, on a CPU whose snapshot is one record of 24 bytes.\<close>

definition lbr_h :: helpers where
  "lbr_h = demo_h\<lparr>bpf_get_branch_snapshot := \<lambda>es. ([\<lparr>br_from = 1, br_to = 2, br_flags = 0\<rparr>], 24)\<rparr>"

definition lbr_ro :: rodata where
  "lbr_ro = (demo_ro False True)\<lparr>rd_cfg := (demo_config False True)\<lparr>cfg_output_lbr := True\<rparr>\<rparr>"

definition lbr_fresh :: "(bpfsnoop_sess slots, bpfsnoop_lbr_data slots) tracer" where
  "lbr_fresh = demo_fresh\<lparr>lbr_buff := [\<lparr>lbr_entries = [], nr_bytes = 0\<rparr>]\<rparr>"

definition lbr_snap :: bpfsnoop_lbr_data where
  "lbr_snap = \<lparr>lbr_entries = [\<lparr>br_from = 1, br_to = 2, br_flags = 0\<rparr>], nr_bytes = 24\<rparr>"

definition lbr_after :: "(bpfsnoop_sess slots, bpfsnoop_lbr_data slots) tracer" where
  "lbr_after = snd (bpfsnoop_fn demo_S demo_B (demo_hooks True) lbr_ro lbr_h 0x100 lbr_fresh)"

theorem fn_stores_branches_witness:
  "slots_view (lbrs lbr_after) (gen_session_id lbr_h (fn_fp lbr_ro lbr_h 0x100 0)) = Some lbr_snap"
proof -
  have pid: "current_pid lbr_h = 0x4D2"
    using demo_pid by (simp add: lbr_h_def current_pid_def)
  have f: "rd_cfg lbr_ro = (demo_config False True)\<lparr>cfg_output_lbr := True\<rparr>" "lbrs lbr_fresh = []"
    "lbr_buff lbr_fresh = [\<lparr>lbr_entries = [], nr_bytes = 0\<rparr>]" "tramp_fp_offset lbr_fresh = 0"
    by (simp_all add: lbr_ro_def lbr_fresh_def)
  have act: "fn_active lbr_ro lbr_h lbr_fresh"
    by (simp add: fn_active_def pid f truthy_def, simp add: lbr_ro_def demo_ro_def demo_config_def lbr_fresh_def demo_tracer_def)
  have cpu: "0 = unat (bpf_get_smp_processor_id lbr_h AND CPU_MASK lbr_ro)"
    by (simp add: lbr_h_def demo_h_def demo_helpers_def)
  have snap: "lbr_snap = take_snapshot lbr_h (lbr_buff lbr_fresh ! 0)"
    by (simp add: take_snapshot_def lbr_snap_def lbr_h_def)
  have room: "bpf_ringbuf_reserve lbr_h n \<noteq> None" for n by (simp add: lbr_h_def)
  note r = fn_stores_branches [OF reflbr.lbr_map_axioms _ act _ _ refl _ cpu _ snap room lbr_after_def]
  have stored: "snd (slots_update BPFSNOOP_MAX_ENTRIES [] k lbr_snap BPF_ANY) = 0" for k
    by (simp add: slots_update_def BPFSNOOP_MAX_ENTRIES_def BPF_ANY_def BPF_EXIST_def)
  have bytes: "0 < sint (nr_bytes lbr_snap)" by (simp add: lbr_snap_def)
  show ?thesis
    using r by (simp add: f can_output_def stored bytes ref_hash_def)
qed

section \<open>The kprobe tracer\<close>

abbreviation demo_kfresh :: "(bpfsnoop_kprobe_sess slots, bpfsnoop_lbr_data slots) tracer" where
  "demo_kfresh \<equiv> demo_tracer []"

definition demo_kentered :: "(bpfsnoop_kprobe_sess slots, bpfsnoop_lbr_data slots) tracer" where
  "demo_kentered = snd (bpfsnoop_kprobe demo_K demo_B (demo_hooks True) (demo_ro True True) demo_h 0x100 demo_kfresh)"

definition demo_kexited :: "(bpfsnoop_kprobe_sess slots, bpfsnoop_lbr_data slots) tracer" where
  "demo_kexited = snd (bpfsnoop_kretprobe demo_K demo_B (demo_hooks True) (demo_ro True False) demo_h 0x100 demo_kentered)"

definition demo_ksingle :: "(bpfsnoop_kprobe_sess slots, bpfsnoop_lbr_data slots) tracer" where
  "demo_ksingle = snd (bpfsnoop_kretprobe demo_K demo_B (demo_hooks False) (demo_ro False False) demo_h 0x100 demo_kfresh)"

lemma demo_regs_fp: "pt_regs_fp demo_h ctx = 0x2000"
  by (simp add: demo_h_def demo_helpers_def)

lemma demo_add_kprobe_session: "add_kprobe_session demo_K fp s [] = [(Some fp, s)]"
  by (simp add: add_kprobe_session_def ref_hash_def slots_update_def BPFSNOOP_MAX_ENTRIES_def BPF_ANY_def BPF_EXIST_def)

lemma demo_kentered_frame [simp]:
  "slots_view (sessions demo_kentered) 0x2000 \<noteq> None" "truthy (ready demo_kentered)"
  unfolding demo_kentered_def bpfsnoop_kprobe_def
  by (simp_all add: kp_accepted_entry demo_regs_fp demo_add_kprobe_session demo_view)

lemma demo_record_room: "ringbuf_record demo_h n = Some (replicate n 0)"
  by (simp add: ringbuf_record_def map_replicate_const)

theorem kp_exit_reports_entry_args_witness:
  "length (events demo_kexited) = Suc (length (events demo_kentered)) \<and>
   slots_view (sessions demo_kexited) = Map.empty"
proof -
  have act: "kp_active (demo_ro True True) demo_h demo_kfresh" "kp_active (demo_ro True False) demo_h demo_kentered"
    by simp_all
  have nr: "args_nr (fn_args (rd_cfg (demo_ro True True))) = 1" "args_nr (fn_args (rd_cfg (demo_ro True False))) = 1"
    by (simp_all add: demo_config_def)
  have fp: "0x2000 = pt_regs_fp demo_h 0x100" "0x2000 = pt_regs_fp demo_h 0x100" by (simp_all add: demo_regs_fp)
  have ok: "slots_inv BPFSNOOP_MAX_ENTRIES (sessions demo_kfresh)" by simp
  note r = kp_exit_reports_entry_args [OF refksess.kprobe_map_axioms ok act _ _ _ _ nr fp _ demo_kentered_def
    _ _ demo_record_room demo_kexited_def]
  have "slots_view (sessions demo_kfresh) = Map.empty" by (simp add: demo_view)
  then show ?thesis using r by (simp add: demo_view)
qed

theorem kp_single_exit_unfiltered_witness:
  "sessions demo_ksingle = [] \<and> length (events demo_ksingle) = 1"
  using kp_single_exit_unfiltered [where st = demo_kfresh and ro = "demo_ro False False" and h = demo_h
      and hk = "demo_hooks False" and ctx = "0x100" and S = demo_K and B = demo_B and st' = demo_ksingle,
      OF _ _ _ demo_record_room demo_ksingle_def]
  by simp

lemma demo_krun: "(kp_step True True demo_K demo_B)\<^sup>*\<^sup>* demo_kfresh demo_kexited"
proof -
  have "kp_step True True demo_K demo_B demo_kfresh demo_kentered"
    unfolding demo_kentered_def by (rule kprobe_invocation) simp_all
  moreover have "kp_step True True demo_K demo_B demo_kentered demo_kexited"
    unfolding demo_kexited_def by (rule kretprobe_invocation) simp_all
  ultimately show ?thesis by auto
qed

theorem kp_run_history_witness:
  "\<exists>es. replay Map.empty es = Some (kp_open slots_view demo_kexited) \<and> paired es \<and> list_all keyed es \<and>
     map record_report (events demo_kexited) = map report es"
  using kp_run_history [OF refksess.kprobe_map_axioms demo_krun] by (auto simp: demo_view)

end
