(* ===== verification/Walk_Witnesses.thy ===== *)
theory Walk_Witnesses
  imports Fn_Witnesses Insn_Tracer Fgraph_Props
begin

text \<open>
  Concrete inputs for the properties of the function graph and the instruction tracer: a
  memory that holds a stack of two frames, one of them of a traced call.
\<close>

section \<open>Searching the stack\<close>

text \<open>Two frames above the traced function; the call that owns the second is traced.\<close>

definition stack_mem :: "u64 \<Rightarrow> u8 option" where
  "stack_mem = mem_of
     [(0x108, [0, 0x30, 0, 0, 0, 0, 0, 0]),
      (0x3000, [0, 0x20, 0, 0, 0, 0, 0, 0,  1, 0, 0, 0, 0, 0, 0, 0]),
      (0x2000, [0, 0x40, 0, 0, 0, 0, 0, 0,  2, 0, 0, 0, 0, 0, 0, 0])]"

definition stack_h :: helpers where "stack_h = demo_helpers stack_mem"

definition stack_sessions :: "bpfsnoop_sess slots" where
  "stack_sessions = [(Some 0x4000, \<lparr>session_id = 0x700002000\<rparr>)]"

definition stack_fgraph :: "(bpfsnoop_sess slots, u32 slots) fgraph" where
  "stack_fgraph = \<lparr>fg_ready = 1, fg_sessions = stack_sessions, fg_tracee_ips = [],
     fg_tailcall = Some \<lparr>td_fp = 0, td_depth = 0, td_max_depth = 0, td_sess = 0, td_found = False,
       td_oo_depth = False\<rparr>, fg_prog_array = True, fg_events = []\<rparr>"

definition stack_config :: "u8 \<Rightarrow> bpfsnoop_fgraph_configs" where
  "stack_config tailcall = \<lparr>fg_func_ip = 0xFFFF800010000100, fg_max_depth = 3, fg_entry = 1,
     fg_tailcall_in_bpf2bpf = tailcall, fg_mypid = 1,
     fg_fn_args = \<lparr>fg_args_nr = 0, fg_with_retval = False, fg_buf_size = 0\<rparr>\<rparr>"

abbreviation demo_I :: "(u32 slots, u32) bpf_hash" where "demo_I \<equiv> ref_hash 1048576"

lemma stack_ok: "slots_inv BPFSNOOP_MAX_ENTRIES stack_sessions"
  by (simp add: stack_sessions_def demo_ok)

text \<open>The steps of the walk: from the tracee's caller over two frames.\<close>

lemma stack_blocks:
  "bytes_at stack_mem 0x3000 [0, 0x20, 0, 0, 0, 0, 0, 0,  1, 0, 0, 0, 0, 0, 0, 0]"
  "bytes_at stack_mem 0x2000 [0, 0x40, 0, 0, 0, 0, 0, 0,  2, 0, 0, 0, 0, 0, 0, 0]"
  unfolding stack_mem_def by (intro bytes_at_first bytes_at_later; simp)+

lemma stack_reads:
  "probe_bytes stack_h 0x3000 16 = [0, 0x20, 0, 0, 0, 0, 0, 0,  1, 0, 0, 0, 0, 0, 0, 0]"
  "probe_bytes stack_h 0x2000 16 = [0, 0x40, 0, 0, 0, 0, 0, 0,  2, 0, 0, 0, 0, 0, 0, 0]"
  by (intro refmem.probe_bytes_at [OF _ stack_blocks(1)] refmem.probe_bytes_at [OF _ stack_blocks(2)];
      simp add: stack_h_def demo_helpers_def)+

lemma stack_steps:
  "frame_fp stack_h 0x3000 = 0x2000" "frame_fp stack_h 0x2000 = 0x4000"
  "frame_ip stack_h 0x3000 = 1" "frame_ip stack_h 0x2000 = 2" "next_frame stack_h 0x2000 = 0x4000"
proof -
  show "frame_fp stack_h 0x3000 = 0x2000" "frame_ip stack_h 0x3000 = 1"
    "frame_fp stack_h 0x2000 = 0x4000" "frame_ip stack_h 0x2000 = 2"
    by (simp_all add: frame_fp_def frame_ip_def stack_reads load_le_def bslice_def push_bit_eq_mult)
  show "next_frame stack_h 0x2000 = 0x4000"
    using refmem.probe_word_at [OF _ stack_blocks(2), of stack_h 0 8 "0x2000"]
    by (simp add: next_frame_def stack_h_def demo_helpers_def load_le_def bslice_def push_bit_eq_mult)
qed

lemma stack_start: "fgraph_start_fp X86 (stack_config 0) stack_h 0x100 0 = 0x3000"
  by code_simp

lemma stack_view: "slots_view stack_sessions = [0x4000 \<mapsto> \<lparr>session_id = 0x700002000\<rparr>]"
  by (simp add: stack_sessions_def demo_view)

lemma stack_no_ips: "\<not> is_fgraph_ip demo_I ip []"
  by (simp add: is_fgraph_ip_def ref_hash_def slots_lookup_def slot_ptr_def)

lemma stack_search: "search_frames (stack_config 0) = Suc (Suc 4)" "unat (fg_max_depth (stack_config 0)) = 3"
  by (simp_all add: search_frames_def stack_config_def truthy_def)

lemma stack_near:
  "open_session_above (slots_view stack_sessions) demo_I (stack_config 0) stack_h []
     (search_frames (stack_config 0)) (fgraph_start_fp X86 (stack_config 0) stack_h 0x100 0) = Some (0x4000, 1)"
  unfolding open_session_above_def frame_walk_nearest [symmetric] stack_start stack_search
    frame_walk.simps(2) [of _ _ _ _ "Suc 4"] frame_walk.simps(2) [of _ _ _ _ 4]
  by (simp add: stack_steps stack_view stack_no_ips)

definition stack_reported :: "(bpfsnoop_sess slots, u32 slots) fgraph" where
  "stack_reported = snd (bpfsnoop_fgraph demo_S demo_I (demo_hooks True) X86 (stack_config 0) stack_h 0x100 0 stack_fgraph)"

lemma stack_pid: "ucast (fg_mypid (stack_config 0)) \<noteq> drop_bit 32 (bpf_get_current_pid_tgid stack_h)"
  by code_simp

lemma stack_fields:
  "fg_sessions stack_fgraph = stack_sessions" "fg_tracee_ips stack_fgraph = []" "fg_events stack_fgraph = []"
  "fg_tailcall_in_bpf2bpf (stack_config t) = t" "fg_max_depth (stack_config t) = 3"
  "fg_func_ip (stack_config t) = 0xFFFF800010000100" "fg_ready stack_fgraph = 1"
  "bpf_ringbuf_reserve stack_h n = Some (\<lambda>_. 0)" "search_ready (stack_config 0) stack_fgraph"
  by (simp_all add: stack_fgraph_def stack_config_def truthy_def stack_h_def demo_helpers_def search_ready_def)

theorem fgraph_reports_nearest_session_witness:
  "\<exists>r. fg_events stack_reported = [r] \<and> fe_session_id (go_graph_event r) = 0x700002000 \<and>
     fe_depth (go_graph_event r) = 1 \<and> fe_func_ip (go_graph_event r) = 0xFFFF800010000100"
proof -
  have hk: "writes_within (hook_output_fn_args (demo_hooks True) args rv off) off
      (unat (fg_buf_size (fg_fn_args (stack_config 0))))" for args rv off
    by (simp add: demo_hooks_def)
  have v: "slots_view stack_sessions 0x4000 = Some \<lparr>session_id = 0x700002000\<rparr>"
    by (simp add: stack_sessions_def demo_view)
  show ?thesis
    using fgraph_reports_nearest_session [OF refsess.session_map_axioms _ hk _ stack_pid _ _ _ refl refl,
        where st = stack_fgraph and st' = stack_reported and I = demo_I and arch = X86 and ctx = "0x100" and off = 0]
    by (auto simp: stack_fields stack_ok stack_near v stack_reported_def truthy_def)
qed

theorem fgraph_searches_agree_witness:
  "\<exists>st1. try_get_session demo_S demo_I X86 (stack_config 1) stack_h 0x100 0 stack_fgraph 0 = (1, 1, st1)"
proof -
  have c: "stack_config 0 = (stack_config 1)\<lparr>fg_tailcall_in_bpf2bpf := 0\<rparr>" by (simp add: stack_config_def)
  have "get_session demo_S 0x2000 stack_sessions = 0" "get_session demo_S 0x4000 stack_sessions = 1"
    by (simp_all add: get_session_def ref_hash_def slots_lookup_def slot_ptr_def stack_sessions_def)
  then have "limited_walk demo_S demo_I stack_h stack_fgraph 3 (Suc (Suc 4)) 0x3000 0 = (1, 1)"
    unfolding limited_walk.simps(2) by (simp add: stack_fields stack_steps stack_no_ips Let_def)
  then have found: "try_get_session demo_S demo_I X86 (stack_config 0) stack_h 0x100 0 stack_fgraph 0 =
      (1, 1, stack_fgraph)"
    by (simp add: try_get_session_def stack_start try_get_session_limited_def stack_fields truthy_def)
  show ?thesis
    by (rule fgraph_searches_agree [OF _ c _ _ _ found])
      (simp_all add: stack_fields truthy_def, simp_all add: stack_fgraph_def)
qed

definition stack_insn :: "bpfsnoop_sess slots insn_tracer" where
  "stack_insn = \<lparr>it_ready = 1, it_sessions = stack_sessions, it_events = []\<rparr>"

lemma stack_insn_near:
  "find (\<lambda>f. slots_view stack_sessions f \<noteq> None) (caller_frames stack_h 3 (pt_regs_fp stack_h 0x100)) = Some 0x4000"
  by (simp add: stack_h_def demo_helpers_def eval_nat_numeral stack_steps [unfolded stack_h_def demo_helpers_def]
      stack_view)

theorem insn_reports_nearest_session_witness:
  "\<exists>r. it_events (snd (bpfsnoop_insn demo_S 0xFFFF800010000104 stack_h 0x100 stack_insn)) = [r] \<and>
     ie_session_id (go_insn_event r) = 0x700002000 \<and> ie_insn_ip (go_insn_event r) = 0xFFFF800010000104"
proof -
  have v: "slots_view stack_sessions 0x4000 = Some \<lparr>session_id = 0x700002000\<rparr>"
    by (simp add: stack_sessions_def demo_view)
  have f: "it_sessions stack_insn = stack_sessions" "truthy (it_ready stack_insn)" "it_events stack_insn = []"
    by (simp_all add: stack_insn_def truthy_def)
  have near: "Some 0x4000 = find (\<lambda>f. slots_view (it_sessions stack_insn) f \<noteq> None)
      (caller_frames stack_h 3 (pt_regs_fp stack_h 0x100))"
    unfolding f by (rule stack_insn_near [symmetric])
  have ok: "slots_inv BPFSNOOP_MAX_ENTRIES (it_sessions stack_insn)" by (simp add: f stack_ok)
  show ?thesis
    using insn_reports_nearest_session [OF refsess.session_map_axioms ok f(2) refl near,
        where ip = "0xFFFF800010000104"]
    by (auto simp: f v stack_fields)
qed

end
