(* ===== verification/Packet_Witnesses.thy ===== *)
theory Packet_Witnesses
  imports Fn_Witnesses Filter_Props
begin

text \<open>
  Concrete packets for the properties of the packet report: a TCP packet, the same behind a
  VXLAN tunnel, one with IPv4 options, and an IPv6 packet, in a memory that also holds the
  socket buffer and the XDP buffers that point to them.
\<close>

text \<open>The field offsets of a kernel: the network headers', and those of the buffers' fields.\<close>

definition demo_layout :: layout where
  "demo_layout s f =
     (if f = ''h_proto'' \<or> f = ''saddr'' then 12
      else if f = ''h_vlan_encapsulated_proto'' \<or> f = ''dest'' \<or> f = ''mac_len'' then 2
      else if f = ''protocol'' then 9 else if f = ''window'' then 14
      else if f = ''mac_header'' then 4 else if f = ''head'' \<or> f = ''data_end'' then 8
      else if f = ''tail'' \<or> f = ''len'' then 16 else 0)"

text \<open>10.0.0.1:80 to 10.0.0.2:443, with the flags \<^verbatim>\<open>SYN\<close> and \<^verbatim>\<open>ACK\<close>.\<close>

definition tcp_ip :: "u8 list" where
  "tcp_ip = [0x45, 0, 0, 40, 0, 0, 0, 0, 64, 6, 0, 0, 10, 0, 0, 1, 10, 0, 0, 2,
     0, 80, 1, 0xBB, 0, 0, 0, 0, 0, 0, 0, 0, 0x50, 0x12, 0, 0, 0, 0, 0, 0]"

definition ether :: "u8 list" where
  "ether = [2, 0, 0, 0, 0, 1, 2, 0, 0, 0, 0, 2, 0x08, 0x00]"

definition vxlan_ip_udp :: "u8 list" where
  "vxlan_ip_udp = [0x45, 0, 0, 90, 0, 0, 0, 0, 64, 17, 0, 0, 192, 168, 0, 1, 192, 168, 0, 2,
     0, 80, 0x12, 0xB5, 0, 0, 0, 0, 8, 0, 0, 0, 0, 0, 7, 0]"

definition tunnel_ip :: "u8 list" where "tunnel_ip = vxlan_ip_udp @ ether @ tcp_ip"

text \<open>A TCP packet with three words of options: the ports are at byte 32.\<close>

definition options_ip :: "u8 list" where
  "options_ip = [0x48, 0, 0, 52, 0, 0, 0, 0, 64, 6, 0, 0, 10, 0, 0, 1, 10, 0, 0, 2,
     1, 1, 1, 1, 1, 1, 1, 1, 1, 1, 1, 0,
     0, 80, 1, 0xBB, 0, 0, 0, 0, 0, 0, 0, 0, 0x50, 0x12, 0, 0, 0, 0, 0, 0]"

definition ip6 :: "u8 list" where "ip6 = 0x60 # replicate 39 0"

text \<open>The socket buffer is at \<open>0x100\<close>, with a frame at \<open>0x5000\<close>; both XDP buffers are at \<open>0x200\<close>,
  with a frame at \<open>0x6000\<close>.\<close>

definition packet_mem :: "u64 \<Rightarrow> u8 option" where
  "packet_mem = mem_of
     [(0x100, [14, 0, 14, 0, 0, 0, 0, 0,  0, 0x50, 0, 0, 0, 0, 0, 0,  0x68, 0, 0, 0]),
      (0x200, [0, 0x60, 0, 0, 0, 0, 0, 0,  0x36, 0x60, 0, 0, 0, 0, 0, 0,  0x36, 0]),
      (0x5000, ether @ tunnel_ip), (0x6000, ether @ tcp_ip), (0x7000, options_ip), (0x8000, ip6)]"

definition packet_h :: helpers where "packet_h = demo_helpers packet_mem"

definition stale_pkt :: bpfsnoop_pkt_data where
  "stale_pkt = \<lparr>pkt_addrs = 1, pkt_ports = 2, pkt_protocol = 3, pkt_tcp_flags = 4, pkt_pad = [5, 6]\<rparr>"

lemmas packet_defs = tunnel_ip_def vxlan_ip_udp_def ether_def tcp_ip_def options_ip_def ip6_def

lemma packet_lengths: "length ether = 14" "length tcp_ip = 40" "length tunnel_ip = 90"
  by (simp_all add: packet_defs)

lemma packet_memory: "kernel_memory (bpf_probe_read_kernel packet_h) packet_mem"
  by (simp add: packet_h_def demo_helpers_def refmem.kernel_memory_axioms)

lemma packet_layout: "net_layout demo_layout"
  by (simp add: net_layout_def demo_layout_def)

lemma packet_blocks:
  "bytes_at packet_mem 0x100 [14, 0, 14, 0, 0, 0, 0, 0,  0, 0x50, 0, 0, 0, 0, 0, 0,  0x68, 0, 0, 0]"
  "bytes_at packet_mem 0x200 [0, 0x60, 0, 0, 0, 0, 0, 0,  0x36, 0x60, 0, 0, 0, 0, 0, 0,  0x36, 0]"
  "bytes_at packet_mem 0x5000 (ether @ tunnel_ip)" "bytes_at packet_mem 0x6000 (ether @ tcp_ip)"
  "bytes_at packet_mem 0x7000 options_ip" "bytes_at packet_mem 0x8000 ip6"
  unfolding packet_mem_def by (intro bytes_at_first bytes_at_later; simp add: packet_defs)+

lemma packet_bytes:
  "bytes_at packet_mem 0x500E tunnel_ip" "bytes_at packet_mem 0x600E tcp_ip"
  using packet_blocks(3,4) unfolding bytes_at_append by (simp_all add: ether_def)

lemma packet_word:
  "bytes_at packet_mem a bs \<Longrightarrow> off + n \<le> length bs \<Longrightarrow> b = a + of_nat off \<Longrightarrow>
     probe_word packet_h b n = load_le off n bs"
  by (rule refmem.probe_word_at) (simp_all add: packet_h_def demo_helpers_def)

lemmas packet_words = load_le_def bslice_def push_bit_eq_mult

lemma packet_pointers:
  "core_read packet_h demo_layout 8 ''xdp_buff'' ''data'' 0x200 = (0x6000 :: u64)"
  "core_read packet_h demo_layout 8 ''xdp_frame'' ''data'' 0x200 = (0x6000 :: u64)"
  "core_read packet_h demo_layout 8 ''sk_buff'' ''head'' 0x100 = (0x5000 :: u64)"
  "core_read packet_h demo_layout 2 ''sk_buff'' ''network_header'' 0x100 = (14 :: u16)"
  "core_read packet_h demo_layout 8 ''xdp_buff'' ''data_end'' 0x200 = (0x6036 :: u64)"
  "core_read packet_h demo_layout 2 ''xdp_frame'' ''len'' 0x200 = (0x36 :: u16)"
  "core_read packet_h demo_layout 2 ''sk_buff'' ''mac_len'' 0x100 = (14 :: u16)"
  "core_read packet_h demo_layout 2 ''sk_buff'' ''mac_header'' 0x100 = (0 :: u16)"
  "core_read packet_h demo_layout 4 ''sk_buff'' ''tail'' 0x100 = (0x68 :: u32)"
  using packet_word [OF packet_blocks(2), of 0 8 "0x200"] packet_word [OF packet_blocks(1), of 8 8 "0x108"]
    packet_word [OF packet_blocks(1), of 0 2 "0x100"] packet_word [OF packet_blocks(2), of 8 8 "0x208"]
    packet_word [OF packet_blocks(2), of 16 2 "0x210"] packet_word [OF packet_blocks(1), of 2 2 "0x102"]
    packet_word [OF packet_blocks(1), of 4 2 "0x104"] packet_word [OF packet_blocks(1), of 16 4 "0x110"]
  by (simp_all add: core_read_def demo_layout_def packet_words)

lemma tcp_ip_short: "short_ipv4 tcp_ip"
  by (simp add: short_ipv4_def ip_version_def ip_hdr_len_def tuple_len_def tcp_ip_def)

lemma tcp_ip_tuple:
  "rfc_tuple tcp_ip stale_pkt =
     \<lparr>pkt_addrs = 0x0200000A0100000A, pkt_ports = 0xBB015000, pkt_protocol = 6, pkt_tcp_flags = 0x12, pkt_pad = [5, 6]\<rparr>"
  by (simp add: rfc_tuple_def tcp_ip_def ip_hdr_len_def packet_words stale_pkt_def)

theorem output_tuple_correct_witness:
  "output_tuple packet_h demo_layout 0x600E stale_pkt =
     \<lparr>pkt_addrs = 0x0200000A0100000A, pkt_ports = 0xBB015000, pkt_protocol = 6, pkt_tcp_flags = 0x12, pkt_pad = [5, 6]\<rparr>"
  using output_tuple_correct [OF packet_memory packet_layout packet_bytes(2) tcp_ip_short, of stale_pkt]
  by (simp only: tcp_ip_tuple)

theorem output_tuple_long_header_witness:
  "pkt_ports (output_tuple packet_h demo_layout 0x7000 stale_pkt) = 0x34000048"
proof -
  have "ip_version options_ip = 4" "32 \<le> ip_hdr_len options_ip"
    "tuple_len options_ip (ip_hdr_len options_ip) \<le> length options_ip"
    by (simp_all add: ip_version_def ip_hdr_len_def tuple_len_def options_ip_def)
  from output_tuple_long_header [OF packet_memory packet_layout packet_blocks(5) this, of stale_pkt]
  show ?thesis by (simp add: tuple_at_def ip_hdr_len_def options_ip_def packet_words)
qed

theorem output_tuple_keeps_stale_witness:
  "output_tuple packet_h demo_layout 0x8000 stale_pkt = stale_pkt"
  by (rule output_tuple_keeps_stale [OF packet_memory packet_blocks(6)])
    (simp_all add: ip6_def ip_version_def)

theorem output_xdp_correct_witness:
  "pkt_protocol (output_xdp_buff packet_h demo_layout 1 0x200 stale_pkt) = 6 \<and>
   pkt_protocol (output_xdp_frame packet_h demo_layout 1 0x200 stale_pkt) = 6"
proof -
  have e: "ether_type (ether @ tcp_ip) = ET_IP" "drop 14 (ether @ tcp_ip) = tcp_ip" "\<not> vxlan_ip tcp_ip"
    by (simp_all add: ether_type_def bslice_def ET_IP_def vxlan_ip_def packet_defs)
  have u: "frame_ip (untunnel_frame 1 (ether @ tcp_ip)) = Some tcp_ip"
    unfolding untunnel_frame_def using e by (simp add: frame_ip_def)
  have "readable_frame 1 (ether @ tcp_ip)"
    unfolding readable_frame_def outer_headers_def u e using tcp_ip_short e(3)
    by (simp add: ip_hdr_len_def packet_defs)
  from output_xdp_correct [OF packet_memory packet_layout packet_blocks(4) this packet_pointers(1,2) refl,
      where pkt = stale_pkt]
  show ?thesis unfolding u by (simp add: tcp_ip_tuple)
qed

theorem output_skb_correct_witness:
  "pkt_ports (output_skb packet_h demo_layout 1 0x100 stale_pkt) = 0xBB015000"
proof -
  have skb: "(0x500E :: u64) = core_read packet_h demo_layout 8 ''sk_buff'' ''head'' 0x100 +
      ucast (core_read packet_h demo_layout 2 ''sk_buff'' ''network_header'' 0x100 :: u16)"
    by (simp add: packet_pointers)
  have t: "vxlan_ip tunnel_ip" "ip_hdr_len tunnel_ip = 20" "length tunnel_ip = 90"
    by (simp_all add: vxlan_ip_def ip_hdr_len_def packet_defs)
  have "drop 14 (vxlan_payload tunnel_ip) = tcp_ip"
    by (simp add: vxlan_payload_def t) (simp add: packet_defs)
  then have i: "tcp_ip = (if truthy 1 \<and> vxlan_ip tunnel_ip then drop 14 (vxlan_payload tunnel_ip) else tunnel_ip)"
    using t by (simp add: truthy_def)
  have "output_skb packet_h demo_layout 1 0x100 stale_pkt = rfc_tuple tcp_ip stale_pkt"
    by (rule output_skb_correct [OF packet_memory packet_layout packet_bytes(1) skb _ _ i _ tcp_ip_short])
      (simp_all add: t)
  then show ?thesis by (simp add: tcp_ip_tuple)
qed

text \<open>The C stubs accept both: the XDP frame from its start, the tunnelled one 50 bytes later.\<close>

theorem filter_sees_frame_witness:
  "filter_pkt packet_h demo_layout 1 c_pcap [0x200] FILTER_PKT_XDP_BUFF \<and>
   filter_pkt packet_h demo_layout 1 c_pcap [0x200] FILTER_PKT_XDP_FRAME"
proof -
  have e: "\<not> vxlan_ip tcp_ip" "drop 14 (ether @ tcp_ip) = tcp_ip" by (simp_all add: vxlan_ip_def packet_defs)
  have u: "untunnel_frame 1 (ether @ tcp_ip) = ether @ tcp_ip" unfolding untunnel_frame_def using e by simp
  have ok: "outer_headers 1 (ether @ tcp_ip)"
    unfolding outer_headers_def e(2) using e(1) by (simp add: ip_hdr_len_def packet_defs)
  have len: "length (ether @ tcp_ip) = 54" by (simp add: packet_defs)
  have "core_read packet_h demo_layout 8 ''xdp_buff'' ''data_end'' 0x200 = 0x6000 + (of_nat (length (ether @ tcp_ip)) :: u64)"
    "ucast (core_read packet_h demo_layout 2 ''xdp_frame'' ''len'' 0x200 :: u16) = (of_nat (length (ether @ tcp_ip)) :: u64)"
    unfolding len packet_pointers by simp_all
  from filter_sees_frame [OF packet_memory packet_layout packet_blocks(4) ok packet_pointers(1) this(1)
      packet_pointers(2) this(2) refl refl, where P = c_pcap and args = "[]"]
  show ?thesis unfolding u by (simp add: c_pcap_def filter_pcap_l2_def packet_lengths)
qed

theorem filter_skb_sees_packet_witness:
  "filter_pkt packet_h demo_layout 1 \<lparr>pcap_l2 = (\<lambda>_ _ _ a b. a = 0x5032 \<and> b = 0x5068), pcap_l3 = (\<lambda>_ _ _ _ _. False)\<rparr> [0x100] 0"
proof -
  have d: "drop 14 (ether @ tunnel_ip) = tunnel_ip" "ip_hdr_len tunnel_ip = 20" "vxlan_ip tunnel_ip"
    "ether_type (ether @ tunnel_ip) = ET_IP" "length (ether @ tunnel_ip) = 104"
    by (simp_all add: vxlan_ip_def ip_hdr_len_def ether_type_def bslice_def ET_IP_def packet_defs)
  have u: "untunnel_frame 1 (ether @ tunnel_ip) = ether @ tcp_ip"
    unfolding untunnel_frame_def d using d(3)
    by (simp add: truthy_def vxlan_payload_def d(2)) (simp add: packet_defs)
  have o: "outer_headers 1 (ether @ tunnel_ip)"
    unfolding outer_headers_def d(1) d(2) d(4) d(5) by simp
  have tail: "0x5068 = core_read packet_h demo_layout 8 ''sk_buff'' ''head'' 0x100 +
      (ucast (core_read packet_h demo_layout 4 ''sk_buff'' ''tail'' 0x100 :: u32) :: u64)"
    by (simp add: packet_pointers)
  show ?thesis
    using filter_skb_sees_packet [OF packet_memory packet_layout refl refl tail packet_blocks(3) _ _ refl,
        where T = 1 and inner = "ether @ tcp_ip" and args = "[]"]
    by (simp add: packet_pointers o u packet_lengths)
qed

end
