(* ===== verification/Probe_Witnesses.thy ===== *)
theory Probe_Witnesses
  imports Packet_Witnesses Layout Traceable Tracepoint Tracepoint_Module Probes
begin

text \<open>
  Concrete inputs for the properties of the one-shot programs, of the shared helpers and of
  the structure layouts.
\<close>

section \<open>Shared helpers\<close>

theorem lookup_or_try_init_spec_witness:
  "slots_view (snd (bpf_map_lookup_or_try_init demo_S 7 \<lparr>session_id = 9\<rparr> [])) = [7 \<mapsto> \<lparr>session_id = 9\<rparr>]"
proof -
  have r: "bpf_map_lookup_or_try_init demo_S 7 \<lparr>session_id = 9\<rparr> [] = (1, [(Some 7, \<lparr>session_id = 9\<rparr>)])"
    by (simp add: bpf_map_lookup_or_try_init_def ref_hash_def slots_lookup_def slot_ptr_def slots_update_def
        BPFSNOOP_MAX_ENTRIES_def BPF_NOEXIST_def BPF_EXIST_def)
  have "slots_inv BPFSNOOP_MAX_ENTRIES []" by (simp add: slots_inv_def)
  from lookup_or_try_init_spec [OF refmap.bpf_hash_map_axioms this r] show ?thesis
    by (simp add: r demo_view)
qed

theorem detect_never_finds_witness:
  "get_tramp_fp ARM64 demo_h 0x100 1 True 0 = (get_ptr 0x100 1 True + 16, 0)"
proof -
  have "probe_err demo_h a 8 \<noteq> bpf_get_func_ip demo_h 0x100 + 8" for a
    by (simp add: probe_err_def demo_h_def demo_helpers_def mem_probe_def neg_errno_def)
  from detect_never_finds [of demo_h "0x100" 1 True, OF this] show ?thesis
    by (simp add: demo_h_def demo_helpers_def)
qed

definition demo_event :: event where
  "demo_event = \<lparr>evt_type = 1, evt_length = 56, kernel_ts = 3, evt_session_id = 5, func_ip = 6, evt_cpu = 7,
     evt_pid = 8, comm = replicate 16 0, func_stack_id = 9\<rparr>"


section \<open>The one-shot programs\<close>

text \<open>A long nop at \<open>0x100\<close>; nothing is mapped at \<open>0\<close>.\<close>

definition code_mem :: "u64 \<Rightarrow> u8 option" where
  "code_mem = mem_of [(0x100, [0x0F, 0x1F, 0x44, 0, 0, 1, 2, 3, 4, 5, 6, 7, 8, 9, 10, 11])]"

definition code_h :: helpers where "code_h = demo_helpers code_mem"

lemma code_memory: "kernel_memory (bpf_probe_read_kernel code_h) code_mem"
  by (simp add: code_h_def demo_helpers_def refmem.kernel_memory_axioms)

theorem is_traceable_correct_witness:
  "is_traceable X86 code_h 0 0x100 \<and> \<not> is_traceable X86 code_h 0 0"
proof -
  let ?bs = "[0x0F, 0x1F, 0x44, 0, 0, 1, 2, 3, 4, 5, 6, 7, 8, 9, 10, 11] :: u8 list"
  have "bytes_at code_mem 0x100 ?bs" unfolding code_mem_def by (rule bytes_at_first) simp
  then have m: "code_mem (0x100 + of_nat i) = Some (?bs ! i)" if "i < 16" for i
    using that by (simp add: bytes_at_def)
  have bs: "map (\<lambda>i. the (code_mem (0x100 + of_nat i))) [0..<16] = ?bs"
    by (rule nth_equalityI) (simp_all add: m)
  have "patchable X86 0 ?bs"
    by (simp add: patchable_def x86_site_def x86_nop5_def truthy_def)
  moreover have "list_all (\<lambda>i. code_mem (0x100 + of_nat i) \<noteq> None) [0..<16]"
    by (simp add: list_all_iff m)
  moreover have "\<not> list_all (\<lambda>i. code_mem (0 + of_nat i) \<noteq> None) [0..<16]"
    unfolding list_all_iff by (simp, rule bexI [of _ 0]) (simp_all add: code_mem_def)
  ultimately show ?thesis
    unfolding is_traceable_correct [OF code_memory] bs by blast
qed

definition demo_traceable :: traceable_data where
  "demo_traceable = \<lparr>traceables = replicate 1024 False, tr_run = False\<rparr>"

definition demo_addrs :: traceable_rodata where
  "demo_addrs = \<lparr>tr_addrs = replicate 1024 0x100, nr_addrs = 2, has_endbr = 0\<rparr>"

theorem detect_decides_each_address_witness:
  "traceables (snd (detect X86 code_h demo_addrs demo_traceable)) ! 1 = is_traceable X86 code_h 0 0x100 \<and>
   \<not> traceables (snd (detect X86 code_h demo_addrs demo_traceable)) ! 2"
  using detect_decides_each_address [of demo_traceable 1 X86 code_h demo_addrs]
    detect_decides_each_address [of demo_traceable 2 X86 code_h demo_addrs]
  by (simp add: demo_traceable_def demo_addrs_def ADDR_CAP_def Let_def)

definition demo_tps :: tracepoints where
  "demo_tps = \<lparr>tps = replicate 256 \<lparr>tp_name = [], func_proto_symbol = 0, tp_num_args = 0\<rparr>, tps_run = False\<rparr>"

theorem probe_tracepoints_reads_each_witness:
  "tps (snd (probe_tracepoints code_h demo_layout 0x100 3 demo_tps)) ! 2 =
     probe_tp_info code_h demo_layout 0x140 \<and>
   tp_name (tps (snd (probe_tracepoints code_h demo_layout 0x100 3 demo_tps)) ! 3) = []"
  using probe_tracepoints_reads_each [of demo_tps 2 code_h demo_layout "0x100" 3]
    probe_tracepoints_reads_each [of demo_tps 3 code_h demo_layout "0x100" 3]
  by (simp add: demo_tps_def TP_MAX_def Let_def)

text \<open>A list of one module: its node is at \<open>0x1008\<close>, the head at \<open>0x900\<close>.\<close>

definition module_layout :: layout where
  "module_layout s f = (if s = ''bpf_trace_module'' \<and> f = ''list'' then 8 else 0)"

definition module_h :: helpers where
  "module_h = demo_helpers (mem_of
     [(0x900, [0x08, 0x10, 0, 0, 0, 0, 0, 0]), (0x1000, [0, 0x20, 0, 0, 0, 0, 0, 0,  0, 9, 0, 0, 0, 0, 0, 0])])"

definition demo_modules :: trace_modules where
  "demo_modules = \<lparr>tm_modules = replicate 256 \<lparr>mi_name = [], num_bpf_raw_events = 0, bpf_raw_events = 0\<rparr>,
     next_module = 0, nr_modules = 0, tm_end = False, tm_run = False\<rparr>"

lemma module_words:
  "core_read module_h module_layout 8 ''list_head'' ''next'' 0x900 = (0x1008 :: u64)"
  "next_node module_h module_layout 0x1008 = 0x900"
proof -
  let ?m = "mem_of [(0x900, [0x08, 0x10, 0, 0, 0, 0, 0, 0]),
    (0x1000, [0, 0x20, 0, 0, 0, 0, 0, 0,  0, 9, 0, 0, 0, 0, 0, 0])]"
  have b: "bytes_at ?m 0x900 [0x08, 0x10, 0, 0, 0, 0, 0, 0]"
    "bytes_at ?m 0x1000 [0, 0x20, 0, 0, 0, 0, 0, 0,  0, 9, 0, 0, 0, 0, 0, 0]"
    by (intro bytes_at_first bytes_at_later; simp)+
  have h: "bpf_probe_read_kernel module_h = mem_probe ?m" by (simp add: module_h_def demo_helpers_def)
  show "core_read module_h module_layout 8 ''list_head'' ''next'' 0x900 = (0x1008 :: u64)"
    "next_node module_h module_layout 0x1008 = 0x900"
    using refmem.probe_word_at [OF h b(1), of 0 8 "0x900"] refmem.probe_word_at [OF h b(2), of 8 8 "0x1008"]
    by (simp_all add: core_read_def module_layout_def next_node_def module_of_node_def packet_words)
qed

theorem probe_modules_reads_list_witness:
  "unat (nr_modules (snd (probe_modules module_h module_layout 0x900 0 demo_modules))) = 1 \<and>
   tm_end (snd (probe_modules module_h module_layout 0x900 0 demo_modules))"
proof -
  have l: "list_from module_h module_layout 0x900 (if truthy 0 then 0
      else core_read module_h module_layout 8 ''list_head'' ''next'' 0x900) [0x1008]"
    by (simp add: truthy_def module_words)
  show ?thesis
    using probe_modules_reads_list [OF _ _ l refl, of demo_modules]
    by (simp add: demo_modules_def TP_MODULE_MAX_def)
qed


theorem read_kernel_reads_memory_witness:
  "take 2 (rd_buff (snd (read_kernel code_h 0x100 2 \<lparr>rd_buff = replicate 4096 0, rd_run = False\<rparr>))) = [0x0F, 0x1F]"
proof -
  have m: "code_mem (0x100 + of_nat i) = Some ([0x0F, 0x1F] ! i)" if "i < length [0x0F, 0x1F :: u8]" for i
    using that by (auto simp: code_mem_def less_Suc_eq)
  from read_kernel_reads_memory [OF code_memory m _ _ _ _ refl,
      where n = 2 and st = "\<lparr>rd_buff = replicate 4096 0, rd_run = False\<rparr>"]
  show ?thesis by (simp add: READ_BUFF_SIZE_def)
qed

section \<open>Layouts\<close>


end
