(* ===== verification/Loader_Witnesses.thy ===== *)
theory Loader_Witnesses
  imports Loader_Hooks Inject Inject_Filter Go_Sessions Go_Packet Packet_Witnesses
begin

text \<open>
  Concrete signatures, programs and runs of the consumer, at which the hypotheses of the properties
  of the generated code, of its injection and of the consumer hold.
\<close>

section \<open>A function of two parameters\<close>

definition flag_number :: FuncParamFlags where
  "flag_number = \<lparr>IsNumberPtr = False, IsStr = False, partOfPrevParam = False\<rparr>"

definition flag_pointer :: FuncParamFlags where
  "flag_pointer = \<lparr>IsNumberPtr = True, IsStr = False, partOfPrevParam = False\<rparr>"

lemma demo_flags [simp]:
  "IsStr flag_number = False" "IsNumberPtr flag_number = False" "partOfPrevParam flag_number = False"
  "IsStr flag_pointer = False" "IsNumberPtr flag_pointer = True" "partOfPrevParam flag_pointer = False"
  "prm_size flag_number = 8" "prm_size flag_pointer = 16"
  by (simp_all add: flag_number_def flag_pointer_def prm_size_def)

abbreviation demo_prms :: "FuncParamFlags list" where "demo_prms \<equiv> [flag_number, flag_pointer]"

abbreviation demo_stack :: "u8 list" where "demo_stack \<equiv> replicate FRAME 0"

lemma demo_serial:
  "serial h demo_prms flag_number True [7, 0x100] 9 =
     le_bytes 8 (7 :: u64) @ le_bytes 8 (0x100 :: u64) @ probe_bytes h 0x100 8 @ le_bytes 8 (9 :: u64)"
  by (simp add: serial_def prm_bytes_def)

theorem generated_code_writes_values_witness:
  "\<exists>m'. exec demo_h (\<lambda>_ _. None) (fst (genOutputFuncArgs demo_prms flag_number True)) 100 0
      (gen_entry demo_stack [7, 0x100] 9 56 (replicate 88 0)) = Halted m' \<and>
    m_buff m' = store 56 (le_bytes 8 (7 :: u64) @ le_bytes 8 (0x100 :: u64) @ probe_bytes demo_h 0x100 8 @ le_bytes 8 (9 :: u64))
      (replicate 88 0)"
proof -
  have "length (fst (genOutputFuncArgs demo_prms flag_number True)) \<le> 100"
    using length_gen_prms [of 0 0 demo_prms] length_gen_ret [of 24 flag_number] by (simp add: genOutputFuncArgs_code)
  from generated_code_writes_values [OF _ _ _ _ this, of "[7, 0x100]" demo_stack 56 "replicate 88 0" demo_h "\<lambda>_ _. None" 9]
  show ?thesis by (simp add: genOutputFuncArgs_size serial_size_def demo_serial)
qed

theorem arguments_roundtrip_witness:
  "\<exists>ps y nxt. outputFnArgs None 2 demo_prms flag_number (serial demo_h demo_prms flag_number True [7, 0x100] 9) True =
      Some (ps, Some (Value 9 y [])) \<and> ps ! 1 = printed_of demo_h 1 flag_pointer 0x100 nxt"
proof -
  have len: "length demo_prms \<le> length [7 :: u64, 0x100]" by simp
  show ?thesis
    using arguments_roundtrip [OF _ len, where h = demo_h and ret = flag_number and wr = True and rv = 9]
    by (auto simp: All_less_Suc numeral_2_eq_2)
qed

section \<open>A tracer with the generated routine\<close>

definition loaded_cfg :: bpfsnoop_config where
  "loaded_cfg = (demo_config True False)\<lparr>fn_args :=
     \<lparr>args_nr = 1, with_retval = True, buf_size = 16, data_size = 0\<rparr>\<rparr>"

definition loaded_hooks :: hooks where
  "loaded_hooks = (demo_hooks True)\<lparr>hook_output_fn_args :=
     gen_output_fn_args demo_h demo_stack [flag_number] flag_number True\<rparr>"

definition loaded_ro :: rodata where
  "loaded_ro = (demo_ro True False)\<lparr>rd_cfg := loaded_cfg\<rparr>"

lemma demo_loaded: "loaded_for demo_h demo_stack [flag_number] flag_number True loaded_cfg loaded_hooks"
  by (simp add: loaded_for_def loaded_cfg_def loaded_hooks_def genOutputFuncArgs_size serial_size_def MAX_FN_ARGS_def)

lemma demo_loaded_others: "hooks_within loaded_cfg (loaded_hooks\<lparr>hook_output_fn_args := output_fn_args\<rparr>)"
  by (simp add: loaded_hooks_def hooks_within_def demo_hooks_def output_fn_args_def [abs_def])

theorem loaded_hooks_within_witness: "hooks_within loaded_cfg loaded_hooks"
  by (rule loaded_hooks_within [OF demo_loaded demo_loaded_others])

text \<open>The same fact, for the other witnesses.\<close>

lemma demo_loaded_within: "hooks_within loaded_cfg loaded_hooks"
  using gen_output_fn_args_within [of demo_stack "[flag_number]" flag_number True demo_h] demo_loaded_others
    loaded_buf_size [OF demo_loaded]
  by (simp add: hooks_within_def loaded_hooks_def serial_size_def)

definition loaded_exited :: "(bpfsnoop_sess slots, bpfsnoop_lbr_data slots) tracer" where
  "loaded_exited = snd (bpfsnoop_fn demo_S demo_B loaded_hooks loaded_ro demo_h 0x100 demo_entered)"

theorem traced_values_are_printed_witness:
  "\<exists>r ps x y nxt. events loaded_exited = events demo_entered @ [r] \<and>
     outputFnArgs None 1 [flag_number] flag_number (bslice 56 16 r) True = Some (ps, Some (Value x y [])) \<and>
     ps ! 0 = printed_of demo_h 0 flag_number (load_le 0 8 (probe_bytes demo_h 0x100 8)) nxt"
proof -
  have fields: "rd_cfg loaded_ro = loaded_cfg" "rd_arch loaded_ro = X86" "cfg_both_entry_exit loaded_cfg"
      "\<not> cfg_is_entry loaded_cfg" "unat (buf_size (fn_args loaded_cfg)) = 16"
    by (simp_all add: loaded_ro_def loaded_cfg_def demo_ro_def demo_config_def)
  have "fn_fp loaded_ro demo_h 0x100 0 = fn_fp (demo_ro True False) demo_h 0x100 0"
    by (simp add: fn_fp_def fields, simp add: loaded_cfg_def demo_ro_def demo_config_def)
  then have fp: "0x2000 = fn_fp loaded_ro demo_h 0x100 (tramp_fp_offset demo_entered)" by simp
  have act: "fn_active loaded_ro demo_h demo_entered"
    by (simp add: fn_active_def fields demo_pid, simp add: loaded_ro_def loaded_cfg_def demo_ro_def demo_config_def truthy_def)
  have ok: "slots_inv BPFSNOOP_MAX_ENTRIES (sessions demo_entered)" by (simp add: demo_ok)
  have v: "slots_view (sessions demo_entered) 0x2000 = Some \<lparr>session_id = demo_sid\<rparr>" by (simp add: demo_view)
  note r = traced_values_are_printed [OF refsess.session_map_axioms ok act _ _ fp v _ _ _ _ loaded_exited_def,
    unfolded fields, OF _ _ demo_loaded demo_loaded_within]
  from r fields show ?thesis by (simp add: sizeof_event_def) blast
qed

section \<open>A program with the routines the loader works on\<close>

definition demo_func :: "string \<Rightarrow> instructions" where
  "demo_func f = [\<lparr>ins_op = Mov_Imm R0 0, ins_symbol = f, ins_reference = []\<rparr>, plain Return]"

definition demo_prog :: instructions where
  "demo_prog =
     [\<lparr>ins_op = Mov_Reg R6 R1, ins_symbol = ''bpfsnoop_fn'', ins_reference = []\<rparr>,
      Call_Label ''output_fn_args'', Call_Label ''output_pkt'', plain Return] @
     concat (map demo_func [''output_fn_args'', ''output_pkt'', ''output_skb'', ''output_pskb'',
       ''output_xdp_buff'', ''output_xdp_frame''])"

lemma demo_prog_well_formed: "well_formed demo_prog"
  by code_simp

lemma demo_prog_entries:
  "no_entry_call demo_prog ''output_fn_args''" "list_all (no_entry_call demo_prog) all_pkt_routines"
  by code_simp+

lemma demo_prog_names:
  "names demo_prog = [''bpfsnoop_fn'', ''output_fn_args'', ''output_pkt'', ''output_skb'', ''output_pskb'',
     ''output_xdp_buff'', ''output_xdp_frame'']"
  by code_simp

theorem splicing_refines_witness:
  "funcs (injectInsns demo_prog ''output_fn_args'' [plain Return]) = replace_func ''output_fn_args'' [plain Return] (funcs demo_prog)"
  using splicing_refines [OF demo_prog_well_formed, of "''output_fn_args''" "[plain Return]"] by (simp add: plain_def)

theorem spliced_routine_writes_values_witness:
  "\<exists>code m'. func_code (fst (injectOutputFuncArgs demo_prog demo_prms flag_number False)) ''output_fn_args'' = Some code \<and>
     exec demo_h (\<lambda>_ _. None) code (length code) 0 (gen_entry demo_stack [7, 0x100] 9 56 (replicate 80 0)) = Halted m' \<and>
     m_buff m' = store 56 (serial demo_h demo_prms flag_number False [7, 0x100] 9) (replicate 80 0)"
proof -
  have size: "snd (injectOutputFuncArgs demo_prog demo_prms flag_number False) = 24"
    by (simp add: injectOutputFuncArgs_def split_beta genOutputFuncArgs_size serial_size_def)
  have name: "''output_fn_args'' \<in> set (names demo_prog)" by (simp add: demo_prog_names)
  have "\<exists>code m'. func_code (fst (injectOutputFuncArgs demo_prog demo_prms flag_number False)) ''output_fn_args'' = Some code \<and>
      exec demo_h (\<lambda>_ _. None) code (length code) 0 (gen_entry demo_stack [7, 0x100] 9 56 (replicate 80 0)) = Halted m' \<and>
      m_buff m' = store 56 (serial demo_h demo_prms flag_number False [7, 0x100] 9) (replicate 80 0) \<and>
      24 = length (serial demo_h demo_prms flag_number False [7, 0x100] 9) \<and>
      (\<forall>f. f \<noteq> ''output_fn_args'' \<longrightarrow>
        func_code (fst (injectOutputFuncArgs demo_prog demo_prms flag_number False)) f = func_code demo_prog f)"
    by (rule spliced_routine_writes_values [OF demo_prog_well_formed name]) (simp_all add: prod_eq_iff size)
  then show ?thesis by blast
qed

text \<open>The packet routines as a function, and a signature whose second parameter is a socket buffer.\<close>

definition demo_subs :: "helpers \<Rightarrow> layout \<Rightarrow> u32 \<Rightarrow> string \<Rightarrow> machine \<Rightarrow> machine option" where
  "demo_subs h L T stub m =
     (case (m_regs m R1, m_regs m R2) of
        (Some (Scalar v), Some (PtrBuff off)) \<Rightarrow>
          Some (m\<lparr>m_regs := (m_regs m)(R0 := None),
            m_buff := pkt_in_buffer (pkt_routine h L T stub v) (nat off) (m_buff m)\<rparr>)
      | _ \<Rightarrow> None)"

lemma demo_subs_routines: "calls_c_routines h L T (demo_subs h L T)"
  by (auto simp: calls_c_routines_def demo_subs_def)

definition demo_pkt_entry :: machine where
  "demo_pkt_entry = \<lparr>m_regs = [R1 \<mapsto> PtrArgs 0, R2 \<mapsto> PtrBuff 56], m_args = [7, 0x100],
     m_buff = replicate 72 0, m_frame = demo_stack\<rparr>"

theorem specialised_packet_output_witness:
  "\<exists>code m'. func_code (fst (injectPktOutput True [Other_Type, Ptr_Struct ''sk_buff''] demo_prog)) ''output_pkt'' = Some code \<and>
     exec demo_h (demo_subs demo_h (\<lambda>_ _. 0) 0) code 3 0 demo_pkt_entry = Halted m' \<and>
     m_buff m' = pkt_in_buffer (output_skb demo_h (\<lambda>_ _. 0) 0 0x100) 56 (replicate 72 0)"
proof -
  let ?ps = "[Other_Type, Ptr_Struct ''sk_buff'']"
  have names: "set all_pkt_routines \<subseteq> set (names demo_prog)" by (simp add: demo_prog_names)
  have regs: "m_regs demo_pkt_entry R1 = Some (PtrArgs 0)" "m_regs demo_pkt_entry R2 = Some (PtrBuff (int 56))"
    "m_args demo_pkt_entry = [7, 0x100]" "m_buff demo_pkt_entry = replicate 72 0"
    by (simp_all add: demo_pkt_entry_def)
  have param: "pkt_param 0 ?ps = Some (1, ''output_skb'')" by (simp add: pkt_routine_of_def)
  note r = specialised_packet_output [OF demo_prog_well_formed demo_prog_entries(2) names surjective_pairing
      demo_subs_routines regs(1,2), of ?ps demo_h "\<lambda>_ _. 0" 0]
  show ?thesis using r by (simp only: param) (simp add: regs pkt_routine_def)
qed

section \<open>A consumer\<close>

definition demo_env :: consumer_env where
  "demo_env = \<lparr>funcInfo_of = (\<lambda>_. \<lparr>insnMode = False, grphMode = True, bothMode = True, isTp = False\<rparr>),
     known_insn = (\<lambda>_. True), known_graph = (\<lambda>_. True), text_of = (\<lambda>_. ''call''), runDelta = 0\<rparr>"

definition demo_consumer :: consumer where
  "demo_consumer = \<lparr>go_sessions = Map.empty, written = []\<rparr>"

lemma demo_consumer_fields [simp]:
  "requiredSession (funcInfo_of demo_env f)" "grphMode (funcInfo_of demo_env f)" "runDelta demo_env = 0"
  "go_sessions demo_consumer = Map.empty" "written demo_consumer = []"
  by (simp_all add: demo_env_def demo_consumer_def requiredSession_def)

text \<open>The run of one entry and one exit submits two records, of which one is an entry.\<close>

lemma demo_entry_ids: "distinct (entry_ids (events demo_exited))"
proof -
  have ok: "slots_inv BPFSNOOP_MAX_ENTRIES (sessions demo_entered)" by (simp add: demo_ok)
  have fp: "0x2000 = fn_fp (demo_ro True False) demo_h 0x100 (tramp_fp_offset demo_entered)" by simp
  have v: "slots_view (sessions demo_entered) 0x2000 = Some \<lparr>session_id = demo_sid\<rparr>" by (simp add: demo_view)
  have act: "fn_active (demo_ro True False) demo_h demo_entered" by simp
  have both: "cfg_both_entry_exit (rd_cfg (demo_ro True False))" "\<not> cfg_is_entry (rd_cfg (demo_ro True False))" by simp_all
  note x = fn_matched_exit [OF refsess.session_map_axioms ok act both fp v, of demo_B "demo_hooks True",
      folded demo_exited_def]
  have "\<exists>r. events demo_exited = events demo_entered @ [r] \<and>
      evt_type (go_event r) = event_type_code BPFSNOOP_EVENT_TYPE_FUNC_EXIT"
    using fn_submit_adds [where hk = "demo_hooks True" and ro = "demo_ro True False" and h = demo_h and ctx = "0x100"
        and sid = "demo_sid - 1" and ty = BPFSNOOP_EVENT_TYPE_FUNC_EXIT and B = demo_B
        and st = "(fn_start (demo_ro True False) demo_h 0x100 demo_entered)
          \<lparr>sessions := snd (take_session demo_S 0x2000 (sessions demo_entered))\<rparr>"]
    by (auto simp: x adds_record_def fn_header_def)
  moreover have "\<exists>r. events demo_entered = [r]"
    using fn_submit_adds [where hk = "demo_hooks True" and ro = "demo_ro True True" and h = demo_h and ctx = "0x100"
        and sid = demo_sid and ty = BPFSNOOP_EVENT_TYPE_FUNC_ENTRY and B = demo_B
        and st = "(fn_start (demo_ro True True) demo_h 0x100 (demo_tracer []))
          \<lparr>sessions := [(Some 0x2000, \<lparr>session_id = demo_sid\<rparr>)]\<rparr>"]
    by (auto simp: demo_entered_eq adds_record_def)
  ultimately show ?thesis by (auto simp: entry_ids_def record_report_def)
qed

theorem consumer_prints_completed_calls_witness:
  "\<exists>es c'. paired es \<and> map record_report (events demo_exited) = map report es \<and>
     Run demo_env 0 (events demo_exited) demo_consumer = Some c' \<and>
     written c' = calls_printed (\<lambda>_. []) (zip es (map (text_of demo_env) (events demo_exited)))"
proof -
  have st: "slots_inv BPFSNOOP_MAX_ENTRIES (sessions demo_fresh)" "slots_view (sessions demo_fresh) = Map.empty"
    "events demo_fresh = []" by (simp_all add: demo_view)
  have c: "go_sessions demo_consumer = Map.empty" "written demo_consumer = []" by simp_all
  from consumer_prints_completed_calls [OF refsess.session_map_axioms demo_run st demo_consumer_fields(1,3)
      demo_entry_ids c] show ?thesis by blast
qed

theorem graph_stamps_stay_in_range_witness:
  "\<exists>c'. Run demo_env 0 [replicate 32 4] demo_consumer = Some c' \<and> all_stamped c'"
proof -
  have "all_stamped demo_consumer" by (simp add: all_stamped_def)
  from graph_stamps_stay_in_range [OF demo_consumer_fields(2) this, of "[replicate 32 4]"] show ?thesis by simp
qed

text \<open>A program with the filter routines, and a filter that compiles to code that accepts.\<close>

definition demo_filter_prog :: instructions where
  "demo_filter_prog =
     [\<lparr>ins_op = Mov_Reg R6 R1, ins_symbol = ''bpfsnoop_fn'', ins_reference = []\<rparr>,
      Call_Label ''filter_pkt'', plain Return] @ concat (map demo_func (drop 2 all_filter_routines))"

definition demo_compile :: "string \<Rightarrow> pcap_options \<Rightarrow> instructions option" where
  "demo_compile expr opt = Some [plain (Mov_Imm R0 1), plain Return]"

definition demo_filter_subs :: "helpers \<Rightarrow> layout \<Rightarrow> u32 \<Rightarrow> pcap_hooks \<Rightarrow> string \<Rightarrow> machine \<Rightarrow> machine option" where
  "demo_filter_subs h L T P stub m =
     (case m_regs m R1 of
        Some (Scalar v) \<Rightarrow> Some (set_reg R0 (Scalar (of_bool (filter_routine h L T P stub v))) m)
      | _ \<Rightarrow> None)"

lemma demo_filter_subs_routines: "calls_filter_routines h L T P (demo_filter_subs h L T P)"
  by (simp add: calls_filter_routines_def demo_filter_subs_def)

lemma demo_filter_prog_facts:
  "well_formed demo_filter_prog" "list_all (no_entry_call demo_filter_prog) all_filter_routines"
  "names demo_filter_prog = ''bpfsnoop_fn'' # drop 2 all_filter_routines"
  by code_simp+

lemma demo_compiles: "\<not> snd (splice_inject demo_compile expr prog opt)"
  by (simp add: splice_inject_def demo_compile_def plain_def)


section \<open>A packet in a record\<close>

definition demo_pkt_config :: bpfsnoop_config where
  "demo_pkt_config = (demo_config True True)\<lparr>cfg_output_pkt := True\<rparr>"

definition demo_pkt_hooks :: hooks where
  "demo_pkt_hooks = (demo_hooks True)\<lparr>hook_output_pkt :=
     (\<lambda>args off. pkt_in_buffer (output_skb packet_h demo_layout 1 (args ! 0)) off)\<rparr>"

lemma demo_pkt_hooks_within: "hooks_within demo_pkt_config demo_pkt_hooks"
proof -
  have "writes_within (pkt_in_buffer (output_skb packet_h demo_layout 1 a) off) off sizeof_pkt_data" for a off
    by (rule pkt_in_buffer_within) (simp add: output_skb_def Let_def)
  then show ?thesis by (simp add: hooks_within_def demo_pkt_hooks_def demo_hooks_def)
qed

theorem traced_packet_is_printed_witness:
  "outputPktTuple (bslice 56 16 (fill_record demo_pkt_hooks demo_pkt_config [0x100] 0 (replicate 72 0))) =
     ''Pkt tuple: 10.0.0.1:80 -> 10.0.0.2:443 (TCP:SYN|ACK)'' @ [char_of (10 :: nat)]"
proof -
  have skb: "(0x500E :: u64) = core_read packet_h demo_layout 8 ''sk_buff'' ''head'' ([0x100] ! 0) +
      ucast (core_read packet_h demo_layout 2 ''sk_buff'' ''network_header'' ([0x100] ! 0) :: u16)"
    by (simp add: packet_pointers)
  have t: "vxlan_ip tunnel_ip" "ip_hdr_len tunnel_ip = 20" "length tunnel_ip = 90"
    by (simp_all add: vxlan_ip_def ip_hdr_len_def packet_defs)
  have "drop 14 (vxlan_payload tunnel_ip) = tcp_ip"
    by (simp add: vxlan_payload_def t) (simp add: packet_defs)
  then have i: "tcp_ip = (if truthy 1 \<and> vxlan_ip tunnel_ip then drop 14 (vxlan_payload tunnel_ip) else tunnel_ip)"
    using t by (simp add: truthy_def)
  have c: "pkt_off demo_pkt_config = 56" "record_size demo_pkt_config = 72" "cfg_output_pkt demo_pkt_config"
    by (simp_all add: demo_pkt_config_def demo_config_def pkt_off_def record_size_def sizeof_event_def
        sizeof_pkt_data_def Let_def)
  have "outputPktTuple (bslice (pkt_off demo_pkt_config) sizeOfPktData
      (fill_record demo_pkt_hooks demo_pkt_config [0x100] 0 (replicate 72 0))) =
    ''Pkt tuple: '' @ packet_text tcp_ip @ [char_of (10 :: nat)]"
    by (rule traced_packet_is_printed [OF packet_memory packet_layout packet_bytes(1) skb _ _ i _ tcp_ip_short
        _ _ demo_pkt_hooks_within c(3)])
      (simp_all add: t c demo_pkt_hooks_def, simp_all add: tcp_ip_def bslice_def numeral_eq_Suc)
  moreover have "packet_text tcp_ip = ''10.0.0.1:80 -> 10.0.0.2:443 (TCP:SYN|ACK)''"
    by code_simp
  ultimately show ?thesis by (simp add: c sizeOfPktData_def)
qed

end
