(* ===== verification/Cc_Number.thy ===== *)
theory Cc_Number
  imports Prelude
begin

text \<open>
  The numbers of the expressions (\<^verbatim>\<open>internal/cc/number.go\<close>): Go's \<^verbatim>\<open>strconv.ParseUint\<close> for 64 bits, the
  prefixes of the bases, character literals and the sign.
\<close>

datatype number_error = ErrSyntax | ErrRange

definition digit_value :: "char \<Rightarrow> nat option" where
  "digit_value ch =
     (let c = of_char ch :: nat in
      if 48 \<le> c \<and> c \<le> 57 then Some (c - 48)
      else if 97 \<le> c \<and> c \<le> 122 then Some (c - 97 + 10)
      else if 65 \<le> c \<and> c \<le> 90 then Some (c - 65 + 10)
      else None)"

fun parse_digits :: "nat \<Rightarrow> nat \<Rightarrow> string \<Rightarrow> number_error + nat" where
  "parse_digits base n [] = Inr n"
| "parse_digits base n (ch # text) =
     (case digit_value ch of None \<Rightarrow> Inl ErrSyntax
      | Some d \<Rightarrow> if base \<le> d then Inl ErrSyntax
        else if 2 ^ 64 \<le> n * base + d then Inl ErrRange
        else parse_digits base (n * base + d) text)"

definition ParseUint :: "string \<Rightarrow> nat \<Rightarrow> number_error + u64" where
  "ParseUint text base = (if text = [] then Inl ErrSyntax else map_sum id of_nat (parse_digits base 0 text))"

definition HasPrefix :: "string \<Rightarrow> string \<Rightarrow> bool" where
  "HasPrefix text pfx \<longleftrightarrow> take (length pfx) text = pfx"

text \<open>A quoted byte is its value; one that is not ASCII is no UTF-8 and becomes the replacement character.\<close>

definition rune_of_byte :: "char \<Rightarrow> u64" where
  "rune_of_byte ch = (if (of_char ch :: nat) < 128 then of_char ch else 0xFFFD)"

definition parseUnsigned :: "string \<Rightarrow> number_error + u64" where
  "parseUnsigned text =
     (if HasPrefix text ''0x'' then ParseUint (drop 2 text) 16
      else if HasPrefix text ''0o'' then ParseUint (drop 2 text) 8
      else if HasPrefix text ''0b'' then ParseUint (drop 2 text) 2
      else if HasPrefix text ''0'' \<and> 1 < length text then ParseUint (drop 1 text) 8
      else if HasPrefix text [CHR 0x27] then
        (if length text \<noteq> 3 \<or> last text \<noteq> CHR 0x27 then Inl ErrSyntax else Inr (rune_of_byte (text ! 1)))
      else ParseUint text 10)"

definition parseNumber :: "string \<Rightarrow> number_error + s64" where
  "parseNumber text =
     (let isMinus = HasPrefix text ''-'';
          text = (if isMinus then drop 1 text else text);
          text = (if HasPrefix text ''+'' then drop 1 text else text)
      in case parseUnsigned text of Inl e \<Rightarrow> Inl e
         | Inr n \<Rightarrow> if isMinus then Inr (- n) else Inr n)"

section \<open>A number is read back from its digits\<close>

definition digit_char :: "nat \<Rightarrow> char" where
  "digit_char d = (if d < 10 then char_of (48 + d) else char_of (87 + d))"

lemma digit_value_char: "d < 36 \<Longrightarrow> digit_value (digit_char d) = Some d"
  by (auto simp: digit_value_def digit_char_def Let_def)

lemma parse_digits_append:
  "parse_digits base n (xs @ ys) = (case parse_digits base n xs of Inl e \<Rightarrow> Inl e | Inr k \<Rightarrow> parse_digits base k ys)"
  by (induction xs arbitrary: n) (auto split: option.splits)

fun digits :: "nat \<Rightarrow> nat \<Rightarrow> string" where
  "digits base n = (if base < 2 \<or> n < base then [digit_char n] else digits base (n div base) @ [digit_char (n mod base)])"

declare digits.simps [simp del]

lemma parse_digits_digits:
  assumes "2 \<le> base" "base \<le> 36" "n < 2 ^ 64"
  shows "parse_digits base 0 (digits base n) = Inr n"
  using assms
proof (induction base n rule: digits.induct)
  case (1 base n)
  show ?case
  proof (cases "n < base")
    case True
    with 1 show ?thesis by (subst digits.simps) (simp add: digit_value_char)
  next
    case False
    with 1 have "parse_digits base 0 (digits base (n div base)) = Inr (n div base)"
      using le_less_trans [OF div_le_dividend] by simp
    moreover have d: "\<not> base \<le> n mod base" using 1(2) by (simp add: not_le)
    moreover have "digit_value (digit_char (n mod base)) = Some (n mod base)"
      using d 1(3) by (intro digit_value_char) simp
    ultimately show ?thesis
      using False 1(2,4) by (subst digits.simps) (simp add: parse_digits_append)
  qed
qed

lemma digits_not_empty: "digits base n \<noteq> []"
  by (subst digits.simps) simp

lemma ParseUint_digits:
  "2 \<le> base \<Longrightarrow> base \<le> 36 \<Longrightarrow> ParseUint (digits base (unat w)) base = Inr w"
  using unsigned_less [of w, where 'a = nat]
  by (simp add: ParseUint_def digits_not_empty parse_digits_digits)

lemma digits_Cons:
  assumes "2 \<le> base"
  shows "\<exists>k rest. digits base n = digit_char k # rest \<and> k < base \<and> (k = 0 \<longrightarrow> rest = [] \<and> n = 0)"
  using assms
proof (induction base n rule: digits.induct)
  case (1 base n)
  show ?case
  proof (cases "n < base")
    case True
    with 1 show ?thesis by (subst digits.simps) auto
  next
    case False
    with 1 have ih: "\<exists>k rest. digits base (n div base) = digit_char k # rest \<and> k < base \<and> (k = 0 \<longrightarrow> rest = [] \<and> n div base = 0)"
      by simp
    have "n div base \<noteq> 0" using False 1(2) by (simp add: div_eq_0_iff)
    with ih False 1(2) show ?thesis by (subst digits.simps) auto
  qed
qed

lemma digit_char_inj: "k < 36 \<Longrightarrow> digit_char k = CHR ''0'' \<longleftrightarrow> k = 0"
proof -
  assume k: "k < 36"
  have "digit_char 0 = CHR ''0''" by (simp add: digit_char_def char_of_def bit_simps)
  moreover have "digit_value CHR ''0'' = Some 0" by (simp add: digit_value_def)
  ultimately show ?thesis using digit_value_char [OF k] by auto
qed

lemma digit_char_other: "k < 36 \<Longrightarrow> digit_value ch = None \<Longrightarrow> digit_char k \<noteq> ch"
  using digit_value_char [of k] by auto

lemma HasPrefix_Cons [simp]: "HasPrefix (x # xs) (y # ys) \<longleftrightarrow> x = y \<and> HasPrefix xs ys" "HasPrefix xs []"
  by (auto simp: HasPrefix_def)

lemma no_digits: "digit_value CHR ''-'' = None" "digit_value CHR ''+'' = None" "digit_value (CHR 0x27) = None"
  by (simp_all add: digit_value_def)

lemma parseUnsigned_decimal: "parseUnsigned (digits 10 (unat w)) = Inr w"
proof -
  obtain k rest where d: "digits 10 (unat w) = digit_char k # rest" "k < 10" "k = 0 \<longrightarrow> rest = []"
    using digits_Cons [of 10 "unat w"] by auto
  have "digit_char k = CHR ''0'' \<longleftrightarrow> k = 0" "digit_char k \<noteq> CHR 0x27"
    using digit_char_inj [of k] digit_char_other [OF _ no_digits(3), of k] d(2) by simp_all
  then have "parseUnsigned (digits 10 (unat w)) = ParseUint (digits 10 (unat w)) 10"
    unfolding d(1) parseUnsigned_def using d(3) by (auto simp: HasPrefix_def)
  then show ?thesis by (simp add: ParseUint_digits)
qed

lemma parseNumber_unsigned:
  assumes "\<not> HasPrefix x ''-''" "\<not> HasPrefix x ''+''"
  shows "parseNumber x = parseUnsigned x" 
    "parseNumber (''-'' @ x) = map_sum id uminus (parseUnsigned x)"
    "parseNumber (''+'' @ x) = parseUnsigned x"
  using assms by (auto simp: parseNumber_def Let_def split: sum.splits)

lemma digits_no_sign: "2 \<le> base \<Longrightarrow> base \<le> 36 \<Longrightarrow> \<not> HasPrefix (digits base n) ''-'' \<and> \<not> HasPrefix (digits base n) ''+''"
  using digits_Cons [of base n] digit_char_other [OF _ no_digits(1)] digit_char_other [OF _ no_digits(2)] by force

text \<open>C30: Numbers are read back from their digits: in decimal, with either sign, and in each base with its prefix.\<close>

theorem parseNumber_roundtrip:
  "parseNumber (digits 10 (unat n)) = Inr n \<and>
   parseNumber (''+'' @ digits 10 (unat n)) = Inr n \<and>
   parseNumber (''-'' @ digits 10 (unat n)) = Inr (- n) \<and>
   parseNumber (''0x'' @ digits 16 (unat n)) = Inr n \<and>
   parseNumber (''0o'' @ digits 8 (unat n)) = Inr n \<and>
   parseNumber (''0b'' @ digits 2 (unat n)) = Inr n"
proof -
  have based: "parseNumber (CHR ''0'' # xs) = parseUnsigned (CHR ''0'' # xs)" for xs
    by (rule parseNumber_unsigned(1)) simp_all
  have "parseUnsigned (''0x'' @ digits 16 (unat n)) = Inr n" "parseUnsigned (''0o'' @ digits 8 (unat n)) = Inr n"
    "parseUnsigned (''0b'' @ digits 2 (unat n)) = Inr n"
    by (simp_all add: parseUnsigned_def ParseUint_digits)
  then show ?thesis
    using parseNumber_unsigned [of "digits 10 (unat n)"] digits_no_sign [of 10 "unat n"]
    by (simp add: based parseUnsigned_decimal)
qed

end
