(* ===== verification/Segments.thy ===== *)
theory Segments
  imports Ebpf
begin

text \<open>
  Code within a larger program: a segment that stands at a position of a program leads the machine
  from the segment's start to a later position, or to an exit label behind it.
\<close>

definition code_at :: "instructions \<Rightarrow> nat \<Rightarrow> instructions \<Rightarrow> bool" where
  "code_at prog pos code \<longleftrightarrow> pos + length code \<le> length prog \<and>
     (\<forall>i<length code. ins_op (prog ! (pos + i)) = ins_op (code ! i) \<and>
       ins_reference (prog ! (pos + i)) = ins_reference (code ! i))"

lemma code_at_Nil [simp]: "code_at prog pos [] \<longleftrightarrow> pos \<le> length prog"
  by (simp add: code_at_def)

lemma code_at_Cons [simp]:
  "code_at prog pos (i # is) \<longleftrightarrow> pos < length prog \<and> ins_op (prog ! pos) = ins_op i \<and>
     ins_reference (prog ! pos) = ins_reference i \<and> code_at prog (Suc pos) is"
  by (auto simp: code_at_def nth_Cons less_Suc_eq_0_disj split: nat.splits)

lemma code_at_append [simp]:
  "code_at prog pos (xs @ ys) \<longleftrightarrow> code_at prog pos xs \<and> code_at prog (pos + length xs) ys"
proof (induction xs arbitrary: pos)
  case Nil
  then show ?case by (auto simp: code_at_def)
qed auto

text \<open>Forward execution: it takes at most as many steps as it advances.\<close>

definition leads ::
  "helpers \<Rightarrow> (string \<Rightarrow> machine \<Rightarrow> machine option) \<Rightarrow> instructions \<Rightarrow> nat \<Rightarrow> machine \<Rightarrow> nat \<Rightarrow> machine \<Rightarrow> bool" where
  "leads h subs prog pc m pc' m' \<longleftrightarrow>
     (\<exists>n. pc + n \<le> pc' \<and> (\<forall>fuel. exec h subs prog (n + fuel) pc m = exec h subs prog fuel pc' m'))"

lemma leads_refl [simp]: "leads h subs prog pc m pc m"
  unfolding leads_def by (rule exI [of _ 0]) simp

lemma leads_trans:
  assumes "leads h subs prog pc m pc1 m1" "leads h subs prog pc1 m1 pc2 m2"
  shows "leads h subs prog pc m pc2 m2"
proof -
  from assms obtain n1 n2
    where n: "pc + n1 \<le> pc1" "\<And>fuel. exec h subs prog (n1 + fuel) pc m = exec h subs prog fuel pc1 m1"
      "pc1 + n2 \<le> pc2" "\<And>fuel. exec h subs prog (n2 + fuel) pc1 m1 = exec h subs prog fuel pc2 m2"
    unfolding leads_def by blast
  have "exec h subs prog (n1 + n2 + fuel) pc m = exec h subs prog fuel pc2 m2" for fuel
    using n(2) [of "n2 + fuel"] n(4) [of fuel] by (simp add: add.assoc)
  with n(1,3) show ?thesis unfolding leads_def by (intro exI [of _ "n1 + n2"]) simp
qed

lemma leads_Next:
  assumes "pc < length prog" "step h subs (ins_op (prog ! pc)) (ins_reference (prog ! pc)) m = Next m1"
  shows "leads h subs prog pc m (Suc pc) m1"
  unfolding leads_def by (rule exI [of _ 1]) (use assms in simp)

lemma leads_Jump:
  assumes "pc < length prog" "step h subs (ins_op (prog ! pc)) (ins_reference (prog ! pc)) m = Jump off m1"
    and "jump_to prog pc (prog ! pc) off = Some pc'" "pc < pc'"
  shows "leads h subs prog pc m pc' m1"
  unfolding leads_def by (rule exI [of _ 1]) (use assms in simp)

lemma leads_block:
  "code_at prog pos code \<Longrightarrow> block h subs code m = Some m' \<Longrightarrow> leads h subs prog pos m (pos + length code) m'"
proof (induction code arbitrary: pos m)
  case (Cons i "is")
  then obtain m1 where m1: "step h subs (ins_op i) (ins_reference i) m = Next m1" "block h subs is m1 = Some m'"
    by (auto split: flow.splits)
  have "leads h subs prog pos m (Suc pos) m1" using Cons.prems m1 by (intro leads_Next) simp_all
  moreover have "leads h subs prog (Suc pos) m1 (Suc pos + length is) m'"
    using Cons.IH [of "Suc pos" m1] m1(2) Cons.prems(1) by simp
  ultimately show ?case using leads_trans by fastforce
qed simp

lemma leads_end:
  assumes "leads h subs prog pc m pc' m'" "exec h subs prog fuel pc' m' = Halted m''" "pc' + fuel \<le> pc + fuel'"
  shows "exec h subs prog fuel' pc m = Halted m''"
proof -
  from assms(1) obtain n where n: "pc + n \<le> pc'" "exec h subs prog (n + fuel) pc m = exec h subs prog fuel pc' m'"
    unfolding leads_def by blast
  with assms(2) exec_more_fuel [of h subs prog "n + fuel" pc m "fuel' - (n + fuel)"] assms(3) show ?thesis by simp
qed

section \<open>What a segment computes\<close>

text \<open>The machine a routine over the arguments starts in, and what its code leaves alone.\<close>

definition args_ctx :: "u64 list \<Rightarrow> machine \<Rightarrow> bool" where
  "args_ctx args m \<longleftrightarrow> m_regs m R9 = Some (PtrArgs 0) \<and> m_regs m RFP = Some (PtrFrame 0) \<and> m_args m = args \<and>
     length (m_frame m) = FRAME"

definition kept :: "reg set \<Rightarrow> machine \<Rightarrow> machine \<Rightarrow> bool" where
  "kept K m m' \<longleftrightarrow> (\<forall>r\<in>K. m_regs m' r = m_regs m r) \<and> m_args m' = m_args m \<and> m_buff m' = m_buff m \<and>
     length (m_frame m') = length (m_frame m)"

lemma kept_refl [simp]: "kept K m m"
  by (simp add: kept_def)

lemma kept_trans: "kept K m m1 \<Longrightarrow> kept K m1 m2 \<Longrightarrow> kept K m m2"
  by (simp add: kept_def)

lemma kept_mono: "kept K m m1 \<Longrightarrow> K' \<subseteq> K \<Longrightarrow> kept K' m m1"
  by (auto simp: kept_def)

lemma kept_set_reg [simp]: "r \<notin> K \<Longrightarrow> kept K m (set_reg r v m1) \<longleftrightarrow> kept K m m1"
  by (auto simp: kept_def set_reg_def)

lemma kept_args_ctx: "args_ctx args m \<Longrightarrow> kept K m m' \<Longrightarrow> {R9, RFP} \<subseteq> K \<Longrightarrow> args_ctx args m'"
  by (simp add: args_ctx_def kept_def)

text \<open>
  A segment computes a number into a register, keeping the registers \<open>K\<close>, or leaves for its exit label;
  then the register holds some number.
\<close>

definition computes ::
  "helpers \<Rightarrow> string \<Rightarrow> instructions \<Rightarrow> reg set \<Rightarrow> reg \<Rightarrow> machine \<Rightarrow> u64 option \<Rightarrow> bool" where
  "computes h label code K r m res \<longleftrightarrow>
     (\<forall>subs prog pos ex. code_at prog pos code \<longrightarrow>
       (case res of
          Some w \<Rightarrow> (\<exists>m'. leads h subs prog pos m (pos + length code) m' \<and> kept K m m' \<and> m_regs m' r = Some (Scalar w))
        | None \<Rightarrow> find_symbol label prog = Some ex \<longrightarrow> pos + length code \<le> ex \<longrightarrow>
            (\<exists>m' w. leads h subs prog pos m ex m' \<and> kept K m m' \<and> m_regs m' r = Some (Scalar w))))"

lemma computes_SomeI:
  assumes "\<And>subs prog pos. code_at prog pos code \<Longrightarrow>
    \<exists>m'. leads h subs prog pos m (pos + length code) m' \<and> kept K m m' \<and> m_regs m' r = Some (Scalar w)"
  shows "computes h label code K r m (Some w)"
  using assms by (simp add: computes_def)

lemma computes_SomeE:
  assumes "computes h label code K r m (Some w)" "code_at prog pos code"
  obtains m' where "leads h subs prog pos m (pos + length code) m'" "kept K m m'" "m_regs m' r = Some (Scalar w)"
  using assms unfolding computes_def by simp blast

lemma computes_NoneE:
  assumes "computes h label code K r m None" "code_at prog pos code" "find_symbol label prog = Some ex"
    "pos + length code \<le> ex"
  obtains m' w where "leads h subs prog pos m ex m'" "kept K m m'" "m_regs m' r = Some (Scalar w)"
  using assms unfolding computes_def by simp blast

text \<open>A second segment that works on the first one's register.\<close>

lemma computes_then:
  assumes c1: "computes h label xs K r m res"
    and c2: "\<And>m' w. kept K m m' \<Longrightarrow> m_regs m' r = Some (Scalar w) \<Longrightarrow> computes h label ys K r m' (f w)"
  shows "computes h label (xs @ ys) K r m (Option.bind res f)"
  unfolding computes_def
proof (intro allI impI)
  fix subs prog pos ex
  assume at: "code_at prog pos (xs @ ys)"
  then have at1: "code_at prog pos xs" and at2: "code_at prog (pos + length xs) ys" by simp_all
  show "case Option.bind res f of
      Some w \<Rightarrow> \<exists>m'. leads h subs prog pos m (pos + length (xs @ ys)) m' \<and> kept K m m' \<and> m_regs m' r = Some (Scalar w)
    | None \<Rightarrow> find_symbol label prog = Some ex \<longrightarrow> pos + length (xs @ ys) \<le> ex \<longrightarrow>
        (\<exists>m' w. leads h subs prog pos m ex m' \<and> kept K m m' \<and> m_regs m' r = Some (Scalar w))"
  proof (cases res)
    case None
    then show ?thesis using c1 at1 by (auto elim!: computes_NoneE)
  next
    case (Some a)
    then obtain m1 where m1: "leads h subs prog pos m (pos + length xs) m1" "kept K m m1" "m_regs m1 r = Some (Scalar a)"
      using c1 at1 by (auto elim: computes_SomeE)
    note c = c2 [OF m1(2,3)]
    show ?thesis
    proof (cases "f a")
      case None
      show ?thesis
      proof (simp add: Some None, intro impI)
        assume ex: "find_symbol label prog = Some ex" "pos + (length xs + length ys) \<le> ex"
        from computes_NoneE [OF c [unfolded None] at2 ex(1)] ex(2) obtain m2 w
          where "leads h subs prog (pos + length xs) m1 ex m2" "kept K m1 m2" "m_regs m2 r = Some (Scalar w)"
          by (auto simp: add.assoc)
        with m1 show "\<exists>m'. leads h subs prog pos m ex m' \<and> kept K m m' \<and> (\<exists>w. m_regs m' r = Some (Scalar w))"
          by (blast intro: leads_trans kept_trans)
      qed
    next
      case (Some b)
      from computes_SomeE [OF c [unfolded Some] at2] obtain m2
        where "leads h subs prog (pos + length xs) m1 (pos + length xs + length ys) m2" "kept K m1 m2"
          "m_regs m2 r = Some (Scalar b)" by blast
      with m1 \<open>res = Some a\<close> Some show ?thesis by (auto simp: add.assoc intro: leads_trans kept_trans)
    qed
  qed
qed

text \<open>An operand to the right is computed with the left one's register kept.\<close>

lemma computes_both:
  assumes c1: "computes h label xs K r m res1"
    and c2: "\<And>m' a. kept K m m' \<Longrightarrow> m_regs m' r = Some (Scalar a) \<Longrightarrow> computes h label ys (insert r K) s m' res2"
    and c3: "\<And>m' a b. kept K m m' \<Longrightarrow> m_regs m' r = Some (Scalar a) \<Longrightarrow> m_regs m' s = Some (Scalar b) \<Longrightarrow>
      computes h label zs K r m' (Some (f a b))"
  shows "computes h label (xs @ ys @ zs) K r m (Option.bind res1 (\<lambda>a. map_option (f a) res2))"
proof (rule computes_then [OF c1])
  fix m1 a assume m1: "kept K m m1" "m_regs m1 r = Some (Scalar a)"
  note c = c2 [OF m1]
  show "computes h label (ys @ zs) K r m1 (map_option (f a) res2)"
    unfolding computes_def
  proof (intro allI impI)
    fix subs prog pos ex
    assume "code_at prog pos (ys @ zs)"
    then have at1: "code_at prog pos ys" and at2: "code_at prog (pos + length ys) zs" by simp_all
    show "case map_option (f a) res2 of
        Some w \<Rightarrow> \<exists>m'. leads h subs prog pos m1 (pos + length (ys @ zs)) m' \<and> kept K m1 m' \<and> m_regs m' r = Some (Scalar w)
      | None \<Rightarrow> find_symbol label prog = Some ex \<longrightarrow> pos + length (ys @ zs) \<le> ex \<longrightarrow>
          (\<exists>m' w. leads h subs prog pos m1 ex m' \<and> kept K m1 m' \<and> m_regs m' r = Some (Scalar w))"
    proof (cases res2)
      case None
      show ?thesis
      proof (simp add: None, intro impI)
        assume ex: "find_symbol label prog = Some ex" "pos + (length ys + length zs) \<le> ex"
        then have "pos + length ys \<le> ex" by simp
        from computes_NoneE [OF c [unfolded None] at1 ex(1) this] obtain m2 w
          where m2: "leads h subs prog pos m1 ex m2" "kept (insert r K) m1 m2" by blast
        with m1(2) have "kept K m1 m2" "m_regs m2 r = Some (Scalar a)" by (auto simp: kept_def)
        with m2(1) show "\<exists>m'. leads h subs prog pos m1 ex m' \<and> kept K m1 m' \<and> (\<exists>w. m_regs m' r = Some (Scalar w))"
          by blast
      qed
    next
      case (Some b)
      from computes_SomeE [OF c [unfolded Some] at1] obtain m2
        where m2: "leads h subs prog pos m1 (pos + length ys) m2" "kept (insert r K) m1 m2" "m_regs m2 s = Some (Scalar b)"
        by blast
      with m1(2) have k: "kept K m1 m2" "m_regs m2 r = Some (Scalar a)" by (auto simp: kept_def)
      from computes_SomeE [OF c3 [OF kept_trans [OF m1(1) k(1)] k(2) m2(3)] at2] obtain m3
        where m3: "leads h subs prog (pos + length ys) m2 (pos + length ys + length zs) m3" "kept K m2 m3"
          "m_regs m3 r = Some (Scalar (f a b))" by blast
      show ?thesis using leads_trans [OF m2(1) m3(1)] kept_trans [OF k(1) m3(2)] m3(3) Some by (auto simp: add.assoc)
    qed
  qed
qed

lemma computes_block:
  assumes "\<And>subs. \<exists>m'. block h subs code m = Some m' \<and> kept K m m' \<and> m_regs m' r = Some (Scalar w)"
  shows "computes h label code K r m (Some w)"
proof (rule computes_SomeI)
  fix subs prog pos assume "code_at prog pos code"
  moreover from assms obtain m' where "block h subs code m = Some m'" "kept K m m'" "m_regs m' r = Some (Scalar w)"
    by blast
  ultimately show "\<exists>m'. leads h subs prog pos m (pos + length code) m' \<and> kept K m m' \<and> m_regs m' r = Some (Scalar w)"
    using leads_block by blast
qed

text \<open>Straight-line code first, and the jump to the exit label when a register is zero.\<close>

lemma computes_block_then:
  assumes b: "\<And>subs. block h subs xs m = Some m1" "kept K m m1" and c: "computes h label ys K r m1 res"
  shows "computes h label (xs @ ys) K r m res"
  unfolding computes_def
proof (intro allI impI)
  fix subs prog pos ex
  assume "code_at prog pos (xs @ ys)"
  then have at: "code_at prog pos xs" "code_at prog (pos + length xs) ys" by simp_all
  note l = leads_block [OF at(1) b(1), of subs]
  show "case res of
      Some w \<Rightarrow> \<exists>m'. leads h subs prog pos m (pos + length (xs @ ys)) m' \<and> kept K m m' \<and> m_regs m' r = Some (Scalar w)
    | None \<Rightarrow> find_symbol label prog = Some ex \<longrightarrow> pos + length (xs @ ys) \<le> ex \<longrightarrow>
        (\<exists>m' w. leads h subs prog pos m ex m' \<and> kept K m m' \<and> m_regs m' r = Some (Scalar w))"
  proof (cases res)
    case None
    show ?thesis
    proof (simp add: None, intro impI)
      assume ex: "find_symbol label prog = Some ex" "pos + (length xs + length ys) \<le> ex"
      from computes_NoneE [OF c [unfolded None] at(2) ex(1)] ex(2) obtain m2 w
        where "leads h subs prog (pos + length xs) m1 ex m2" "kept K m1 m2" "m_regs m2 r = Some (Scalar w)"
        by (auto simp: add.assoc)
      with l b(2) show "\<exists>m'. leads h subs prog pos m ex m' \<and> kept K m m' \<and> (\<exists>w. m_regs m' r = Some (Scalar w))"
        by (blast intro: leads_trans kept_trans)
    qed
  next
    case (Some w)
    from computes_SomeE [OF c [unfolded Some] at(2)] obtain m2
      where "leads h subs prog (pos + length xs) m1 (pos + length xs + length ys) m2" "kept K m1 m2"
        "m_regs m2 r = Some (Scalar w)" by blast
    with l b(2) Some show ?thesis by (auto simp: add.assoc intro: leads_trans kept_trans)
  qed
qed

lemma computes_exit:
  assumes s: "m_regs m s = Some (Scalar a)" and r: "m_regs m r = Some (Scalar y)" and label: "label \<noteq> []"
    and c: "a \<noteq> 0 \<Longrightarrow> computes h label ys K r m res"
  shows "computes h label (JEq_Imm_Label s 0 label # ys) K r m (if a = 0 then None else res)"
proof (cases "a = 0")
  case True
  show ?thesis
    unfolding computes_def
  proof (simp add: True, intro allI impI)
    fix subs prog pos ex
    assume at: "pos < length prog \<and> ins_op (prog ! pos) = ins_op (JEq_Imm_Label s 0 label) \<and>
        ins_reference (prog ! pos) = ins_reference (JEq_Imm_Label s 0 label) \<and> code_at prog (Suc pos) ys"
      and ex: "find_symbol label prog = Some ex" "Suc (pos + length ys) \<le> ex"
    have "leads h subs prog pos m ex m"
      by (rule leads_Jump [where off = "- 1"])
        (use at s True ex label in \<open>simp_all add: JEq_Imm_Label_def the_scalar_def jump_to_def\<close>)
    with r show "\<exists>m'. leads h subs prog pos m ex m' \<and> kept K m m' \<and> (\<exists>w. m_regs m' r = Some (Scalar w))"
      by (intro exI [of _ m]) simp
  qed
next
  case False
  have "block h subs [JEq_Imm_Label s 0 label] m = Some m" for subs
    using s False by (simp add: JEq_Imm_Label_def the_scalar_def)
  from computes_block_then [OF this kept_refl c [OF False]] False show ?thesis by simp
qed

end
