(* ===== verification/Cc_Compiler.thy ===== *)
theory Cc_Compiler
  imports Ebpf Cc_Number
begin

text \<open>
  The state of the compiler of C expressions (\<^verbatim>\<open>internal/cc/\<close>): registers, emitted code, and the code
  that follows a chain of pointers. Expressions are given as the parser, a library, returns them.
\<close>

section \<open>Types and expressions\<close>

text \<open>
  BTF types belong to a library. What the compiler asks of a type: which kind it is under its
  typedefs and qualifiers, its size, the members of a structure or union with their offsets, and
  the type of a pointer to it; and the types and type numbers found by name in the kernel's and in the
  program's BTF.
\<close>

datatype 't kind =
    Void_kind
  | Int_kind
  | Enum_kind "(string \<times> s64) list"
  | Pointer_kind 't
  | Array_kind 't
  | Struct_kind
  | Union_kind
  | Other_kind

record 't member =
  mem_Type :: 't
  mem_Offset :: u32
  mem_BitfieldSize :: nat

text \<open>The parser's types: its kinds are a structure tag, a pointer, or something the compiler knows by name.\<close>

datatype cc_type = Tag_type string | Ptr_type cc_type | Named_type string

record 't btf_lib =
  kind_of :: "'t \<Rightarrow> 't kind"
  size_of :: "'t \<Rightarrow> nat option"
  member_of :: "'t \<Rightarrow> string \<Rightarrow> 't member option"
  member_offset :: "'t \<Rightarrow> string \<Rightarrow> u32 option"
  pointer_to :: "'t \<Rightarrow> 't"
  void_type :: 't
  krnl_type :: "string \<Rightarrow> 't option"
  spec_type :: "string \<Rightarrow> 't option"
  type_string :: "cc_type \<Rightarrow> string"
  pointer_type_id :: "'t \<Rightarrow> nat option"

datatype unop = Op_Minus | Op_Not | Op_Plus | Op_PreDec | Op_PreInc | Op_Twid

datatype binop = Op_Add | Op_And | Op_AndAnd | Op_Div | Op_EqEq | Op_Gt | Op_GtEq | Op_Lsh | Op_Lt | Op_LtEq
  | Op_Mod | Op_Mul | Op_NotEq | Op_Or | Op_OrOr | Op_Rsh | Op_Sub | Op_Xor

datatype expr =
    Name string
  | Number string
  | Unary unop expr
  | Binary binop expr expr
  | Cond expr expr expr
  | Cast cc_type expr
  | Dot expr string
  | Arrow expr string
  | Index expr expr
  | Addr expr
  | Indir expr
  | Paren expr
  | Unsupported

text \<open>An index out of range and a negative shift count are panics.\<close>

datatype cc_error =
    ErrNotImplemented
  | ErrRegisterNotEnough
  | ErrVarNotFound string
  | ErrBtfNotFound
  | ErrNumber number_error
  | ErrDisallowed
  | ErrDivisionByZero
  | ErrUnsupportedOp
  | ErrConstant
  | ErrOptions
  | Panic

definition bind_res :: "'e + 'a \<Rightarrow> ('a \<Rightarrow> 'e + 'b) \<Rightarrow> 'e + 'b" where
  "bind_res r f = (case r of Inl e \<Rightarrow> Inl e | Inr v \<Rightarrow> f v)"

lemma bind_res_simps [simp]: "bind_res (Inl e) f = Inl e" "bind_res (Inr v) f = f v"
  by (simp_all add: bind_res_def)

lemma bind_res_cong [fundef_cong]:
  "r = r' \<Longrightarrow> (\<And>v. r' = Inr v \<Longrightarrow> f v = g v) \<Longrightarrow> bind_res r f = bind_res r' g"
  by (cases r') simp_all

lemma bind_res_Inr: "bind_res r f = Inr x \<longleftrightarrow> (\<exists>v. r = Inr v \<and> f v = Inr x)"
  by (cases r) simp_all

definition of_option :: "'e \<Rightarrow> 'a option \<Rightarrow> 'e + 'a" where
  "of_option e v = (case v of None \<Rightarrow> Inl e | Some x \<Rightarrow> Inr x)"

lemma of_option_simps [simp]: "of_option e None = Inl e" "of_option e (Some x) = Inr x"
  by (simp_all add: of_option_def)

lemma of_option_Inr [simp]: "of_option e v = Inr x \<longleftrightarrow> v = Some x"
  by (simp add: of_option_def split: option.splits)

section \<open>The compiler's state\<close>

datatype memory_mode = ProbeRead | CoreRead | DirectRead

record 't compiler =
  c_regs :: "reg \<Rightarrow> bool"
  c_insns :: instructions
  c_vars :: "string list"
  c_btfs :: "'t list"
  c_labelExit :: string
  c_labelExitUsed :: bool
  c_reservedStack :: int
  c_memMode :: memory_mode
  c_rdonlyCast :: s32
  c_fastcall :: bool

definition Alloc :: "'t compiler \<Rightarrow> cc_error + (reg \<times> 't compiler)" where
  "Alloc c = (case find (\<lambda>r. \<not> c_regs c r) [R8, R7, R6, R5, R4, R3, R2, R1, R0] of
       None \<Rightarrow> Inl ErrRegisterNotEnough
     | Some r \<Rightarrow> Inr (r, c\<lparr>c_regs := (c_regs c)(r := True)\<rparr>))"

definition Free :: "reg \<Rightarrow> 't compiler \<Rightarrow> 't compiler" where
  "Free r c = c\<lparr>c_regs := (c_regs c)(r := False)\<rparr>"

definition MarkUsed :: "reg \<Rightarrow> 't compiler \<Rightarrow> 't compiler" where
  "MarkUsed r c = c\<lparr>c_regs := (c_regs c)(r := True)\<rparr>"

definition emit_insns :: "instructions \<Rightarrow> 't compiler \<Rightarrow> 't compiler" where
  "emit_insns is c = c\<lparr>c_insns := c_insns c @ is\<rparr>"

definition emit :: "opcode list \<Rightarrow> 't compiler \<Rightarrow> 't compiler" where
  "emit ops = emit_insns (map plain ops)"

definition argsReg :: reg where "argsReg = R9"

definition emitLoadArg :: "nat \<Rightarrow> reg \<Rightarrow> 't compiler \<Rightarrow> 't compiler" where
  "emitLoadArg index dst = emit [LoadMem dst argsReg (of_nat (index * 8))]"

text \<open>A jump over a comparison with a constant; the instruction holds the constant's low 32 bits.\<close>

definition JmpOff :: "cmp \<Rightarrow> reg \<Rightarrow> s64 \<Rightarrow> 16 word \<Rightarrow> opcode" where
  "JmpOff f dst value offset = Jmp_Imm f dst (ucast value) offset"

definition JmpReg :: "cmp \<Rightarrow> reg \<Rightarrow> reg \<Rightarrow> 16 word \<Rightarrow> opcode" where
  "JmpReg f dst src offset = Jmp_Reg f dst src offset"

definition newCompiler ::
  "(string \<times> 't) list \<Rightarrow> string \<Rightarrow> int \<Rightarrow> memory_mode \<Rightarrow> (s32 \<times> bool) option \<Rightarrow> cc_error + 't compiler" where
  "newCompiler params label reserved mode rdonly =
     (if label = [] then Inl ErrOptions
      else Inr \<lparr>c_regs = (\<lambda>_. False), c_insns = [], c_vars = map fst params, c_btfs = map snd params,
        c_labelExit = label, c_labelExitUsed = False,
        c_reservedStack = (if reserved \<le> 0 then 8 else (reserved + 7) div 8 * 8),
        c_memMode = mode, c_rdonlyCast = (case rdonly of None \<Rightarrow> 0 | Some (i, _) \<Rightarrow> i),
        c_fastcall = (case rdonly of None \<Rightarrow> False | Some (_, f) \<Rightarrow> f)\<rparr>)"

section \<open>Calls that clobber registers\<close>

definition callerRegs :: "nat \<Rightarrow> reg list" where
  "callerRegs n = take n [R1, R2, R3, R4, R5]"

definition usedRegNr :: "nat \<Rightarrow> 't compiler \<Rightarrow> nat" where
  "usedRegNr n c = length (filter (c_regs c) (callerRegs n))"

definition slot :: "'t compiler \<Rightarrow> nat \<Rightarrow> nat \<Rightarrow> 16 word" where
  "slot c n i = of_int (- (c_reservedStack c + int (usedRegNr n c) * 8) + int (i * 8))"

definition slot_R0 :: "'t compiler \<Rightarrow> nat \<Rightarrow> 16 word" where
  "slot_R0 c n = of_int (- (c_reservedStack c + int (usedRegNr n c) * 8) - 8)"

definition pushUsedCallerSavedRegsN :: "nat \<Rightarrow> 't compiler \<Rightarrow> 't compiler" where
  "pushUsedCallerSavedRegsN n c = emit
     ((if c_regs c R0 then [StoreMem RFP (slot_R0 c n) R0] else []) @
      map (\<lambda>i. StoreMem RFP (slot c n i) (callerRegs 5 ! i)) [0..<usedRegNr n c]) c"

definition popUsedCallerSavedRegsN :: "nat \<Rightarrow> 't compiler \<Rightarrow> 't compiler" where
  "popUsedCallerSavedRegsN n c = emit
     (map (\<lambda>i. LoadMem (callerRegs 5 ! i) RFP (slot c n i)) [0..<usedRegNr n c] @
      (if c_regs c R0 then [LoadMem R0 RFP (slot_R0 c n)] else [])) c"

section \<open>Following pointers\<close>

text \<open>
  A path is a list of steps from the value of a variable: a step adds its offset, and then, unless
  it is only an address, reads what is there. A null pointer on the way leads to the exit label.
\<close>

record 't accessOffset =
  a_btf :: 't
  a_prev :: "'t option"
  a_offset :: s64
  a_address :: bool
  a_inArray :: bool

definition allAddress :: "'t accessOffset list \<Rightarrow> bool" where
  "allAddress offsets = list_all a_address offsets"

definition probe_read_8 :: "opcode list" where
  "probe_read_8 = [Mov_Imm R2 8, Mov_Reg R1 RFP, Add_Imm R1 (- 8), FnProbeReadKernel_Call]"

fun probe_loop :: "'t accessOffset list \<Rightarrow> reg \<Rightarrow> 't compiler \<Rightarrow> 't compiler" where
  "probe_loop [] reg c = c"
| "probe_loop (a # offsets) reg c =
     (let c = (if a_offset a \<noteq> 0 then emit [Add_Imm R3 (ucast (a_offset a))] c else c) in
      if a_address a then
        probe_loop offsets reg (if offsets = [] \<and> reg \<noteq> R3 then emit [Mov_Reg reg R3] c else c)
      else
        let c = emit probe_read_8 c in
        if offsets \<noteq> [] then
          probe_loop offsets reg
            (emit_insns [plain (LoadMem R3 RFP (- 8)), JEq_Imm_Label R3 0 (c_labelExit c)]
              (c\<lparr>c_labelExitUsed := True\<rparr>))
        else probe_loop offsets reg (emit [LoadMem reg RFP (- 8)] c))"

definition add_offsets :: "'t accessOffset list \<Rightarrow> reg \<Rightarrow> 't compiler \<Rightarrow> 't compiler" where
  "add_offsets offsets reg c = emit (map (\<lambda>a. Add_Imm reg (ucast (a_offset a))) offsets) c"

definition probeReadOffsets :: "'t accessOffset list \<Rightarrow> reg \<Rightarrow> 't compiler \<Rightarrow> 't compiler" where
  "probeReadOffsets offsets reg c =
     (if allAddress offsets then add_offsets offsets reg c
      else let c = pushUsedCallerSavedRegsN 5 c;
               c = (if reg \<noteq> R3 then emit [Mov_Reg R3 reg] c else c);
               c = probe_loop offsets reg c
           in popUsedCallerSavedRegsN 5 c)"

section \<open>Reading through a cast to a read-only kernel object\<close>

text \<open>
  On kernels that have \<^verbatim>\<open>bpf_rdonly_cast\<close>, a step from a pointer to a structure casts the pointer and
  loads through the result.
\<close>

definition canRdonlyCast :: "'t btf_lib \<Rightarrow> 't option \<Rightarrow> cc_error + nat option" where
  "canRdonlyCast L t =
     (case map_option (kind_of L) t of
        Some (Pointer_kind target) \<Rightarrow>
          (if kind_of L target = Struct_kind \<or> kind_of L target = Union_kind
           then map_sum id Some (of_option ErrBtfNotFound (pointer_type_id L target))
           else Inr None)
      | _ \<Rightarrow> Inr None)"

definition canReadByRdonlyCast :: "'t btf_lib \<Rightarrow> 't \<Rightarrow> bool" where
  "canReadByRdonlyCast L t = (case kind_of L t of
     Pointer_kind _ \<Rightarrow> True | Int_kind \<Rightarrow> True | Enum_kind _ \<Rightarrow> True | _ \<Rightarrow> False)"

definition cc_sizeof :: "'t btf_lib \<Rightarrow> 't \<Rightarrow> cc_error + nat" where
  "cc_sizeof L t = map_sum id (\<lambda>n. if n \<in> {1, 2, 4} then n else 8) (of_option ErrBtfNotFound (size_of L t))"

definition coreReadByProbeRead :: "reg \<Rightarrow> bool \<Rightarrow> 't compiler \<Rightarrow> 't compiler" where
  "coreReadByProbeRead reg lastIdx =
     emit (Mov_Reg R3 R1 # probe_read_8 @ [LoadMem (if lastIdx \<and> reg \<noteq> R1 then reg else R1) RFP (- 8)])"

fun core_loop :: "'t btf_lib \<Rightarrow> 't accessOffset list \<Rightarrow> reg \<Rightarrow> 't compiler \<Rightarrow> cc_error + 't compiler" where
  "core_loop L [] reg c = Inr c"
| "core_loop L (a # offsets) reg c =
     (if a_address a then
        let c = (if a_offset a \<noteq> 0 then emit [Add_Imm R1 (ucast (a_offset a))] c else c);
            c = (if offsets = [] \<and> reg \<noteq> R1 then emit [Mov_Reg reg R1] c else c)
        in core_loop L offsets reg c
      else bind_res (canRdonlyCast L (a_prev a)) (\<lambda>canCast.
        case canCast of None \<Rightarrow> core_loop L offsets reg (coreReadByProbeRead reg (offsets = []) c)
        | Some typID \<Rightarrow> bind_res (cc_sizeof L (a_btf a)) (\<lambda>size.
            if \<not> canReadByRdonlyCast L (a_btf a) \<or> a_inArray a
            then core_loop L offsets reg (coreReadByProbeRead reg (offsets = []) c)
            else let c = emit [Mov_Imm R2 (of_nat typID), Kfunc_Call (c_rdonlyCast c)] c in
              if offsets \<noteq> [] then
                core_loop L offsets reg
                  (emit_insns [plain (LoadMem_Size R1 R0 (ucast (a_offset a)) size), JEq_Imm_Label R1 0 (c_labelExit c)] c
                    \<lparr>c_labelExitUsed := True\<rparr>)
              else core_loop L offsets reg (emit [LoadMem_Size reg R0 (ucast (a_offset a)) size] c))))"

definition coreReadOffsets :: "'t btf_lib \<Rightarrow> 't accessOffset list \<Rightarrow> reg \<Rightarrow> 't compiler \<Rightarrow> cc_error + 't compiler" where
  "coreReadOffsets L offsets reg c =
     (let n = (if c_fastcall c then 2 else 5);
          c = pushUsedCallerSavedRegsN n c;
          c = (if reg \<noteq> R1 then emit [Mov_Reg R1 reg] c else c)
      in bind_res (core_loop L offsets reg c) (\<lambda>c. Inr (popUsedCallerSavedRegsN n c)))"

fun directReadOffsets :: "'t accessOffset list \<Rightarrow> reg \<Rightarrow> 't compiler \<Rightarrow> 't compiler" where
  "directReadOffsets [] reg c = c"
| "directReadOffsets (a # offsets) reg c =
     (if a_address a then
        directReadOffsets offsets reg (if a_offset a \<noteq> 0 then emit [Add_Imm reg (ucast (a_offset a))] c else c)
      else
        let c = emit [LoadMem reg reg (ucast (a_offset a))] c in
        directReadOffsets offsets reg
          (if offsets \<noteq> [] then emit_insns [JEq_Imm_Label reg 0 (c_labelExit c)] c else c))"

definition offset2insns :: "'t btf_lib \<Rightarrow> 't accessOffset list \<Rightarrow> reg \<Rightarrow> 't compiler \<Rightarrow> cc_error + 't compiler" where
  "offset2insns L offsets reg c =
     (if offsets = [] then Inr c
      else if allAddress offsets then Inr (add_offsets offsets reg c)
      else case c_memMode c of
        CoreRead \<Rightarrow> coreReadOffsets L offsets reg c
      | DirectRead \<Rightarrow> Inr (directReadOffsets offsets reg c)
      | ProbeRead \<Rightarrow> Inr (probeReadOffsets offsets reg c))"

end
