(* ===== verification/Cc_Eval.thy ===== *)
theory Cc_Eval
  imports Cc_Compiler
begin

text \<open>
  The compiler of C expressions (\<^verbatim>\<open>internal/cc/eval.go\<close>, \<^verbatim>\<open>memory_access.go\<close>, \<^verbatim>\<open>expr.go\<close>): the operators, the
  paths of member accesses, the evaluation of an expression, and the code of a filter.
\<close>

section \<open>Values\<close>

text \<open>A value is a known number, a register with its type, or a name that may be an enumeration constant.\<close>

datatype value_typ = Unspec_value | Num_value | RegBtf_value | EnumMaybe_value

record 't evalValue =
  v_typ :: value_typ
  v_reg :: reg
  v_num :: s64
  v_name :: string
  v_btf :: "'t option"
  v_mem :: "'t member option"

definition num_value :: "s64 \<Rightarrow> 't evalValue" where
  "num_value n = \<lparr>v_typ = Num_value, v_reg = R0, v_num = n, v_name = [], v_btf = None, v_mem = None\<rparr>"

definition reg_value :: "reg \<Rightarrow> 't option \<Rightarrow> 't member option \<Rightarrow> 't evalValue" where
  "reg_value r t mem = \<lparr>v_typ = RegBtf_value, v_reg = r, v_num = 0, v_name = [], v_btf = t, v_mem = mem\<rparr>"

text \<open>A missing type is of no kind the compiler knows, and has no size.\<close>

definition vkind :: "'t btf_lib \<Rightarrow> 't option \<Rightarrow> 't kind" where
  "vkind L t = (case t of None \<Rightarrow> Other_kind | Some t \<Rightarrow> kind_of L t)"

definition vsize :: "'t btf_lib \<Rightarrow> 't option \<Rightarrow> nat" where
  "vsize L t = (case Option.bind t (size_of L) of None \<Rightarrow> 0 | Some n \<Rightarrow> n)"

definition canCalculate :: "'t btf_lib \<Rightarrow> 't option \<Rightarrow> bool" where
  "canCalculate L t = (case vkind L t of
     Int_kind \<Rightarrow> True | Enum_kind _ \<Rightarrow> True | Pointer_kind _ \<Rightarrow> True | Array_kind _ \<Rightarrow> True | _ \<Rightarrow> False)"

definition isMemberBitfield :: "'t member option \<Rightarrow> bool" where
  "isMemberBitfield mem = (case mem of None \<Rightarrow> False | Some b \<Rightarrow> mem_BitfieldSize b \<noteq> 0)"

definition bool2int :: "bool \<Rightarrow> s64" where
  "bool2int b = (if b then 1 else 0)"

definition emitReg2bool :: "reg \<Rightarrow> 't compiler \<Rightarrow> 't compiler" where
  "emitReg2bool r = emit [Mov_Imm r 1, Ja 1, Alu_Reg ALU_Xor r r]"

definition extractEnum :: "'t btf_lib \<Rightarrow> 't option \<Rightarrow> string \<Rightarrow> cc_error + s64" where
  "extractEnum L t name = (case vkind L t of
     Enum_kind vals \<Rightarrow> of_option ErrDisallowed (map_of vals name)
   | _ \<Rightarrow> Inl ErrDisallowed)"

definition adjustNum :: "'t btf_lib \<Rightarrow> s64 \<Rightarrow> 't evalValue \<Rightarrow> s64" where
  "adjustNum L num ref =
     (if v_typ ref \<noteq> RegBtf_value then num
      else if isMemberBitfield (v_mem ref) then num AND (push_bit (mem_BitfieldSize (the (v_mem ref))) 1 - 1)
      else let n = vsize L (v_btf ref) in
        if n = 1 then num AND 0xFF else if n = 2 then num AND 0xFFFF
        else if n = 4 then num AND 0xFFFFFFFF else num)"

definition preHandleBinaryOp ::
  "'t btf_lib \<Rightarrow> 't evalValue \<Rightarrow> 't evalValue \<Rightarrow> cc_error + ('t evalValue \<times> 't evalValue)" where
  "preHandleBinaryOp L a b =
     (if v_typ a = RegBtf_value \<and> \<not> canCalculate L (v_btf a) then Inl ErrDisallowed
      else if v_typ b = RegBtf_value \<and> \<not> canCalculate L (v_btf b) then Inl ErrDisallowed
      else if v_typ a = EnumMaybe_value \<and> v_typ b = RegBtf_value then
        bind_res (extractEnum L (v_btf b) (v_name a)) (\<lambda>num.
          Inr (a\<lparr>v_num := adjustNum L num b, v_typ := Num_value\<rparr>, b))
      else if v_typ a = RegBtf_value \<and> v_typ b = EnumMaybe_value then
        bind_res (extractEnum L (v_btf a) (v_name b)) (\<lambda>num.
          Inr (a, b\<lparr>v_num := adjustNum L num a, v_typ := Num_value\<rparr>))
      else let a = a\<lparr>v_num := adjustNum L (v_num a) b\<rparr>;
               b = b\<lparr>v_num := adjustNum L (v_num b) a\<rparr>
           in Inr (a, b))"

section \<open>Operators\<close>

type_synonym 't result = "cc_error + ('t evalValue \<times> 't compiler)"

text \<open>
  How an operator goes on with its checked operands: two numbers, two registers, a number and a
  register, a register and a number. Everything else is not implemented.
\<close>

definition operand_cases ::
  "('t evalValue \<Rightarrow> 't evalValue \<Rightarrow> 't result) \<Rightarrow> ('t evalValue \<Rightarrow> 't evalValue \<Rightarrow> 't result) \<Rightarrow>
   ('t evalValue \<Rightarrow> 't evalValue \<Rightarrow> 't result) \<Rightarrow> ('t evalValue \<Rightarrow> 't evalValue \<Rightarrow> 't result) \<Rightarrow>
   't evalValue \<times> 't evalValue \<Rightarrow> 't result" where
  "operand_cases nn rr nr rn = (\<lambda>(left, right).
     case (v_typ left, v_typ right) of
       (Num_value, Num_value) \<Rightarrow> nn left right
     | (RegBtf_value, RegBtf_value) \<Rightarrow> rr left right
     | (Num_value, RegBtf_value) \<Rightarrow> nr left right
     | (RegBtf_value, Num_value) \<Rightarrow> rn left right
     | _ \<Rightarrow> Inl ErrNotImplemented)"

definition by_operands ::
  "('t evalValue \<Rightarrow> 't evalValue \<Rightarrow> 't result) \<Rightarrow> ('t evalValue \<Rightarrow> 't evalValue \<Rightarrow> 't result) \<Rightarrow>
   ('t evalValue \<Rightarrow> 't evalValue \<Rightarrow> 't result) \<Rightarrow> ('t evalValue \<Rightarrow> 't evalValue \<Rightarrow> 't result) \<Rightarrow>
   't btf_lib \<Rightarrow> 't evalValue \<Rightarrow> 't evalValue \<Rightarrow> 't result" where
  "by_operands nn rr nr rn L left right =
     bind_res (preHandleBinaryOp L left right) (operand_cases nn rr nr rn)"

text \<open>Division and remainder first refuse a right operand that is the number zero.\<close>

definition by_nonzero ::
  "('t evalValue \<Rightarrow> 't evalValue \<Rightarrow> 't result) \<Rightarrow> ('t evalValue \<Rightarrow> 't evalValue \<Rightarrow> 't result) \<Rightarrow>
   ('t evalValue \<Rightarrow> 't evalValue \<Rightarrow> 't result) \<Rightarrow> ('t evalValue \<Rightarrow> 't evalValue \<Rightarrow> 't result) \<Rightarrow>
   't btf_lib \<Rightarrow> 't evalValue \<Rightarrow> 't evalValue \<Rightarrow> 't result" where
  "by_nonzero nn rr nr rn L left right =
     bind_res (preHandleBinaryOp L left right) (\<lambda>(left, right).
       if v_typ right = Num_value \<and> v_num right = 0 then Inl ErrDivisionByZero
       else operand_cases nn rr nr rn (left, right))"

text \<open>Two numbers are computed, two registers by an instruction on the left one; the right one is freed.\<close>

definition fold_num :: "(s64 \<Rightarrow> s64 \<Rightarrow> s64) \<Rightarrow> 't compiler \<Rightarrow> 't evalValue \<Rightarrow> 't evalValue \<Rightarrow> 't result" where
  "fold_num f c left right = Inr (left\<lparr>v_num := f (v_num left) (v_num right)\<rparr>, c)"

definition alu_regs :: "alu \<Rightarrow> 't compiler \<Rightarrow> 't evalValue \<Rightarrow> 't evalValue \<Rightarrow> 't result" where
  "alu_regs f c left right =
     Inr (left, Free (v_reg right) (emit [Alu_Reg f (v_reg left) (v_reg right)] c))"

definition alu_num :: "alu \<Rightarrow> 't compiler \<Rightarrow> 't evalValue \<Rightarrow> s64 \<Rightarrow> 't result" where
  "alu_num f c v num = Inr (v, emit [Alu_Imm f (v_reg v) (ucast num)] c)"

definition elem_size :: "'t btf_lib \<Rightarrow> 't option \<Rightarrow> nat" where
  "elem_size L t = (case vkind L t of Pointer_kind x \<Rightarrow> vsize L (Some x) | Array_kind x \<Rightarrow> vsize L (Some x) | _ \<Rightarrow> 0)"

definition scale_reg :: "'t btf_lib \<Rightarrow> 't evalValue \<Rightarrow> 't evalValue \<Rightarrow> 't compiler \<Rightarrow> 't compiler" where
  "scale_reg L left right c =
     (if elem_size L (v_btf left) \<noteq> 0
      then emit [Alu_Imm ALU_Mul (v_reg right) (of_nat (elem_size L (v_btf left)))] c else c)"

text \<open>A number added to a pointer or an array counts elements; the sizes are multiplied in 32 bits.\<close>

definition add_num :: "'t btf_lib \<Rightarrow> 't compiler \<Rightarrow> 't evalValue \<Rightarrow> s64 \<Rightarrow> 't result" where
  "add_num L c v num =
     (let add = (\<lambda>i. Inr (v, emit [Add_Imm (v_reg v) i] c)) in
      if num = 0 then Inr (v, c)
      else case vkind L (v_btf v) of
        Pointer_kind target \<Rightarrow>
          (if kind_of L target = Void_kind then add (ucast num)
           else if vsize L (Some target) = 0 then Inl ErrDisallowed
           else add (ucast num * of_nat (vsize L (Some target))))
      | Array_kind elem \<Rightarrow>
          (if vsize L (Some elem) = 0 then Inl ErrDisallowed
           else add (ucast num * of_nat (vsize L (Some elem))))
      | _ \<Rightarrow> add (ucast num))"

definition cc_add :: "'t btf_lib \<Rightarrow> 't compiler \<Rightarrow> 't evalValue \<Rightarrow> 't evalValue \<Rightarrow> 't result" where
  "cc_add L c = by_operands
     (fold_num (+) c)
     (\<lambda>left right. alu_regs ALU_Add (scale_reg L left right c) left right)
     (\<lambda>left right. add_num L c right (v_num left))
     (\<lambda>left right. add_num L c left (v_num right)) L"

definition cc_and :: "'t btf_lib \<Rightarrow> 't compiler \<Rightarrow> 't evalValue \<Rightarrow> 't evalValue \<Rightarrow> 't result" where
  "cc_and L c = by_operands
     (fold_num (AND) c)
     (alu_regs ALU_And c)
     (\<lambda>left right. alu_num ALU_And c right (v_num left))
     (\<lambda>left right. alu_num ALU_And c left (v_num right)) L"

text \<open>One register as a truth value, after a jump on the given comparison with a number.\<close>

definition test_num :: "cmp \<Rightarrow> 't compiler \<Rightarrow> 't evalValue \<Rightarrow> s64 \<Rightarrow> 't result" where
  "test_num f c v num = Inr (v, emitReg2bool (v_reg v) (emit [JmpOff f (v_reg v) num 2] c))"

definition cc_andand :: "'t btf_lib \<Rightarrow> 't compiler \<Rightarrow> 't evalValue \<Rightarrow> 't evalValue \<Rightarrow> 't result" where
  "cc_andand L c = by_operands
     (fold_num (\<lambda>a b. bool2int (a \<noteq> 0 \<and> b \<noteq> 0)) c)
     (\<lambda>left right. Inr (left, Free (v_reg right) (emitReg2bool (v_reg left)
        (emit [JmpOff CMP_Eq (v_reg left) 0 3, JmpOff CMP_Eq (v_reg right) 0 2] c))))
     (\<lambda>left right. if v_num left = 0 then Inr (left, Free (v_reg right) c) else test_num CMP_Eq c right 0)
     (\<lambda>left right. if v_num right = 0 then Inr (right, Free (v_reg left) c) else test_num CMP_Eq c left 0) L"

text \<open>
  The comparisons: \<open>f\<close> compares numbers, and \<open>g\<close> is the jump over the true case. With a number on
  the left the same jump is used as with the number on the right.
\<close>

definition compare_op ::
  "(s64 \<Rightarrow> s64 \<Rightarrow> bool) \<Rightarrow> cmp \<Rightarrow> 't btf_lib \<Rightarrow> 't compiler \<Rightarrow> 't evalValue \<Rightarrow> 't evalValue \<Rightarrow> 't result" where
  "compare_op f g L c = by_operands
     (fold_num (\<lambda>a b. bool2int (f a b)) c)
     (\<lambda>left right. Inr (left, Free (v_reg right) (emitReg2bool (v_reg left)
        (emit [JmpReg g (v_reg left) (v_reg right) 2] c))))
     (\<lambda>left right. test_num g c right (v_num left))
     (\<lambda>left right. test_num g c left (v_num right)) L"

definition cc_eqeq :: "'t btf_lib \<Rightarrow> 't compiler \<Rightarrow> 't evalValue \<Rightarrow> 't evalValue \<Rightarrow> 't result" where
  "cc_eqeq = compare_op (=) CMP_NE"

definition cc_noteq :: "'t btf_lib \<Rightarrow> 't compiler \<Rightarrow> 't evalValue \<Rightarrow> 't evalValue \<Rightarrow> 't result" where
  "cc_noteq = compare_op (\<noteq>) CMP_Eq"

definition cc_gt :: "'t btf_lib \<Rightarrow> 't compiler \<Rightarrow> 't evalValue \<Rightarrow> 't evalValue \<Rightarrow> 't result" where
  "cc_gt = compare_op (\<lambda>a b. sint b < sint a) CMP_LE"

definition cc_gteq :: "'t btf_lib \<Rightarrow> 't compiler \<Rightarrow> 't evalValue \<Rightarrow> 't evalValue \<Rightarrow> 't result" where
  "cc_gteq = compare_op (\<lambda>a b. sint b \<le> sint a) CMP_LT"

definition cc_lt :: "'t btf_lib \<Rightarrow> 't compiler \<Rightarrow> 't evalValue \<Rightarrow> 't evalValue \<Rightarrow> 't result" where
  "cc_lt = compare_op (\<lambda>a b. sint a < sint b) CMP_GE"

definition cc_lteq :: "'t btf_lib \<Rightarrow> 't compiler \<Rightarrow> 't evalValue \<Rightarrow> 't evalValue \<Rightarrow> 't result" where
  "cc_lteq = compare_op (\<lambda>a b. sint a \<le> sint b) CMP_GT"

text \<open>Go's division of integers rounds towards zero.\<close>

definition go_div :: "s64 \<Rightarrow> s64 \<Rightarrow> s64" where
  "go_div a b = word_of_int (sgn (sint a) * sgn (sint b) * (\<bar>sint a\<bar> div \<bar>sint b\<bar>))"

definition go_rem :: "s64 \<Rightarrow> s64 \<Rightarrow> s64" where
  "go_rem a b = word_of_int (sgn (sint a) * (\<bar>sint a\<bar> mod \<bar>sint b\<bar>))"

text \<open>A number on the left of a register goes into a register of its own.\<close>

definition num_in_reg :: "(reg \<Rightarrow> opcode list) \<Rightarrow> 't compiler \<Rightarrow> 't evalValue \<Rightarrow> 't result" where
  "num_in_reg code c right = bind_res (Alloc c) (\<lambda>(r, c).
     Inr (reg_value r (v_btf right) None, Free (v_reg right) (emit (code r) c)))"

definition cc_div :: "'t btf_lib \<Rightarrow> 't compiler \<Rightarrow> 't evalValue \<Rightarrow> 't evalValue \<Rightarrow> 't result" where
  "cc_div L c = by_nonzero
     (fold_num go_div c)
     (\<lambda>left right. Inr (left, Free (v_reg right)
        (emit [JmpOff CMP_Eq (v_reg right) 0 2, Mov_Imm (v_reg left) 0, Ja 1,
               Alu_Reg ALU_Div (v_reg left) (v_reg right)] c)))
     (\<lambda>left right. num_in_reg (\<lambda>r. [JmpOff CMP_Eq (v_reg right) 0 2, Mov_Imm r 0, Ja 2,
        Mov_Imm r (ucast (v_num left)), Alu_Reg ALU_Div r (v_reg right)]) c right)
     (\<lambda>left right. alu_num ALU_Div c left (v_num right)) L"

definition cc_mod :: "'t btf_lib \<Rightarrow> 't compiler \<Rightarrow> 't evalValue \<Rightarrow> 't evalValue \<Rightarrow> 't result" where
  "cc_mod L c = by_nonzero
     (fold_num go_rem c)
     (\<lambda>left right. Inr (left, Free (v_reg right)
        (emit [JmpOff CMP_Eq (v_reg right) 0 1, Alu_Reg ALU_Mod (v_reg left) (v_reg right)] c)))
     (\<lambda>left right. if v_num left = 0 then Inr (left, Free (v_reg right) c)
        else num_in_reg (\<lambda>r. [Mov_Imm r (ucast (v_num left)), Alu_Reg ALU_Mod r (v_reg right)]) c right)
     (\<lambda>left right. if v_num right = 1 then Inr (left, emit [Mov_Imm (v_reg left) 0] c)
        else alu_num ALU_Mod c left (v_num right)) L"

text \<open>A negative shift of numbers panics; a count of 64 and more leaves nothing, or the sign.\<close>

definition go_shift :: "(nat \<Rightarrow> s64 \<Rightarrow> s64) \<Rightarrow> 't compiler \<Rightarrow> 't evalValue \<Rightarrow> 't evalValue \<Rightarrow> 't result" where
  "go_shift f c left right =
     (if sint (v_num right) < 0 then Inl Panic
      else Inr (left\<lparr>v_num := f (nat (sint (v_num right))) (v_num left)\<rparr>, c))"

definition shift_num :: "alu \<Rightarrow> 't compiler \<Rightarrow> 't evalValue \<Rightarrow> s64 \<Rightarrow> 't result" where
  "shift_num f c left num =
     (if sint num < 0 then Inl ErrDisallowed else if num = 0 then Inr (left, c) else alu_num f c left num)"

definition num_shift :: "alu \<Rightarrow> 't compiler \<Rightarrow> 't evalValue \<Rightarrow> 't evalValue \<Rightarrow> 't result" where
  "num_shift f c left right =
     (if v_num left = 0 then Inr (left, Free (v_reg right) c)
      else num_in_reg (\<lambda>r. [Mov_Imm r (ucast (v_num left)), Alu_Reg f r (v_reg right)]) c right)"

definition cc_lsh :: "'t btf_lib \<Rightarrow> 't compiler \<Rightarrow> 't evalValue \<Rightarrow> 't evalValue \<Rightarrow> 't result" where
  "cc_lsh L c = by_operands
     (go_shift push_bit c)
     (\<lambda>left right. Inr (left, Free (v_reg right)
        (emit [JmpOff CMP_LE (v_reg right) 0 1, Alu_Reg ALU_LSh (v_reg left) (v_reg right)] c)))
     (num_shift ALU_LSh c)
     (\<lambda>left right. shift_num ALU_LSh c left (v_num right)) L"

definition cc_rsh :: "'t btf_lib \<Rightarrow> 't compiler \<Rightarrow> 't evalValue \<Rightarrow> 't evalValue \<Rightarrow> 't result" where
  "cc_rsh L c = by_operands
     (go_shift signed_drop_bit c)
     (alu_regs ALU_RSh c)
     (num_shift ALU_RSh c)
     (\<lambda>left right. shift_num ALU_RSh c left (v_num right)) L"

definition mul_num :: "'t compiler \<Rightarrow> 't evalValue \<Rightarrow> 't evalValue \<Rightarrow> 't result" where
  "mul_num c v num =
     (if v_num num = 0 then Inr (num, Free (v_reg v) c)
      else if v_num num = 1 then Inr (v, c)
      else alu_num ALU_Mul c v (v_num num))"

definition cc_mul :: "'t btf_lib \<Rightarrow> 't compiler \<Rightarrow> 't evalValue \<Rightarrow> 't evalValue \<Rightarrow> 't result" where
  "cc_mul L c = by_operands
     (fold_num (*) c)
     (alu_regs ALU_Mul c)
     (\<lambda>left right. mul_num c right left)
     (\<lambda>left right. mul_num c left right) L"

text \<open>For \<open>|\<close> and \<open>^\<close> a number that is zero is the result itself.\<close>

definition num_or_zero :: "alu \<Rightarrow> 't compiler \<Rightarrow> 't evalValue \<Rightarrow> 't evalValue \<Rightarrow> 't result" where
  "num_or_zero f c v num =
     (if v_num num = 0 then Inr (num, Free (v_reg v) c) else alu_num f c v (v_num num))"

definition cc_or :: "'t btf_lib \<Rightarrow> 't compiler \<Rightarrow> 't evalValue \<Rightarrow> 't evalValue \<Rightarrow> 't result" where
  "cc_or L c = by_operands
     (fold_num (OR) c)
     (alu_regs ALU_Or c)
     (\<lambda>left right. num_or_zero ALU_Or c right left)
     (\<lambda>left right. num_or_zero ALU_Or c left right) L"

definition cc_xor :: "'t btf_lib \<Rightarrow> 't compiler \<Rightarrow> 't evalValue \<Rightarrow> 't evalValue \<Rightarrow> 't result" where
  "cc_xor L c = by_operands
     (fold_num (XOR) c)
     (alu_regs ALU_Xor c)
     (\<lambda>left right. num_or_zero ALU_Xor c right left)
     (\<lambda>left right. num_or_zero ALU_Xor c left right) L"

definition oror_num :: "'t compiler \<Rightarrow> 't evalValue \<Rightarrow> 't evalValue \<Rightarrow> 't result" where
  "oror_num c v num =
     (if v_num num \<noteq> 0 then Inr (num\<lparr>v_num := 1\<rparr>, Free (v_reg v) c) else test_num CMP_Eq c v 0)"

definition cc_oror :: "'t btf_lib \<Rightarrow> 't compiler \<Rightarrow> 't evalValue \<Rightarrow> 't evalValue \<Rightarrow> 't result" where
  "cc_oror L c = by_operands
     (fold_num (\<lambda>a b. bool2int (a \<noteq> 0 \<or> b \<noteq> 0)) c)
     (\<lambda>left right. Inr (left, Free (v_reg right)
        (emit [JmpOff CMP_NE (v_reg left) 0 3, JmpOff CMP_NE (v_reg right) 0 2,
               Alu_Reg ALU_Xor (v_reg left) (v_reg left), Ja 1, Mov_Imm (v_reg left) 1] c)))
     (\<lambda>left right. oror_num c right left)
     (\<lambda>left right. oror_num c left right) L"

definition cc_sub :: "'t btf_lib \<Rightarrow> 't compiler \<Rightarrow> 't evalValue \<Rightarrow> 't evalValue \<Rightarrow> 't result" where
  "cc_sub L c = by_operands
     (fold_num (-) c)
     (\<lambda>left right. alu_regs ALU_Sub (scale_reg L left right c) left right)
     (\<lambda>left right.
        if (case vkind L (v_btf right) of Int_kind \<Rightarrow> False | Enum_kind _ \<Rightarrow> False | _ \<Rightarrow> True) then Inl ErrDisallowed
        else if v_num left = 0 then Inr (right, emit [Neg_Reg (v_reg right)] c)
        else alu_num ALU_Sub c right (v_num left))
     (\<lambda>left right. if v_num right = 0 then Inr (left, c)
        else case vkind L (v_btf left) of
          Pointer_kind target \<Rightarrow>
            Inr (left, emit [Alu_Imm ALU_Sub (v_reg left) (if vsize L (Some target) = 0 then ucast (v_num right)
              else ucast (v_num right) * of_nat (vsize L (Some target)))] c)
        | Array_kind elem \<Rightarrow>
            (if vsize L (Some elem) = 0 then Inl ErrDisallowed
             else Inr (left, emit [Alu_Imm ALU_Sub (v_reg left) (ucast (v_num right) * of_nat (vsize L (Some elem)))] c))
        | _ \<Rightarrow> alu_num ALU_Sub c left (v_num right)) L"

fun cc_binary :: "binop \<Rightarrow> 't btf_lib \<Rightarrow> 't compiler \<Rightarrow> 't evalValue \<Rightarrow> 't evalValue \<Rightarrow> 't result" where
  "cc_binary Op_Add = cc_add"
| "cc_binary Op_And = cc_and"
| "cc_binary Op_AndAnd = cc_andand"
| "cc_binary Op_Div = cc_div"
| "cc_binary Op_EqEq = cc_eqeq"
| "cc_binary Op_Gt = cc_gt"
| "cc_binary Op_GtEq = cc_gteq"
| "cc_binary Op_Lsh = cc_lsh"
| "cc_binary Op_Lt = cc_lt"
| "cc_binary Op_LtEq = cc_lteq"
| "cc_binary Op_Mod = cc_mod"
| "cc_binary Op_Mul = cc_mul"
| "cc_binary Op_NotEq = cc_noteq"
| "cc_binary Op_Or = cc_or"
| "cc_binary Op_OrOr = cc_oror"
| "cc_binary Op_Rsh = cc_rsh"
| "cc_binary Op_Sub = cc_sub"
| "cc_binary Op_Xor = cc_xor"

text \<open>The operators with one operand: \<open>f\<close> on numbers, or code on the register.\<close>

definition by_operand ::
  "(s64 \<Rightarrow> s64) \<Rightarrow> bool \<Rightarrow> ('t evalValue \<Rightarrow> 't compiler \<Rightarrow> 't compiler) \<Rightarrow> 't compiler \<Rightarrow> 't evalValue \<Rightarrow> 't result" where
  "by_operand f allowed code c v =
     (case v_typ v of
        Num_value \<Rightarrow> Inr (v\<lparr>v_num := f (v_num v)\<rparr>, c)
      | RegBtf_value \<Rightarrow> if \<not> allowed then Inl ErrDisallowed else Inr (v, code v c)
      | _ \<Rightarrow> Inl ErrNotImplemented)"

fun cc_unary :: "unop \<Rightarrow> 't btf_lib \<Rightarrow> 't compiler \<Rightarrow> 't evalValue \<Rightarrow> 't result" where
  "cc_unary Op_Minus L c v = by_operand uminus True (\<lambda>v. emit [Neg_Reg (v_reg v)]) c v"
| "cc_unary Op_Not L c v = by_operand (\<lambda>n. bool2int (n = 0)) (canCalculate L (v_btf v))
     (\<lambda>v c. emitReg2bool (v_reg v) (emit [JmpOff CMP_NE (v_reg v) 0 2] c)) c v"
| "cc_unary Op_Plus L c v = Inr (v, c)"
| "cc_unary Op_PreDec L c v = by_operand (\<lambda>n. n - 1) (canCalculate L (v_btf v))
     (\<lambda>v. emit [Alu_Imm ALU_Sub (v_reg v) 1]) c v"
| "cc_unary Op_PreInc L c v = by_operand (\<lambda>n. n + 1) (canCalculate L (v_btf v))
     (\<lambda>v. emit [Add_Imm (v_reg v) 1]) c v"
| "cc_unary Op_Twid L c v = by_operand (\<lambda>n. NOT n) (canCalculate L (v_btf v))
     (\<lambda>v. emit [Alu_Imm ALU_Xor (v_reg v) (- 1)]) c v"

text \<open>What a branch of \<open>?:\<close> puts into the register of the condition.\<close>

definition cond_branch :: "reg \<Rightarrow> 't evalValue \<Rightarrow> 't compiler \<Rightarrow> 't compiler" where
  "cond_branch r v c = (if v_typ v = Num_value then emit [Mov_Imm r (ucast (v_num v))] c
     else Free (v_reg v) (emit [Mov_Reg r (v_reg v)] c))"

definition cc_cond :: "'t btf_lib \<Rightarrow> 't compiler \<Rightarrow> 't evalValue \<Rightarrow> 't evalValue \<Rightarrow> 't evalValue \<Rightarrow> 't result" where
  "cc_cond L c cond left right =
     (if v_typ cond = RegBtf_value \<and> \<not> canCalculate L (v_btf cond) then Inl ErrDisallowed
      else if v_typ left = RegBtf_value \<and> \<not> canCalculate L (v_btf left) then Inl ErrDisallowed
      else if v_typ right = RegBtf_value \<and> \<not> canCalculate L (v_btf right) then Inl ErrDisallowed
      else if v_typ cond = Num_value then Inr (if v_num cond = 0 then right else left, c)
      else let c = emit [JmpOff CMP_Eq (v_reg cond) 0 2] c;
               c = cond_branch (v_reg cond) left c;
               c = emit [Ja 1] c;
               c = cond_branch (v_reg cond) right c
           in Inr (cond, c))"

section \<open>Casts\<close>

definition findType :: "'t btf_lib \<Rightarrow> string \<Rightarrow> 't option" where
  "findType L name = (case krnl_type L name of Some t \<Rightarrow> Some t | None \<Rightarrow> spec_type L name)"

definition cc2btf :: "'t btf_lib \<Rightarrow> cc_type \<Rightarrow> cc_error + 't" where
  "cc2btf L ty =
     (let isPointer = (case ty of Ptr_type _ \<Rightarrow> True | _ \<Rightarrow> False);
          ty = (case ty of Ptr_type base \<Rightarrow> base | _ \<Rightarrow> ty)
      in bind_res
        (case ty of
           Tag_type name \<Rightarrow> bind_res (of_option ErrBtfNotFound (findType L name)) (\<lambda>typ.
             if kind_of L typ \<noteq> Struct_kind \<and> kind_of L typ \<noteq> Union_kind then Inl ErrDisallowed else Inr typ)
         | _ \<Rightarrow>
           (let name = type_string L ty in
            if name = ''void'' then Inr (void_type L)
            else of_option ErrBtfNotFound (krnl_type L
              (if name = ''uchar'' then ''unsigned char''
               else if name = ''short'' then ''s16''
               else if name = ''ushort'' then ''u16''
               else if name = ''long'' \<or> name = ''longlong'' then ''s64''
               else if name = ''ulonglong'' then ''u64''
               else name))))
        (\<lambda>typ. Inr (if isPointer then pointer_to L typ else typ)))"

text \<open>A cast gives the value another type; a number moves into a register.\<close>

definition cc_cast :: "'t btf_lib \<Rightarrow> cc_type \<Rightarrow> 't compiler \<Rightarrow> 't evalValue \<Rightarrow> 't result" where
  "cc_cast L ty c v = bind_res (cc2btf L ty) (\<lambda>typ. Inr (v\<lparr>v_btf := Some typ\<rparr>, c))"

definition castNumber :: "'t btf_lib \<Rightarrow> cc_type \<Rightarrow> 't compiler \<Rightarrow> 't evalValue \<Rightarrow> 't result" where
  "castNumber L ty c v = bind_res (cc_cast L ty c v) (\<lambda>(v, c). bind_res (Alloc c) (\<lambda>(r, c).
     Inr (v\<lparr>v_reg := r\<rparr>, emit [Mov_Imm r (ucast (v_num v))] c)))"

section \<open>Paths\<close>

record 't accessResult =
  r_idx :: int
  r_btf :: 't
  r_mem :: "'t member option"
  r_lastIdx :: int
  r_offsets :: "'t accessOffset list"
  r_uptr :: u64
  r_reg :: reg

definition addOffset :: "'t accessOffset \<Rightarrow> 't accessResult \<Rightarrow> 't accessResult" where
  "addOffset a res = res\<lparr>r_lastIdx := int (length (r_offsets res)), r_offsets := r_offsets res @ [a]\<rparr>"

text \<open>An update of the last step; without one it is an index out of range.\<close>

definition last_step :: "('t accessOffset \<Rightarrow> 't accessOffset) \<Rightarrow> 't accessResult \<Rightarrow> cc_error + 't accessResult" where
  "last_step f res =
     (if 0 \<le> r_lastIdx res \<and> r_lastIdx res < int (length (r_offsets res))
      then Inr (res\<lparr>r_offsets := (r_offsets res)[nat (r_lastIdx res) := f (r_offsets res ! nat (r_lastIdx res))]\<rparr>)
      else Inl Panic)"

definition prevBtf :: "'t accessResult \<Rightarrow> cc_error + 't option" where
  "prevBtf res =
     (if 0 \<le> r_lastIdx res then
        (if r_lastIdx res < int (length (r_offsets res)) then Inr (a_prev (r_offsets res ! nat (r_lastIdx res)))
         else Inl Panic)
      else Inr None)"

definition slices_Index :: "string list \<Rightarrow> string \<Rightarrow> nat option" where
  "slices_Index xs x = map_option fst (find (\<lambda>(i, y). y = x) (List.enumerate 0 xs))"

text \<open>The variable of a path.\<close>

definition access_name :: "'t compiler \<Rightarrow> string \<Rightarrow> cc_error + 't accessResult" where
  "access_name c x = bind_res (of_option (ErrVarNotFound x) (slices_Index (c_vars c) x)) (\<lambda>i.
     Inr \<lparr>r_idx = int i, r_btf = c_btfs c ! i, r_mem = None, r_lastIdx = - 1, r_offsets = [], r_uptr = 0, r_reg = R0\<rparr>)"

definition access_computed :: "'t evalValue \<Rightarrow> cc_error + 't accessResult" where
  "access_computed v = (case (v_typ v, v_btf v) of
     (RegBtf_value, Some t) \<Rightarrow>
       Inr \<lparr>r_idx = - 1, r_btf = t, r_mem = None, r_lastIdx = - 1, r_offsets = [], r_uptr = 0, r_reg = v_reg v\<rparr>
   | _ \<Rightarrow> Inl ErrDisallowed)"

text \<open>A member, through a pointer or of a structure: the type decides, not the operator.\<close>

definition access_member :: "'t btf_lib \<Rightarrow> string \<Rightarrow> 't accessResult \<Rightarrow> cc_error + 't accessResult" where
  "access_member L name res =
     (if isMemberBitfield (r_mem res) then Inl ErrDisallowed
      else
        let (useArrow, t) = (case kind_of L (r_btf res) of Pointer_kind target \<Rightarrow> (True, target) | _ \<Rightarrow> (False, r_btf res)) in
        if kind_of L t \<noteq> Struct_kind \<and> kind_of L t \<noteq> Union_kind then Inl ErrDisallowed
        else bind_res (of_option ErrDisallowed (member_of L t name)) (\<lambda>member.
          bind_res (of_option ErrDisallowed (member_offset L t name)) (\<lambda>offset.
            bind_res
              (if \<not> useArrow then
                 (if r_offsets res \<noteq> []
                  then last_step (\<lambda>a. a\<lparr>a_offset := a_offset a + ucast offset, a_btf := mem_Type member\<rparr>) res
                  else Inl ErrDisallowed)
               else Inr (addOffset \<lparr>a_btf = mem_Type member, a_prev = Some (r_btf res), a_offset = ucast offset,
                   a_address = False, a_inArray = False\<rparr> res))
              (\<lambda>res. case kind_of L (mem_Type member) of
                 Array_kind _ \<Rightarrow> map_sum id (\<lambda>res. res\<lparr>r_btf := mem_Type member, r_mem := None\<rparr>)
                   (last_step (\<lambda>a. a\<lparr>a_address := True\<rparr>) res)
               | _ \<Rightarrow> Inr (res\<lparr>r_btf := mem_Type member, r_mem := Some member\<rparr>)))))"

text \<open>A number added to or, with \<open>sign = - 1\<close>, subtracted from a pointer or an array.\<close>

definition access_add :: "'t btf_lib \<Rightarrow> bool \<Rightarrow> s64 \<Rightarrow> s64 \<Rightarrow> 't accessResult \<Rightarrow> cc_error + 't accessResult" where
  "access_add L zeroIsNop sign num res =
     (if isMemberBitfield (r_mem res) then Inl ErrDisallowed
      else if zeroIsNop \<and> num = 0 then Inr res
      else bind_res
        (case kind_of L (r_btf res) of
           Pointer_kind target \<Rightarrow>
             (if kind_of L target = Void_kind then Inr (1, r_btf res)
              else map_sum id (\<lambda>n. (of_nat n, r_btf res)) (of_option ErrDisallowed (size_of L target)))
         | Array_kind elem \<Rightarrow> map_sum id (\<lambda>n. (of_nat n, pointer_to L elem)) (of_option ErrDisallowed (size_of L elem))
         | _ \<Rightarrow> Inl ErrDisallowed)
        (\<lambda>(size, typ). bind_res (prevBtf res) (\<lambda>prev.
           Inr (addOffset \<lparr>a_btf = typ, a_prev = prev, a_offset = sign * (size * num), a_address = True,
             a_inArray = False\<rparr> res \<lparr>r_mem := None\<rparr>))))"

definition access_addr :: "'t btf_lib \<Rightarrow> 't accessResult \<Rightarrow> cc_error + 't accessResult" where
  "access_addr L res =
     (if r_offsets res = [] then Inl ErrDisallowed
      else let typ = pointer_to L (r_btf res) in
        map_sum id (\<lambda>res. res\<lparr>r_btf := typ, r_mem := None\<rparr>)
          (last_step (\<lambda>a. a\<lparr>a_address := True, a_btf := typ\<rparr>) res))"

definition access_cast :: "'t btf_lib \<Rightarrow> cc_type \<Rightarrow> 't accessResult \<Rightarrow> cc_error + 't accessResult" where
  "access_cast L ty res = bind_res (cc2btf L ty) (\<lambda>typ.
     let res = res\<lparr>r_btf := typ, r_mem := None\<rparr> in
     if r_offsets res = [] then Inr res else last_step (\<lambda>a. a\<lparr>a_btf := typ\<rparr>) res)"

text \<open>The address of a cast number; nothing of the result is set but the address and the type.\<close>

definition access_cast_number :: "'t btf_lib \<Rightarrow> cc_type \<Rightarrow> u64 \<Rightarrow> cc_error + 't accessResult" where
  "access_cast_number L ty n = bind_res (cc2btf L ty) (\<lambda>typ.
     Inr \<lparr>r_idx = 0, r_btf = typ, r_mem = None, r_lastIdx = 0, r_offsets = [], r_uptr = n, r_reg = R0\<rparr>)"

definition access_index :: "'t btf_lib \<Rightarrow> s64 \<Rightarrow> 't accessResult \<Rightarrow> cc_error + 't accessResult" where
  "access_index L index res =
     bind_res
       (case kind_of L (r_btf res) of
          Pointer_kind target \<Rightarrow> if vsize L (Some target) = 0 then Inl ErrDisallowed else Inr (target, False)
        | Array_kind elem \<Rightarrow> if vsize L (Some elem) = 0 then Inl ErrDisallowed else Inr (elem, True)
        | _ \<Rightarrow> Inl ErrDisallowed)
       (\<lambda>(typ, inArray). bind_res (prevBtf res) (\<lambda>prev.
          Inr (addOffset \<lparr>a_btf = typ, a_prev = prev, a_offset = index * of_nat (vsize L (Some typ)),
            a_address = False, a_inArray = inArray\<rparr> res \<lparr>r_btf := typ, r_mem := None\<rparr>)))"

definition access_indir :: "'t btf_lib \<Rightarrow> 't accessResult \<Rightarrow> cc_error + 't accessResult" where
  "access_indir L res =
     (if isMemberBitfield (r_mem res) then Inl ErrDisallowed
      else case kind_of L (r_btf res) of
        Pointer_kind target \<Rightarrow>
          Inr (addOffset \<lparr>a_btf = target, a_prev = Some (r_btf res), a_offset = 0, a_address = False,
            a_inArray = False\<rparr> res \<lparr>r_btf := target, r_mem := None\<rparr>)
      | _ \<Rightarrow> Inl ErrDisallowed)"

section \<open>The value of a path\<close>

definition bitfield2insns :: "'t member \<Rightarrow> reg \<Rightarrow> 't compiler \<Rightarrow> 't compiler" where
  "bitfield2insns member r c =
     (let delta = mem_Offset member AND 7;
          c = (if delta \<noteq> 0 then emit [Alu_Imm ALU_RSh r delta] c else c);
          mask = push_bit (mem_BitfieldSize member) 1 - 1 :: u64
      in emit [Alu_Imm ALU_And r (ucast mask)] c)"

definition adjustRegisterBitwise :: "'t btf_lib \<Rightarrow> 't \<Rightarrow> reg \<Rightarrow> 't compiler \<Rightarrow> 't compiler" where
  "adjustRegisterBitwise L t r c =
     (case size_of L t of
        Some n \<Rightarrow>
          if n = 1 then emit [Alu_Imm ALU_And r 0xFF] c
          else if n = 2 then emit [Alu_Imm ALU_And r 0xFFFF] c
          else if n = 4 then emit [Alu_Imm ALU_LSh r 32, Alu_Imm ALU_RSh r 32] c
          else c
      | None \<Rightarrow> c)"

definition access_value :: "'t btf_lib \<Rightarrow> 't accessResult \<Rightarrow> 't compiler \<Rightarrow> 't result" where
  "access_value L res c =
     bind_res
       (if r_idx res \<noteq> - 1 then
          bind_res (Alloc c) (\<lambda>(r, c).
            let c = (if r_uptr res = 0 then emitLoadArg (nat (r_idx res)) r c
                     else emit [Mov_Imm r (ucast (r_uptr res))] c)
            in map_sum id (Pair r) (offset2insns L (r_offsets res) r c))
        else map_sum id (Pair (r_reg res)) (offset2insns L (r_offsets res) (r_reg res) c))
       (\<lambda>(r, c). Inr (reg_value r (Some (r_btf res)) (r_mem res),
          case r_mem res of
            Some member \<Rightarrow> if mem_BitfieldSize member \<noteq> 0 then bitfield2insns member r c
              else adjustRegisterBitwise L (r_btf res) r c
          | None \<Rightarrow> adjustRegisterBitwise L (r_btf res) r c))"

section \<open>Evaluation\<close>

definition eval_name :: "string \<Rightarrow> 't compiler \<Rightarrow> 't result" where
  "eval_name x c =
     (if x = ''NULL'' \<or> x = ''false'' then Inr (num_value 0, c)
      else if x = ''true'' then Inr (num_value 1, c)
      else case slices_Index (c_vars c) x of
        None \<Rightarrow> Inr (\<lparr>v_typ = EnumMaybe_value, v_reg = R0, v_num = 0, v_name = x, v_btf = None, v_mem = None\<rparr>, c)
      | Some i \<Rightarrow> bind_res (Alloc c) (\<lambda>(r, c). Inr (reg_value r (Some (c_btfs c ! i)) None, emitLoadArg i r c)))"

definition number_res :: "number_error + 'a \<Rightarrow> cc_error + 'a" where
  "number_res = map_sum ErrNumber id"

fun the_Number :: "expr \<Rightarrow> string option" where
  "the_Number (Number text) = Some text"
| "the_Number _ = None"

text \<open>Both functions return the code emitted so far with their result.\<close>

function (sequential) eval :: "'t btf_lib \<Rightarrow> expr \<Rightarrow> 't compiler \<Rightarrow> 't result"
  and accessMemory :: "'t btf_lib \<Rightarrow> expr \<Rightarrow> 't compiler \<Rightarrow> cc_error + ('t accessResult \<times> 't compiler)" where
  "eval L (Name x) c = eval_name x c"
| "eval L (Number text) c = bind_res (number_res (parseNumber text)) (\<lambda>n. Inr (num_value n, c))"
| "eval L (Unary f e) c = bind_res (eval L e c) (\<lambda>(v, c). cc_unary f L c v)"
| "eval L (Binary f l r) c = bind_res (eval L l c) (\<lambda>(lv, c). bind_res (eval L r c) (\<lambda>(rv, c).
     cc_binary f L c lv rv))"
| "eval L (Cond d l r) c = bind_res (eval L d c) (\<lambda>(dv, c). bind_res (eval L l c) (\<lambda>(lv, c).
     bind_res (eval L r c) (\<lambda>(rv, c). cc_cond L c dv lv rv)))"
| "eval L (Cast ty e) c = bind_res (eval L e c) (\<lambda>(v, c).
     if v_typ v = Num_value then castNumber L ty c (v\<lparr>v_typ := RegBtf_value\<rparr>) else cc_cast L ty c v)"
| "eval L (Paren e) c = eval L e c"
| "eval L Unsupported c = Inl ErrUnsupportedOp"
| "eval L e c = bind_res (accessMemory L e c) (\<lambda>(res, c). access_value L res c)"

| "accessMemory L (Name x) c = bind_res (access_name c x) (\<lambda>res. Inr (res, c))"
| "accessMemory L (Dot e x) c = bind_res (accessMemory L e c) (\<lambda>(res, c).
     bind_res (access_member L x res) (\<lambda>res. Inr (res, c)))"
| "accessMemory L (Arrow e x) c = bind_res (accessMemory L e c) (\<lambda>(res, c).
     bind_res (access_member L x res) (\<lambda>res. Inr (res, c)))"
| "accessMemory L (Addr e) c = bind_res (accessMemory L e c) (\<lambda>(res, c).
     bind_res (access_addr L res) (\<lambda>res. Inr (res, c)))"
| "accessMemory L (Indir e) c = bind_res (accessMemory L e c) (\<lambda>(res, c).
     bind_res (access_indir L res) (\<lambda>res. Inr (res, c)))"
| "accessMemory L (Index e i) c = bind_res (accessMemory L e c) (\<lambda>(res, c).
     if isMemberBitfield (r_mem res) then Inl ErrDisallowed
     else case the_Number i of None \<Rightarrow> Inl ErrDisallowed
       | Some text \<Rightarrow> bind_res (number_res (parseNumber text)) (\<lambda>n.
           bind_res (access_index L n res) (\<lambda>res. Inr (res, c))))"
| "accessMemory L (Cast ty e) c =
     (case the_Number e of
        Some text \<Rightarrow> bind_res (number_res (parseUnsigned text)) (\<lambda>n.
          bind_res (access_cast_number L ty n) (\<lambda>res. Inr (res, c)))
      | None \<Rightarrow> bind_res (accessMemory L e c) (\<lambda>(res, c).
          bind_res (access_cast L ty res) (\<lambda>res. Inr (res, c))))"
| "accessMemory L (Paren e) c = accessMemory L e c"
| "accessMemory L (Binary f l r) c =
     (case f of
        Op_Add \<Rightarrow>
          (case (the_Number l, the_Number r) of
             (Some text, _) \<Rightarrow> bind_res (number_res (parseNumber text)) (\<lambda>n.
               bind_res (accessMemory L r c) (\<lambda>(res, c). bind_res (access_add L True 1 n res) (\<lambda>res. Inr (res, c))))
           | (None, Some text) \<Rightarrow> bind_res (number_res (parseNumber text)) (\<lambda>n.
               bind_res (accessMemory L l c) (\<lambda>(res, c). bind_res (access_add L True 1 n res) (\<lambda>res. Inr (res, c))))
           | (None, None) \<Rightarrow> Inl ErrDisallowed)
      | Op_Sub \<Rightarrow>
          (case the_Number r of None \<Rightarrow> Inl ErrDisallowed
           | Some text \<Rightarrow> bind_res (number_res (parseNumber text)) (\<lambda>n.
               bind_res (accessMemory L l c) (\<lambda>(res, c). bind_res (access_add L False (- 1) n res) (\<lambda>res. Inr (res, c)))))
      | _ \<Rightarrow>
          (if f = Op_And \<or> f = Op_Or
           then bind_res (eval L l c) (\<lambda>(lv, c). bind_res (eval L r c) (\<lambda>(rv, c).
             bind_res (cc_binary f L c lv rv) (\<lambda>(v, c). bind_res (access_computed v) (\<lambda>res. Inr (res, c)))))
           else Inl ErrUnsupportedOp))"
| "accessMemory L e c = Inl ErrUnsupportedOp"
  by pat_completeness auto

termination
  by (relation "measure (\<lambda>x. case x of Inl (L, e, c) \<Rightarrow> 2 * size e + 1 | Inr (L, e, c) \<Rightarrow> 2 * size e)") auto

section \<open>Filters\<close>

fun supported_op :: "expr \<Rightarrow> bool" where
  "supported_op (Binary f l r) \<longleftrightarrow> f \<in> {Op_AndAnd, Op_EqEq, Op_Gt, Op_GtEq, Op_Lt, Op_LtEq, Op_NotEq, Op_OrOr}"
| "supported_op (Unary f e) \<longleftrightarrow> f = Op_Not"
| "supported_op _ \<longleftrightarrow> False"

text \<open>The exit label is the last instruction so far.\<close>

definition set_exit :: "'t compiler \<Rightarrow> 't compiler" where
  "set_exit c = (if c_labelExitUsed c
     then c\<lparr>c_insns := butlast (c_insns c) @ [last (c_insns c)\<lparr>ins_symbol := c_labelExit c\<rparr>]\<rparr> else c)"

definition cc_compile :: "'t btf_lib \<Rightarrow> expr \<Rightarrow> 't compiler \<Rightarrow> cc_error + 't compiler" where
  "cc_compile L e c =
     (if \<not> supported_op e then Inl ErrUnsupportedOp
      else bind_res (eval L e c) (\<lambda>(v, c).
        if v_typ v = Num_value then Inl ErrConstant
        else let c = set_exit c
             in Inr (if v_reg v \<noteq> R0 then emit [Mov_Reg R0 (v_reg v)] c else c)))"

definition CompileFilterExpr ::
  "'t btf_lib \<Rightarrow> (string \<times> 't) list \<Rightarrow> string \<Rightarrow> int \<Rightarrow> memory_mode \<Rightarrow> (s32 \<times> bool) option \<Rightarrow> expr \<Rightarrow>
     cc_error + instructions" where
  "CompileFilterExpr L params label reserved mode rdonly e =
     bind_res (newCompiler params label reserved mode rdonly) (\<lambda>c.
       let c = MarkUsed R9 (emit [Mov_Reg argsReg R1] c) in
       bind_res (cc_compile L e c) (\<lambda>c. Inr (c_insns (emit [Return] c))))"

end
