(* ===== verification/Cc_Code.thy ===== *)
theory Cc_Code
  imports Segments Cc_Eval Gen_Args
begin

text \<open>What the instructions behind each operator compute (\<^verbatim>\<open>internal/cc/eval.go\<close>).\<close>

section \<open>The operators in C\<close>

text \<open>
  All registers hold 64 bits, and comparisons are unsigned. Division and remainder by zero and too
  large shift counts are those of the machine.
\<close>

fun binop_val :: "binop \<Rightarrow> u64 \<Rightarrow> u64 \<Rightarrow> u64" where
  "binop_val Op_Add a b = a + b"
| "binop_val Op_And a b = a AND b"
| "binop_val Op_AndAnd a b = of_bool (a \<noteq> 0 \<and> b \<noteq> 0)"
| "binop_val Op_Div a b = (if b = 0 then 0 else a div b)"
| "binop_val Op_EqEq a b = of_bool (a = b)"
| "binop_val Op_Gt a b = of_bool (b < a)"
| "binop_val Op_GtEq a b = of_bool (b \<le> a)"
| "binop_val Op_Lsh a b = push_bit (unat b mod 64) a"
| "binop_val Op_Lt a b = of_bool (a < b)"
| "binop_val Op_LtEq a b = of_bool (a \<le> b)"
| "binop_val Op_Mod a b = (if b = 0 then a else a mod b)"
| "binop_val Op_Mul a b = a * b"
| "binop_val Op_NotEq a b = of_bool (a \<noteq> b)"
| "binop_val Op_Or a b = a OR b"
| "binop_val Op_OrOr a b = of_bool (a \<noteq> 0 \<or> b \<noteq> 0)"
| "binop_val Op_Rsh a b = drop_bit (unat b mod 64) a"
| "binop_val Op_Sub a b = a - b"
| "binop_val Op_Xor a b = a XOR b"

fun unop_val :: "unop \<Rightarrow> u64 \<Rightarrow> u64" where
  "unop_val Op_Minus a = - a"
| "unop_val Op_Not a = of_bool (a = 0)"
| "unop_val Op_Plus a = a"
| "unop_val Op_PreDec a = a - 1"
| "unop_val Op_PreInc a = a + 1"
| "unop_val Op_Twid a = NOT a"

text \<open>Adding to a pointer or an array counts elements.\<close>

definition elem_scale :: "'t btf_lib \<Rightarrow> 't option \<Rightarrow> u64" where
  "elem_scale L t = (if elem_size L t = 0 then 1 else of_nat (elem_size L t))"

definition binary_val :: "'t btf_lib \<Rightarrow> 't option \<Rightarrow> binop \<Rightarrow> u64 \<Rightarrow> u64 \<Rightarrow> u64" where
  "binary_val L t f a b = binop_val f a (if f = Op_Add \<or> f = Op_Sub then b * elem_scale L t else b)"

section \<open>Immediates\<close>

text \<open>A number below \<open>2\<^sup>3\<^sup>1\<close> is what the machine reads back from 32 bits.\<close>

lemma imm_small: "w < 0x80000000 \<Longrightarrow> scast (ucast (w :: u64) :: s32) = w"
proof (rule bit_word_eqI)
  fix n assume w: "w < 0x80000000" and n: "n < LENGTH(64)"
  have tb: "take_bit 31 (uint w) = uint w" using w by (simp add: take_bit_int_eq_self word_less_def)
  have h: "\<not> bit w k" if "31 \<le> k" for k
  proof
    assume "bit w k"
    then have "bit (uint w) k" using bit_imp_le_length [of w k] by (simp add: bit_uint_iff)
    then have "bit (take_bit 31 (uint w)) k" by (simp only: tb)
    with that show False by (simp add: bit_take_bit_iff)
  qed
  show "bit (scast (ucast w :: s32) :: u64) n = bit w n"
    using n h by (auto simp: bit_simps min_def)
qed


section \<open>Instructions\<close>

lemma set_reg_simps [simp]:
  "m_regs (set_reg r v m) s = (if s = r then Some v else m_regs m s)"
  "m_args (set_reg r v m) = m_args m" "m_buff (set_reg r v m) = m_buff m" "m_frame (set_reg r v m) = m_frame m"
  by (simp_all add: set_reg_def)

lemma computes_alu_imm:
  assumes "r \<notin> K" "m_regs m r = Some (Scalar a)" "w = alu_op f a (scast i)"
  shows "computes h label (map plain [Alu_Imm f r i]) K r m (Some w)"
  by (rule computes_block) (use assms in \<open>simp add: plain_def the_scalar_def\<close>)

lemma computes_alu_reg:
  assumes "r \<notin> K" "m_regs m r = Some (Scalar a)" "m_regs m s = Some (Scalar b)" "w = alu_op f a b"
  shows "computes h label (map plain [Alu_Reg f r s]) K r m (Some w)"
  by (rule computes_block) (use assms in \<open>simp add: plain_def the_scalar_def\<close>)

lemma computes_add_imm:
  assumes "r \<notin> K" "m_regs m r = Some (Scalar a)" "w = a + scast i"
  shows "computes h label (map plain [Add_Imm r i]) K r m (Some w)"
  by (rule computes_block) (use assms in \<open>simp add: plain_def the_scalar_def\<close>)

lemma computes_mov_imm:
  assumes "r \<notin> K" "w = scast i"
  shows "computes h label (map plain [Mov_Imm r i]) K r m (Some w)"
  by (rule computes_block) (use assms in \<open>simp add: plain_def\<close>)

lemma computes_neg:
  assumes "r \<notin> K" "m_regs m r = Some (Scalar a)" "w = - a"
  shows "computes h label (map plain [Neg_Reg r]) K r m (Some w)"
  by (rule computes_block) (use assms in \<open>simp add: plain_def the_scalar_def\<close>)

lemma computes_Nil: "m_regs m r = Some (Scalar a) \<Longrightarrow> w = a \<Longrightarrow> computes h label (map plain []) K r m (Some w)"
  by (rule computes_block) simp

text \<open>A register as a truth value: the code behind a jump over the true case.\<close>

lemma reg2bool_true:
  assumes "code_at prog pos (map plain [Mov_Imm r 1, Ja 1, Alu_Reg ALU_Xor r r])"
  shows "leads h subs prog pos m (pos + 3) (set_reg r (Scalar 1) m)"
proof -
  have "leads h subs prog pos m (Suc pos) (set_reg r (Scalar 1) m)"
    by (rule leads_Next) (use assms in \<open>simp_all add: plain_def\<close>)
  moreover have "leads h subs prog (Suc pos) (set_reg r (Scalar 1) m) (pos + 3) (set_reg r (Scalar 1) m)"
    by (rule leads_Jump [where off = 1]) (use assms in \<open>simp_all add: plain_def jump_to_def\<close>)
  ultimately show ?thesis by (rule leads_trans)
qed

lemma reg2bool_false:
  assumes "code_at prog pos (map plain [Mov_Imm r 1, Ja 1, Alu_Reg ALU_Xor r r])" "m_regs m r = Some (Scalar a)"
  shows "leads h subs prog (pos + 2) m (pos + 3) (set_reg r (Scalar 0) m)"
  using leads_Next [of "pos + 2" prog h subs m "set_reg r (Scalar 0) m"] assms
  by (simp add: plain_def the_scalar_def numeral_3_eq_3)

abbreviation bool_code :: "reg \<Rightarrow> opcode list" where
  "bool_code r \<equiv> [Mov_Imm r 1, Ja 1, Alu_Reg ALU_Xor r r]"

lemma computes_jump_bool:
  assumes r: "r \<notin> K" "m_regs m r = Some (Scalar a)"
    and j: "\<And>subs. step h subs j [] m = (if b then Jump 2 m else Next m)" and w: "w = of_bool (\<not> b)"
  shows "computes h label (map plain (j # bool_code r)) K r m (Some w)"
proof (rule computes_SomeI)
  fix subs prog pos
  assume at: "code_at prog pos (map plain (j # bool_code r))"
  then have at': "code_at prog (Suc pos) (map plain (bool_code r))" by simp
  show "\<exists>m'. leads h subs prog pos m (pos + length (map plain (j # bool_code r))) m'
      \<and> kept K m m' \<and> m_regs m' r = Some (Scalar w)"
  proof (cases b)
    case True
    have "leads h subs prog pos m (Suc pos + 2) m"
      by (rule leads_Jump [where off = 2]) (use at j True in \<open>simp_all add: plain_def jump_to_def\<close>)
    from leads_trans [OF this reg2bool_false [OF at' r(2)]] show ?thesis
      using r w True by (intro exI [of _ "set_reg r (Scalar 0) m"]) (simp add: numeral_eq_Suc)
  next
    case False
    have "leads h subs prog pos m (Suc pos) m"
      by (rule leads_Next) (use at j False in \<open>simp_all add: plain_def\<close>)
    from leads_trans [OF this reg2bool_true [OF at']] show ?thesis
      using r w False by (intro exI [of _ "set_reg r (Scalar 1) m"]) (simp add: numeral_eq_Suc)
  qed
qed

lemma computes_test:
  assumes "r \<notin> K" "m_regs m r = Some (Scalar a)" "w = of_bool (\<not> cmp_op f a (scast i))"
  shows "computes h label (map plain (Jmp_Imm f r i 2 # bool_code r)) K r m (Some w)"
  by (rule computes_jump_bool [where b = "cmp_op f a (scast i)"]) (use assms in \<open>simp_all add: the_scalar_def\<close>)

lemma computes_test_reg:
  assumes "r \<notin> K" "m_regs m r = Some (Scalar a)" "m_regs m s = Some (Scalar b)" "w = of_bool (\<not> cmp_op f a b)"
  shows "computes h label (map plain (Jmp_Reg f r s 2 # bool_code r)) K r m (Some w)"
  by (rule computes_jump_bool [where b = "cmp_op f a b"]) (use assms in \<open>simp_all add: the_scalar_def\<close>)

text \<open>The two jumps of \<open>&&\<close> and \<open>||\<close>.\<close>

lemma computes_andand:
  assumes r: "r \<notin> K" "m_regs m r = Some (Scalar a)" and s: "m_regs m s = Some (Scalar b)"
    and w: "w = of_bool (a \<noteq> 0 \<and> b \<noteq> 0)"
  shows "computes h label (map plain (Jmp_Imm CMP_Eq r 0 3 # Jmp_Imm CMP_Eq s 0 2 # bool_code r)) K r m (Some w)"
    (is "computes h label ?code K r m _")
proof (rule computes_SomeI)
  fix subs prog pos
  assume at: "code_at prog pos ?code"
  then have at': "code_at prog (Suc (Suc pos)) (map plain (bool_code r))" by simp
  note false = reg2bool_false [OF at' r(2), of h subs]
  have n1: "leads h subs prog pos m (Suc pos) m" if "a \<noteq> 0"
    by (rule leads_Next) (use at r that in \<open>simp_all add: plain_def the_scalar_def\<close>)
  consider "a = 0" | "a \<noteq> 0" "b = 0" | "a \<noteq> 0" "b \<noteq> 0" by blast
  then have "leads h subs prog pos m (pos + 5) (set_reg r (Scalar w) m)"
  proof cases
    case 1
    have "leads h subs prog pos m (Suc (Suc pos) + 2) m"
      by (rule leads_Jump [where off = 3]) (use at r 1 in \<open>simp_all add: plain_def the_scalar_def jump_to_def\<close>)
    from leads_trans [OF this false] w 1 show ?thesis by (simp add: numeral_eq_Suc)
  next
    case 2
    have "leads h subs prog (Suc pos) m (Suc (Suc pos) + 2) m"
      by (rule leads_Jump [where off = 2]) (use at s 2 in \<open>simp_all add: plain_def the_scalar_def jump_to_def\<close>)
    from leads_trans [OF n1 leads_trans [OF this false]] w 2 show ?thesis by (simp add: numeral_eq_Suc)
  next
    case 3
    have "leads h subs prog (Suc pos) m (Suc (Suc pos)) m"
      by (rule leads_Next) (use at s 3 in \<open>simp_all add: plain_def the_scalar_def\<close>)
    from leads_trans [OF n1 leads_trans [OF this reg2bool_true [OF at']]] w 3 show ?thesis by (simp add: numeral_eq_Suc)
  qed
  with r show "\<exists>m'. leads h subs prog pos m (pos + length ?code) m' \<and> kept K m m' \<and> m_regs m' r = Some (Scalar w)"
    by (intro exI [of _ "set_reg r (Scalar w) m"]) (simp add: numeral_eq_Suc)
qed

lemma computes_oror:
  assumes r: "r \<notin> K" "m_regs m r = Some (Scalar a)" and s: "m_regs m s = Some (Scalar b)"
    and w: "w = of_bool (a \<noteq> 0 \<or> b \<noteq> 0)"
  shows "computes h label (map plain [Jmp_Imm CMP_NE r 0 3, Jmp_Imm CMP_NE s 0 2, Alu_Reg ALU_Xor r r, Ja 1, Mov_Imm r 1])
    K r m (Some w)" (is "computes h label ?code K r m _")
proof (rule computes_SomeI)
  fix subs prog pos
  assume at: "code_at prog pos ?code"
  let ?p4 = "Suc (Suc (Suc (Suc pos)))"
  have mov: "leads h subs prog ?p4 m (Suc ?p4) (set_reg r (Scalar 1) m)"
    by (rule leads_Next) (use at in \<open>simp_all add: plain_def\<close>)
  have n1: "leads h subs prog pos m (Suc pos) m" if "a = 0"
    by (rule leads_Next) (use at r that in \<open>simp_all add: plain_def the_scalar_def\<close>)
  consider "a \<noteq> 0" | "a = 0" "b \<noteq> 0" | "a = 0" "b = 0" by blast
  then have "leads h subs prog pos m (pos + 5) (set_reg r (Scalar w) m)"
  proof cases
    case 1
    have "leads h subs prog pos m ?p4 m"
      by (rule leads_Jump [where off = 3]) (use at r 1 in \<open>simp_all add: plain_def the_scalar_def jump_to_def\<close>)
    from leads_trans [OF this mov] w 1 show ?thesis by (simp add: numeral_eq_Suc)
  next
    case 2
    have "leads h subs prog (Suc pos) m ?p4 m"
      by (rule leads_Jump [where off = 2]) (use at s 2 in \<open>simp_all add: plain_def the_scalar_def jump_to_def\<close>)
    from leads_trans [OF n1 leads_trans [OF this mov]] w 2 show ?thesis by (simp add: numeral_eq_Suc)
  next
    case 3
    let ?m = "set_reg r (Scalar 0) m"
    have "leads h subs prog (Suc pos) m (Suc (Suc pos)) m"
      by (rule leads_Next) (use at s 3 in \<open>simp_all add: plain_def the_scalar_def\<close>)
    moreover have "leads h subs prog (Suc (Suc pos)) m (Suc (Suc (Suc pos))) ?m"
      by (rule leads_Next) (use at r in \<open>simp_all add: plain_def the_scalar_def\<close>)
    moreover have "leads h subs prog (Suc (Suc (Suc pos))) ?m (Suc ?p4) ?m"
      by (rule leads_Jump [where off = 1]) (use at in \<open>simp_all add: plain_def jump_to_def\<close>)
    ultimately show ?thesis using n1 w 3 by (auto simp: numeral_eq_Suc intro: leads_trans)
  qed
  with r show "\<exists>m'. leads h subs prog pos m (pos + length ?code) m' \<and> kept K m m' \<and> m_regs m' r = Some (Scalar w)"
    by (intro exI [of _ "set_reg r (Scalar w) m"]) (simp add: numeral_eq_Suc)
qed

text \<open>A shift or a remainder that a jump over it leaves out.\<close>

lemma computes_unless:
  assumes r: "r \<notin> K" "m_regs m r = Some (Scalar a)" and s: "m_regs m s = Some (Scalar b)"
    and w: "w = (if cmp_op f b 0 then a else alu_op g a b)"
  shows "computes h label (map plain [Jmp_Imm f s 0 1, Alu_Reg g r s]) K r m (Some w)"
proof (rule computes_SomeI)
  fix subs prog pos
  assume at: "code_at prog pos (map plain [Jmp_Imm f s 0 1, Alu_Reg g r s])"
  show "\<exists>m'. leads h subs prog pos m (pos + length (map plain [Jmp_Imm f s 0 1, Alu_Reg g r s])) m' \<and> kept K m m' \<and>
      m_regs m' r = Some (Scalar w)"
  proof (cases "cmp_op f b 0")
    case True
    have "leads h subs prog pos m (pos + 2) m"
      by (rule leads_Jump [where off = 1]) (use at s True in \<open>simp_all add: plain_def the_scalar_def jump_to_def\<close>)
    with r w True show ?thesis by (intro exI [of _ m]) (simp add: numeral_eq_Suc)
  next
    case False
    have "leads h subs prog pos m (Suc pos) m"
      by (rule leads_Next) (use at s False in \<open>simp_all add: plain_def the_scalar_def\<close>)
    moreover have "leads h subs prog (Suc pos) m (Suc (Suc pos)) (set_reg r (Scalar w) m)"
      by (rule leads_Next) (use at r s w False in \<open>simp_all add: plain_def the_scalar_def\<close>)
    ultimately show ?thesis using r by (intro exI [of _ "set_reg r (Scalar w) m"]) (auto intro: leads_trans)
  qed
qed

section \<open>Operators on two registers\<close>

definition reg_like :: "'t evalValue \<Rightarrow> reg \<Rightarrow> 't option \<Rightarrow> 't member option \<Rightarrow> bool" where
  "reg_like v r t mem \<longleftrightarrow> v_typ v = RegBtf_value \<and> v_reg v = r \<and> v_btf v = t \<and> v_mem v = mem"

lemma reg_like_reg_value [simp]: "reg_like (reg_value r t mem) r t mem"
  by (simp add: reg_like_def reg_value_def)

lemma preHandle_regs:
  assumes "preHandleBinaryOp L a b = Inr (a', b')" "reg_like a r t mem" "reg_like b s u bem"
  shows "reg_like a' r t mem" "reg_like b' s u bem"
  using assms by (auto simp: preHandleBinaryOp_def reg_like_def Let_def split: if_splits)

lemma preHandle_reg_num:
  assumes "preHandleBinaryOp L a b = Inr (a', b')" "reg_like a r t mem" "v_typ b = Num_value"
  shows "reg_like a' r t mem" "v_typ b' = Num_value" "v_num b' = adjustNum L (v_num b) (reg_value r t mem)"
  using assms by (auto simp: preHandleBinaryOp_def reg_like_def reg_value_def adjustNum_def Let_def split: if_splits)

text \<open>What the library says of sizes.\<close>

definition lib_ok :: "'t btf_lib \<Rightarrow> bool" where
  "lib_ok L \<longleftrightarrow> (\<forall>t n. size_of L t = Some n \<longrightarrow> n < 2 ^ 31) \<and> (\<forall>t. kind_of L t = Void_kind \<longrightarrow> vsize L (Some t) = 0)"

lemma elem_size_small: "lib_ok L \<Longrightarrow> elem_size L t < 2 ^ 31"
  by (auto simp: lib_ok_def elem_size_def vsize_def split: kind.splits option.splits)

lemma scast_of_nat_small: "n < 2 ^ 31 \<Longrightarrow> scast (of_nat n :: s32) = (of_nat n :: u64)"
  by (simp add: scast_eq sint_of_nat_small)

text \<open>The state after an operator on two registers: its code is emitted and the right one is free.\<close>

definition after_regs :: "'t compiler \<Rightarrow> opcode list \<Rightarrow> reg \<Rightarrow> 't compiler" where
  "after_regs c code s = Free s (emit code c)"

lemma emit_emit [simp]: "emit ys (emit xs c) = emit (xs @ ys) c"
  by (simp add: emit_def emit_insns_def)

definition regs_code :: "binop \<Rightarrow> nat \<Rightarrow> reg \<Rightarrow> reg \<Rightarrow> opcode list" where
  "regs_code f n r s =
     (let scale = (if n \<noteq> 0 then [Alu_Imm ALU_Mul s (of_nat n)] else []) in
      case f of
        Op_Add \<Rightarrow> scale @ [Alu_Reg ALU_Add r s]
      | Op_Sub \<Rightarrow> scale @ [Alu_Reg ALU_Sub r s]
      | Op_Mul \<Rightarrow> [Alu_Reg ALU_Mul r s]
      | Op_And \<Rightarrow> [Alu_Reg ALU_And r s]
      | Op_Or \<Rightarrow> [Alu_Reg ALU_Or r s]
      | Op_Xor \<Rightarrow> [Alu_Reg ALU_Xor r s]
      | Op_Rsh \<Rightarrow> [Alu_Reg ALU_RSh r s]
      | Op_Lsh \<Rightarrow> [Jmp_Imm CMP_LE s 0 1, Alu_Reg ALU_LSh r s]
      | Op_Mod \<Rightarrow> [Jmp_Imm CMP_Eq s 0 1, Alu_Reg ALU_Mod r s]
      | Op_AndAnd \<Rightarrow> Jmp_Imm CMP_Eq r 0 3 # Jmp_Imm CMP_Eq s 0 2 # bool_code r
      | Op_OrOr \<Rightarrow> [Jmp_Imm CMP_NE r 0 3, Jmp_Imm CMP_NE s 0 2, Alu_Reg ALU_Xor r r, Ja 1, Mov_Imm r 1]
      | Op_EqEq \<Rightarrow> Jmp_Reg CMP_NE r s 2 # bool_code r
      | Op_NotEq \<Rightarrow> Jmp_Reg CMP_Eq r s 2 # bool_code r
      | Op_Gt \<Rightarrow> Jmp_Reg CMP_LE r s 2 # bool_code r
      | Op_GtEq \<Rightarrow> Jmp_Reg CMP_LT r s 2 # bool_code r
      | Op_Lt \<Rightarrow> Jmp_Reg CMP_GE r s 2 # bool_code r
      | Op_LtEq \<Rightarrow> Jmp_Reg CMP_GT r s 2 # bool_code r
      | Op_Div \<Rightarrow> [Jmp_Imm CMP_Eq s 0 2, Mov_Imm r 0, Ja 1, Alu_Reg ALU_Div r s])"

lemmas operator_defs = cc_add_def cc_sub_def cc_mul_def cc_and_def cc_or_def cc_xor_def cc_lsh_def cc_rsh_def cc_mod_def
  cc_div_def cc_andand_def cc_oror_def cc_eqeq_def cc_noteq_def cc_gt_def cc_gteq_def cc_lt_def cc_lteq_def compare_op_def

lemma cc_binary_regs:
  assumes "cc_binary f L c lv rv = Inr (v, c')" "reg_like lv r t mem" "reg_like rv s u bem"
  shows "reg_like v r t mem \<and> c' = after_regs c (regs_code f (elem_size L t) r s) s"
proof -
  from assms(1) obtain lv' rv' where pre: "preHandleBinaryOp L lv rv = Inr (lv', rv')"
    by (cases f) (auto simp: operator_defs by_operands_def by_nonzero_def bind_res_Inr)
  note like = preHandle_regs [OF pre assms(2,3)]
  show ?thesis
    using assms(1) like
    by (cases f)
      (auto simp: operator_defs by_operands_def by_nonzero_def pre operand_cases_def reg_like_def regs_code_def after_regs_def
        alu_regs_def scale_reg_def JmpOff_def JmpReg_def emitReg2bool_def Let_def)
qed

lemma computes_regs_code:
  assumes f: "f \<noteq> Op_Div" and n: "n = elem_size L t" "lib_ok L"
    and r: "r \<notin> K" "m_regs m r = Some (Scalar a)" and s: "s \<notin> K" "m_regs m s = Some (Scalar b)" "r \<noteq> s"
  shows "computes h label (map plain (regs_code f n r s)) K r m (Some (binary_val L t f a b))"
proof -
  have sc: "scast (of_nat n :: s32) = (of_nat n :: u64)" using n elem_size_small scast_of_nat_small by blast
  have scaled: "computes h label (map plain (regs_code f n r s)) K r m (Some (binary_val L t f a b))"
    if "f = Op_Add \<or> f = Op_Sub"
    by (rule computes_block)
      (use that r s sc n(1) in \<open>auto simp: regs_code_def binary_val_def elem_scale_def plain_def the_scalar_def Let_def\<close>)
  note code = computes_alu_reg [OF r s(2)] computes_unless [OF r s(2)] computes_andand [OF r s(2)] computes_oror [OF r s(2)]
    computes_test_reg [OF r s(2)]
  show ?thesis
    by (cases f; (rule scaled, blast)?; (use f in blast)?; simp only: regs_code_def Let_def binop.case binary_val_def
        binop.distinct simp_thms if_False; rule code; auto simp: not_le not_less)
qed

section \<open>Operators on a register and a number\<close>

text \<open>
  The numbers an operator handles as C does: they fit the operand's type and 31 bits, with the
  scale of a pointer included; and for some operators zero, or everything but zero, is left out.
\<close>

definition const_ok :: "binop \<Rightarrow> 't btf_lib \<Rightarrow> 't option \<Rightarrow> 't member option \<Rightarrow> s64 \<Rightarrow> bool" where
  "const_ok f L t mem n \<longleftrightarrow> n < 0x80000000 \<and> adjustNum L n (reg_value R0 t mem) = n \<and>
     (if f \<in> {Op_Mul, Op_Or, Op_Xor, Op_AndAnd, Op_Mod, Op_Div} then n \<noteq> 0
      else if f = Op_OrOr then n = 0
      else if f \<in> {Op_Lsh, Op_Rsh} then n < 64
      else if f \<in> {Op_Add, Op_Sub} then unat n * max 1 (elem_size L t) < 2 ^ 31
      else True)"

definition num_code :: "binop \<Rightarrow> nat \<Rightarrow> reg \<Rightarrow> s64 \<Rightarrow> opcode list" where
  "num_code f sz r n =
     (let scaled = ucast n * of_nat (max 1 sz) in
      case f of
        Op_Add \<Rightarrow> if n = 0 then [] else [Add_Imm r scaled]
      | Op_Sub \<Rightarrow> if n = 0 then [] else [Alu_Imm ALU_Sub r scaled]
      | Op_Mul \<Rightarrow> if n = 1 then [] else [Alu_Imm ALU_Mul r (ucast n)]
      | Op_And \<Rightarrow> [Alu_Imm ALU_And r (ucast n)]
      | Op_Or \<Rightarrow> [Alu_Imm ALU_Or r (ucast n)]
      | Op_Xor \<Rightarrow> [Alu_Imm ALU_Xor r (ucast n)]
      | Op_Rsh \<Rightarrow> if n = 0 then [] else [Alu_Imm ALU_RSh r (ucast n)]
      | Op_Lsh \<Rightarrow> if n = 0 then [] else [Alu_Imm ALU_LSh r (ucast n)]
      | Op_Mod \<Rightarrow> if n = 1 then [Mov_Imm r 0] else [Alu_Imm ALU_Mod r (ucast n)]
      | Op_Div \<Rightarrow> [Alu_Imm ALU_Div r (ucast n)]
      | Op_AndAnd \<Rightarrow> Jmp_Imm CMP_Eq r 0 2 # bool_code r
      | Op_OrOr \<Rightarrow> Jmp_Imm CMP_Eq r 0 2 # bool_code r
      | Op_EqEq \<Rightarrow> Jmp_Imm CMP_NE r (ucast n) 2 # bool_code r
      | Op_NotEq \<Rightarrow> Jmp_Imm CMP_Eq r (ucast n) 2 # bool_code r
      | Op_Gt \<Rightarrow> Jmp_Imm CMP_LE r (ucast n) 2 # bool_code r
      | Op_GtEq \<Rightarrow> Jmp_Imm CMP_LT r (ucast n) 2 # bool_code r
      | Op_Lt \<Rightarrow> Jmp_Imm CMP_GE r (ucast n) 2 # bool_code r
      | Op_LtEq \<Rightarrow> Jmp_Imm CMP_GT r (ucast n) 2 # bool_code r)"

lemma emit_Nil [simp]: "emit [] c = c"
  by (simp add: emit_def emit_insns_def)

lemma sint_const_small: "n < 0x80000000 \<Longrightarrow> \<not> sint (n :: s64) < 0"
proof -
  assume n: "n < 0x80000000"
  then have "uint n < 2 ^ 63" by (simp add: word_less_def)
  then have "sint n = uint n" unfolding sint_uint by (intro signed_take_bit_int_eq_self) (simp_all add: order.trans [of _ 0])
  then show ?thesis by simp
qed

lemma add_num_code:
  assumes "add_num L c v n = Inr (v', c')" "lib_ok L"
  shows "v' = v \<and> c' = emit (if n = 0 then [] else [Add_Imm (v_reg v) (ucast n * of_nat (max 1 (elem_size L (v_btf v))))]) c"
  using assms
  by (auto simp: add_num_def elem_size_def lib_ok_def Let_def max_def split: if_splits kind.splits)

lemma cc_binary_num:
  assumes "cc_binary f L c lv rv = Inr (v, c')" "reg_like lv r t mem" "v_typ rv = Num_value" "v_num rv = n"
    and n: "const_ok f L t mem n" and L: "lib_ok L"
  shows "reg_like v r t mem \<and> c' = emit (num_code f (elem_size L t) r n) c"
proof -
  from assms(1) obtain lv' rv' where pre: "preHandleBinaryOp L lv rv = Inr (lv', rv')"
    by (cases f) (auto simp: operator_defs by_operands_def by_nonzero_def bind_res_Inr)
  from preHandle_reg_num [OF pre assms(2,3)] n assms(4)
  have lv': "reg_like lv' r t mem" and rv': "v_typ rv' = Num_value" "v_num rv' = n"
    by (auto simp: const_ok_def adjustNum_def reg_value_def)
  have n0: "\<not> sint n < 0" using n sint_const_small by (simp add: const_ok_def)
  show ?thesis
  proof (cases "f = Op_Add")
    case True
    with assms(1) have "add_num L c lv' n = Inr (v, c')"
      using lv' rv' by (simp add: cc_add_def by_operands_def pre operand_cases_def reg_like_def)
    from add_num_code [OF this L] lv' True show ?thesis by (simp add: reg_like_def num_code_def)
  next
    case False
    then show ?thesis
      using assms(1) lv' rv' n0 n
      by (cases f)
        (auto simp: operator_defs by_operands_def by_nonzero_def pre operand_cases_def reg_like_def num_code_def const_ok_def
          alu_num_def test_num_def mul_num_def num_or_zero_def oror_num_def shift_num_def JmpOff_def emitReg2bool_def
          elem_size_def Let_def max_def split: if_splits kind.splits)
  qed
qed

lemma scast_scaled: "unat n * k < 2 ^ 31 \<Longrightarrow> scast (ucast (n :: s64) * of_nat k :: s32) = (n * of_nat k :: u64)"
proof -
  assume k: "unat n * k < 2 ^ 31"
  have "(ucast n :: s32) = of_nat (unat n)" by simp
  then have "(ucast n * of_nat k :: s32) = of_nat (unat n * k)" by simp
  with k show ?thesis by (simp only: scast_of_nat_small) simp
qed

lemma computes_num_code:
  assumes n: "const_ok f L t mem n" and r: "r \<notin> K" "m_regs m r = Some (Scalar a)"
  shows "computes h label (map plain (num_code f (elem_size L t) r n)) K r m (Some (binary_val L t f a n))"
proof -
  have i: "scast (ucast n :: s32) = n" using n imm_small by (simp add: const_ok_def)
  have scaled: "computes h label (map plain (num_code f (elem_size L t) r n)) K r m (Some (binary_val L t f a n))"
    if "f = Op_Add \<or> f = Op_Sub"
  proof -
    have "scast (ucast n * of_nat (max 1 (elem_size L t)) :: s32) = n * elem_scale L t"
      using that n scast_scaled [of n "max 1 (elem_size L t)"] by (auto simp: const_ok_def elem_scale_def max_def)
    then show ?thesis
      using that r
      by (auto simp: num_code_def binary_val_def Let_def intro!: computes_block simp: plain_def the_scalar_def)
  qed
  note code = computes_Nil [OF r(2)] computes_mov_imm [OF r(1)] computes_alu_imm [OF r] computes_test [OF r]
  show ?thesis
    by (cases f; (rule scaled, blast)?; simp only: num_code_def Let_def binop.case binary_val_def binop.distinct simp_thms
        if_False; (split if_split, intro conjI impI)?; rule code; use i n in \<open>auto simp: not_le not_less const_ok_def\<close>)
qed

section \<open>Operators with one operand\<close>

fun unop_code :: "unop \<Rightarrow> reg \<Rightarrow> opcode list" where
  "unop_code Op_Minus r = [Neg_Reg r]"
| "unop_code Op_Not r = Jmp_Imm CMP_NE r 0 2 # bool_code r"
| "unop_code Op_Plus r = []"
| "unop_code Op_PreDec r = [Alu_Imm ALU_Sub r 1]"
| "unop_code Op_PreInc r = [Add_Imm r 1]"
| "unop_code Op_Twid r = [Alu_Imm ALU_Xor r (- 1)]"

lemma cc_unary_reg:
  assumes "cc_unary f L c v = Inr (v', c')" "reg_like v r t mem"
  shows "v' = v \<and> c' = emit (unop_code f r) c"
  using assms by (cases f) (auto simp: by_operand_def reg_like_def JmpOff_def emitReg2bool_def split: if_splits)

lemma computes_unop_code:
  assumes r: "r \<notin> K" "m_regs m r = Some (Scalar a)"
  shows "computes h label (map plain (unop_code f r)) K r m (Some (unop_val f a))"
proof -
  note code = computes_Nil [OF r(2)] computes_alu_imm [OF r] computes_test [OF r] computes_neg [OF r] computes_add_imm [OF r]
  show ?thesis
    by (cases f; simp only: unop_code.simps unop_val.simps; rule code; simp)
qed

end
