(* ===== verification/Cc_Path.thy ===== *)
theory Cc_Path
  imports Cc_Code
begin

text \<open>
  The paths of member accesses: what they mean in C, that the steps the compiler finds mean the same, and
  what the code for the steps reads.
\<close>

section \<open>Paths in C\<close>

text \<open>The type of a path, and the member it names when it may be a bit field.\<close>

fun ctype :: "'t btf_lib \<Rightarrow> 't compiler \<Rightarrow> expr \<Rightarrow> 't option" where
  "ctype L c (Name x) = map_option ((!) (c_btfs c)) (slices_Index (c_vars c) x)"
| "ctype L c (Dot e x) = Option.bind (ctype L c e) (\<lambda>t. map_option mem_Type
     (member_of L (case kind_of L t of Pointer_kind u \<Rightarrow> u | _ \<Rightarrow> t) x))"
| "ctype L c (Arrow e x) = Option.bind (ctype L c e) (\<lambda>t. map_option mem_Type
     (member_of L (case kind_of L t of Pointer_kind u \<Rightarrow> u | _ \<Rightarrow> t) x))"
| "ctype L c (Index e i) = Option.bind (ctype L c e) (\<lambda>t. case kind_of L t of
     Pointer_kind u \<Rightarrow> Some u | Array_kind u \<Rightarrow> Some u | _ \<Rightarrow> None)"
| "ctype L c (Indir e) = Option.bind (ctype L c e) (\<lambda>t. case kind_of L t of Pointer_kind u \<Rightarrow> Some u | _ \<Rightarrow> None)"
| "ctype L c (Addr e) = map_option (pointer_to L) (ctype L c e)"
| "ctype L c (Cast ty e) = (case cc2btf L ty of Inl _ \<Rightarrow> None | Inr t \<Rightarrow> Some t)"
| "ctype L c (Paren e) = ctype L c e"
| "ctype L c (Binary f l r) = (if f = Op_Add \<and> the_Number l \<noteq> None then ctype L c r else ctype L c l)"
| "ctype L c _ = None"

definition is_array :: "'t btf_lib \<Rightarrow> 't \<Rightarrow> bool" where
  "is_array L t = (case kind_of L t of Array_kind _ \<Rightarrow> True | _ \<Rightarrow> False)"

definition is_pointer :: "'t btf_lib \<Rightarrow> 't \<Rightarrow> bool" where
  "is_pointer L t = (case kind_of L t of Pointer_kind _ \<Rightarrow> True | _ \<Rightarrow> False)"

definition number_of :: "expr \<Rightarrow> s64 option" where
  "number_of e = Option.bind (the_Number e) (\<lambda>text. case parseNumber text of Inl _ \<Rightarrow> None | Inr n \<Rightarrow> Some n)"

fun cmember :: "'t btf_lib \<Rightarrow> 't compiler \<Rightarrow> expr \<Rightarrow> 't member option" where
  "cmember L c (Dot e x) = Option.bind (ctype L c e) (\<lambda>t. Option.bind
     (member_of L (case kind_of L t of Pointer_kind u \<Rightarrow> u | _ \<Rightarrow> t) x)
     (\<lambda>b. if is_array L (mem_Type b) then None else Some b))"
| "cmember L c (Arrow e x) = Option.bind (ctype L c e) (\<lambda>t. Option.bind
     (member_of L (case kind_of L t of Pointer_kind u \<Rightarrow> u | _ \<Rightarrow> t) x)
     (\<lambda>b. if is_array L (mem_Type b) then None else Some b))"
| "cmember L c (Paren e) = cmember L c e"
| "cmember L c (Binary f l r) =
     (if f = Op_Add then
        (if the_Number l \<noteq> None then if number_of l = Some 0 then cmember L c r else None
         else if number_of r = Some 0 then cmember L c l else None)
      else None)"
| "cmember L c _ = None"

text \<open>
  A path denotes a place in memory or a value; of a value it is known whether it was read from memory. A
  place is read where its value is needed, and an array stands for its address. A pointer that was
  read and is null is not followed: the path has no meaning then.
\<close>

datatype cval = Place u64 | Value bool u64

definition rvalue :: "helpers \<Rightarrow> 't btf_lib \<Rightarrow> 't \<Rightarrow> cval \<Rightarrow> bool \<times> u64" where
  "rvalue h L t v = (case v of
     Place a \<Rightarrow> if is_array L t then (False, a) else (True, probe_word h a 8)
   | Value loaded w \<Rightarrow> (loaded, w))"

definition follow :: "bool \<times> u64 \<Rightarrow> u64 option" where
  "follow = (\<lambda>(loaded, w). if loaded \<and> w = 0 then None else Some w)"

definition pointer_value :: "helpers \<Rightarrow> 't btf_lib \<Rightarrow> 't option \<Rightarrow> cval option \<Rightarrow> u64 option" where
  "pointer_value h L t v = Option.bind v (\<lambda>v. Option.bind t (\<lambda>t. follow (rvalue h L t v)))"

definition elem_bytes :: "'t btf_lib \<Rightarrow> 't option \<Rightarrow> u64" where
  "elem_bytes L t = (case vkind L t of
     Pointer_kind u \<Rightarrow> if kind_of L u = Void_kind then 1 else of_nat (vsize L (Some u))
   | Array_kind u \<Rightarrow> of_nat (vsize L (Some u)) | _ \<Rightarrow> 0)"

definition member_bytes :: "'t btf_lib \<Rightarrow> 't option \<Rightarrow> string \<Rightarrow> u64" where
  "member_bytes L t x = (case t of None \<Rightarrow> 0 | Some t \<Rightarrow>
     (case member_offset L (case kind_of L t of Pointer_kind u \<Rightarrow> u | _ \<Rightarrow> t) x of None \<Rightarrow> 0 | Some off \<Rightarrow> ucast off))"

definition member_place :: "helpers \<Rightarrow> 't btf_lib \<Rightarrow> 't option \<Rightarrow> string \<Rightarrow> cval option \<Rightarrow> cval option" where
  "member_place h L t x v =
     (if (case t of None \<Rightarrow> False | Some t \<Rightarrow> is_pointer L t)
      then map_option (\<lambda>p. Place (p + member_bytes L t x)) (pointer_value h L t v)
      else Option.bind v (\<lambda>v. case v of Place a \<Rightarrow> Some (Place (a + member_bytes L t x)) | _ \<Rightarrow> None))"

fun csem :: "helpers \<Rightarrow> 't btf_lib \<Rightarrow> 't compiler \<Rightarrow> u64 list \<Rightarrow> expr \<Rightarrow> cval option" where
  "csem h L c args (Name x) = map_option (\<lambda>i. Value False (args ! i)) (slices_Index (c_vars c) x)"
| "csem h L c args (Dot e x) = member_place h L (ctype L c e) x (csem h L c args e)"
| "csem h L c args (Arrow e x) = member_place h L (ctype L c e) x (csem h L c args e)"
| "csem h L c args (Index e i) = Option.bind (number_of i) (\<lambda>n.
     map_option (\<lambda>p. Place (p + n * elem_bytes L (ctype L c e))) (pointer_value h L (ctype L c e) (csem h L c args e)))"
| "csem h L c args (Indir e) = map_option Place (pointer_value h L (ctype L c e) (csem h L c args e))"
| "csem h L c args (Addr e) = Option.bind (csem h L c args e) (\<lambda>v. case v of Place a \<Rightarrow> Some (Value False a) | _ \<Rightarrow> None)"
| "csem h L c args (Cast ty e) = Option.bind (csem h L c args e) (\<lambda>v.
     map_option (\<lambda>t. case rvalue h L t v of (loaded, w) \<Rightarrow> Value loaded w) (ctype L c e))"
| "csem h L c args (Paren e) = csem h L c args e"
| "csem h L c args (Binary f l r) =
     (case (if f = Op_Add \<and> the_Number l \<noteq> None then (number_of l, r) else (number_of r, l)) of (n, e) \<Rightarrow>
        Option.bind n (\<lambda>n.
          let v = (if f = Op_Add \<and> the_Number l \<noteq> None then csem h L c args r else csem h L c args l) in
          if f = Op_Add \<and> n = 0 then v
          else map_option (\<lambda>p. Value False (p + (if f = Op_Sub then - (n * elem_bytes L (ctype L c e))
              else n * elem_bytes L (ctype L c e)))) (pointer_value h L (ctype L c e) v)))"
| "csem h L c args _ = None"

text \<open>Which paths are places, and which paths are C: no array of arrays, no number cast to a pointer.\<close>

fun is_place :: "expr \<Rightarrow> bool" where
  "is_place (Dot e x) = True"
| "is_place (Arrow e x) = True"
| "is_place (Index e i) = True"
| "is_place (Indir e) = True"
| "is_place (Paren e) = is_place e"
| "is_place _ = False"

fun path_wf :: "'t btf_lib \<Rightarrow> 't compiler \<Rightarrow> expr \<Rightarrow> bool" where
  "path_wf L c (Name x) = True"
| "path_wf L c (Dot e x) = (path_wf L c e \<and> (is_place e \<or> (case ctype L c e of None \<Rightarrow> False | Some t \<Rightarrow> is_pointer L t)))"
| "path_wf L c (Arrow e x) = (path_wf L c e \<and> (is_place e \<or> (case ctype L c e of None \<Rightarrow> False | Some t \<Rightarrow> is_pointer L t)))"
| "path_wf L c (Index e i) = (path_wf L c e \<and> (case ctype L c (Index e i) of None \<Rightarrow> False | Some t \<Rightarrow> \<not> is_array L t))"
| "path_wf L c (Indir e) = (path_wf L c e \<and> (case ctype L c (Indir e) of None \<Rightarrow> False | Some t \<Rightarrow> \<not> is_array L t))"
| "path_wf L c (Addr e) = (path_wf L c e \<and> is_place e)"
| "path_wf L c (Cast ty e) = (path_wf L c e \<and> the_Number e = None)"
| "path_wf L c (Paren e) = path_wf L c e"
| "path_wf L c (Binary f l r) = ((f = Op_Add \<or> f = Op_Sub) \<and>
     (if f = Op_Add \<and> the_Number l \<noteq> None then path_wf L c r else path_wf L c l))"
| "path_wf L c _ = False"

section \<open>The steps of a path\<close>

definition step_value :: "helpers \<Rightarrow> 't accessOffset \<Rightarrow> u64 \<Rightarrow> bool \<times> u64" where
  "step_value h a w = (if a_address a then (False, w + a_offset a) else (True, probe_word h (w + a_offset a) 8))"

text \<open>Where the steps lead when the path goes on, and what they are worth at its end.\<close>

fun path_all :: "helpers \<Rightarrow> 't accessOffset list \<Rightarrow> u64 \<Rightarrow> u64 option" where
  "path_all h [] w = Some w"
| "path_all h (a # offsets) w = Option.bind (follow (step_value h a w)) (path_all h offsets)"

definition path_at :: "helpers \<Rightarrow> 't accessOffset list \<Rightarrow> u64 \<Rightarrow> u64 option" where
  "path_at h offsets w = map_option (\<lambda>p. p + a_offset (last offsets)) (path_all h (butlast offsets) w)"

definition path_result :: "helpers \<Rightarrow> 't accessOffset list \<Rightarrow> u64 \<Rightarrow> (bool \<times> u64) option" where
  "path_result h offsets w =
     (if offsets = [] then Some (False, w)
      else map_option (step_value h (last offsets)) (path_all h (butlast offsets) w))"

lemma path_all_append: "path_all h (xs @ ys) w = Option.bind (path_all h xs w) (path_all h ys)"
  by (induction xs arbitrary: w) (auto split: Option.bind_split)

lemma path_all_result: "path_all h offsets w = Option.bind (path_result h offsets w) follow"
proof (cases offsets rule: rev_cases)
  case Nil
  then show ?thesis by (simp add: path_result_def follow_def)
next
  case (snoc xs a)
  then show ?thesis by (auto simp: path_result_def path_all_append option.map_comp split: Option.bind_split)
qed

lemma path_at_snoc [simp]: "path_at h (xs @ [a]) w = map_option (\<lambda>p. p + a_offset a) (path_all h xs w)"
  by (simp add: path_at_def)

lemma path_result_snoc [simp]: "path_result h (xs @ [a]) w = map_option (step_value h a) (path_all h xs w)"
  by (simp add: path_result_def)

section \<open>The steps the compiler finds\<close>

definition path_inv :: "'t btf_lib \<Rightarrow> 't compiler \<Rightarrow> expr \<Rightarrow> 't accessResult \<Rightarrow> bool" where
  "path_inv L c e res \<longleftrightarrow>
     ctype L c e = Some (r_btf res) \<and> r_mem res = cmember L c e \<and> r_uptr res = 0 \<and>
     r_lastIdx res = int (length (r_offsets res)) - 1 \<and> 0 \<le> r_idx res \<and> nat (r_idx res) < length (c_vars c) \<and>
     (is_place e \<longrightarrow> r_offsets res \<noteq> [] \<and> a_address (last (r_offsets res)) = is_array L (r_btf res)) \<and>
     (\<forall>h args. map_option (rvalue h L (r_btf res)) (csem h L c args e) =
         path_result h (r_offsets res) (args ! nat (r_idx res)) \<and>
       (is_place e \<longrightarrow>
         csem h L c args e = map_option Place (path_at h (r_offsets res) (args ! nat (r_idx res)))))"

lemma path_inv_pointer:
  assumes "path_inv L c e res"
  shows "pointer_value h L (ctype L c e) (csem h L c args e) = path_all h (r_offsets res) (args ! nat (r_idx res))"
proof -
  from assms have "path_result h (r_offsets res) (args ! nat (r_idx res)) =
      map_option (rvalue h L (r_btf res)) (csem h L c args e)" "ctype L c e = Some (r_btf res)"
    by (simp_all add: path_inv_def)
  then show ?thesis by (simp add: pointer_value_def path_all_result Option.bind_map_option comp_def)
qed

lemma slices_Index_Some: "slices_Index xs x = Some i \<Longrightarrow> i < length xs \<and> xs ! i = x"
  by (auto simp: slices_Index_def find_Some_iff in_set_enumerate_eq nth_enumerate_eq)

lemma path_inv_name: "access_name c x = Inr res \<Longrightarrow> path_inv L c (Name x) res"
  by (auto simp: access_name_def bind_res_Inr path_inv_def path_result_def rvalue_def dest: slices_Index_Some)

lemma last_step_snoc:
  "r_lastIdx res = int (length (r_offsets res)) - 1 \<Longrightarrow> r_offsets res = xs @ [a] \<Longrightarrow>
     last_step f res = Inr (res\<lparr>r_offsets := xs @ [f a]\<rparr>)"
  by (simp add: last_step_def)

text \<open>A step behind the others, and a change of the last one.\<close>

lemma path_inv_step:
  assumes inv: "path_inv L c e res"
    and res': "r_offsets res' = r_offsets res @ [a]" "r_lastIdx res' = int (length (r_offsets res))" "r_idx res' = r_idx res"
      "r_uptr res' = r_uptr res" "ctype L c e' = Some (r_btf res')" "r_mem res' = cmember L c e'"
    and sem: "\<And>h args. csem h L c args e' =
        map_option (\<lambda>p. cv (p + a_offset a)) (pointer_value h L (ctype L c e) (csem h L c args e))"
    and cv: "\<And>h p. rvalue h L (r_btf res') (cv (p + a_offset a)) = step_value h a p"
    and place: "is_place e' \<Longrightarrow> a_address a = is_array L (r_btf res') \<and> cv = Place"
  shows "path_inv L c e' res'"
  using inv res' place path_inv_pointer [OF inv]
  by (auto simp: path_inv_def sem option.map_comp comp_def cv)

lemma access_member_inv:
  assumes inv: "path_inv L c e res" and acc: "access_member L x res = Inr res'"
    and place: "is_place e \<or> is_pointer L (r_btf res)"
  shows "path_inv L c (Dot e x) res'"
proof -
  have t: "ctype L c e = Some (r_btf res)" using inv by (simp add: path_inv_def)
  define u where "u = (case kind_of L (r_btf res) of Pointer_kind u \<Rightarrow> u | _ \<Rightarrow> r_btf res)"
  from acc obtain b off where b: "member_of L u x = Some b" "member_offset L u x = Some off"
    and k: "kind_of L u = Struct_kind \<or> kind_of L u = Union_kind"
    by (cases "kind_of L (r_btf res)") (auto simp: access_member_def u_def Let_def bind_res_Inr split: if_splits)
  have bytes: "member_bytes L (Some (r_btf res)) x = ucast off" using b by (simp add: member_bytes_def u_def)
  show ?thesis
  proof (cases "is_pointer L (r_btf res)")
    case True
    then obtain w where w: "kind_of L (r_btf res) = Pointer_kind w" by (auto simp: is_pointer_def split: kind.splits)
    let ?a = "\<lparr>a_btf = mem_Type b, a_prev = Some (r_btf res), a_offset = ucast off,
      a_address = is_array L (mem_Type b), a_inArray = False\<rparr>"
    have "r_offsets res' = r_offsets res @ [?a] \<and> r_lastIdx res' = int (length (r_offsets res)) \<and> r_idx res' = r_idx res \<and>
        r_uptr res' = r_uptr res \<and> r_btf res' = mem_Type b \<and> r_mem res' = (if is_array L (mem_Type b) then None else Some b)"
      using acc b w
      by (auto simp: access_member_def u_def Let_def addOffset_def last_step_def is_array_def split: if_splits kind.splits)
    then show ?thesis
      by (intro path_inv_step [OF inv, where cv = Place])
        (use t b True in \<open>auto simp: u_def member_place_def bytes rvalue_def step_value_def\<close>)
  next
    case False
    then have u: "u = r_btf res" by (simp add: u_def is_pointer_def split: kind.splits)
    from place False inv obtain xs a where xs: "r_offsets res = xs @ [a]" and e: "is_place e"
      by (cases "r_offsets res" rule: rev_cases) (auto simp: path_inv_def)
    have a: "\<not> a_address a" using inv xs e k by (auto simp: path_inv_def is_array_def u split: kind.splits)
    let ?a = "a\<lparr>a_offset := a_offset a + ucast off, a_btf := mem_Type b, a_address := is_array L (mem_Type b)\<rparr>"
    have last: "r_lastIdx res = int (length xs)" using inv xs by (simp add: path_inv_def)
    have "r_offsets res' = xs @ [?a] \<and> r_lastIdx res' = r_lastIdx res \<and> r_idx res' = r_idx res \<and>
        r_uptr res' = r_uptr res \<and> r_btf res' = mem_Type b \<and> r_mem res' = (if is_array L (mem_Type b) then None else Some b)"
      using acc b False a
      by (auto simp: access_member_def u Let_def last_step_def xs last is_array_def is_pointer_def
        split: if_splits kind.splits)
    moreover have "csem h L c args (Dot e x) =
        map_option (\<lambda>p. Place (p + a_offset a + ucast off)) (path_all h xs (args ! nat (r_idx res)))" for h args
      using inv e False t bytes
      by (auto simp: path_inv_def member_place_def xs option.map_comp comp_def map_option_case split: option.splits)
    ultimately show ?thesis
      using inv b t False e
      by (auto simp: path_inv_def u_def xs option.map_comp comp_def rvalue_def step_value_def add.assoc intro!: map_option_cong)
  qed
qed

lemma prevBtf_inv: "path_inv L c e res \<Longrightarrow> \<exists>p. prevBtf res = Inr p"
  by (cases "r_offsets res") (auto simp: path_inv_def prevBtf_def)

lemma access_index_inv:
  assumes inv: "path_inv L c e res" and acc: "access_index L n res = Inr res'" and n: "number_of i = Some n"
    and wf: "path_wf L c (Index e i)" and L: "lib_ok L"
  shows "path_inv L c (Index e i) res'"
proof -
  have t: "ctype L c e = Some (r_btf res)" using inv by (simp add: path_inv_def)
  from acc obtain u arr prev where u: "kind_of L (r_btf res) = Pointer_kind u \<or> kind_of L (r_btf res) = Array_kind u"
      "vsize L (Some u) \<noteq> 0"
    and res': "res' = addOffset \<lparr>a_btf = u, a_prev = prev, a_offset = n * of_nat (vsize L (Some u)), a_address = False,
      a_inArray = arr\<rparr> res\<lparr>r_btf := u, r_mem := None\<rparr>"
    by (auto simp: access_index_def bind_res_Inr split: kind.splits if_splits)
  have v: "kind_of L u \<noteq> Void_kind" using L u(2) by (auto simp: lib_ok_def)
  have bytes: "elem_bytes L (Some (r_btf res)) = of_nat (vsize L (Some u))"
    using u v by (auto simp: elem_bytes_def vkind_def)
  have ty: "ctype L c (Index e i) = Some u" using u t by auto
  show ?thesis
    by (rule path_inv_step [OF inv, where cv = Place])
      (use t ty n wf bytes in \<open>auto simp: res' addOffset_def rvalue_def step_value_def\<close>)
qed

lemma access_indir_inv:
  assumes inv: "path_inv L c e res" and acc: "access_indir L res = Inr res'" and wf: "path_wf L c (Indir e)"
  shows "path_inv L c (Indir e) res'"
proof -
  have t: "ctype L c e = Some (r_btf res)" using inv by (simp add: path_inv_def)
  from acc obtain u where u: "kind_of L (r_btf res) = Pointer_kind u"
    and res': "res' = addOffset \<lparr>a_btf = u, a_prev = Some (r_btf res), a_offset = 0, a_address = False, a_inArray = False\<rparr> res
      \<lparr>r_btf := u, r_mem := None\<rparr>"
    by (auto simp: access_indir_def split: kind.splits if_splits)
  have ty: "ctype L c (Indir e) = Some u" using u t by simp
  show ?thesis
    by (rule path_inv_step [OF inv, where cv = Place])
      (use t ty wf in \<open>auto simp: res' addOffset_def rvalue_def step_value_def\<close>)
qed

lemma access_addr_inv:
  assumes inv: "path_inv L c e res" and acc: "access_addr L res = Inr res'" and place: "is_place e"
  shows "path_inv L c (Addr e) res'"
proof -
  from place inv obtain xs a where xs: "r_offsets res = xs @ [a]"
    by (cases "r_offsets res" rule: rev_cases) (auto simp: path_inv_def)
  have last: "r_lastIdx res = int (length xs)" using inv xs by (simp add: path_inv_def)
  have res': "res' = res\<lparr>r_offsets := xs @ [a\<lparr>a_address := True, a_btf := pointer_to L (r_btf res)\<rparr>],
      r_btf := pointer_to L (r_btf res), r_mem := None\<rparr>"
    using acc by (simp add: access_addr_def last_step_def xs last Let_def)
  have "csem h L c args (Addr e) =
      map_option (\<lambda>p. Value False (p + a_offset a)) (path_all h xs (args ! nat (r_idx res)))" for h args
    using inv place by (auto simp: path_inv_def xs map_option_case split: option.splits)
  then show ?thesis
    using inv place
    by (auto simp: path_inv_def res' xs option.map_comp comp_def rvalue_def step_value_def intro!: map_option_cong)
qed

lemma step_value_btf [simp]: "step_value h (a\<lparr>a_btf := u\<rparr>) = step_value h a"
  by (rule ext) (simp add: step_value_def)

lemma access_cast_inv:
  assumes inv: "path_inv L c e res" and acc: "access_cast L ty res = Inr res'"
  shows "path_inv L c (Cast ty e) res'"
proof -
  from acc obtain u where u: "cc2btf L ty = Inr u" by (auto simp: access_cast_def bind_res_Inr)
  have lastIdx: "r_lastIdx res = int (length (r_offsets res)) - 1" using inv by (simp add: path_inv_def)
  obtain offs where res': "res' = res\<lparr>r_btf := u, r_mem := None, r_offsets := offs\<rparr>"
    and offs: "length offs = length (r_offsets res)" "\<And>h v. path_result h offs v = path_result h (r_offsets res) v"
  proof (cases "r_offsets res" rule: rev_cases)
    case Nil
    with acc have "res' = res\<lparr>r_btf := u, r_mem := None\<rparr>" by (simp add: access_cast_def u Let_def)
    with Nil show ?thesis by (intro that [of "[]"]; cases res) simp_all
  next
    case (snoc xs a)
    with acc lastIdx show ?thesis
      by (intro that [of "xs @ [a\<lparr>a_btf := u\<rparr>]"])
        (simp_all add: access_cast_def u Let_def last_step_def)
  qed
  have "map_option (rvalue h L u) (csem h L c args (Cast ty e)) = map_option (rvalue h L (r_btf res)) (csem h L c args e)"
    for h args
    using inv by (cases "csem h L c args e") (auto simp: path_inv_def rvalue_def [of h L u] split: prod.splits)
  with inv u show ?thesis by (simp add: path_inv_def res' offs)
qed

lemma map_sum_Inr: "map_sum id f r = Inr x \<longleftrightarrow> (\<exists>v. r = Inr v \<and> x = f v)"
  by (cases r) auto

lemma access_add_inv:
  assumes inv: "path_inv L c e res" and acc: "access_add L nop s n res = Inr res'" and L: "lib_ok L"
  shows "nop \<and> n = 0 \<and> res' = res \<or>
    \<not> (nop \<and> n = 0) \<and> r_offsets res' \<noteq> [] \<and> (\<forall>e'. ctype L c e' = ctype L c e \<longrightarrow> cmember L c e' = None \<longrightarrow> \<not> is_place e' \<longrightarrow>
      (\<forall>h args. csem h L c args e' = map_option (\<lambda>p. Value False (p + s * (n * elem_bytes L (ctype L c e))))
        (pointer_value h L (ctype L c e) (csem h L c args e))) \<longrightarrow> path_inv L c e' res')"
proof (cases "nop \<and> n = 0")
  case True
  with acc show ?thesis by (auto simp: access_add_def split: if_splits)
next
  case False
  have t: "ctype L c e = Some (r_btf res)" using inv by (simp add: path_inv_def)
  from acc False obtain k u prev where
    k: "k = elem_bytes L (Some (r_btf res))"
    and res': "res' = addOffset \<lparr>a_btf = u, a_prev = prev, a_offset = s * (k * n), a_address = True, a_inArray = False\<rparr>
      res\<lparr>r_mem := None\<rparr>"
    by (auto simp: access_add_def bind_res_Inr elem_bytes_def vkind_def vsize_def map_sum_Inr
      split: kind.splits if_splits)
  have "path_inv L c e' res'"
    if "ctype L c e' = ctype L c e" "cmember L c e' = None" "\<not> is_place e'"
      "\<forall>h args. csem h L c args e' = map_option (\<lambda>p. Value False (p + s * (n * elem_bytes L (ctype L c e))))
        (pointer_value h L (ctype L c e) (csem h L c args e))" for e'
    by (rule path_inv_step [OF inv, where cv = "Value False"])
      (use that t in \<open>auto simp: res' addOffset_def rvalue_def step_value_def k mult.commute\<close>)
  then show ?thesis using False by (auto simp: res' addOffset_def)
qed

lemma number_of_Number: "the_Number i = Some text \<Longrightarrow> number_res (parseNumber text) = Inr n \<Longrightarrow> number_of i = Some n"
  by (auto simp: number_of_def number_res_def split: sum.splits)

lemma path_inv_add:
  assumes inv: "path_inv L c e res" and acc: "access_add L (f = Op_Add) (if f = Op_Sub then - 1 else 1) n res = Inr res'"
    and e: "f = Op_Add \<or> f = Op_Sub" "(if f = Op_Add \<and> the_Number l \<noteq> None then (number_of l, r) else (number_of r, l)) = (Some n, e)"
    and L: "lib_ok L"
  shows "path_inv L c (Binary f l r) res'"
proof -
  let ?v = "\<lambda>h args. if f = Op_Add \<and> the_Number l \<noteq> None then csem h L c args r else csem h L c args l"
  have ty: "ctype L c (Binary f l r) = ctype L c e" and v: "?v h args = csem h L c args e" for h args
    using e by (auto split: if_splits)
  have sem: "csem h L c args (Binary f l r) = (if f = Op_Add \<and> n = 0 then csem h L c args e
      else map_option (\<lambda>p. Value False (p + (if f = Op_Sub then - (n * elem_bytes L (ctype L c e))
              else n * elem_bytes L (ctype L c e)))) (pointer_value h L (ctype L c e) (csem h L c args e)))" for h args
    using e(2) v [of h args] by (simp only: csem.simps Let_def prod.case Option.bind.simps)
  from access_add_inv [OF inv acc L] show ?thesis
  proof (elim disjE conjE)
    assume n: "f = Op_Add" "n = 0" "res' = res"
    then have "cmember L c (Binary f l r) = cmember L c e" using e(2) by (auto split: if_splits)
    with inv n ty show ?thesis
      by (simp add: path_inv_def sem [unfolded n(1)] del: ctype.simps cmember.simps csem.simps)
  next
    assume n: "\<not> (f = Op_Add \<and> n = 0)" and step: "\<forall>e'. ctype L c e' = ctype L c e \<longrightarrow> cmember L c e' = None \<longrightarrow>
      \<not> is_place e' \<longrightarrow> (\<forall>h args. csem h L c args e' = map_option (\<lambda>p. Value False (p +
        (if f = Op_Sub then - 1 else 1) * (n * elem_bytes L (ctype L c e))))
        (pointer_value h L (ctype L c e) (csem h L c args e))) \<longrightarrow> path_inv L c e' res'"
    from n e have "cmember L c (Binary f l r) = None" by (auto split: if_splits)
    moreover have "(if f = Op_Sub then - (n * elem_bytes L (ctype L c e)) else n * elem_bytes L (ctype L c e)) =
        (if f = Op_Sub then - 1 else 1) * (n * elem_bytes L (ctype L c e))" by simp
    ultimately show ?thesis
      using n by (intro step [rule_format, OF ty]) (simp_all only: sem is_place.simps if_False not_False_eq_True)
  qed
qed

lemma path_inv_Arrow: "path_inv L c (Arrow e x) res = path_inv L c (Dot e x) res"
  by (simp add: path_inv_def)

lemma accessMemory_inv:
  assumes L: "lib_ok L"
  shows "accessMemory L e c = Inr (res, c') \<Longrightarrow> path_wf L c e \<Longrightarrow> c' = c \<and> path_inv L c e res"
proof (induction e arbitrary: res c')
  case (Name x)
  then show ?case using path_inv_name by (auto simp: bind_res_Inr)
next
  case (Dot e x)
  then obtain res1 where res1: "path_inv L c e res1" "access_member L x res1 = Inr res" "c' = c"
    by (auto simp: bind_res_Inr)
  moreover have "is_place e \<or> is_pointer L (r_btf res1)"
    using res1(1) Dot.prems(2) by (auto simp: path_inv_def split: option.splits)
  ultimately show ?case using access_member_inv by blast
next
  case (Arrow e x)
  then obtain res1 where res1: "path_inv L c e res1" "access_member L x res1 = Inr res" "c' = c"
    by (auto simp: bind_res_Inr)
  moreover have "is_place e \<or> is_pointer L (r_btf res1)"
    using res1(1) Arrow.prems(2) by (auto simp: path_inv_def split: option.splits)
  ultimately show ?case using access_member_inv by (metis path_inv_Arrow)
next
  case (Index e i)
  then obtain res1 str n where res1: "path_inv L c e res1" "access_index L n res1 = Inr res" "c' = c"
      "the_Number i = Some str" "number_res (parseNumber str) = Inr n"
    by (auto simp: bind_res_Inr split: if_splits option.splits)
  then show ?case using access_index_inv [OF res1(1,2) number_of_Number [OF res1(4,5)] Index.prems(2) L] by simp
next
  case (Addr e)
  then show ?case using access_addr_inv by (auto simp: bind_res_Inr)
next
  case (Indir e)
  then obtain res1 where res1: "path_inv L c e res1" "access_indir L res1 = Inr res" "c' = c"
    by (auto simp: bind_res_Inr)
  then show ?case using access_indir_inv [OF res1(1,2) Indir.prems(2)] by simp
next
  case (Cast ty e)
  then show ?case using access_cast_inv by (auto simp: bind_res_Inr)
next
  case (Binary f l r)
  from Binary.prems(2) have f: "f = Op_Add \<or> f = Op_Sub" by simp
  have "\<exists>e n res1. path_inv L c e res1 \<and> access_add L (f = Op_Add) (if f = Op_Sub then - 1 else 1) n res1 = Inr res \<and> c' = c \<and>
      (if f = Op_Add \<and> the_Number l \<noteq> None then (number_of l, r) else (number_of r, l)) = (Some n, e)"
    using Binary f by (auto simp: bind_res_Inr number_of_Number split: option.splits) blast+
  then show ?case using path_inv_add [OF _ _ f _ L] by blast
next
  case (Paren e)
  then show ?case by (simp add: path_inv_def)
qed auto

text \<open>What a path is worth.\<close>

definition path_value :: "helpers \<Rightarrow> 't btf_lib \<Rightarrow> 't compiler \<Rightarrow> u64 list \<Rightarrow> expr \<Rightarrow> u64 option" where
  "path_value h L c args e = Option.bind (csem h L c args e) (\<lambda>v. map_option (\<lambda>t. snd (rvalue h L t v)) (ctype L c e))"

lemma path_inv_value:
  assumes "path_inv L c e res"
  shows "path_value h L c args e = map_option snd (path_result h (r_offsets res) (args ! nat (r_idx res)))"
proof -
  from assms have "path_result h (r_offsets res) (args ! nat (r_idx res)) =
      map_option (rvalue h L (r_btf res)) (csem h L c args e)" "ctype L c e = Some (r_btf res)"
    by (simp_all add: path_inv_def)
  then show ?thesis by (cases "csem h L c args e") (simp_all add: path_value_def)
qed

end
