(* ===== verification/Cc_Read.thy ===== *)
theory Cc_Read
  imports Cc_Path
begin

text \<open>
  The code that follows a path with the probing helper (\<^verbatim>\<open>internal/cc/bpf_probe_read.go\<close>), and that cuts the
  value to its type.
\<close>

section \<open>The code of a path\<close>

fun probe_code :: "string \<Rightarrow> 't accessOffset list \<Rightarrow> reg \<Rightarrow> instructions" where
  "probe_code label [] reg = []"
| "probe_code label (a # offsets) reg =
     map plain (if a_offset a \<noteq> 0 then [Add_Imm R3 (ucast (a_offset a))] else []) @
     (if a_address a then map plain (if offsets = [] \<and> reg \<noteq> R3 then [Mov_Reg reg R3] else [])
      else map plain (probe_read_8 @ [if offsets \<noteq> [] then LoadMem R3 RFP (- 8) else LoadMem reg RFP (- 8)]) @
        (if offsets \<noteq> [] then [JEq_Imm_Label R3 0 label] else [])) @
     probe_code label offsets reg"

fun may_exit :: "'t accessOffset list \<Rightarrow> bool" where
  "may_exit [] = False"
| "may_exit (a # offsets) \<longleftrightarrow> \<not> a_address a \<and> offsets \<noteq> [] \<or> may_exit offsets"

text \<open>The state with more code, and with the exit label used or not.\<close>

definition emitted :: "'t compiler \<Rightarrow> instructions \<Rightarrow> bool \<Rightarrow> 't compiler" where
  "emitted c code used = c\<lparr>c_insns := c_insns c @ code, c_labelExitUsed := c_labelExitUsed c \<or> used\<rparr>"

lemma emitted_emitted [simp]: "emitted (emitted c xs u) ys v = emitted c (xs @ ys) (u \<or> v)"
  by (simp add: emitted_def)

lemma emit_emitted: "emit ops c = emitted c (map plain ops) False"
  by (simp add: emit_def emit_insns_def emitted_def)

lemma emitted_sel [simp]:
  "c_regs (emitted c code u) = c_regs c" "c_vars (emitted c code u) = c_vars c" "c_btfs (emitted c code u) = c_btfs c"
  "c_labelExit (emitted c code u) = c_labelExit c" "c_memMode (emitted c code u) = c_memMode c"
  "c_insns (emitted c code u) = c_insns c @ code" "c_labelExitUsed (emitted c code u) = (c_labelExitUsed c \<or> u)"
  by (simp_all add: emitted_def)

lemma emitted_Nil [simp]: "emitted c [] False = c"
  by (simp add: emitted_def)

lemma probe_loop_emits:
  "probe_loop offsets reg c = emitted c (probe_code (c_labelExit c) offsets reg) (may_exit offsets)"
proof (induction offsets arbitrary: c)
  case (Cons a offsets)
  have label: "emit_insns xs (c\<lparr>c_labelExitUsed := True\<rparr>) = emitted c xs True" for xs and c :: "'t compiler"
    by (simp add: emit_insns_def emitted_def)
  show ?case
    by (simp add: Let_def emit_emitted Cons label)
qed simp

section \<open>What it reads\<close>

text \<open>Offsets that fit the 32 bits of an instruction.\<close>

definition offset_small :: "'t accessOffset \<Rightarrow> bool" where
  "offset_small a \<longleftrightarrow> scast (ucast (a_offset a) :: s32) = a_offset a"

text \<open>Registers that no call clobbers.\<close>

definition callee_saved :: "reg set" where
  "callee_saved = {R6, R7, R8, R9, RFP}"

lemma block_probe_read:
  assumes fp: "m_regs m RFP = Some (PtrFrame 0)" "length (m_frame m) = FRAME" and p: "m_regs m R3 = Some (Scalar p)"
    and K: "K \<subseteq> callee_saved" and r: "r \<notin> K" "r = R3 \<or> r \<in> callee_saved"
  shows "\<exists>m1. (\<forall>subs. block h subs (map plain (probe_read_8 @ [LoadMem r RFP (- 8)])) m = Some m1) \<and> kept K m m1 \<and>
    m_regs m1 r = Some (Scalar (probe_word h p 8)) \<and> (\<forall>s\<in>callee_saved - {r}. m_regs m1 s = m_regs m s)"
proof -
  let ?fr = "store (FRAME - 8) (probe_bytes h p 8) (m_frame m)"
  let ?mc = "clobber (Some (Scalar (probe_err h p 8))) (m\<lparr>m_frame := ?fr\<rparr>)"
  have rd: "load_le (FRAME - 8) 8 ?fr = (probe_word h p 8 :: u64)"
    using fp(2) by (simp add: load_le_def probe_word_def slice_store_same FRAME_def)
  have "block h subs (map plain (probe_read_8 @ [LoadMem r RFP (- 8)])) m = Some (set_reg r (Scalar (probe_word h p 8)) ?mc)"
    for subs
    using fp p rd by (simp add: probe_read_8_def plain_def probe_call_def the_scalar_def next_or_fault_def clobber_def
        set_reg_def FRAME_def)
  moreover have "kept K m (set_reg r (Scalar (probe_word h p 8)) ?mc)"
    using K r by (auto simp: kept_def callee_saved_def clobber_def)
  ultimately show ?thesis 
    by (intro exI [of _ "set_reg r (Scalar (probe_word h p 8)) ?mc"]) (auto simp: callee_saved_def clobber_def)
qed

lemma path_result_Cons:
  "path_result h (a # offsets) x = (if offsets = [] then Some (step_value h a x)
     else Option.bind (follow (step_value h a x)) (path_result h offsets))"
  by (cases offsets rule: rev_cases; cases "follow (step_value h a x)") (auto simp: path_result_def butlast_append)

lemma computes_probe_code:
  assumes "offsets \<noteq> []" "list_all offset_small offsets" "label \<noteq> []"
    and "K \<subseteq> callee_saved" "RFP \<in> K" "r \<in> callee_saved" "r \<notin> K"
    and "m_regs m RFP = Some (PtrFrame 0)" "length (m_frame m) = FRAME"
    and "m_regs m R3 = Some (Scalar x)" "m_regs m r = Some (Scalar y)"
  shows "computes h label (probe_code label offsets r) K r m (map_option snd (path_result h offsets x))"
  using assms
proof (induction offsets arbitrary: m x y)
  case (Cons a offsets)
  let ?p = "x + a_offset a"
  let ?m = "set_reg R3 (Scalar ?p) m"
  have r3: "R3 \<notin> K" "r \<noteq> R3" using Cons.prems by (auto simp: callee_saved_def)
  have "scast (ucast (a_offset a) :: s32) = a_offset a" using Cons.prems(2) by (simp add: offset_small_def)
  then have b: "block h subs (map plain (if a_offset a \<noteq> 0 then [Add_Imm R3 (ucast (a_offset a))] else [])) m =
      Some (if a_offset a \<noteq> 0 then ?m else m)" for subs
    using Cons.prems(10) by (simp add: plain_def)
  have k: "kept K m (if a_offset a \<noteq> 0 then ?m else m)" using r3 by simp
  have rest: "computes h label
     ((if a_address a then map plain (if offsets = [] \<and> r \<noteq> R3 then [Mov_Reg r R3] else [])
       else map plain (probe_read_8 @ [if offsets \<noteq> [] then LoadMem R3 RFP (- 8) else LoadMem r RFP (- 8)]) @
         (if offsets \<noteq> [] then [JEq_Imm_Label R3 0 label] else [])) @ probe_code label offsets r) K r m1
     (map_option snd (path_result h (a # offsets) x))"
    if m1: "m1 = (if a_offset a \<noteq> 0 then ?m else m)" for m1
  proof -
    have m1r: "m_regs m1 R3 = Some (Scalar ?p)" "m_regs m1 RFP = Some (PtrFrame 0)" "length (m_frame m1) = FRAME"
      "m_regs m1 r = Some (Scalar y)"
      using Cons.prems r3 by (auto simp: m1)
    consider (addr_last) "a_address a" "offsets = []" | (addr) "a_address a" "offsets \<noteq> []"
      | (read_last) "\<not> a_address a" "offsets = []" | (read) "\<not> a_address a" "offsets \<noteq> []" by blast
    then show ?thesis
    proof cases
      case addr_last
      then show ?thesis
        using m1r r3 Cons.prems(7) by (auto simp: path_result_Cons step_value_def plain_def intro!: computes_block)
    next
      case addr
      then show ?thesis
        using Cons.IH [of m1 ?p y] Cons.prems m1r by (simp add: path_result_Cons step_value_def follow_def)
    next
      case read_last
      from block_probe_read [OF m1r(2,3,1), of K r h] Cons.prems show ?thesis
        using read_last by (auto simp: path_result_Cons step_value_def intro!: computes_block)
    next
      case read
      let ?w = "probe_word h ?p 8 :: u64"
      from block_probe_read [OF m1r(2,3,1), of K R3 h] Cons.prems r3 obtain m2
        where b: "\<And>subs. block h subs (map plain (probe_read_8 @ [LoadMem R3 RFP (- 8)])) m1 = Some m2" "kept K m1 m2"
          "m_regs m2 R3 = Some (Scalar ?w)" "m_regs m2 r = m_regs m1 r" "m_regs m2 RFP = m_regs m1 RFP"
        by (auto simp: callee_saved_def)
      have "computes h label (probe_code label offsets r) K r m2 (map_option snd (path_result h offsets ?w))"
        using b m1r Cons.prems read by (intro Cons.IH [where y = y]) (simp_all add: kept_def)
      from computes_block_then [OF b(1,2) computes_exit [OF b(3) _ Cons.prems(3) this]] b(4) m1r(4) read
      show ?thesis by (cases "?w = 0") (simp_all add: path_result_Cons step_value_def follow_def)
    qed
  qed
  from computes_block_then [OF b k rest [OF refl]] show ?case by (simp only: probe_code.simps append_assoc)
qed simp

section \<open>The value of a path in a register\<close>

text \<open>The value of a path is cut to its bit field or to its size; an array stands for its address.\<close>

definition cut :: "'t btf_lib \<Rightarrow> 't option \<Rightarrow> 't member option \<Rightarrow> u64 \<Rightarrow> u64" where
  "cut L t mem w =
     (if isMemberBitfield mem
      then take_bit (mem_BitfieldSize (the mem)) (drop_bit (unat (mem_Offset (the mem) AND 7)) w)
      else if (case t of None \<Rightarrow> False | Some t \<Rightarrow> is_array L t) then w
      else if vsize L t \<in> {1, 2, 4} then take_bit (8 * vsize L t) w
      else w)"

text \<open>The bit fields and arrays for which the compiler's code does that.\<close>

definition cut_ok :: "'t btf_lib \<Rightarrow> 't option \<Rightarrow> 't member option \<Rightarrow> bool" where
  "cut_ok L t mem \<longleftrightarrow>
     (if isMemberBitfield mem then mem_BitfieldSize (the mem) < 32
      else (case t of None \<Rightarrow> False | Some t \<Rightarrow> is_array L t) \<longrightarrow> vsize L t \<notin> {1, 2, 4})"

definition cut_code :: "'t btf_lib \<Rightarrow> 't option \<Rightarrow> 't member option \<Rightarrow> reg \<Rightarrow> opcode list" where
  "cut_code L t mem r =
     (if isMemberBitfield mem then
        (let delta = mem_Offset (the mem) AND 7 in
          (if delta \<noteq> 0 then [Alu_Imm ALU_RSh r delta] else []) @
          [Alu_Imm ALU_And r (ucast (push_bit (mem_BitfieldSize (the mem)) 1 - 1 :: u64))])
      else if vsize L t = 1 then [Alu_Imm ALU_And r 0xFF]
      else if vsize L t = 2 then [Alu_Imm ALU_And r 0xFFFF]
      else if vsize L t = 4 then [Alu_Imm ALU_LSh r 32, Alu_Imm ALU_RSh r 32]
      else [])"

lemma and_mask: "(w :: u64) AND (push_bit n 1 - 1) = take_bit n w"
  by (simp add: take_bit_eq_mask mask_eq_exp_minus_1 push_bit_eq_mult)

lemma cut_high: "drop_bit 32 (push_bit 32 w :: u64) = take_bit 32 w"
  by (rule bit_word_eqI) (auto simp: bit_simps dest: bit_imp_le_length)

lemma mask_small:
  assumes "n < 32" shows "scast (ucast (push_bit n 1 - 1 :: u64) :: s32) = (push_bit n 1 - 1 :: u64)"
proof -
  have m: "(push_bit n 1 - 1 :: u64) = mask n" by (simp add: mask_eq_exp_minus_1 push_bit_eq_mult)
  show ?thesis unfolding m by (rule bit_word_eqI) (use assms in \<open>auto simp: bit_simps min_def\<close>)
qed

lemma unat_low_bits: "unat (scast ((w :: u32) AND 7) :: u64) = unat (w AND 7)"
proof -
  have seven: "(7 :: u32) = mask 3" by (simp add: mask_eq_exp_minus_1)
  have "(scast (w AND 7) :: u64) = ucast (w AND 7)"
    unfolding seven by (rule bit_word_eqI) (auto simp: bit_simps min_def)
  then show ?thesis by (simp add: unsigned_ucast_eq take_bit_nat_eq_self unsigned_less [THEN less_trans])
qed

lemma computes_cut_code:
  assumes ok: "cut_ok L t mem" and r: "r \<notin> K" "m_regs m r = Some (Scalar w)"
  shows "computes h label (map plain (cut_code L t mem r)) K r m (Some (cut L t mem w))"
proof (cases "isMemberBitfield mem")
  case True
  let ?d = "mem_Offset (the mem) AND 7"
  have "?d \<le> 7" by (rule word_and_le1)
  then have "unat ?d mod 64 = unat ?d" by (simp add: word_le_nat_alt)
  with True ok r show ?thesis
    by (auto simp: cut_code_def cut_def cut_ok_def Let_def plain_def the_scalar_def mask_small [simplified] and_mask [simplified] unat_low_bits
      intro!: computes_block)
next
  case False
  with ok r show ?thesis
    by (auto simp: cut_code_def cut_def cut_ok_def Let_def plain_def the_scalar_def cut_high
      and_mask [of w 8, simplified] and_mask [of w 16, simplified] intro!: computes_block)
qed

lemma plain_sel: "ins_op (plain c) = c" "ins_reference (plain c) = []"
  by (simp_all add: plain_def)

lemma computes_add_offsets:
  assumes "allAddress offsets" "list_all offset_small offsets" "r \<notin> K" "m_regs m r = Some (Scalar x)"
  shows "computes h label (map plain (map (\<lambda>a. Add_Imm r (ucast (a_offset a))) offsets)) K r m
    (map_option snd (path_result h offsets x))"
proof -
  have run: "\<exists>m' w. block h subs (map plain (map (\<lambda>a. Add_Imm r (ucast (a_offset a))) offsets)) m = Some m' \<and> kept K m m' \<and>
      map_option snd (path_result h offsets x) = Some w \<and> m_regs m' r = Some (Scalar w)" for subs
    using assms
  proof (induction offsets arbitrary: m x)
    case Nil
    then show ?case by (simp add: path_result_def)
  next
    case (Cons a offsets)
    let ?m = "set_reg r (Scalar (x + a_offset a)) m"
    from Cons.IH [of ?m "x + a_offset a"] Cons.prems obtain m' w
      where "block h subs (map plain (map (\<lambda>a. Add_Imm r (ucast (a_offset a))) offsets)) ?m = Some m'" "kept K ?m m'"
        "map_option snd (path_result h offsets (x + a_offset a)) = Some w" "m_regs m' r = Some (Scalar w)"
      by (auto simp: allAddress_def)
    moreover have "kept K m m'" using kept_trans [of K m ?m m'] calculation(2) Cons.prems(3) by simp
    ultimately show ?case
      using Cons.prems
      by (cases "offsets = []")
        (auto simp: plain_sel allAddress_def path_result_Cons step_value_def follow_def offset_small_def path_result_def [of h "[]"])
  qed
  from run obtain w where w: "map_option snd (path_result h offsets x) = Some w" by blast
  show ?thesis unfolding w by (rule computes_block) (use run w in force)
qed

lemma path_result_no_exit: "\<not> may_exit offsets \<Longrightarrow> path_result h offsets x \<noteq> None"
proof (induction offsets arbitrary: x)
  case (Cons a offsets)
  then show ?case by (cases "offsets = []") (auto simp: path_result_Cons step_value_def follow_def)
qed (simp add: path_result_def)

definition access_code :: "'t btf_lib \<Rightarrow> string \<Rightarrow> 't accessResult \<Rightarrow> reg \<Rightarrow> instructions" where
  "access_code L label res r =
     [plain (LoadMem r R9 (of_nat (nat (r_idx res) * 8)))] @
     (if r_offsets res = [] then []
      else if allAddress (r_offsets res) then map plain (map (\<lambda>a. Add_Imm r (ucast (a_offset a))) (r_offsets res))
      else plain (Mov_Reg R3 r) # probe_code label (r_offsets res) r) @
     map plain (cut_code L (Some (r_btf res)) (r_mem res) r)"

text \<open>No call of the code clobbers a register in use.\<close>

definition callers_free :: "'t compiler \<Rightarrow> bool" where
  "callers_free c \<longleftrightarrow> (\<forall>r. c_regs c r \<longrightarrow> r \<in> callee_saved)"

lemma no_push:
  assumes "callers_free c"
  shows "pushUsedCallerSavedRegsN 5 c = c" "popUsedCallerSavedRegsN 5 c = c"
proof -
  have "\<not> c_regs c R0" "filter (c_regs c) (callerRegs 5) = []"
    using assms by (auto simp: callers_free_def callee_saved_def callerRegs_def filter_empty_conv)
  then show "pushUsedCallerSavedRegsN 5 c = c" "popUsedCallerSavedRegsN 5 c = c"
    by (simp_all add: pushUsedCallerSavedRegsN_def popUsedCallerSavedRegsN_def usedRegNr_def)
qed

lemma cut_insns:
  "(case mem of Some b \<Rightarrow> if mem_BitfieldSize b \<noteq> 0 then bitfield2insns b r c else adjustRegisterBitwise L t r c
    | None \<Rightarrow> adjustRegisterBitwise L t r c) = emit (cut_code L (Some t) mem r) c"
  by (auto simp: cut_code_def isMemberBitfield_def bitfield2insns_def adjustRegisterBitwise_def vsize_def Let_def
    split: option.splits)

lemma access_value_code:
  assumes acc: "access_value L res c = Inr (v, c')" and inv: "path_inv L c e res" and mode: "c_memMode c = ProbeRead"
    and free: "callers_free c" and r: "Alloc c = Inr (r, c1)" "r \<in> callee_saved"
  shows "v = reg_value r (Some (r_btf res)) (r_mem res)"
    "c' = emitted c1 (access_code L (c_labelExit c) res r) (may_exit (r_offsets res))"
proof -
  have c1: "c1 = c\<lparr>c_regs := (c_regs c)(r := True)\<rparr>" using r by (auto simp: Alloc_def split: option.splits)
  have free1: "callers_free (emitted c1 code u)" for code u
    using free r(2) by (auto simp: callers_free_def c1)
  have "allAddress offs \<Longrightarrow> \<not> may_exit offs" for offs :: "'a accessOffset list"
    by (induction offs) (auto simp: allAddress_def)
  moreover have "r \<noteq> R3" using r(2) by (auto simp: callee_saved_def)
  ultimately show "v = reg_value r (Some (r_btf res)) (r_mem res)"
    "c' = emitted c1 (access_code L (c_labelExit c) res r) (may_exit (r_offsets res))"
    using acc inv mode free1 r(1)
    by (auto simp: access_value_def path_inv_def emitLoadArg_def argsReg_def emit_emitted offset2insns_def add_offsets_def
      probeReadOffsets_def no_push probe_loop_emits Let_def cut_insns access_code_def c1 split: if_splits)
qed

lemma load_var:
  "args_ctx args m \<Longrightarrow> i < length args \<Longrightarrow> i < 4096 \<Longrightarrow>
     block h subs [plain (LoadMem r R9 (of_nat (i * 8)))] m = Some (set_reg r (Scalar (args ! i)) m)"
  using sint_of_nat_small [of "i * 8", where 'a = 16] by (simp add: args_ctx_def plain_sel mult.commute)

lemma computes_access_code:
  assumes inv: "path_inv L c e res" and small: "list_all offset_small (r_offsets res)"
    and cut: "cut_ok L (Some (r_btf res)) (r_mem res)" and label: "label \<noteq> []"
    and K: "K \<subseteq> callee_saved" "{R9, RFP} \<subseteq> K" and r: "r \<in> callee_saved" "r \<notin> K"
    and m: "args_ctx args m" "nat (r_idx res) < length args" "nat (r_idx res) < 4096"
  shows "computes h label (access_code L label res r) K r m
    (map_option (cut L (Some (r_btf res)) (r_mem res)) (path_value h L c args e))"
proof -
  let ?i = "nat (r_idx res)" and ?offs = "r_offsets res"
  let ?m = "set_reg r (Scalar (args ! ?i)) m"
  have r3: "R3 \<notin> K" "r \<noteq> R3" "r \<noteq> RFP" using K r by (auto simp: callee_saved_def)
  have ld: "block h subs [plain (LoadMem r R9 (of_nat (?i * 8)))] m = Some ?m" for subs
    by (rule load_var [OF m])
  have read: "computes h label
      (if ?offs = [] then [] else if allAddress ?offs then map plain (map (\<lambda>a. Add_Imm r (ucast (a_offset a))) ?offs)
       else plain (Mov_Reg R3 r) # probe_code label ?offs r) K r ?m (map_option snd (path_result h ?offs (args ! ?i)))"
  proof -
    consider "?offs = []" | "?offs \<noteq> []" "allAddress ?offs" | "?offs \<noteq> []" "\<not> allAddress ?offs" by blast
    then show ?thesis
    proof cases
      case 1
      then show ?thesis by (auto simp: path_result_def intro!: computes_block)
    next
      case 2
      then show ?thesis using computes_add_offsets [OF 2(2) small r(2), of ?m] by simp
    next
      case 3
      let ?m3 = "set_reg R3 (Scalar (args ! ?i)) ?m"
      have mv: "block h subs [plain (Mov_Reg R3 r)] ?m = Some ?m3" for subs by (simp add: plain_sel)
      have "computes h label (probe_code label ?offs r) K r ?m3 (map_option snd (path_result h ?offs (args ! ?i)))"
        by (rule computes_probe_code [where y = "args ! ?i"])
          (use 3 small label K r m r3 in \<open>simp_all add: args_ctx_def\<close>)
      from computes_block_then [OF mv _ this] r3 3 show ?thesis by simp
    qed
  qed
  let ?cut = "cut L (Some (r_btf res)) (r_mem res)"
  have "computes h label (tl (access_code L label res r)) K r ?m
      (Option.bind (map_option snd (path_result h ?offs (args ! ?i))) (\<lambda>w. Some (?cut w)))"
    unfolding access_code_def append_Cons append_Nil list.sel
    by (rule computes_then [OF read]) (rule computes_cut_code [OF cut r(2)])
  then have "computes h label (tl (access_code L label res r)) K r ?m (map_option ?cut (path_value h L c args e))"
    by (simp add: path_inv_value [OF inv] map_conv_bind_option comp_def)
  from computes_block_then [OF ld _ this] r show ?thesis by (simp add: access_code_def)
qed

end
