(* ===== verification/Cc_Filter.thy ===== *)
theory Cc_Filter
  imports Cc_Read
begin

text \<open>
  The value of an expression in C, and that the compiled code computes it (\<^verbatim>\<open>internal/cc/eval.go\<close>,
  \<^verbatim>\<open>internal/cc/expr.go\<close>).
\<close>

section \<open>Expressions\<close>

fun is_path :: "expr \<Rightarrow> bool" where
  "is_path (Dot e x) = True"
| "is_path (Arrow e x) = True"
| "is_path (Index e i) = True"
| "is_path (Addr e) = True"
| "is_path (Indir e) = True"
| "is_path _ = False"

text \<open>The type of an expression: an operator has that of its left operand.\<close>

fun vtype :: "'t btf_lib \<Rightarrow> 't compiler \<Rightarrow> expr \<Rightarrow> 't option \<times> 't member option" where
  "vtype L c (Unary f e) = vtype L c e"
| "vtype L c (Paren e) = vtype L c e"
| "vtype L c (Binary f l r) = vtype L c l"
| "vtype L c (Name x) = (ctype L c (Name x), None)"
| "vtype L c e = (ctype L c e, cmember L c e)"

text \<open>
  The value: all operands are evaluated, and none is there when a null pointer is in the way.
\<close>

fun sem :: "helpers \<Rightarrow> 't btf_lib \<Rightarrow> 't compiler \<Rightarrow> u64 list \<Rightarrow> expr \<Rightarrow> u64 option" where
  "sem h L c args (Name x) = map_option ((!) args) (slices_Index (c_vars c) x)"
| "sem h L c args (Unary f e) = map_option (unop_val f) (sem h L c args e)"
| "sem h L c args (Paren e) = sem h L c args e"
| "sem h L c args (Binary f l r) = Option.bind (sem h L c args l) (\<lambda>a.
     map_option (binary_val L (fst (vtype L c l)) f a)
       (case the_Number r of None \<Rightarrow> sem h L c args r | Some _ \<Rightarrow> number_of r))"
| "sem h L c args e = map_option (cut L (ctype L c e) (cmember L c e)) (path_value h L c args e)"

text \<open>
  The expressions whose code is that of C: variables, paths, and operators on them, with a number on the right
  only, and without a division by a register.
\<close>

definition path_ok :: "'t btf_lib \<Rightarrow> 't compiler \<Rightarrow> expr \<Rightarrow> bool" where
  "path_ok L c e \<longleftrightarrow> path_wf L c e \<and> cut_ok L (ctype L c e) (cmember L c e) \<and>
     (case accessMemory L e c of Inl _ \<Rightarrow> True | Inr (res, _) \<Rightarrow> list_all offset_small (r_offsets res))"

fun fragment :: "'t btf_lib \<Rightarrow> 't compiler \<Rightarrow> expr \<Rightarrow> bool" where
  "fragment L c (Name x) \<longleftrightarrow> x \<notin> {''NULL'', ''false'', ''true''} \<and> slices_Index (c_vars c) x \<noteq> None"
| "fragment L c (Unary f e) \<longleftrightarrow> fragment L c e"
| "fragment L c (Paren e) \<longleftrightarrow> fragment L c e"
| "fragment L c (Binary f l r) \<longleftrightarrow> fragment L c l \<and>
     (case the_Number r of
        None \<Rightarrow> f \<noteq> Op_Div \<and> fragment L c r
      | Some _ \<Rightarrow> (case number_of r of None \<Rightarrow> False
          | Some n \<Rightarrow> const_ok f L (fst (vtype L c l)) (snd (vtype L c l)) n))"
| "fragment L c e \<longleftrightarrow> is_path e \<and> path_ok L c e"

text \<open>The registers an expression needs at the same time, and the callee-saved ones that are free.\<close>

fun regs_needed :: "expr \<Rightarrow> nat" where
  "regs_needed (Unary f e) = regs_needed e"
| "regs_needed (Paren e) = regs_needed e"
| "regs_needed (Binary f l r) = (case the_Number r of
     None \<Rightarrow> max (regs_needed l) (Suc (regs_needed r)) | Some _ \<Rightarrow> regs_needed l)"
| "regs_needed e = 1"

definition room :: "'t compiler \<Rightarrow> nat" where
  "room c = length (filter (\<lambda>r. \<not> c_regs c r) [R8, R7, R6])"

section \<open>Allocation\<close>

lemma Alloc_room:
  assumes "0 < room c"
  obtains r where "Alloc c = Inr (r, c\<lparr>c_regs := (c_regs c)(r := True)\<rparr>)" "r \<in> {R6, R7, R8}" "\<not> c_regs c r"
    "Suc (room (c\<lparr>c_regs := (c_regs c)(r := True)\<rparr>)) = room c"
proof -
  consider "\<not> c_regs c R8" | "c_regs c R8" "\<not> c_regs c R7" | "c_regs c R8" "c_regs c R7" "\<not> c_regs c R6"
    using assms by (auto simp: room_def split: if_splits)
  then show ?thesis
  proof cases
    case 1
    then show ?thesis by (intro that [of R8]) (simp_all add: Alloc_def room_def)
  next
    case 2
    then show ?thesis by (intro that [of R7]) (simp_all add: Alloc_def room_def)
  next
    case 3
    then show ?thesis by (intro that [of R6]) (simp_all add: Alloc_def room_def)
  qed
qed

lemma Alloc_emitted: "Alloc c = Inr (r, c1) \<Longrightarrow> Alloc (emitted c code u) = Inr (r, emitted c1 code u)"
  by (simp only: Alloc_def emitted_sel split: option.splits) (auto simp: emitted_def simp del: find.simps)

lemma room_emitted [simp]: "room (emitted c code u) = room c"
  by (simp add: room_def)

lemma callers_free_emitted [simp]: "callers_free (emitted c code u) = callers_free c"
  by (simp add: callers_free_def)

lemma callers_free_Alloc: "callers_free c \<Longrightarrow> r \<in> {R6, R7, R8} \<Longrightarrow> callers_free (c\<lparr>c_regs := (c_regs c)(r := True)\<rparr>)"
  by (auto simp: callers_free_def callee_saved_def)

section \<open>Only the variables matter\<close>

definition same_vars :: "'t compiler \<Rightarrow> 't compiler \<Rightarrow> bool" where
  "same_vars c c' \<longleftrightarrow> c_vars c' = c_vars c \<and> c_btfs c' = c_btfs c"

lemma same_vars_simps [simp]:
  "same_vars c (emitted c code u)" "same_vars c (c\<lparr>c_regs := rs\<rparr>)" "same_vars c (emitted (c\<lparr>c_regs := rs\<rparr>) code u)"
  by (simp_all add: same_vars_def)

lemma same_varsD: "same_vars c c' \<Longrightarrow> c_vars c' = c_vars c" "same_vars c c' \<Longrightarrow> c_btfs c' = c_btfs c"
  by (simp_all add: same_vars_def)

lemma ctype_same: "same_vars c c' \<Longrightarrow> ctype L c' e = ctype L c e"
  by (induction e) (simp_all add: same_varsD, auto)

lemma cmember_same: "same_vars c c' \<Longrightarrow> cmember L c' e = cmember L c e"
  by (induction e) (simp_all add: ctype_same)

lemma csem_same: "same_vars c c' \<Longrightarrow> csem h L c' args e = csem h L c args e"
proof (induction e)
  case (Binary f l r)
  then show ?case by (simp only: csem.simps ctype_same)
qed (simp_all add: ctype_same same_varsD)

lemma path_wf_same: "same_vars c c' \<Longrightarrow> path_wf L c' e = path_wf L c e"
  by (induction e) (simp_all add: ctype_same del: ctype.simps, auto)

lemma vtype_same: "same_vars c c' \<Longrightarrow> vtype L c' e = vtype L c e"
  by (induction e) (simp_all add: ctype_same cmember_same del: ctype.simps cmember.simps)

lemma sem_same: "same_vars c c' \<Longrightarrow> sem h L c' args e = sem h L c args e"
  by (induction e)
    (simp_all add: ctype_same cmember_same csem_same vtype_same path_value_def same_varsD
      del: ctype.simps cmember.simps csem.simps vtype.simps split: option.split)

lemma accessMemory_same:
  assumes same: "same_vars c c'" and L: "lib_ok L"
  shows "path_wf L c e \<Longrightarrow> accessMemory L e c' = map_sum id (\<lambda>(res, _). (res, c')) (accessMemory L e c)"
proof (induction e)
  case (Name x)
  then show ?case
    using same by (cases "slices_Index (c_vars c) x") (simp_all add: access_name_def same_varsD)
next
  case (Binary f l r)
  show ?case
  proof (cases "f = Op_Add \<and> the_Number l \<noteq> None")
    case True
    with Binary have "accessMemory L r c' = map_sum id (\<lambda>(res, _). (res, c')) (accessMemory L r c)" by (simp add: id_def)
    with True show ?thesis
      by (cases "accessMemory L r c"; cases "number_res (parseNumber (the (the_Number l)))") (auto simp: bind_res_def split: sum.split)
  next
    case False
    with Binary have f: "f = Op_Add \<and> the_Number l = None \<or> f = Op_Sub"
      and ih: "accessMemory L l c' = map_sum id (\<lambda>(res, _). (res, c')) (accessMemory L l c)" by (auto simp: id_def)
    show ?thesis
    proof (cases "the_Number r")
      case None
      with f show ?thesis by auto
    next
      case (Some n)
      with f ih show ?thesis
        by (cases "accessMemory L l c"; cases "number_res (parseNumber n)") (elim disjE; auto simp: bind_res_def split: sum.split)+
    qed
  qed
qed (auto simp: bind_res_def split: sum.splits option.splits)

lemma path_ok_same: "same_vars c c' \<Longrightarrow> lib_ok L \<Longrightarrow> path_ok L c' e = path_ok L c e"
  by (auto simp: path_ok_def path_wf_same ctype_same cmember_same accessMemory_same split: sum.splits)

lemma fragment_same: "same_vars c c' \<Longrightarrow> lib_ok L \<Longrightarrow> fragment L c' e = fragment L c e"
  by (induction e) (simp_all add: same_varsD vtype_same path_ok_same del: vtype.simps split: option.split)

section \<open>The code computes the value\<close>

text \<open>
  What compiled code has to satisfy: it computes the value into its register, keeping the registers in use;
  and there is a value when the code has no jump to the exit label.
\<close>

definition code_ok :: "'t btf_lib \<Rightarrow> 't compiler \<Rightarrow> expr \<Rightarrow> reg \<Rightarrow> instructions \<Rightarrow> bool \<Rightarrow> bool" where
  "code_ok L c e r code used \<longleftrightarrow>
     (\<forall>h args. length (c_vars c) \<le> length args \<longrightarrow> length (c_vars c) \<le> 4096 \<longrightarrow>
        (\<not> used \<longrightarrow> sem h L c args e \<noteq> None) \<and>
        (\<forall>m K. K \<subseteq> callee_saved \<longrightarrow> {R9, RFP} \<subseteq> K \<longrightarrow> K \<subseteq> {s. c_regs c s} \<union> {R9, RFP} \<longrightarrow> args_ctx args m \<longrightarrow>
           c_labelExit c \<noteq> [] \<longrightarrow> computes h (c_labelExit c) code K r m (sem h L c args e)))"

lemma code_ok_value:
  "code_ok L c e r code False \<Longrightarrow> length (c_vars c) \<le> length args \<Longrightarrow> length (c_vars c) \<le> 4096 \<Longrightarrow>
     \<exists>w. sem h L c args e = Some w"
  by (auto simp: code_ok_def)

lemma code_ok_computes:
  assumes "code_ok L c e r code u" "length (c_vars c) \<le> length args" "length (c_vars c) \<le> 4096" "K \<subseteq> callee_saved"
    "{R9, RFP} \<subseteq> K" "K \<subseteq> {s. c_regs c s} \<union> {R9, RFP}" "args_ctx args m" "c_labelExit c \<noteq> []"
  shows "computes h (c_labelExit c) code K r m (sem h L c args e)"
  using assms unfolding code_ok_def by blast

definition unlabelled :: "instructions \<Rightarrow> bool" where
  "unlabelled code \<longleftrightarrow> list_all (\<lambda>i. ins_symbol i = []) code"

lemma unlabelled_simps [simp]:
  "unlabelled []" "unlabelled (i # is) \<longleftrightarrow> ins_symbol i = [] \<and> unlabelled is"
  "unlabelled (xs @ ys) \<longleftrightarrow> unlabelled xs \<and> unlabelled ys" "unlabelled (map plain ops)"
  "unlabelled (map (plain \<circ> g) zs)" "ins_symbol (plain x) = []"
  by (auto simp: unlabelled_def list_all_iff plain_def)

lemma unlabelled_probe_code [simp]: "unlabelled (probe_code label offsets r)"
  by (induction label offsets r rule: probe_code.induct) (simp_all add: JEq_Imm_Label_def)

lemma unlabelled_access_code [simp]: "unlabelled (access_code L label res r)"
  by (simp add: access_code_def)

definition eval_ok :: "'t btf_lib \<Rightarrow> 't compiler \<Rightarrow> expr \<Rightarrow> 't evalValue \<Rightarrow> 't compiler \<Rightarrow> bool" where
  "eval_ok L c e v c' \<longleftrightarrow> (\<exists>r code used.
     Alloc c = Inr (r, c\<lparr>c_regs := (c_regs c)(r := True)\<rparr>) \<and> r \<in> {R6, R7, R8} \<and> \<not> c_regs c r \<and>
     reg_like v r (fst (vtype L c e)) (snd (vtype L c e)) \<and>
     c' = emitted (c\<lparr>c_regs := (c_regs c)(r := True)\<rparr>) code used \<and> unlabelled code \<and>
     code_ok L c e r code used)"

text \<open>
  An operator ends in instructions of its own; the code before them computes nothing when there is no value. The
  last instruction is where a null pointer leaves for in a filter.
\<close>

fun last_code :: "expr \<Rightarrow> reg \<Rightarrow> opcode" where
  "last_code (Binary f l r) s = (if f = Op_OrOr \<and> the_Number r = None then Mov_Imm s 1 else Alu_Reg ALU_Xor s s)"
| "last_code _ s = Alu_Reg ALU_Xor s s"

definition front_ok :: "'t btf_lib \<Rightarrow> 't compiler \<Rightarrow> expr \<Rightarrow> reg \<Rightarrow> instructions \<Rightarrow> bool" where
  "front_ok L c e r code \<longleftrightarrow>
     (\<exists>front ops. code = front @ map plain ops \<and> (supported_op e \<longrightarrow> ops \<noteq> [] \<and> last ops = last_code e r) \<and>
        (\<forall>h args m K. length (c_vars c) \<le> length args \<longrightarrow> length (c_vars c) \<le> 4096 \<longrightarrow>
           K \<subseteq> callee_saved \<longrightarrow> {R9, RFP} \<subseteq> K \<longrightarrow> K \<subseteq> {s. c_regs c s} \<union> {R9, RFP} \<longrightarrow> args_ctx args m \<longrightarrow>
           c_labelExit c \<noteq> [] \<longrightarrow> sem h L c args e = None \<longrightarrow> computes h (c_labelExit c) front K r m None))"

definition eval_top :: "'t btf_lib \<Rightarrow> 't compiler \<Rightarrow> expr \<Rightarrow> 't evalValue \<Rightarrow> 't compiler \<Rightarrow> bool" where
  "eval_top L c e v c' \<longleftrightarrow> (\<exists>r code used.
     Alloc c = Inr (r, c\<lparr>c_regs := (c_regs c)(r := True)\<rparr>) \<and> r \<in> {R6, R7, R8} \<and> \<not> c_regs c r \<and>
     reg_like v r (fst (vtype L c e)) (snd (vtype L c e)) \<and>
     c' = emitted (c\<lparr>c_regs := (c_regs c)(r := True)\<rparr>) code used \<and> unlabelled code \<and>
     code_ok L c e r code used \<and> front_ok L c e r code)"

lemma eval_top_ok: "eval_top L c e v c' \<Longrightarrow> eval_ok L c e v c'"
  unfolding eval_top_def eval_ok_def by blast

lemma not_in_K: "K \<subseteq> {s. c_regs c s} \<union> {R9, RFP} \<Longrightarrow> \<not> c_regs c r \<Longrightarrow> r \<in> {R6, R7, R8} \<Longrightarrow> r \<notin> K"
  by auto

lemma eval_ok_name:
  assumes x: "fragment L c (Name x)" and ev: "eval L (Name x) c = Inr (v, c')" and room: "0 < room c"
  shows "eval_ok L c (Name x) v c'"
proof -
  from x obtain i where i: "slices_Index (c_vars c) x = Some i" by auto
  then have len: "i < length (c_vars c)" using slices_Index_Some by blast
  from Alloc_room [OF room] obtain r where r: "Alloc c = Inr (r, c\<lparr>c_regs := (c_regs c)(r := True)\<rparr>)" "r \<in> {R6, R7, R8}" "\<not> c_regs c r"
    by blast
  let ?code = "[plain (LoadMem r R9 (of_nat (i * 8)))]"
  have "v = reg_value r (Some (c_btfs c ! i)) None" "c' = emitted (c\<lparr>c_regs := (c_regs c)(r := True)\<rparr>) ?code False"
    using ev x i r(1) by (auto simp: eval_name_def emitLoadArg_def emit_emitted argsReg_def)
  moreover have "code_ok L c (Name x) r ?code False"
    unfolding code_ok_def
  proof (intro allI impI conjI)
    fix h and args :: "u64 list" and m K
    assume a: "length (c_vars c) \<le> length args" "length (c_vars c) \<le> 4096" "K \<subseteq> {s. c_regs c s} \<union> {R9, RFP}" "args_ctx args m"
    have "kept K m (set_reg r (Scalar (args ! i)) m)" using not_in_K [OF a(3) r(3,2)] by simp
    with load_var [of args m i] a len i show "computes h (c_labelExit c) ?code K r m (sem h L c args (Name x))"
      by (auto intro!: computes_block simp del: block.simps)
  qed (simp add: i)
  ultimately show ?thesis using r i unfolding eval_ok_def by (intro exI [of _ r] exI [of _ ?code] exI [of _ False]) (simp add: plain_def)
qed

lemma eval_ok_path:
  assumes e: "is_path e" "fragment L c e" and ev: "eval L e c = Inr (v, c')" and room: "0 < room c"
    and mode: "c_memMode c = ProbeRead" and free: "callers_free c" and L: "lib_ok L"
  shows "eval_ok L c e v c'"
proof -
  from e have ok: "path_ok L c e" by (cases e) auto
  have ev': "bind_res (accessMemory L e c) (\<lambda>(res, c). access_value L res c) = Inr (v, c')"
    using e ev by (cases e) (simp_all del: accessMemory.simps)
  then obtain res c2 where res2: "accessMemory L e c = Inr (res, c2)" "access_value L res c2 = Inr (v, c')"
    by (auto simp: bind_res_Inr)
  with accessMemory_inv [OF L res2(1)] ok have res: "accessMemory L e c = Inr (res, c)" "access_value L res c = Inr (v, c')"
    and inv: "path_inv L c e res" by (simp_all add: path_ok_def)
  from Alloc_room [OF room] obtain r where r: "Alloc c = Inr (r, c\<lparr>c_regs := (c_regs c)(r := True)\<rparr>)" "r \<in> {R6, R7, R8}" "\<not> c_regs c r"
    by blast
  then have rs: "r \<in> callee_saved" by (auto simp: callee_saved_def)
  have ty: "ctype L c e = Some (r_btf res)" "cmember L c e = r_mem res" "nat (r_idx res) < length (c_vars c)"
    using inv by (simp_all add: path_inv_def)
  have vt: "vtype L c e = (ctype L c e, cmember L c e)" using e(1) by (cases e) simp_all
  have sem: "sem h L c args e = map_option (cut L (Some (r_btf res)) (r_mem res)) (path_value h L c args e)" for h args
    using e(1) ty by (cases e) (simp_all del: ctype.simps cmember.simps)
  note code = access_value_code [OF res(2) inv mode free r(1) rs]
  have "code_ok L c e r (access_code L (c_labelExit c) res r) (may_exit (r_offsets res))"
    unfolding code_ok_def
  proof (intro allI impI conjI)
    fix h and args :: "u64 list"
    assume "\<not> may_exit (r_offsets res)"
    then show "sem h L c args e \<noteq> None" by (simp add: sem path_inv_value [OF inv] path_result_no_exit)
  next
    fix h and args :: "u64 list" and m K
    assume "length (c_vars c) \<le> length args" "length (c_vars c) \<le> 4096" "K \<subseteq> callee_saved" "{R9, RFP} \<subseteq> K"
      "K \<subseteq> {s. c_regs c s} \<union> {R9, RFP}" "args_ctx args m" "c_labelExit c \<noteq> []"
    with ok res(1) ty r show "computes h (c_labelExit c) (access_code L (c_labelExit c) res r) K r m (sem h L c args e)"
      unfolding sem by (intro computes_access_code [OF inv _ _ _ _ _ rs]) (auto simp: path_ok_def)
  qed
  with code r ty vt show ?thesis
    unfolding eval_ok_def
    by (intro exI [of _ r] exI [of _ "access_code L (c_labelExit c) res r"] exI [of _ "may_exit (r_offsets res)"]) simp
qed

text \<open>An operator behind its operands.\<close>

lemma eval_top_regs:
  assumes l: "eval_ok L c l lv c1" and r: "eval_ok L c1 r rv c2"
    and f: "f \<noteq> Op_Div" "the_Number r = None" and b: "cc_binary f L c2 lv rv = Inr (v, c')" and L: "lib_ok L"
  shows "eval_top L c (Binary f l r) v c'"
proof -
  from l obtain rl xs u where l': "Alloc c = Inr (rl, c\<lparr>c_regs := (c_regs c)(rl := True)\<rparr>)" "rl \<in> {R6, R7, R8}" "\<not> c_regs c rl"
    "reg_like lv rl (fst (vtype L c l)) (snd (vtype L c l))" "code_ok L c l rl xs u" "unlabelled xs"
    and c1: "c1 = emitted (c\<lparr>c_regs := (c_regs c)(rl := True)\<rparr>) xs u"
    unfolding eval_ok_def by blast
  from r obtain rr ys w where r': "rr \<in> {R6, R7, R8}" "\<not> c_regs c1 rr"
    "reg_like rv rr (fst (vtype L c1 r)) (snd (vtype L c1 r))" "code_ok L c1 r rr ys w" "unlabelled ys"
    and c2: "c2 = emitted (c1\<lparr>c_regs := (c_regs c1)(rr := True)\<rparr>) ys w"
    unfolding eval_ok_def by blast
  have same: "same_vars c c1" by (simp add: c1)
  have c1s: "c_vars c1 = c_vars c" "c_labelExit c1 = c_labelExit c" "c_regs c1 = (c_regs c)(rl := True)"
    by (simp_all add: c1)
  let ?t = "fst (vtype L c l)"
  let ?zs = "map plain (regs_code f (elem_size L ?t) rl rr)"
  from cc_binary_regs [OF b l'(4) r'(3)]
  have v: "reg_like v rl ?t (snd (vtype L c l))" and c': "c' = after_regs c2 (regs_code f (elem_size L ?t) rl rr) rr"
    by blast+
  have rr: "rr \<noteq> rl" "\<not> c_regs c rr" using r'(2) by (auto simp: c1 split: if_splits)
  have "c' = emitted (c\<lparr>c_regs := (c_regs c)(rl := True)\<rparr>) (xs @ ys @ ?zs) (u \<or> w)"
    using rr by (simp add: c' c2 c1 after_regs_def Free_def emit_emitted emitted_def fun_upd_idem fun_upd_twist)
  moreover have operands: "computes h (c_labelExit c) (xs @ ys @ zs) K rl m
        (Option.bind (sem h L c args l) (\<lambda>x. map_option (g x) (sem h L c args r)))"
    if a: "length (c_vars c) \<le> length args" "length (c_vars c) \<le> 4096" "K \<subseteq> callee_saved" "{R9, RFP} \<subseteq> K"
      "K \<subseteq> {s. c_regs c s} \<union> {R9, RFP}" "args_ctx args m" "c_labelExit c \<noteq> []"
      and zs: "\<And>m' x y. kept K m m' \<Longrightarrow> m_regs m' rl = Some (Scalar x) \<Longrightarrow> m_regs m' rr = Some (Scalar y) \<Longrightarrow>
        computes h (c_labelExit c) zs K rl m' (Some (g x y))"
    for h args m K zs g
  proof (rule computes_both [where s = rr])
    have rl: "rl \<in> callee_saved" using l'(2) by (auto simp: callee_saved_def)
    show "computes h (c_labelExit c) xs K rl m (sem h L c args l)" by (rule code_ok_computes [OF l'(5) a])
    show "computes h (c_labelExit c) ys (insert rl K) rr m' (sem h L c args r)"
      if m': "kept K m m'" "m_regs m' rl = Some (Scalar x)" for m' x
    proof -
      have "args_ctx args m'" using a(4,6) m'(1) by (blast intro: kept_args_ctx)
      moreover have "insert rl K \<subseteq> {s. c_regs c1 s} \<union> {R9, RFP}" using a(5) by (auto simp: c1s)
      ultimately show ?thesis
        using code_ok_computes [OF r'(4), of args "insert rl K" m' h] a rl by (auto simp: sem_same [OF same] c1s)
    qed
  qed (rule zs)
  moreover have "code_ok L c (Binary f l r) rl (xs @ ys @ ?zs) (u \<or> w)"
    unfolding code_ok_def
  proof (intro allI impI conjI)
    fix h and args :: "u64 list"
    assume "length (c_vars c) \<le> length args" "length (c_vars c) \<le> 4096" "\<not> (u \<or> w)"
    with code_ok_value [of L c l rl xs args h] code_ok_value [of L c1 r rr ys args h] l'(5) r'(4)
    obtain a b where "sem h L c args l = Some a" "sem h L c args r = Some b"
      by (auto simp: sem_same [OF same] c1s)
    then show "sem h L c args (Binary f l r) \<noteq> None" using f(2) by simp
  next
    fix h and args :: "u64 list" and m K
    assume a: "length (c_vars c) \<le> length args" "length (c_vars c) \<le> 4096" "K \<subseteq> callee_saved" "{R9, RFP} \<subseteq> K"
      "K \<subseteq> {s. c_regs c s} \<union> {R9, RFP}" "args_ctx args m" "c_labelExit c \<noteq> []"
    have "rl \<notin> K" "rr \<notin> K" using not_in_K [OF a(5) l'(3,2)] not_in_K [OF a(5) rr(2) r'(1)] by auto
    then have "computes h (c_labelExit c) (xs @ ys @ ?zs) K rl m
        (Option.bind (sem h L c args l) (\<lambda>x. map_option (binary_val L ?t f x) (sem h L c args r)))"
      using computes_regs_code [OF f(1) refl L] rr(1) by (intro operands [OF a]) blast
    then show "computes h (c_labelExit c) (xs @ ys @ ?zs) K rl m (sem h L c args (Binary f l r))" using f(2) by simp
  qed
  moreover have "front_ok L c (Binary f l r) rl (xs @ ys @ ?zs)"
    unfolding front_ok_def
  proof (rule exI [of _ "xs @ ys"], rule exI [of _ "regs_code f (elem_size L ?t) rl rr"], intro conjI allI impI)
    fix h and args :: "u64 list" and m K
    assume a: "length (c_vars c) \<le> length args" "length (c_vars c) \<le> 4096" "K \<subseteq> callee_saved" "{R9, RFP} \<subseteq> K"
      "K \<subseteq> {s. c_regs c s} \<union> {R9, RFP}" "args_ctx args m" "c_labelExit c \<noteq> []"
      and none: "sem h L c args (Binary f l r) = None"
    have "computes h (c_labelExit c) (xs @ ys @ map plain []) K rl m
        (Option.bind (sem h L c args l) (\<lambda>x. map_option (\<lambda>y. x) (sem h L c args r)))"
      by (rule operands [OF a]) (rule computes_Nil, simp_all)
    moreover have "Option.bind (sem h L c args l) (\<lambda>x. map_option (\<lambda>y. x) (sem h L c args r)) = None"
      using none f(2) by (cases "sem h L c args l") auto
    ultimately show "computes h (c_labelExit c) (xs @ ys) K rl m None" by simp
  next
    assume "supported_op (Binary f l r)"
    then show "regs_code f (elem_size L ?t) rl rr \<noteq> []"
      "last (regs_code f (elem_size L ?t) rl rr) = last_code (Binary f l r) rl"
      using f(2) by (auto simp: regs_code_def Let_def)
  qed simp
  ultimately show ?thesis using l' r' v unfolding eval_top_def
    by (intro exI [of _ rl] exI [of _ "xs @ ys @ ?zs"] exI [of _ "u \<or> w"]) simp
qed

lemma eval_top_num:
  assumes l: "eval_ok L c l lv c1" and r: "v_typ rv = Num_value" "v_num rv = n" "number_of r = Some n"
    and n: "const_ok f L (fst (vtype L c l)) (snd (vtype L c l)) n" and b: "cc_binary f L c1 lv rv = Inr (v, c')" and L: "lib_ok L"
  shows "eval_top L c (Binary f l r) v c'"
proof -
  from l obtain rl xs u where l': "Alloc c = Inr (rl, c\<lparr>c_regs := (c_regs c)(rl := True)\<rparr>)" "rl \<in> {R6, R7, R8}" "\<not> c_regs c rl"
    "reg_like lv rl (fst (vtype L c l)) (snd (vtype L c l))" "code_ok L c l rl xs u" "unlabelled xs"
    and c1: "c1 = emitted (c\<lparr>c_regs := (c_regs c)(rl := True)\<rparr>) xs u"
    unfolding eval_ok_def by blast
  let ?t = "fst (vtype L c l)"
  let ?zs = "map plain (num_code f (elem_size L ?t) rl n)"
  from cc_binary_num [OF b l'(4) r(1,2) n L]
  have v: "reg_like v rl ?t (snd (vtype L c l))" and c': "c' = emit (num_code f (elem_size L ?t) rl n) c1"
    by blast+
  from r(3) have num: "the_Number r \<noteq> None" by (cases "the_Number r") (simp_all add: number_of_def)
  then have sem: "sem h L c args (Binary f l r) = map_option (\<lambda>x. binary_val L ?t f x n) (sem h L c args l)" for h args
    using r(3) by (auto simp: map_conv_bind_option comp_def)
  have "code_ok L c (Binary f l r) rl (xs @ ?zs) u"
    unfolding code_ok_def
  proof (intro allI impI conjI)
    fix h and args :: "u64 list"
    assume "length (c_vars c) \<le> length args" "length (c_vars c) \<le> 4096" "\<not> u"
    with code_ok_value [of L c l rl xs args h] l'(5) obtain x where "sem h L c args l = Some x" by auto
    then show "sem h L c args (Binary f l r) \<noteq> None" unfolding sem by simp
  next
    fix h and args :: "u64 list" and m K
    assume a: "length (c_vars c) \<le> length args" "length (c_vars c) \<le> 4096" "K \<subseteq> callee_saved" "{R9, RFP} \<subseteq> K"
      "K \<subseteq> {s. c_regs c s} \<union> {R9, RFP}" "args_ctx args m" "c_labelExit c \<noteq> []"
    have "computes h (c_labelExit c) (xs @ ?zs) K rl m
        (Option.bind (sem h L c args l) (\<lambda>x. Some (binary_val L ?t f x n)))"
      by (rule computes_then [OF code_ok_computes [OF l'(5) a]], rule computes_num_code [OF n])
        (use not_in_K [OF a(5) l'(3,2)] in simp_all)
    then show "computes h (c_labelExit c) (xs @ ?zs) K rl m (sem h L c args (Binary f l r))"
      unfolding sem by (simp add: map_conv_bind_option comp_def)
  qed
  moreover have "front_ok L c (Binary f l r) rl (xs @ ?zs)"
    unfolding front_ok_def
  proof (rule exI [of _ xs], rule exI [of _ "num_code f (elem_size L ?t) rl n"], intro conjI allI impI)
    fix h and args :: "u64 list" and m K
    assume a: "length (c_vars c) \<le> length args" "length (c_vars c) \<le> 4096" "K \<subseteq> callee_saved" "{R9, RFP} \<subseteq> K"
      "K \<subseteq> {s. c_regs c s} \<union> {R9, RFP}" "args_ctx args m" "c_labelExit c \<noteq> []"
      and none: "sem h L c args (Binary f l r) = None"
    from code_ok_computes [OF l'(5) a, of h] none show "computes h (c_labelExit c) xs K rl m None"
      by (simp only: sem option.map_disc_iff)
  next
    assume "supported_op (Binary f l r)"
    then show "num_code f (elem_size L ?t) rl n \<noteq> []" "last (num_code f (elem_size L ?t) rl n) = last_code (Binary f l r) rl"
      using num by (auto simp: num_code_def Let_def)
  qed simp
  moreover have "c' = emitted (c\<lparr>c_regs := (c_regs c)(rl := True)\<rparr>) (xs @ ?zs) u" by (simp add: c' c1 emit_emitted)
  ultimately show ?thesis using l' v unfolding eval_top_def by (intro exI [of _ rl] exI [of _ "xs @ ?zs"] exI [of _ u]) simp
qed

lemma eval_top_unary:
  assumes e: "eval_ok L c e v c1" and u: "cc_unary f L c1 v = Inr (v', c')"
  shows "eval_top L c (Unary f e) v' c'"
proof -
  from e obtain r xs w where e': "Alloc c = Inr (r, c\<lparr>c_regs := (c_regs c)(r := True)\<rparr>)" "r \<in> {R6, R7, R8}" "\<not> c_regs c r"
    "reg_like v r (fst (vtype L c e)) (snd (vtype L c e))" "code_ok L c e r xs w" "unlabelled xs"
    and c1: "c1 = emitted (c\<lparr>c_regs := (c_regs c)(r := True)\<rparr>) xs w"
    unfolding eval_ok_def by blast
  let ?zs = "map plain (unop_code f r)"
  have "code_ok L c (Unary f e) r (xs @ ?zs) w"
    unfolding code_ok_def
  proof (intro allI impI conjI)
    fix h and args :: "u64 list"
    assume "length (c_vars c) \<le> length args" "length (c_vars c) \<le> 4096" "\<not> w"
    with code_ok_value [of L c e r xs args h] e'(5) show "sem h L c args (Unary f e) \<noteq> None" by auto
  next
    fix h and args :: "u64 list" and m K
    assume a: "length (c_vars c) \<le> length args" "length (c_vars c) \<le> 4096" "K \<subseteq> callee_saved" "{R9, RFP} \<subseteq> K"
      "K \<subseteq> {s. c_regs c s} \<union> {R9, RFP}" "args_ctx args m" "c_labelExit c \<noteq> []"
    have "computes h (c_labelExit c) (xs @ ?zs) K r m (Option.bind (sem h L c args e) (\<lambda>x. Some (unop_val f x)))"
      by (rule computes_then [OF code_ok_computes [OF e'(5) a]], rule computes_unop_code)
        (use not_in_K [OF a(5) e'(3,2)] in simp_all)
    then show "computes h (c_labelExit c) (xs @ ?zs) K r m (sem h L c args (Unary f e))"
      by (simp add: map_conv_bind_option comp_def)
  qed
  moreover have "front_ok L c (Unary f e) r (xs @ ?zs)"
    unfolding front_ok_def
  proof (rule exI [of _ xs], rule exI [of _ "unop_code f r"], intro conjI allI impI)
    fix h and args :: "u64 list" and m K
    assume a: "length (c_vars c) \<le> length args" "length (c_vars c) \<le> 4096" "K \<subseteq> callee_saved" "{R9, RFP} \<subseteq> K"
      "K \<subseteq> {s. c_regs c s} \<union> {R9, RFP}" "args_ctx args m" "c_labelExit c \<noteq> []"
      and none: "sem h L c args (Unary f e) = None"
    from code_ok_computes [OF e'(5) a, of h] none show "computes h (c_labelExit c) xs K r m None" by simp
  qed simp_all
  moreover from cc_unary_reg [OF u e'(4)] have "c' = emitted (c\<lparr>c_regs := (c_regs c)(r := True)\<rparr>) (xs @ ?zs) w" "v' = v"
    by (simp_all add: c1 emit_emitted)
  ultimately show ?thesis using e' unfolding eval_top_def by (intro exI [of _ r] exI [of _ "xs @ ?zs"] exI [of _ w]) simp
qed

text \<open>The compiled code of every expression of the fragment.\<close>

lemma regs_needed_pos: "0 < regs_needed e"
  by (induction e) (auto split: option.splits)

lemma eval_correct:
  assumes L: "lib_ok L"
  shows "eval L e c = Inr (v, c') \<Longrightarrow> fragment L c e \<Longrightarrow> callers_free c \<Longrightarrow> c_memMode c = ProbeRead \<Longrightarrow>
     regs_needed e \<le> room c \<Longrightarrow> eval_ok L c e v c' \<and> (supported_op e \<longrightarrow> eval_top L c e v c')"
proof (induction e arbitrary: c v c')
  case (Name x)
  then show ?case using eval_ok_name [OF Name.prems(2,1)] Name.prems(5) by simp
next
  case (Unary f e)
  then obtain w c1 where "eval L e c = Inr (w, c1)" "cc_unary f L c1 w = Inr (v, c')" by (auto simp: bind_res_Inr)
  with Unary have "eval_top L c (Unary f e) v c'" by (intro eval_top_unary) auto
  then show ?case by (simp only: eval_top_ok simp_thms)
next
  case (Paren e)
  then have "eval_ok L c e v c'" by simp
  then show ?case by (simp add: eval_ok_def code_ok_def)
next
  case (Binary f l r)
  then obtain lv c1 rv c2 where ev: "eval L l c = Inr (lv, c1)" "eval L r c1 = Inr (rv, c2)" "cc_binary f L c2 lv rv = Inr (v, c')"
    by (auto simp: bind_res_Inr)
  have "regs_needed l \<le> room c" using Binary.prems(5) by (auto split: option.splits)
  with Binary ev(1) have l: "eval_ok L c l lv c1" by simp
  have "eval_top L c (Binary f l r) v c'"
  proof (cases "the_Number r")
    case None
    from l obtain rl xs u where rl: "Alloc c = Inr (rl, c\<lparr>c_regs := (c_regs c)(rl := True)\<rparr>)" "rl \<in> {R6, R7, R8}"
      and c1: "c1 = emitted (c\<lparr>c_regs := (c_regs c)(rl := True)\<rparr>) xs u"
      unfolding eval_ok_def by blast
    have "0 < room c" using Binary.prems(5) None by simp
    from Alloc_room [OF this] rl(1) have room: "Suc (room c1) = room c" by (auto simp: c1)
    have "eval_ok L c1 r rv c2"
      using Binary.prems None room rl fragment_same [of c c1 L r] L callers_free_Alloc
      by (intro conjunct1 [OF Binary.IH(2) [OF ev(2)]]) (auto simp: c1)
    from eval_top_regs [OF l this _ None ev(3) L] Binary.prems(2) None show ?thesis by simp
  next
    case (Some str)
    with Binary.prems(2) obtain n where n: "number_of r = Some n" "const_ok f L (fst (vtype L c l)) (snd (vtype L c l)) n"
      by (auto split: option.splits)
    from Some n(1) have r: "r = Number str" "parseNumber str = Inr n"
      by (cases r; simp add: number_of_def split: sum.splits)+
    with ev(2) have "v_typ rv = Num_value" "v_num rv = n" and c2: "c2 = c1"
      by (auto simp: number_res_def num_value_def)
    then show ?thesis using eval_top_num [OF l _ _ n _ L] ev(3) by (simp only:)
  qed
  then show ?case by (simp only: eval_top_ok simp_thms)
qed (use eval_ok_path [OF _ _ _ _ _ _ L] in \<open>auto simp del: eval.simps\<close>)

end
