(* ===== verification/Cc_Props.thy ===== *)
theory Cc_Props
  imports Cc_Filter
begin

text \<open>
  Compiled filters compute the value of their expression (\<^verbatim>\<open>internal/cc/expr.go\<close>), and what the compiler makes of
  single expressions.
\<close>

section \<open>The program of a filter\<close>

lemma find_symbol_marked:
  "unlabelled xs \<Longrightarrow> label \<noteq> [] \<Longrightarrow> ins_symbol i = label \<Longrightarrow> find_symbol label (xs @ i # ys) = Some (length xs)"
  by (induction xs) auto

lemma exec_result:
  assumes "code_at prog pos (map plain [Mov_Reg R0 r, Return])" "m_regs m r = Some v"
  shows "exec h subs prog 2 pos m = Halted (set_reg R0 v m)"
  using assms by (simp add: numeral_2_eq_2 plain_sel)

lemma exec_last_code:
  assumes "code_at prog pos (map plain [last_code e r])" "m_regs m r = Some (Scalar w)"
  shows "leads h subs prog pos m (Suc pos) (set_reg r (Scalar (if last_code e r = Mov_Imm r 1 then 1 else 0)) m)"
proof (rule leads_Next)
  show "pos < length prog" using assms(1) by simp
  have "last_code e r = Mov_Imm r 1 \<or> last_code e r = Alu_Reg ALU_Xor r r" by (cases e) simp_all
  then show "step h subs (ins_op (prog ! pos)) (ins_reference (prog ! pos)) m =
      Next (set_reg r (Scalar (if last_code e r = Mov_Imm r 1 then 1 else 0)) m)"
    using assms by (auto simp: plain_sel the_scalar_def)
qed

text \<open>The exit label names the last instruction, but does not change what is executed.\<close>

definition marked :: "string \<Rightarrow> bool \<Rightarrow> instructions \<Rightarrow> instructions" where
  "marked label used code = (if used then butlast code @ [last code\<lparr>ins_symbol := label\<rparr>] else code)"

lemma length_marked: "code \<noteq> [] \<Longrightarrow> length (marked label used code) = length code"
  by (simp add: marked_def)

lemma code_at_ops:
  "length xs = length ys \<Longrightarrow> list_all2 (\<lambda>i j. ins_op i = ins_op j \<and> ins_reference i = ins_reference j) xs ys \<Longrightarrow>
     code_at prog pos xs \<longleftrightarrow> code_at prog pos ys"
  by (induction xs ys arbitrary: pos rule: list_induct2) auto

lemma code_at_marked: "code \<noteq> [] \<Longrightarrow> code_at prog pos (marked label used code) \<longleftrightarrow> code_at prog pos code"
proof (rule code_at_ops)
  assume c: "code \<noteq> []"
  then show "length (marked label used code) = length code" by (rule length_marked)
  have "list_all2 (\<lambda>i j. ins_op i = ins_op j \<and> ins_reference i = ins_reference j)
      (butlast code @ [last code\<lparr>ins_symbol := label\<rparr>]) (butlast code @ [last code])"
    by (intro list_all2_appendI) (simp_all add: list_all2_refl)
  with c show "list_all2 (\<lambda>i j. ins_op i = ins_op j \<and> ins_reference i = ins_reference j) (marked label used code) code"
    by (simp add: marked_def list_all2_refl)
qed

definition filter_prog :: "string \<Rightarrow> bool \<Rightarrow> instructions \<Rightarrow> reg \<Rightarrow> instructions" where
  "filter_prog label used code r = plain (Mov_Reg R9 R1) # marked label used code @ map plain [Mov_Reg R0 r, Return]"

lemma code_at_self: "code_at (xs @ ys @ zs) (length xs) ys"
  by (simp add: code_at_def nth_append)

lemma filter_prog_parts:
  assumes "code \<noteq> []"
  shows "code_at (filter_prog label used code r) 0 (map plain [Mov_Reg R9 R1])"
    "code_at (filter_prog label used code r) 1 code"
    "code_at (filter_prog label used code r) (Suc (length code)) (map plain [Mov_Reg R0 r, Return])"
    "length (filter_prog label used code r) = length code + 3"
  using assms code_at_self [of "map plain [Mov_Reg R9 R1]" "marked label used code" "map plain [Mov_Reg R0 r, Return]"]
    code_at_self [of "plain (Mov_Reg R9 R1) # marked label used code" "map plain [Mov_Reg R0 r, Return]" "[]"]
  by (simp_all add: filter_prog_def code_at_marked length_marked)

lemma filter_prog_exit:
  assumes "code \<noteq> []" "unlabelled code" "label \<noteq> []"
  shows "find_symbol label (filter_prog label True code r) = Some (length code)"
proof -
  have u: "unlabelled (butlast code)" using assms(2) by (auto simp: unlabelled_def list_all_iff dest: in_set_butlastD)
  have "find_symbol label ((plain (Mov_Reg R9 R1) # butlast code) @ last code\<lparr>ins_symbol := label\<rparr> # map plain [Mov_Reg R0 r, Return]) =
      Some (length (plain (Mov_Reg R9 R1) # butlast code))"
    by (rule find_symbol_marked) (use u assms in simp_all)
  with assms(1) show ?thesis by (simp add: filter_prog_def marked_def)
qed

section \<open>Filters are correct\<close>

text \<open>The state in which the expression is compiled.\<close>

definition filter_start :: "'t compiler \<Rightarrow> 't compiler" where
  "filter_start c = MarkUsed R9 (emit [Mov_Reg argsReg R1] c)"

lemma newCompiler_sel:
  assumes "newCompiler params label reserved mode rdonly = Inr c"
  shows "c_vars c = map fst params" "c_btfs c = map snd params" "c_labelExit c = label" "label \<noteq> []" "c_insns c = []"
    "\<not> c_labelExitUsed c" "c_memMode c = mode" "c_regs c = (\<lambda>_. False)"
  using assms by (auto simp: newCompiler_def split: if_splits)

lemma CompileFilterExpr_code:
  assumes comp: "CompileFilterExpr L params label reserved ProbeRead rdonly e = Inr insns"
    and new: "newCompiler params label reserved ProbeRead rdonly = Inr c"
    and e: "fragment L c e" "regs_needed e \<le> 3" and L: "lib_ok L"
  obtains r code used where "insns = filter_prog label used code r" "code \<noteq> []" "unlabelled code" "r \<in> {R6, R7, R8}"
    "code_ok L (filter_start c) e r code used" "front_ok L (filter_start c) e r code" "supported_op e"
proof -
  note sel = newCompiler_sel [OF new]
  let ?c = "filter_start c"
  have start: "c_insns ?c = [plain (Mov_Reg R9 R1)]" "\<not> c_labelExitUsed ?c" "c_labelExit ?c = label" "c_memMode ?c = ProbeRead"
    "c_regs ?c = (\<lambda>r. r = R9)" "same_vars c ?c"
    using sel by (auto simp: filter_start_def MarkUsed_def emit_def emit_insns_def argsReg_def same_vars_def fun_eq_iff)
  from comp obtain v c1 where ev: "supported_op e" "eval L e ?c = Inr (v, c1)" "v_typ v \<noteq> Num_value"
    and insns: "insns = c_insns (emit [Return] (if v_reg v \<noteq> R0 then emit [Mov_Reg R0 (v_reg v)] (set_exit c1) else set_exit c1))"
    by (auto simp: CompileFilterExpr_def new cc_compile_def Let_def bind_res_Inr filter_start_def split: if_splits)
  have "callers_free ?c" "room ?c = 3" using start by (simp_all add: callers_free_def room_def callee_saved_def)
  with eval_correct [OF L ev(2)] e fragment_same [OF start(6) L] start(4) ev(1) have top: "eval_top L ?c e v c1" by simp
  then obtain r code used where r: "r \<in> {R6, R7, R8}" "reg_like v r (fst (vtype L ?c e)) (snd (vtype L ?c e))"
    and c1: "c1 = emitted (?c\<lparr>c_regs := (c_regs ?c)(r := True)\<rparr>) code used" and code: "unlabelled code"
      "code_ok L ?c e r code used" "front_ok L ?c e r code"
    unfolding eval_top_def by blast
  from code(3) ev(1) have ne: "code \<noteq> []" unfolding front_ok_def by auto
  have "v_reg v \<noteq> R0" using r by (auto simp: reg_like_def)
  then have "insns = filter_prog label used code r"
    using r(2) ne start by (simp add: insns c1 set_exit_def filter_prog_def marked_def emit_def emit_insns_def reg_like_def)
  with that r(1) ne code ev(1) show ?thesis by blast
qed

definition null_result :: "expr \<Rightarrow> u64" where
  "null_result e = (if last_code e R0 = Mov_Imm R0 1 then 1 else 0)"

lemma null_result_last: "(if last_code e r = Mov_Imm r 1 then 1 else 0) = null_result e"
  by (cases e) (simp_all add: null_result_def)

text \<open>The program at a position of a larger one; only its first instruction may carry other metadata.\<close>

lemma filter_prog_runs:
  assumes at: "pos < length prog" "ins_op (prog ! pos) = Mov_Reg R9 R1" "code_at prog (Suc pos) (code @ map plain [Mov_Reg R0 r, Return])"
    and ex: "used \<Longrightarrow> find_symbol label prog = Some (pos + length code)" and label: "c_labelExit c = label" "label \<noteq> []"
    and ok: "code_ok L c e r code used" "front_ok L c e r code" "supported_op e"
    and args: "length (c_vars c) \<le> length args" "length (c_vars c) \<le> 4096"
    and m: "m_regs m R1 = Some (PtrArgs 0)" "m_regs m RFP = Some (PtrFrame 0)" "m_args m = args" "length (m_frame m) = FRAME"
  shows "\<exists>m'. exec h subs prog (length code + 3) pos m = Halted m' \<and>
    m_regs m' R0 = Some (Scalar (case sem h L c args e of Some w \<Rightarrow> w | None \<Rightarrow> null_result e))"
proof -
  let ?K = "{R9, RFP}" and ?m = "set_reg R9 (PtrArgs 0) m"
  have at': "code_at prog (Suc pos) code" "code_at prog (Suc pos + length code) (map plain [Mov_Reg R0 r, Return])"
    using at(3) by simp_all
  have ctx: "args_ctx args ?m" using m by (simp add: args_ctx_def)
  have K: "?K \<subseteq> callee_saved" "?K \<subseteq> {s. c_regs c s} \<union> {R9, RFP}" by (auto simp: callee_saved_def)
  have first: "leads h subs prog pos m (Suc pos) ?m"
    by (rule leads_Next) (use at m(1) in simp_all)
  have finish: "\<exists>m'. exec h subs prog (length code + 3) pos m = Halted m' \<and> m_regs m' R0 = Some (Scalar w)"
    if "leads h subs prog (Suc pos) ?m (Suc pos + length code) m1" "m_regs m1 r = Some (Scalar w)" for m1 w
    using leads_end [OF leads_trans [OF first that(1)] exec_result [OF at'(2) that(2)], of "length code + 3"] by simp
  show ?thesis
  proof (cases "sem h L c args e")
    case (Some w)
    have "computes h label code ?K r ?m (Some w)"
      using code_ok_computes [OF ok(1) args K(1) _ K(2) ctx, of h] label Some by simp
    from computes_SomeE [OF this at'(1)] obtain m1
      where "leads h subs prog (Suc pos) ?m (Suc pos + length code) m1" "m_regs m1 r = Some (Scalar w)" .
    with finish Some show ?thesis by simp
  next
    case None
    have used using code_ok_value [of L c e r code args h] ok(1) args None by (cases used) simp_all
    note ex = ex [OF this]
    from ok(2,3) obtain front ops where fr: "code = front @ map plain ops" "ops \<noteq> []" "last ops = last_code e r"
      "computes h label front ?K r ?m None"
      unfolding front_ok_def using args K ctx None label by auto
    then have ops: "code = (front @ map plain (butlast ops)) @ map plain [last_code e r]"
      by (metis append.assoc append_butlast_last_id map_append)
    then have p: "Suc pos + length (front @ map plain (butlast ops)) = pos + length code" by simp
    from at'(1) have last: "code_at prog (pos + length code) (map plain [last_code e r])"
      unfolding ops code_at_append p [symmetric] by simp
    have "code_at prog (Suc pos) front" "Suc pos + length front \<le> pos + length code" using at'(1) fr(1,2)
      by (cases ops; simp)+
    from computes_NoneE [OF fr(4) this(1) ex this(2)] obtain m1 w
      where "leads h subs prog (Suc pos) ?m (pos + length code) m1" "m_regs m1 r = Some (Scalar w)" .
    from leads_trans [OF this(1) exec_last_code [OF last this(2)]]
    have "leads h subs prog (Suc pos) ?m (Suc pos + length code) (set_reg r (Scalar (null_result e)) m1)"
      by (simp add: null_result_last)
    from finish [OF this] None show ?thesis by simp
  qed
qed

lemma filter_start_sel:
  assumes "newCompiler params label reserved mode rdonly = Inr c"
  shows "c_vars (filter_start c) = map fst params" "c_labelExit (filter_start c) = label" "same_vars c (filter_start c)"
  using newCompiler_sel [OF assms] by (simp_all add: filter_start_def MarkUsed_def emit_def emit_insns_def same_vars_def)

text \<open>The operators at the top of a filter are truth values.\<close>

lemma sem_truth_value:
  assumes "supported_op e" "sem h L c args e = Some w"
  shows "w = 0 \<or> w = 1"
proof (cases e)
  case (Unary f a)
  with assms show ?thesis by auto
next
  case (Binary f l r)
  with assms show ?thesis by (auto simp: binary_val_def split: bind_splits)
qed (use assms in simp_all)


section \<open>The steps of a path are its meaning\<close>

text \<open>C11: The steps the compiler finds for a path of member accesses, indices, dereferences, addresses and casts are
  worth what the path is in C, for every memory and every arguments, a null pointer on the way included; the types
  agree, and no code is emitted.\<close>

theorem path_steps_meaning:
  assumes "accessMemory L e c = Inr (res, c')" "path_wf L c e" "lib_ok L"
  shows "c' = c \<and> ctype L c e = Some (r_btf res) \<and> cmember L c e = r_mem res \<and>
    path_value h L c args e = map_option snd (path_result h (r_offsets res) (args ! nat (r_idx res)))"
proof -
  from accessMemory_inv [OF assms(3,1,2)] have inv: "c' = c" "path_inv L c e res" by simp_all
  then show ?thesis using path_inv_value [OF inv(2)] by (simp add: path_inv_def)
qed

section \<open>Where the code differs from C\<close>

text \<open>A comparison or a difference with the number on the left is the one with the number on the right.\<close>

lemma number_left_as_right:
  assumes "f \<in> {Op_Gt, Op_GtEq, Op_Lt, Op_LtEq}"
  shows "cc_binary f L c (num_value n) (reg_value r t mem) = cc_binary f L c (reg_value r t mem) (num_value n)"
  using assms
  by (elim insertE; simp add: cc_gt_def cc_gteq_def cc_lt_def cc_lteq_def compare_op_def by_operands_def
      preHandleBinaryOp_def operand_cases_def num_value_def reg_value_def adjustNum_def Let_def)

lemma sub_left_as_right:
  assumes "vkind L t = Int_kind" "adjustNum L n (reg_value r t mem) = n" "n \<noteq> 0"
  shows "cc_binary Op_Sub L c (num_value n) (reg_value r t mem) = cc_binary Op_Sub L c (reg_value r t mem) (num_value n)"
  using assms
  by (simp add: cc_sub_def by_operands_def preHandleBinaryOp_def operand_cases_def num_value_def reg_value_def
      adjustNum_def canCalculate_def Let_def)

text \<open>A division by a register is zero.\<close>

lemma computes_div_regs:
  assumes r: "r \<notin> K" "m_regs m r = Some (Scalar a)" and s: "m_regs m s = Some (Scalar b)" "r \<noteq> s"
  shows "computes h label (map plain (regs_code Op_Div n r s)) K r m (Some 0)"
proof (rule computes_SomeI)
  fix subs prog pos
  assume at: "code_at prog pos (map plain (regs_code Op_Div n r s))"
  then have c: "code_at prog pos (map plain [Jmp_Imm CMP_Eq s 0 2, Mov_Imm r 0, Ja 1, Alu_Reg ALU_Div r s])"
    by (simp add: regs_code_def)
  let ?m = "set_reg r (Scalar 0) m"
  have "leads h subs prog pos m (pos + 4) ?m"
  proof (cases "b = 0")
    case True
    have "leads h subs prog pos m (pos + 3) m"
      by (rule leads_Jump [where off = 2]) (use c s True in \<open>simp_all add: plain_sel the_scalar_def jump_to_def\<close>)
    moreover have "leads h subs prog (pos + 3) m (Suc (pos + 3)) ?m"
      by (rule leads_Next) (use c r s True in \<open>simp_all add: plain_sel the_scalar_def numeral_3_eq_3\<close>)
    ultimately show ?thesis by (auto simp: numeral_eq_Suc intro: leads_trans)
  next
    case False
    have "leads h subs prog pos m (Suc pos) m"
      by (rule leads_Next) (use c s False in \<open>simp_all add: plain_sel the_scalar_def\<close>)
    moreover have "leads h subs prog (Suc pos) m (Suc (Suc pos)) ?m"
      by (rule leads_Next) (use c in \<open>simp_all add: plain_sel\<close>)
    moreover have "leads h subs prog (Suc (Suc pos)) ?m (pos + 4) ?m"
      by (rule leads_Jump [where off = 1]) (use c in \<open>simp_all add: plain_sel jump_to_def\<close>)
    ultimately show ?thesis using leads_trans by blast
  qed
  with r show "\<exists>m'. leads h subs prog pos m (pos + length (map plain (regs_code Op_Div n r s))) m' \<and> kept K m m' \<and>
      m_regs m' r = Some (Scalar 0)"
    by (intro exI [of _ ?m]) (simp add: regs_code_def numeral_eq_Suc)
qed

text \<open>\<open>x | 0\<close> and \<open>x ^ 0\<close> are the number zero.\<close>

lemma or_zero_is_zero:
  assumes "f \<in> {Op_Or, Op_Xor}" "canCalculate L t"
  shows "cc_binary f L c (reg_value r t mem) (num_value 0) = Inr (num_value 0, Free r c)"
  using assms
  by (elim insertE; simp add: cc_or_def cc_xor_def by_operands_def preHandleBinaryOp_def operand_cases_def num_value_def
      reg_value_def adjustNum_def num_or_zero_def Let_def)

text \<open>The mask of a bit field with 32 or more bits keeps everything.\<close>

lemma wide_bitfield_mask:
  assumes "32 \<le> n"
  shows "scast (ucast (push_bit n 1 - 1 :: u64) :: s32) = (- 1 :: u64)"
proof -
  have "(ucast (push_bit n 1 - 1 :: u64) :: s32) = - 1"
    using assms by (intro bit_word_eqI) (auto simp: bit_simps mask_eq_exp_minus_1 [symmetric] push_bit_of_1)
  then show ?thesis by simp
qed

text \<open>Reading with the helper, a step of a path for newer kernels does not look at its offset.\<close>

lemma core_step_ignores_offset:
  assumes "\<not> a_address a" "canRdonlyCast L (a_prev a) = Inr None"
  shows "core_loop L (a\<lparr>a_offset := off\<rparr> # offsets) reg c = core_loop L (a # offsets) reg c"
  using assms by simp

text \<open>A cast number that is indexed panics, and the null pointer of a type is the first argument.\<close>

lemma cast_number_index_panics:
  assumes "access_cast_number L ty n = Inr res" "kind_of L (r_btf res) = Pointer_kind t" "vsize L (Some t) \<noteq> 0"
  shows "access_index L i res = Inl Panic"
  using assms by (auto simp: access_cast_number_def access_index_def prevBtf_def Let_def bind_res_Inr)

lemma cast_null_is_first_argument:
  assumes "access_cast_number L ty 0 = Inr res"
  shows "access_value L res c = bind_res (Alloc c) (\<lambda>(r, c).
    Inr (reg_value r (Some (r_btf res)) None, adjustRegisterBitwise L (r_btf res) r (emitLoadArg 0 r c)))"
proof -
  from assms have res: "r_idx res = 0" "r_uptr res = 0" "r_offsets res = []" "r_mem res = None"
    by (auto simp: access_cast_number_def bind_res_Inr)
  show ?thesis by (cases "Alloc c") (simp_all add: access_value_def res offset2insns_def Let_def split: prod.split)
qed

text \<open>Direct reads jump to the exit label, but do not ask for it to be set.\<close>

lemma direct_label_unset: "c_labelExitUsed (directReadOffsets offsets reg c) = c_labelExitUsed c"
  by (induction offsets reg c rule: directReadOffsets.induct) (auto simp: emit_emitted emit_insns_def Let_def)

end
