(* ===== verification/Arg_Filter.thy ===== *)
theory Arg_Filter
  imports Cc_Props Inject Loader_Hooks
begin

text \<open>
  The filter over arguments (\<^verbatim>\<open>internal/bpfsnoop/filter_arg.go\<close>, \<^verbatim>\<open>bpf_tracing.go\<close>): of the user's expressions the first
  one that names a parameter of the function is compiled and takes the place of \<^verbatim>\<open>filter_arg\<close> in the program.
\<close>

section \<open>Injection\<close>

record funcArgument =
  fa_expr :: expr
  fa_vars :: "string list"

definition matchParams :: "funcArgument \<Rightarrow> (string \<times> 't) list \<Rightarrow> bool" where
  "matchParams arg params = list_ex (\<lambda>param. fst param \<in> set (fa_vars arg)) params"

definition filter_mode :: "(s32 \<times> bool) option \<Rightarrow> bool \<Rightarrow> memory_mode" where
  "filter_mode rdonly forceProbeReadKernel =
     (if rdonly \<noteq> None \<and> \<not> forceProbeReadKernel then CoreRead else ProbeRead)"

definition label_cc_exit :: string where "label_cc_exit = ''__label_cc_exit''"

definition inject_arg ::
  "'t btf_lib \<Rightarrow> (s32 \<times> bool) option \<Rightarrow> bool \<Rightarrow> (string \<times> 't) list \<Rightarrow> funcArgument \<Rightarrow> instructions \<Rightarrow> cc_error + instructions" where
  "inject_arg L rdonly force params arg prog =
     bind_res (CompileFilterExpr L params label_cc_exit 0 (filter_mode rdonly force) rdonly (fa_expr arg)) (\<lambda>insns.
       Inr (injectInsns prog ''filter_arg'' insns))"

datatype inject_error = errSkipped | ErrCompile cc_error

fun inject_filter ::
  "'t btf_lib \<Rightarrow> (s32 \<times> bool) option \<Rightarrow> bool \<Rightarrow> nat \<Rightarrow> funcArgument list \<Rightarrow> (string \<times> 't) list \<Rightarrow> instructions \<Rightarrow>
     inject_error + (nat \<times> instructions)" where
  "inject_filter L rdonly force i [] params prog = Inl errSkipped"
| "inject_filter L rdonly force i (arg # args) params prog =
     (if \<not> matchParams arg params then inject_filter L rdonly force (Suc i) args params prog
      else map_sum ErrCompile (Pair i) (inject_arg L rdonly force params arg prog))"

definition injectArgFilter ::
  "'t btf_lib \<Rightarrow> (s32 \<times> bool) option \<Rightarrow> bool \<Rightarrow> funcArgument list \<Rightarrow> (string \<times> 't) list \<Rightarrow> instructions \<Rightarrow>
     inject_error + instructions" where
  "injectArgFilter L rdonly force args params prog =
     (case inject_filter L rdonly force 0 args params prog of
        Inl errSkipped \<Rightarrow> Inr (clearFilterSubprog prog ''filter_arg'')
      | Inl e \<Rightarrow> Inl e
      | Inr (i, prog) \<Rightarrow> Inr prog)"

lemma inject_filter_first:
  "inject_filter L rdonly force i args params prog =
     (case find (\<lambda>arg. matchParams arg params) args of
        None \<Rightarrow> Inl errSkipped
      | Some arg \<Rightarrow> map_sum ErrCompile (Pair (i + length (takeWhile (\<lambda>arg. \<not> matchParams arg params) args)))
          (inject_arg L rdonly force params arg prog))"
  by (induction args arbitrary: i) (simp_all split: option.split)

lemma injectArgFilter_skipped:
  "find (\<lambda>arg. matchParams arg params) args = None \<Longrightarrow>
     injectArgFilter L rdonly force args params prog = Inr (clearFilterSubprog prog ''filter_arg'')"
  by (simp add: injectArgFilter_def inject_filter_first)

lemma injectArgFilter_found:
  assumes "injectArgFilter L rdonly force args params prog = Inr prog'" "find (\<lambda>arg. matchParams arg params) args = Some arg"
  obtains insns where
    "CompileFilterExpr L params label_cc_exit 0 (filter_mode rdonly force) rdonly (fa_expr arg) = Inr insns"
    "prog' = injectInsns prog ''filter_arg'' insns"
  using assms by (auto simp: injectArgFilter_def inject_filter_first inject_arg_def bind_res_def split: sum.splits inject_error.splits)

section \<open>The compiled filter in its place\<close>

lemma find_symbol_append:
  "label \<notin> ins_symbol ` set xs \<Longrightarrow> find_symbol label (xs @ ys) = map_option ((+) (length xs)) (find_symbol label ys)"
  by (induction xs; cases "find_symbol label ys") auto

lemma injectInsns_split:
  assumes "findStartIndex prog stub = Some k" "stub \<noteq> []"
  obtains i body post where "prog = take k prog @ (i # body) @ post" "ins_symbol i = stub" "k < length prog"
    "injectInsns prog stub insns = take k prog @ with_metadata i insns @ post"
proof -
  from findStartIndex_split [OF assms] obtain pre i body post
    where p: "prog = pre @ (i # body) @ post" "ins_symbol i = stub" "pre = take k prog" "prog ! k = i"
      "findEndIndex prog k + 1 = length pre + Suc (length body)" .
  have "drop (findEndIndex prog k + 1) prog = post" unfolding p(5) by (subst p(1)) simp
  then have "injectInsns prog stub insns = take k prog @ with_metadata i insns @ post"
    using p(4) by (simp add: injectInsns_def assms(1))
  moreover have "k < length prog" using find_symbol_SomeD assms(1) by (auto simp: findStartIndex_def)
  ultimately show ?thesis using that p by blast
qed

text \<open>The filter's program with the metadata of the instruction it replaces.\<close>

lemma spliced_filter_parts:
  assumes prog': "prog' = pre @ with_metadata i (filter_prog label used code r) @ post"
    and code: "code \<noteq> []" "unlabelled code" and label: "label \<noteq> []" "ins_symbol i \<noteq> label" "label \<notin> ins_symbol ` set pre"
  shows "length pre < length prog'" "ins_op (prog' ! length pre) = Mov_Reg R9 R1"
    "code_at prog' (Suc (length pre)) (code @ map plain [Mov_Reg R0 r, Return])"
    "used \<Longrightarrow> find_symbol label prog' = Some (length pre + length code)"
proof -
  let ?first = "(plain (Mov_Reg R9 R1))\<lparr>ins_symbol := ins_symbol i, ins_reference := ins_reference i\<rparr>"
  let ?tail = "map plain [Mov_Reg R0 r, Return]"
  have p: "prog' = (pre @ [?first]) @ (marked label used code @ ?tail) @ post"
    by (simp add: prog' filter_prog_def with_metadata_def)
  then show "length pre < length prog'" "ins_op (prog' ! length pre) = Mov_Reg R9 R1"
    by (simp_all add: nth_append plain_def)
  have "code_at prog' (length (pre @ [?first])) (marked label used code @ ?tail)"
    unfolding p by (rule code_at_self)
  then show "code_at prog' (Suc (length pre)) (code @ ?tail)"
    using code(1) by (simp add: code_at_marked length_marked)
  show "find_symbol label prog' = Some (length pre + length code)" if used
  proof -
    have u: "unlabelled (butlast code)" using code(2) by (auto simp: unlabelled_def list_all_iff dest: in_set_butlastD)
    have "find_symbol label (butlast code @ last code\<lparr>ins_symbol := label\<rparr> # ?tail @ post) = Some (length (butlast code))"
      by (rule find_symbol_marked [OF u label(1)]) simp
    moreover have "prog' = (pre @ [?first]) @ butlast code @ last code\<lparr>ins_symbol := label\<rparr> # ?tail @ post"
      using that by (simp add: p marked_def)
    ultimately show ?thesis
      using label code(1) by (simp add: find_symbol_append)
  qed
qed

text \<open>What a call of \<^verbatim>\<open>filter_arg\<close> in a program decides; the caller tests the value for zero.\<close>

definition filter_entry :: "u8 list \<Rightarrow> u64 list \<Rightarrow> machine" where
  "filter_entry stack args =
     \<lparr>m_regs = (\<lambda>_. None)(R1 := Some (PtrArgs 0), RFP := Some (PtrFrame 0)), m_args = args, m_buff = [], m_frame = stack\<rparr>"

definition call_filter_arg :: "helpers \<Rightarrow> instructions \<Rightarrow> u8 list \<Rightarrow> u64 list \<Rightarrow> bool option" where
  "call_filter_arg h prog stack args = Option.bind (findStartIndex prog ''filter_arg'') (\<lambda>k.
     case exec h (\<lambda>_ _. None) prog (length prog) k (filter_entry stack args) of
       Halted m \<Rightarrow> map_option (\<lambda>w. w \<noteq> 0) (the_scalar (m_regs m R0))
     | _ \<Rightarrow> None)"

text \<open>Whether the expression is true of the arguments.\<close>

definition expr_holds :: "helpers \<Rightarrow> 't btf_lib \<Rightarrow> 't compiler \<Rightarrow> u64 list \<Rightarrow> expr \<Rightarrow> bool" where
  "expr_holds h L c args e \<longleftrightarrow> (case sem h L c args e of Some w \<Rightarrow> w | None \<Rightarrow> null_result e) \<noteq> 0"

lemma injected_filter_value:
  assumes prog: "findStartIndex prog ''filter_arg'' = Some k" "label_cc_exit \<notin> ins_symbol ` set prog"
    and inj: "injectArgFilter L rdonly force args params prog = Inr prog'"
    and arg: "find (\<lambda>arg. matchParams arg params) args = Some arg" and mode: "rdonly = None \<or> force"
    and new: "newCompiler params label_cc_exit 0 ProbeRead rdonly = Inr c"
    and e: "fragment L c (fa_expr arg)" "regs_needed (fa_expr arg) \<le> 3" and L: "lib_ok L"
    and n: "length params \<le> length vals" "length params \<le> 4096" "length stack = FRAME"
  shows "call_filter_arg h prog' stack vals = Some (expr_holds h L c vals (fa_expr arg)) \<and>
    (\<exists>old new post. prog = take k prog @ old @ post \<and> prog' = take k prog @ new @ post \<and> ins_symbol (hd new) = ''filter_arg'')"
proof -
  have "filter_mode rdonly force = ProbeRead" using mode by (auto simp: filter_mode_def)
  then obtain insns where comp: "CompileFilterExpr L params label_cc_exit 0 ProbeRead rdonly (fa_expr arg) = Inr insns"
    and prog': "prog' = injectInsns prog ''filter_arg'' insns"
    using injectArgFilter_found [OF inj arg] by metis
  from CompileFilterExpr_code [OF comp new e L] obtain r code used
    where insns: "insns = filter_prog label_cc_exit used code r" and code: "code \<noteq> []" "unlabelled code"
      and ok: "code_ok L (filter_start c) (fa_expr arg) r code used" "front_ok L (filter_start c) (fa_expr arg) r code"
        "supported_op (fa_expr arg)"
    by blast
  have stub: "''filter_arg'' \<noteq> []" by simp
  from injectInsns_split [OF prog(1) stub] obtain i body post
    where s: "prog = take k prog @ (i # body) @ post" "ins_symbol i = ''filter_arg''" "k < length prog"
      "prog' = take k prog @ with_metadata i insns @ post"
    unfolding prog' by blast
  have label: "label_cc_exit \<noteq> []" "ins_symbol i \<noteq> label_cc_exit" "label_cc_exit \<notin> ins_symbol ` set (take k prog)"
    using prog(2) s(2) in_set_takeD [of _ k prog] by (auto simp: label_cc_exit_def)
  have len: "length (take k prog) = k" using s(3) by simp
  note parts = spliced_filter_parts [OF s(4) [unfolded insns] code label, unfolded len]
  note start = filter_start_sel [OF new]
  have "\<exists>m'. exec h (\<lambda>_ _. None) prog' (length code + 3) k (filter_entry stack vals) = Halted m' \<and>
      m_regs m' R0 = Some (Scalar (case sem h L (filter_start c) vals (fa_expr arg) of Some w \<Rightarrow> w | None \<Rightarrow> null_result (fa_expr arg)))"
    by (rule filter_prog_runs [OF parts start(2) label(1) ok]) (use n start(1) in \<open>simp_all add: filter_entry_def\<close>)
  moreover have "length code + 3 \<le> length prog'" using parts(3) by (simp add: code_at_def)
  ultimately obtain m' where m': "exec h (\<lambda>_ _. None) prog' (length prog') k (filter_entry stack vals) = Halted m'"
      "m_regs m' R0 = Some (Scalar (case sem h L c vals (fa_expr arg) of Some w \<Rightarrow> w | None \<Rightarrow> null_result (fa_expr arg)))"
    using exec_more_fuel [of h "\<lambda>_ _. None" prog' "length code + 3" k "filter_entry stack vals" "length prog' - (length code + 3)"]
      sem_same [OF start(3)] by auto
  have ne: "with_metadata i insns = (hd insns)\<lparr>ins_symbol := ''filter_arg'', ins_reference := ins_reference i\<rparr> # tl insns"
    using s(2) by (simp add: insns filter_prog_def with_metadata_def)
  have "findStartIndex prog' ''filter_arg'' = Some k"
  proof -
    have "''filter_arg'' \<notin> ins_symbol ` set (take k prog)"
    proof
      assume "''filter_arg'' \<in> ins_symbol ` set (take k prog)"
      then obtain j where "j < k" "ins_symbol (prog ! j) = ''filter_arg''" using len by (auto simp: in_set_conv_nth)
      with find_symbol_SomeD [OF prog(1) [unfolded findStartIndex_def]] show False by blast
    qed
    then show ?thesis using len by (simp add: findStartIndex_def s(4) ne find_symbol_append)
  qed
  with m' have "call_filter_arg h prog' stack vals = Some (expr_holds h L c vals (fa_expr arg))"
    by (simp add: call_filter_arg_def the_scalar_def expr_holds_def)
  moreover have "ins_symbol (hd (with_metadata i insns)) = ''filter_arg''" by (simp add: ne)
  ultimately show ?thesis using s(1,4) by blast
qed

section \<open>Properties\<close>



end
