(* ===== verification/Cc_Witnesses.thy ===== *)
theory Cc_Witnesses
  imports Arg_Filter Fn_Witnesses
begin

text \<open>
  A library of types and a filter, \<^verbatim>\<open>skb->dev->ifindex == 2 && skb->len > 64\<close>, at which the hypotheses of the
  properties of the compiler hold.
\<close>

definition skb_lib :: "string btf_lib" where
  "skb_lib =
     \<lparr>kind_of = (\<lambda>t. if t = ''u32'' then Int_kind
        else if t = ''sk_buff *'' then Pointer_kind ''sk_buff'' else if t = ''net_device *'' then Pointer_kind ''net_device''
        else if t = ''sk_buff'' \<or> t = ''net_device'' then Struct_kind else Other_kind),
      size_of = (\<lambda>t. if t = ''u32'' then Some 4 else if t = ''sk_buff *'' \<or> t = ''net_device *'' then Some 8
        else if t = ''sk_buff'' then Some 232 else if t = ''net_device'' then Some 2496 else None),
      member_of = (\<lambda>t x. if t = ''sk_buff'' \<and> x = ''len'' then Some \<lparr>mem_Type = ''u32'', mem_Offset = 896, mem_BitfieldSize = 0\<rparr>
        else if t = ''sk_buff'' \<and> x = ''dev'' then Some \<lparr>mem_Type = ''net_device *'', mem_Offset = 128, mem_BitfieldSize = 0\<rparr>
        else if t = ''net_device'' \<and> x = ''ifindex'' then Some \<lparr>mem_Type = ''u32'', mem_Offset = 1792, mem_BitfieldSize = 0\<rparr>
        else None),
      member_offset = (\<lambda>t x. if t = ''sk_buff'' \<and> x = ''len'' then Some 112
        else if t = ''sk_buff'' \<and> x = ''dev'' then Some 16
        else if t = ''net_device'' \<and> x = ''ifindex'' then Some 224 else None),
      pointer_to = (\<lambda>t. t @ '' *''), void_type = ''void'', krnl_type = (\<lambda>_. None), spec_type = (\<lambda>_. None),
      type_string = (\<lambda>_. ''''), pointer_type_id = (\<lambda>_. None)\<rparr>"

definition skb_expr :: expr where
  "skb_expr = Binary Op_AndAnd
     (Binary Op_EqEq (Arrow (Arrow (Name ''skb'') ''dev'') ''ifindex'') (expr.Number ''2''))
     (Binary Op_Gt (Arrow (Name ''skb'') ''len'') (expr.Number ''64''))"

definition skb_params :: "(string \<times> string) list" where "skb_params = [(''skb'', ''sk_buff *'')]"

lemma skb_lib_ok: "lib_ok skb_lib"
  by (simp add: lib_ok_def skb_lib_def vsize_def)

lemma skb_numbers: "parseNumber ''2'' = Inr 2" "parseNumber ''64'' = Inr 64"
  by (simp_all add: parseNumber_def parseUnsigned_def ParseUint_def HasPrefix_def digit_value_def Let_def)


lemmas skb_eval = CompileFilterExpr_def newCompiler_def skb_params_def skb_expr_def cc_compile_def Let_def
     emit_def emit_insns_def MarkUsed_def argsReg_def number_res_def skb_numbers access_name_def slices_Index_def
     access_member_def isMemberBitfield_def addOffset_def last_step_def access_value_def Alloc_def emitLoadArg_def
     offset2insns_def allAddress_def probeReadOffsets_def pushUsedCallerSavedRegsN_def popUsedCallerSavedRegsN_def
     usedRegNr_def callerRegs_def probe_read_8_def bitfield2insns_def adjustRegisterBitwise_def cc_eqeq_def cc_gt_def cc_andand_def
     compare_op_def by_operands_def preHandleBinaryOp_def operand_cases_def canCalculate_def vkind_def vsize_def adjustNum_def
     num_value_def reg_value_def test_num_def JmpOff_def JmpReg_def emitReg2bool_def Free_def set_exit_def label_cc_exit_def

lemma skb_lib_simps [simp]:
  "kind_of skb_lib ''u32'' = Int_kind" "kind_of skb_lib ''sk_buff *'' = Pointer_kind ''sk_buff''"
  "kind_of skb_lib ''net_device *'' = Pointer_kind ''net_device''" "kind_of skb_lib ''sk_buff'' = Struct_kind"
  "kind_of skb_lib ''net_device'' = Struct_kind"
  "size_of skb_lib ''u32'' = Some 4" "size_of skb_lib ''sk_buff *'' = Some 8" "size_of skb_lib ''net_device *'' = Some 8"
  "member_of skb_lib ''sk_buff'' ''len'' = Some \<lparr>mem_Type = ''u32'', mem_Offset = 896, mem_BitfieldSize = 0\<rparr>"
  "member_of skb_lib ''sk_buff'' ''dev'' = Some \<lparr>mem_Type = ''net_device *'', mem_Offset = 128, mem_BitfieldSize = 0\<rparr>"
  "member_of skb_lib ''net_device'' ''ifindex'' = Some \<lparr>mem_Type = ''u32'', mem_Offset = 1792, mem_BitfieldSize = 0\<rparr>"
  "member_offset skb_lib ''sk_buff'' ''len'' = Some 112" "member_offset skb_lib ''sk_buff'' ''dev'' = Some 16"
  "member_offset skb_lib ''net_device'' ''ifindex'' = Some 224"
  by (simp_all add: skb_lib_def)

definition skb_comp :: "string compiler" where
  "skb_comp = \<lparr>c_regs = (\<lambda>_. False), c_insns = [], c_vars = [''skb''], c_btfs = [''sk_buff *''], c_labelExit = label_cc_exit,
     c_labelExitUsed = False, c_reservedStack = 8, c_memMode = ProbeRead, c_rdonlyCast = 0, c_fastcall = False\<rparr>"

lemma skb_new: "newCompiler skb_params label_cc_exit 0 ProbeRead None = Inr skb_comp"
  by (simp add: newCompiler_def skb_params_def skb_comp_def label_cc_exit_def)

lemma skb_fragment: "fragment skb_lib skb_comp skb_expr" "regs_needed skb_expr \<le> 3"
  by (simp_all add: skb_comp_def path_ok_def is_pointer_def is_array_def skb_eval number_of_def cut_ok_def
      offset_small_def const_ok_def)

text \<open>The socket buffer is at \<open>0x1000\<close> and its device at \<open>0x2000\<close>.\<close>

definition skb_mem :: "u64 \<Rightarrow> u8 option" where
  "skb_mem = mem_of
     [(0x1010, le_bytes 8 (0x2000 :: u64)), (0x1070, le_bytes 8 (100 :: u64)), (0x20E0, le_bytes 8 (2 :: u64))]"

definition skb_h :: helpers where "skb_h = demo_helpers skb_mem"

definition skb_machine :: machine where
  "skb_machine = \<lparr>m_regs = (\<lambda>_. None)(R1 := Some (PtrArgs 0), RFP := Some (PtrFrame 0)), m_args = [0x1000],
     m_buff = [], m_frame = replicate FRAME 0\<rparr>"

lemma skb_word: "bytes_at skb_mem a (le_bytes 8 (w :: u64)) \<Longrightarrow> probe_word skb_h a 8 = w"
proof -
  assume "bytes_at skb_mem a (le_bytes 8 w)"
  moreover have "bpf_probe_read_kernel skb_h = mem_probe skb_mem" by (simp add: skb_h_def demo_helpers_def)
  ultimately have "probe_word skb_h a 8 = (load_le 0 8 (le_bytes 8 w) :: u64)"
    by (intro refmem.probe_word_at) simp_all
  then show ?thesis by (simp add: load_le_def bslice_def le_word_le_bytes)
qed

lemma skb_words:
  "probe_word skb_h 0x1010 8 = (0x2000 :: u64)" "probe_word skb_h 0x1070 8 = (100 :: u64)" "probe_word skb_h 0x20E0 8 = (2 :: u64)"
  by (rule skb_word; unfold skb_mem_def; intro bytes_at_first bytes_at_later; simp)+

lemma skb_sem: "sem skb_h skb_lib skb_comp [0x1000] skb_expr = Some 1"
  by (simp add: skb_expr_def skb_comp_def skb_words number_of_def skb_numbers path_value_def rvalue_def pointer_value_def
      follow_def member_bytes_def member_place_def is_pointer_def is_array_def slices_Index_def cut_def binary_val_def
      isMemberBitfield_def vsize_def)


theorem path_steps_meaning_witness:
  "\<exists>res. accessMemory skb_lib (Arrow (Arrow (Name ''skb'') ''dev'') ''ifindex'') skb_comp = Inr (res, skb_comp) \<and>
     length (r_offsets res) = 2 \<and>
     path_value skb_h skb_lib skb_comp [0x1000] (Arrow (Arrow (Name ''skb'') ''dev'') ''ifindex'') =
       map_option snd (path_result skb_h (r_offsets res) 0x1000)"
proof -
  let ?e = "Arrow (Arrow (Name ''skb'') ''dev'') ''ifindex''"
  have "\<exists>res. accessMemory skb_lib ?e skb_comp = Inr (res, skb_comp) \<and> length (r_offsets res) = 2 \<and> r_idx res = 0"
    by (simp add: skb_eval skb_comp_def)
  moreover have "path_wf skb_lib skb_comp ?e" by (simp add: skb_eval skb_comp_def is_pointer_def)
  ultimately show ?thesis using path_steps_meaning [OF _ _ skb_lib_ok, of ?e skb_comp _ skb_comp skb_h "[0x1000]"] by fastforce
qed

section \<open>The filter in a program\<close>

definition skb_prog :: instructions where
  "skb_prog =
     [\<lparr>ins_op = Mov_Reg R6 R1, ins_symbol = ''bpfsnoop_fn'', ins_reference = []\<rparr>, Call_Label ''filter_arg'', plain Return,
      \<lparr>ins_op = LoadMem R0 R1 0, ins_symbol = ''filter_arg'', ins_reference = []\<rparr>, plain Return]"

definition skb_args :: "funcArgument list" where
  "skb_args = [\<lparr>fa_expr = skb_expr, fa_vars = [''skb'']\<rparr>]"

lemma skb_prog_simps:
  "findStartIndex skb_prog ''filter_arg'' = Some 3" "label_cc_exit \<notin> ins_symbol ` set skb_prog"
  by (simp_all add: skb_prog_def findStartIndex_def label_cc_exit_def Call_Label_def plain_def)

lemma skb_found: "find (\<lambda>arg. matchParams arg skb_params) skb_args = Some \<lparr>fa_expr = skb_expr, fa_vars = [''skb'']\<rparr>"
  by (simp add: skb_args_def skb_params_def matchParams_def)

lemma skb_injected: "\<exists>prog'. injectArgFilter skb_lib None False skb_args skb_params skb_prog = Inr prog'"
proof -
  have "\<exists>insns. CompileFilterExpr skb_lib skb_params label_cc_exit 0 ProbeRead None skb_expr = Inr insns"
    by (simp add: skb_eval)
  then show ?thesis
    by (auto simp: injectArgFilter_def inject_filter_first skb_found inject_arg_def filter_mode_def)
qed

lemma skb_holds: "expr_holds skb_h skb_lib skb_comp [0x1000] skb_expr"
  by (simp add: expr_holds_def skb_sem)


text \<open>The call of the function tracer's examples, whose argument is 5, with the filter \<^verbatim>\<open>x == 5\<close>.\<close>

definition five_expr :: expr where "five_expr = Binary Op_EqEq (Name ''x'') (expr.Number ''5'')"

definition five_params :: "(string \<times> string) list" where "five_params = [(''x'', ''u32'')]"

definition five_comp :: "string compiler" where
  "five_comp = skb_comp\<lparr>c_vars := [''x''], c_btfs := [''u32'']\<rparr>"

definition five_args :: "funcArgument list" where
  "five_args = [\<lparr>fa_expr = five_expr, fa_vars = [''x'']\<rparr>]"

definition five_hooks :: "instructions \<Rightarrow> hooks" where
  "five_hooks prog = (demo_hooks True)\<lparr>hook_filter_arg :=
     (\<lambda>vals. call_filter_arg demo_h prog (replicate FRAME 0) vals = Some True)\<rparr>"

lemma five_number: "parseNumber ''5'' = Inr 5"
  by (simp add: parseNumber_def parseUnsigned_def ParseUint_def HasPrefix_def digit_value_def Let_def)

lemma five_found: "find (\<lambda>arg. matchParams arg five_params) five_args = Some \<lparr>fa_expr = five_expr, fa_vars = [''x'']\<rparr>"
  by (simp add: five_args_def five_params_def matchParams_def)

lemma five_injected: "\<exists>prog'. injectArgFilter skb_lib None False five_args five_params skb_prog = Inr prog'"
proof -
  have "\<exists>insns. CompileFilterExpr skb_lib five_params label_cc_exit 0 ProbeRead None five_expr = Inr insns"
    by (simp add: skb_eval five_params_def five_expr_def five_number eval_name_def)
  then show ?thesis
    by (auto simp: injectArgFilter_def inject_filter_first five_found inject_arg_def filter_mode_def)
qed

lemma five_new: "newCompiler five_params label_cc_exit 0 ProbeRead None = Inr five_comp"
  by (simp add: newCompiler_def five_params_def five_comp_def skb_comp_def label_cc_exit_def)

lemma five_fragment: "fragment skb_lib five_comp five_expr" "regs_needed five_expr \<le> 3"
  by (simp_all add: five_comp_def skb_comp_def five_expr_def skb_eval number_of_def const_ok_def five_number)

lemma five_holds: "expr_holds demo_h skb_lib five_comp (fn_args_of (demo_ro True True) demo_h 0x100) five_expr"
proof -
  have "fn_args_of (demo_ro True True) demo_h 0x100 ! 0 = 5" by code_simp
  then show ?thesis
    by (simp add: expr_holds_def five_comp_def skb_comp_def five_expr_def slices_Index_def number_of_def five_number
        binary_val_def)
qed


end
