(* ===== verification/Cc_Func.thy ===== *)
theory Cc_Func
  imports Cc_Eval
begin

text \<open>
  Output expressions (\<^verbatim>\<open>internal/cc/expr_func.go\<close>, \<^verbatim>\<open>expr.go\<close>): an expression, a dereferenced pointer, or a call of one
  of the output functions, whose first argument is evaluated.
\<close>

section \<open>Function calls\<close>

text \<open>The parser returns a call with the called expression and the arguments; calls below it are not supported.\<close>

datatype out_expr = Plain_expr expr | Call_expr expr "expr list"

datatype EvalResultType = Res_Default | Res_Deref | Res_Buf | Res_String | Res_Pkt | Res_Addr | Res_Port | Res_Slice
  | Res_Hex | Res_Int | Res_Hist | Res_TDigest

record funcCallValue =
  fc_typ :: EvalResultType
  fc_expr :: expr
  fc_dataOffset :: s64
  fc_dataSize :: s64
  fc_pkt :: string
  fc_addr :: string
  fc_port :: string

definition parseExprNumber :: "expr \<Rightarrow> cc_error + s64" where
  "parseExprNumber e = (case the_Number e of None \<Rightarrow> Inl ErrDisallowed | Some text \<Rightarrow> number_res (parseNumber text))"

definition allowedPktTypes :: "string list" where
  "allowedPktTypes = [''eth'', ''ip'', ''ip4'', ''ip6'', ''icmp'', ''icmp6'', ''tcp'', ''udp'']"

definition positive_size :: "funcCallValue \<Rightarrow> cc_error + funcCallValue" where
  "positive_size val = (if sint (fc_dataSize val) \<le> 0 then Inl ErrDisallowed else Inr val)"

text \<open>\<open>buf()\<close>, \<open>slice()\<close> and \<open>hex()\<close>: a size, or an offset and a size.\<close>

definition call_buf :: "EvalResultType \<Rightarrow> expr list \<Rightarrow> funcCallValue \<Rightarrow> cc_error + funcCallValue" where
  "call_buf t args val = bind_res
     (case args of
        [_, n] \<Rightarrow> bind_res (parseExprNumber n) (\<lambda>n. Inr (val\<lparr>fc_dataSize := n\<rparr>))
      | [_, off, n] \<Rightarrow> bind_res (parseExprNumber off) (\<lambda>off. bind_res (parseExprNumber n) (\<lambda>n.
          Inr (val\<lparr>fc_dataOffset := off, fc_dataSize := n\<rparr>)))
      | _ \<Rightarrow> Inl ErrDisallowed)
     (\<lambda>val. bind_res (positive_size val) (\<lambda>val. Inr (val\<lparr>fc_typ := t\<rparr>)))"

text \<open>\<open>str()\<close>: without a size it is minus one, to be replaced by the size of the type.\<close>

definition call_str :: "expr list \<Rightarrow> funcCallValue \<Rightarrow> cc_error + funcCallValue" where
  "call_str args val =
     (case args of
        [_] \<Rightarrow> Inr (val\<lparr>fc_dataSize := - 1, fc_typ := Res_String\<rparr>)
      | [_, n] \<Rightarrow> bind_res (parseExprNumber n) (\<lambda>n. bind_res (positive_size (val\<lparr>fc_dataSize := n\<rparr>)) (\<lambda>val.
          Inr (val\<lparr>fc_typ := Res_String\<rparr>)))
      | _ \<Rightarrow> Inl ErrDisallowed)"

definition pkt_type :: "string \<Rightarrow> funcCallValue \<Rightarrow> cc_error + funcCallValue" where
  "pkt_type x val = (if x \<notin> set allowedPktTypes then Inl ErrDisallowed else Inr (val\<lparr>fc_pkt := x\<rparr>))"

definition call_pkt :: "expr list \<Rightarrow> funcCallValue \<Rightarrow> cc_error + funcCallValue" where
  "call_pkt args val = bind_res
     (case args of
        [_, n] \<Rightarrow> bind_res (parseExprNumber n) (\<lambda>n. Inr (val\<lparr>fc_dataSize := n, fc_pkt := ''eth''\<rparr>))
      | [_, n, x] \<Rightarrow> bind_res (parseExprNumber n) (\<lambda>n.
          case x of
            Name x \<Rightarrow> pkt_type x (val\<lparr>fc_dataSize := n\<rparr>)
          | Number text \<Rightarrow> bind_res (number_res (parseNumber text)) (\<lambda>m.
              Inr (val\<lparr>fc_dataOffset := n, fc_dataSize := m, fc_pkt := ''eth''\<rparr>))
          | _ \<Rightarrow> Inl ErrDisallowed)
      | [_, off, n, x] \<Rightarrow> bind_res (parseExprNumber off) (\<lambda>off. bind_res (parseExprNumber n) (\<lambda>n.
          case x of
            Name x \<Rightarrow> pkt_type x (val\<lparr>fc_dataOffset := off, fc_dataSize := n\<rparr>)
          | _ \<Rightarrow> Inl ErrDisallowed))
      | _ \<Rightarrow> Inl ErrDisallowed)
     (\<lambda>val. bind_res (positive_size val) (\<lambda>val. Inr (val\<lparr>fc_typ := Res_Pkt\<rparr>)))"

text \<open>The functions with an optional offset and a size of their own.\<close>

definition call_offset :: "expr list \<Rightarrow> funcCallValue \<Rightarrow> cc_error + funcCallValue" where
  "call_offset args val =
     (case args of
        [_] \<Rightarrow> Inr val
      | [_, off] \<Rightarrow> bind_res (parseExprNumber off) (\<lambda>off. Inr (val\<lparr>fc_dataOffset := off\<rparr>))
      | _ \<Rightarrow> Inl ErrDisallowed)"

definition addr_sizes :: "(string \<times> s64) list" where
  "addr_sizes = [(''eth'', 6), (''eth2'', 12), (''ip4'', 4), (''ip42'', 8), (''ip6'', 16), (''ip62'', 32)]"

definition port_sizes :: "(string \<times> s64) list" where
  "port_sizes = [(''port'', 2), (''port2'', 4)]"

definition int_sizes :: "(string \<times> s64) list" where
  "int_sizes = [(''u8'', 1), (''u16'', 2), (''u32'', 4), (''u64'', 8), (''s8'', 1), (''s16'', 2), (''s32'', 4), (''s64'', 8),
     (''le16'', 2), (''le32'', 4), (''le64'', 8), (''be16'', 2), (''be32'', 4), (''be64'', 8)]"

text \<open>A call without arguments is an index out of range.\<close>

definition compileFuncCall :: "string \<Rightarrow> expr list \<Rightarrow> cc_error + funcCallValue" where
  "compileFuncCall fnName args =
     (if args = [] then Inl Panic
      else let val = \<lparr>fc_typ = Res_Default, fc_expr = hd args, fc_dataOffset = 0, fc_dataSize = 0, fc_pkt = [], fc_addr = [],
        fc_port = []\<rparr> in
      if fnName = ''buf'' then call_buf Res_Buf args val
      else if fnName = ''slice'' then call_buf Res_Slice args val
      else if fnName = ''hex'' then call_buf Res_Hex args val
      else if fnName = ''str'' then call_str args val
      else if fnName = ''pkt'' then call_pkt args val
      else case map_of addr_sizes fnName of
        Some n \<Rightarrow> bind_res (call_offset args val) (\<lambda>val.
          Inr (val\<lparr>fc_dataSize := n, fc_addr := fnName, fc_typ := Res_Addr\<rparr>))
      | None \<Rightarrow>
        (case map_of port_sizes fnName of
           Some n \<Rightarrow> bind_res (call_offset args val) (\<lambda>val.
             Inr (val\<lparr>fc_dataSize := n, fc_port := fnName, fc_typ := Res_Port\<rparr>))
         | None \<Rightarrow>
           (case map_of int_sizes fnName of
              Some n \<Rightarrow> bind_res (call_offset args val) (\<lambda>val. Inr (val\<lparr>fc_dataSize := n, fc_typ := Res_Int\<rparr>))
            | None \<Rightarrow>
              if fnName = ''hist'' \<or> fnName = ''tdigest'' then
                (if length args \<noteq> 1 then Inl ErrDisallowed
                 else Inr (val\<lparr>fc_dataSize := 8, fc_typ := (if fnName = ''tdigest'' then Res_TDigest else Res_Hist)\<rparr>))
              else Inl ErrUnsupportedOp)))"

section \<open>Evaluation\<close>

record 't EvalResult =
  res_Insns :: instructions
  res_Reg :: reg
  res_Btf :: "'t option"
  res_Mem :: "'t member option"
  res_Type :: EvalResultType
  res_Size :: s64
  res_Off :: s64
  res_Pkt :: string
  res_Addr :: string
  res_Port :: string
  res_Int :: string
  res_LabelUsed :: bool

text \<open>
  The type under its typedefs and qualifiers, and what else the output needs of a type: the length of an array, and
  whether it is a constant pointer to characters or an array of them.
\<close>

record 't out_lib =
  UnderlyingType :: "'t \<Rightarrow> 't"
  array_Nelems :: "'t \<Rightarrow> nat"
  is_const_char_ptr :: "'t \<Rightarrow> bool"
  is_char_array :: "'t \<Rightarrow> bool"

definition elem_type :: "'t btf_lib \<Rightarrow> 't option \<Rightarrow> 't option" where
  "elem_type L t = (case vkind L t of Pointer_kind u \<Rightarrow> Some u | Array_kind u \<Rightarrow> Some u | _ \<Rightarrow> None)"

definition is_ptr :: "'t btf_lib \<Rightarrow> 't option \<Rightarrow> bool" where
  "is_ptr L t = (case vkind L t of Pointer_kind u \<Rightarrow> True | _ \<Rightarrow> False)"

definition postCheckFuncCall ::
  "'t btf_lib \<Rightarrow> 't out_lib \<Rightarrow> 't EvalResult \<Rightarrow> 't evalValue \<Rightarrow> s64 \<Rightarrow> s64 \<Rightarrow> string \<Rightarrow> cc_error + 't EvalResult" where
  "postCheckFuncCall L U res val dataOffset dataSize fnName =
     (let t = v_btf val; u = map_option (UnderlyingType U) t in
      if res_Type res \<noteq> Res_Default \<and> isMemberBitfield (v_mem val) then Inl ErrDisallowed
      else case res_Type res of
        Res_Deref \<Rightarrow>
          if \<not> is_ptr L t \<or> vsize L (elem_type L t) = 0 then Inl ErrDisallowed
          else Inr (res\<lparr>res_Btf := elem_type L t, res_Size := of_nat (vsize L (elem_type L t))\<rparr>)
      | Res_String \<Rightarrow>
          if elem_type L t = None then Inl ErrDisallowed
          else if dataSize \<noteq> - 1 then Inr (res\<lparr>res_Size := dataSize, res_Btf := u\<rparr>)
          else if is_ptr L t then Inr (res\<lparr>res_Size := 64, res_Btf := u\<rparr>)
          else if vsize L (elem_type L t) \<noteq> 1 then Inl ErrDisallowed
          else Inr (res\<lparr>res_Size := of_nat (array_Nelems U (the t)), res_Btf := u\<rparr>)
      | Res_Slice \<Rightarrow>
          if elem_type L t = None \<or> vsize L (elem_type L t) = 0 then Inl ErrDisallowed
          else Inr (res\<lparr>res_Btf := elem_type L t, res_Off := dataOffset * of_nat (vsize L (elem_type L t)),
            res_Size := dataSize * of_nat (vsize L (elem_type L t))\<rparr>)
      | Res_Int \<Rightarrow>
          if elem_type L t = None then Inl ErrDisallowed
          else Inr (res\<lparr>res_Btf := u, res_Off := dataOffset, res_Size := dataSize, res_Int := fnName\<rparr>)
      | Res_Default \<Rightarrow> Inr (res\<lparr>res_Btf := t, res_Mem := v_mem val\<rparr>)
      | ty \<Rightarrow>
          if ty \<in> {Res_Hist, Res_TDigest} then
            (if vkind L t \<noteq> Int_kind then Inl ErrDisallowed
             else Inr (res\<lparr>res_Btf := u, res_Off := 0, res_Size := of_nat (vsize L t)\<rparr>))
          else if (if ty \<in> {Res_Buf, Res_Hex} then elem_type L t = None else \<not> is_ptr L t) then Inl ErrDisallowed
          else Inr (res\<lparr>res_Off := dataOffset, res_Size := dataSize, res_Btf := u\<rparr>))"

text \<open>What is evaluated and how: the switch over the parsed expression.\<close>

definition out_front ::
  "out_expr \<Rightarrow> 't EvalResult \<Rightarrow> cc_error + ('t EvalResult \<times> expr \<times> s64 \<times> s64 \<times> string)" where
  "out_front e res =
     (case e of
        Plain_expr (Indir e) \<Rightarrow> Inr (res\<lparr>res_Type := Res_Deref\<rparr>, e, 0, 0, '''')
      | Plain_expr e \<Rightarrow> Inr (res, e, 0, 0, '''')
      | Call_expr (Name fnName) args \<Rightarrow> bind_res (compileFuncCall fnName args) (\<lambda>val.
          Inr (res\<lparr>res_Type := fc_typ val, res_Pkt := fc_pkt val, res_Addr := fc_addr val, res_Port := fc_port val\<rparr>,
            fc_expr val, fc_dataOffset val, fc_dataSize val, fnName))
      | Call_expr _ _ \<Rightarrow> Inl ErrDisallowed)"

definition empty_result :: "'t EvalResult" where
  "empty_result = \<lparr>res_Insns = [], res_Reg = R0, res_Btf = None, res_Mem = None, res_Type = Res_Default, res_Size = 0,
     res_Off = 0, res_Pkt = [], res_Addr = [], res_Port = [], res_Int = [], res_LabelUsed = False\<rparr>"

definition CompileEvalExpr ::
  "'t btf_lib \<Rightarrow> 't out_lib \<Rightarrow> (string \<times> 't) list \<Rightarrow> string \<Rightarrow> int \<Rightarrow> reg list \<Rightarrow> memory_mode \<Rightarrow> bool \<Rightarrow>
     (s32 \<times> bool) option \<Rightarrow> out_expr \<Rightarrow> cc_error + 't EvalResult" where
  "CompileEvalExpr L U params label reserved usedRegs mode force rdonly e =
     bind_res (newCompiler params label reserved mode rdonly) (\<lambda>c.
     bind_res (out_front e empty_result) (\<lambda>(res, e, dataOffset, dataSize, fnName).
     bind_res (eval L e (fold MarkUsed usedRegs c)) (\<lambda>(v, c).
       if v_typ v = Num_value \<and> \<not> force then Inl ErrConstant
       else bind_res (postCheckFuncCall L U res v dataOffset dataSize fnName) (\<lambda>res.
         Inr (res\<lparr>res_Insns := c_insns c, res_Reg := v_reg v, res_LabelUsed := c_labelExitUsed c\<rparr>)))))"

text \<open>A call without arguments is not refused.\<close>

lemma call_without_arguments_panics:
  "newCompiler params label reserved mode rdonly = Inr c \<Longrightarrow>
     CompileEvalExpr L U params label reserved usedRegs mode force rdonly (Call_expr (Name f) []) = Inl Panic"
  by (simp add: CompileEvalExpr_def out_front_def compileFuncCall_def)

end
