(* ===== verification/Gen_Output.thy ===== *)
theory Gen_Output
  imports Cc_Func Inject Go_Consumer
begin

text \<open>
  The routine that outputs expressions over arguments (\<^verbatim>\<open>internal/bpfsnoop/output_arg.go\<close>), and how the
  consumer reads what it wrote (\<^verbatim>\<open>bpfsnoop_arg.go\<close>). Each expression has a slot in the record: its data, and a byte that
  tells whether a null pointer was in the way.
\<close>

section \<open>Code generation\<close>

text \<open>Of the flags \<open>isDeref\<close>, \<open>isBuf\<close> and so on at most one is set: that of the result's type.\<close>

record 't funcArgumentOutput =
  ao_expr :: out_expr
  ao_vars :: "string list"
  ao_t :: "'t option"
  ao_mem :: "'t member option"
  ao_insn :: instructions
  ao_size :: s64
  ao_trueDataSize :: s64
  ao_isNumPtr :: bool
  ao_isStr :: bool
  ao_type :: EvalResultType

definition outputArgRegArgs :: reg where "outputArgRegArgs = R9"

definition outputArgRegBuff :: reg where "outputArgRegBuff = R8"

definition is_number_pointer :: "'t btf_lib \<Rightarrow> 't \<Rightarrow> bool" where
  "is_number_pointer L t = (case kind_of L t of
     Pointer_kind u \<Rightarrow> (case kind_of L u of Int_kind \<Rightarrow> True | Enum_kind _ \<Rightarrow> True | _ \<Rightarrow> False)
   | _ \<Rightarrow> False)"

definition is_numptr :: "'t btf_lib \<Rightarrow> 't option \<Rightarrow> bool" where
  "is_numptr L t = (case t of None \<Rightarrow> False | Some t \<Rightarrow> is_number_pointer L t)"

definition is_str :: "'t out_lib \<Rightarrow> 't option \<Rightarrow> bool" where
  "is_str U t = (case t of None \<Rightarrow> False | Some t \<Rightarrow> is_const_char_ptr U t \<or> is_char_array U t)"

definition to_R3 :: "reg \<Rightarrow> opcode list" where
  "to_R3 r = (if r \<noteq> R3 then [Mov_Reg R3 r] else [])"

definition gen_read :: "bool \<Rightarrow> s64 \<Rightarrow> s64 \<Rightarrow> opcode list" where
  "gen_read isString offset sz =
     [Mov_Imm R2 (ucast sz), Mov_Reg R1 outputArgRegBuff] @
     (if offset \<noteq> 0 then [Add_Imm R1 (ucast offset)] else []) @
     [if isString then FnProbeReadKernelStr_Call else FnProbeReadKernel_Call]"

text \<open>Each generator gives its code, the next offset, and whether the exit label is used.\<close>

definition genDerefInsns :: "'t EvalResult \<Rightarrow> s64 \<Rightarrow> s64 \<Rightarrow> string \<Rightarrow> instructions \<times> s64 \<times> bool" where
  "genDerefInsns res offset sz label =
     (JEq_Imm_Label (res_Reg res) 0 label # map plain (to_R3 (res_Reg res) @ gen_read False offset sz), offset + sz, True)"

definition genBufInsns :: "'t EvalResult \<Rightarrow> s64 \<Rightarrow> bool \<Rightarrow> string \<Rightarrow> instructions \<times> s64 \<times> bool" where
  "genBufInsns res offset isString label =
     (JEq_Imm_Label (res_Reg res) 0 label # map plain
        ((if res_Off res \<noteq> 0 then [Add_Imm (res_Reg res) (ucast (res_Off res))] else []) @ to_R3 (res_Reg res) @
         gen_read isString offset (res_Size res)),
      offset + res_Size res, True)"

definition gen_number_behind :: "reg \<Rightarrow> s64 \<Rightarrow> opcode list" where
  "gen_number_behind r offset =
     to_R3 r @ [JmpOff CMP_Eq R3 0 5, Mov_Imm R2 8, Mov_Reg R1 outputArgRegBuff, Add_Imm R1 (ucast offset),
       FnProbeReadKernel_Call, Ja 1, StoreMem outputArgRegBuff (ucast offset) R3]"

text \<open>A string in an array is as long as the array; one behind a pointer has a fixed size.\<close>

definition is_chars :: "'t out_lib \<Rightarrow> 't option \<Rightarrow> bool" where
  "is_chars U t = (case t of None \<Rightarrow> False | Some t \<Rightarrow> is_char_array U t)"

definition str_size :: "'t out_lib \<Rightarrow> 't option \<Rightarrow> s64" where
  "str_size U t = (if is_chars U t then of_nat (array_Nelems U (the t)) else of_nat maxOutputStrLen)"

definition genDefaultInsns ::
  "'t out_lib \<Rightarrow> bool \<Rightarrow> bool \<Rightarrow> 't EvalResult \<Rightarrow> s64 \<Rightarrow> nat \<Rightarrow> string \<Rightarrow> cc_error + (instructions \<times> s64 \<times> bool)" where
  "genDefaultInsns U isStr isNumPtr res offset sz label =
     (if \<not> isStr \<and> (sz = 0 \<or> sz > 8 \<or> (case res_Mem res of None \<Rightarrow> False | Some b \<Rightarrow> mem_BitfieldSize b > 64))
      then Inl ErrDisallowed
      else if \<not> isStr then
        let code = [StoreMem outputArgRegBuff (ucast offset) (res_Reg res)] in
        Inr (map plain (if isNumPtr then code @ gen_number_behind (res_Reg res) (offset + 8) else code),
          if isNumPtr then offset + 16 else offset + 8, res_LabelUsed res)
      else
        let strSize = str_size U (res_Btf res); code = map plain (to_R3 (res_Reg res) @ gen_read True offset strSize) in
        Inr (if is_chars U (res_Btf res) then (code, offset + strSize, res_LabelUsed res)
             else (JEq_Imm_Label (res_Reg res) 0 label # code, offset + strSize, True)))"

text \<open>The switch over the type of the result.\<close>

definition gen_value ::
  "'t out_lib \<Rightarrow> bool \<Rightarrow> bool \<Rightarrow> 't EvalResult \<Rightarrow> s64 \<Rightarrow> nat \<Rightarrow> string \<Rightarrow> cc_error + (instructions \<times> s64 \<times> bool)" where
  "gen_value U isStr isNumPtr res offset sz label =
     (if res_Type res = Res_Deref then Inr (genDerefInsns res offset (of_nat sz) label)
      else if res_Type res \<in> {Res_Default, Res_Hist, Res_TDigest} then genDefaultInsns U isStr isNumPtr res offset sz label
      else Inr (genBufInsns res offset (res_Type res = Res_String) label))"

text \<open>The flag behind the data.\<close>

definition gen_flag :: "bool \<Rightarrow> s64 \<Rightarrow> string \<Rightarrow> instructions" where
  "gen_flag labelUsed offset label =
     (if labelUsed
      then [plain (Mov_Imm R0 0), plain (Ja 1), (plain (Mov_Imm R0 1))\<lparr>ins_symbol := label\<rparr>,
        plain (StoreMem_Byte outputArgRegBuff (ucast offset) R0)]
      else [plain (Mov_Imm R0 0), plain (StoreMem_Byte outputArgRegBuff (ucast offset) R0)])"

definition output_mode :: "bool \<Rightarrow> bool \<Rightarrow> memory_mode" where
  "output_mode spec_rdonly forceProbeReadKernel = (if spec_rdonly \<and> \<not> forceProbeReadKernel then CoreRead else ProbeRead)"

definition argOutputStackOff :: int where "argOutputStackOff = 16"

definition compile_output ::
  "'t btf_lib \<Rightarrow> 't out_lib \<Rightarrow> (s32 \<times> bool) option \<Rightarrow> bool \<Rightarrow> bool \<Rightarrow> (string \<times> 't) list \<Rightarrow> 't funcArgumentOutput \<Rightarrow> s64 \<Rightarrow> string \<Rightarrow>
     cc_error + ('t funcArgumentOutput \<times> s64)" where
  "compile_output L U rdonly spec_rdonly force params arg offset label =
     bind_res (CompileEvalExpr L U params label argOutputStackOff [outputArgRegBuff, outputArgRegArgs]
       (output_mode spec_rdonly force) False rdonly (ao_expr arg)) (\<lambda>res.
     bind_res (of_option ErrDisallowed (Option.bind (res_Btf res) (size_of L))) (\<lambda>sz.
     let isNumPtr = is_numptr L (res_Btf res); isStr = is_str U (res_Btf res)
     in bind_res (gen_value U isStr isNumPtr res offset sz label) (\<lambda>(code, next, labelUsed).
          Inr (arg\<lparr>ao_t := res_Btf res, ao_mem := res_Mem res, ao_isNumPtr := isNumPtr, ao_isStr := isStr, ao_type := res_Type res,
              ao_insn := res_Insns res @ code @ gen_flag labelUsed next label, ao_trueDataSize := next - offset,
              ao_size := next + 1 - offset\<rparr>, next + 1))))"

definition match_output :: "'t funcArgumentOutput \<Rightarrow> (string \<times> 't) list \<Rightarrow> bool" where
  "match_output arg params = list_ex (\<lambda>p. fst p \<in> set (ao_vars arg)) params"

definition genExitLabel :: "nat \<Rightarrow> string" where
  "genExitLabel labelCnt = ''__output_arg_fail_'' @ digits 10 labelCnt"

text \<open>The expressions that name a parameter, one slot behind the other; the counter of labels goes on.\<close>

fun matchParams_output ::
  "'t btf_lib \<Rightarrow> 't out_lib \<Rightarrow> (s32 \<times> bool) option \<Rightarrow> bool \<Rightarrow> bool \<Rightarrow> (string \<times> 't) list \<Rightarrow> 't funcArgumentOutput list \<Rightarrow> s64 \<Rightarrow> nat \<Rightarrow>
     cc_error + ('t funcArgumentOutput list \<times> s64 \<times> nat)" where
  "matchParams_output L U rdonly spec_rdonly force params [] offset labelCnt = Inr ([], offset, labelCnt)"
| "matchParams_output L U rdonly spec_rdonly force params (a # as) offset labelCnt =
     (if \<not> match_output a params then matchParams_output L U rdonly spec_rdonly force params as offset labelCnt
      else bind_res (compile_output L U rdonly spec_rdonly force params a offset (genExitLabel labelCnt)) (\<lambda>(a, offset).
        bind_res (matchParams_output L U rdonly spec_rdonly force params as offset (Suc labelCnt)) (\<lambda>(as, offset, labelCnt).
          Inr (a # as, offset, labelCnt))))"

definition genInsns :: "'t funcArgumentOutput list \<Rightarrow> instructions" where
  "genInsns args = map plain [Mov_Reg R9 R1, Mov_Reg R8 R2] @ concat (map ao_insn args) @ [plain Return]"

definition inject_output :: "instructions \<Rightarrow> 't funcArgumentOutput list \<Rightarrow> instructions" where
  "inject_output prog args =
     (if args = [] then clearOutputSubprog prog ''output_arg'' else injectInsns prog ''output_arg'' (genInsns args))"

section \<open>The consumer\<close>

text \<open>
  What is printed of a slot: that the pointer was null, the bytes of the data, a string, or a number with the number it points
  to; or the bytes that go to the histogram. Formatting the bytes by their type is left out.
\<close>

datatype attr = Attr_null | Attr_bytes "u8 list" | Attr_str "u8 list" | Attr_num u64 u64 | Attr_hist "u8 list"

definition slice_to :: "u8 list \<Rightarrow> nat \<Rightarrow> u8 list option" where
  "slice_to data n = (if n \<le> length data then Some (take n data) else None)"

definition slice_from :: "u8 list \<Rightarrow> nat \<Rightarrow> u8 list option" where
  "slice_from data n = (if n \<le> length data then Some (drop n data) else None)"

text \<open>A value that is not only bytes: a string, or a number with the number behind it; the flag is skipped.\<close>

definition read_default :: "'t funcArgumentOutput \<Rightarrow> u8 list \<Rightarrow> (attr \<times> u8 list) option" where
  "read_default arg data =
     (if ao_isStr arg then
        Option.bind (readStrN data (unat (ao_trueDataSize arg))) (\<lambda>(argStr, data).
          map_option (Pair (Attr_str argStr)) (slice_from data 1))
      else Option.bind (readUint64 data) (\<lambda>(argVal, data).
        Option.bind (if ao_isNumPtr arg then readUint64 data else Some (0, data)) (\<lambda>(argVal2, data).
          map_option (Pair (Attr_num argVal argVal2)) (slice_from data 1))))"

text \<open>One slot, and the data behind it; after a histogram the data stay where they are.\<close>

definition output_attr :: "'t funcArgumentOutput \<Rightarrow> u8 list \<Rightarrow> (attr \<times> u8 list) option" where
  "output_attr arg data =
     (let sz = unat (ao_size arg); bs = slice_to data (unat (ao_trueDataSize arg)) in
      if sz = 0 \<or> length data < sz then None
      else if data ! (sz - 1) \<noteq> 0 then map_option (Pair Attr_null) (slice_from data sz)
      else case ao_type arg of
        Res_Default \<Rightarrow> read_default arg data
      | Res_String \<Rightarrow> Option.bind bs (\<lambda>bs. map_option (Pair (Attr_str (NullTerminated bs))) (slice_from data sz))
      | Res_Hist \<Rightarrow> map_option (\<lambda>bs. (Attr_hist bs, data)) bs
      | Res_TDigest \<Rightarrow> map_option (\<lambda>bs. (Attr_hist bs, data)) bs
      | _ \<Rightarrow> Option.bind bs (\<lambda>bs. map_option (Pair (Attr_bytes bs)) (slice_from data sz)))"

fun outputFuncArgAttrs :: "'t funcArgumentOutput list \<Rightarrow> u8 list \<Rightarrow> attr list option" where
  "outputFuncArgAttrs [] data = Some []"
| "outputFuncArgAttrs (arg # args) data = Option.bind (output_attr arg data) (\<lambda>(a, data).
     map_option ((#) a) (outputFuncArgAttrs args data))"

text \<open>What comes after a histogram is read from the histogram's own slot.\<close>

lemma histogram_not_skipped:
  assumes "ao_type arg \<in> {Res_Hist, Res_TDigest}" "output_attr arg data = Some (Attr_hist bs, data')"
  shows "outputFuncArgAttrs (arg # args) data = map_option ((#) (Attr_hist bs)) (outputFuncArgAttrs args data)"
  using assms by (auto simp: output_attr_def Let_def split: if_splits)

end
