(* ===== verification/Out_Props.thy ===== *)
theory Out_Props
  imports Gen_Output Arg_Filter
begin

text \<open>
  The output of expressions from the kernel to the consumer: the generated routine writes the value of every expression
  into its slot, and what the consumer reads of the slots are these values.
\<close>

section \<open>Offsets and sizes\<close>

lemma imm32:
  assumes "unat (x :: s64) < 2 ^ 31"
  shows "sint (ucast x :: s32) = int (unat x)" "scast (ucast x :: s32) = x"
proof -
  have e: "(ucast x :: s32) = of_nat (unat x)" by simp
  show "sint (ucast x :: s32) = int (unat x)" by (subst e, rule sint_of_nat_small) (use assms in simp)
  have "x < 0x80000000" using assms by (simp add: word_less_nat_alt)
  then show "scast (ucast x :: s32) = x" by (rule imm_small)
qed

lemma off16:
  assumes "unat (x :: s64) < 2 ^ 15"
  shows "sint (ucast x :: 16 word) = int (unat x)"
proof -
  have e: "(ucast x :: 16 word) = of_nat (unat x)" by simp
  show ?thesis by (subst e, rule sint_of_nat_small) (use assms in simp)
qed

lemma nat_int_uint: "nat (int a + uint x) = a + unat x"
  by (simp add: nat_add_distrib)

section \<open>Blocks of code that write a slot\<close>

text \<open>The machine between two expressions: \<open>R8\<close> is the record, \<open>R9\<close> the arguments.\<close>

definition out_ctx :: "u64 list \<Rightarrow> nat \<Rightarrow> machine \<Rightarrow> bool" where
  "out_ctx args base m \<longleftrightarrow> args_ctx args m \<and> m_regs m R8 = Some (PtrBuff (int base))"

lemma out_ctx_kept: "out_ctx args base m \<Longrightarrow> kept {R8, R9, RFP} m m' \<Longrightarrow> out_ctx args base m' \<and> m_buff m' = m_buff m"
  by (simp add: out_ctx_def args_ctx_def kept_def)

lemma out_ctx_set_reg: "out_ctx args base m \<Longrightarrow> r \<notin> {R8, R9, RFP} \<Longrightarrow> out_ctx args base (set_reg r v m)"
  by (auto simp: out_ctx_def args_ctx_def)

text \<open>
  Code that leaves a record behind: with a content it runs to its end and the record is that; with none it leaves for the
  exit label with the record as it was.
\<close>

definition outputs ::
  "helpers \<Rightarrow> string \<Rightarrow> u64 list \<Rightarrow> nat \<Rightarrow> instructions \<Rightarrow> machine \<Rightarrow> u8 list option \<Rightarrow> bool" where
  "outputs h label args base code m res \<longleftrightarrow>
     (\<forall>subs prog pos ex. code_at prog pos code \<longrightarrow>
       (case res of
          Some buf \<Rightarrow> (\<exists>m'. leads h subs prog pos m (pos + length code) m' \<and> out_ctx args base m' \<and> m_buff m' = buf)
        | None \<Rightarrow> find_symbol label prog = Some ex \<longrightarrow> pos + length code \<le> ex \<longrightarrow>
            (\<exists>m'. leads h subs prog pos m ex m' \<and> out_ctx args base m' \<and> m_buff m' = m_buff m)))"

lemma outputs_SomeI:
  assumes "\<And>subs prog pos. code_at prog pos code \<Longrightarrow>
    \<exists>m'. leads h subs prog pos m (pos + length code) m' \<and> out_ctx args base m' \<and> m_buff m' = buf"
  shows "outputs h label args base code m (Some buf)"
  using assms by (simp add: outputs_def)

lemma outputs_block:
  assumes "\<And>subs. block h subs code m = Some m'" "out_ctx args base m'" "m_buff m' = buf"
  shows "outputs h label args base code m (Some buf)"
  by (rule outputs_SomeI) (use assms leads_block in blast)

lemma outputs_after_block:
  assumes b: "\<And>subs. block h subs xs m = Some m1" and buf: "m_buff m1 = m_buff m"
    and o: "outputs h label args base ys m1 res"
  shows "outputs h label args base (xs @ ys) m res"
  unfolding outputs_def
proof (intro allI impI)
  fix subs prog pos ex
  assume "code_at prog pos (xs @ ys)"
  then have at: "code_at prog pos xs" "code_at prog (pos + length xs) ys" by simp_all
  note l = leads_trans [OF leads_block [OF at(1) b]]
  show "case res of
      Some buf \<Rightarrow> \<exists>m'. leads h subs prog pos m (pos + length (xs @ ys)) m' \<and> out_ctx args base m' \<and> m_buff m' = buf
    | None \<Rightarrow> find_symbol label prog = Some ex \<longrightarrow> pos + length (xs @ ys) \<le> ex \<longrightarrow>
        (\<exists>m'. leads h subs prog pos m ex m' \<and> out_ctx args base m' \<and> m_buff m' = m_buff m)"
    using o at(2) l buf unfolding outputs_def by (cases res) (fastforce simp: add.assoc)+
qed

lemma outputs_exit:
  assumes ctx: "out_ctx args base m" and r: "m_regs m r = Some (Scalar a)" and label: "label \<noteq> []"
    and o: "a \<noteq> 0 \<Longrightarrow> outputs h label args base ys m res"
  shows "outputs h label args base (JEq_Imm_Label r 0 label # ys) m (if a = 0 then None else res)"
proof (cases "a = 0")
  case True
  show ?thesis
    unfolding outputs_def
  proof (simp add: True, intro allI impI)
    fix subs prog pos ex
    assume at: "pos < length prog \<and> ins_op (prog ! pos) = ins_op (JEq_Imm_Label r 0 label) \<and>
        ins_reference (prog ! pos) = ins_reference (JEq_Imm_Label r 0 label) \<and> code_at prog (Suc pos) ys"
      and ex: "find_symbol label prog = Some ex" "Suc (pos + length ys) \<le> ex"
    have "leads h subs prog pos m ex m"
      by (rule leads_Jump [where off = "- 1"])
        (use at r True ex label in \<open>simp_all add: JEq_Imm_Label_def the_scalar_def jump_to_def\<close>)
    with ctx show "\<exists>m'. leads h subs prog pos m ex m' \<and> out_ctx args base m' \<and> m_buff m' = m_buff m" by blast
  qed
next
  case False
  have "block h subs [JEq_Imm_Label r 0 label] m = Some m" for subs
    using r False by (simp add: JEq_Imm_Label_def the_scalar_def)
  from outputs_after_block [OF this refl o [OF False]] False show ?thesis by simp
qed

lemma outputs_then:
  assumes c: "computes h label xs {R8, R9, RFP} r m res" and ctx: "out_ctx args base m"
    and o: "\<And>m' w. out_ctx args base m' \<Longrightarrow> m_buff m' = m_buff m \<Longrightarrow> m_regs m' r = Some (Scalar w) \<Longrightarrow>
      outputs h label args base ys m' (f w)"
  shows "outputs h label args base (xs @ ys) m (Option.bind res f)"
  unfolding outputs_def
proof (intro allI impI)
  fix subs prog pos ex
  assume "code_at prog pos (xs @ ys)"
  then have at: "code_at prog pos xs" "code_at prog (pos + length xs) ys" by simp_all
  show "case Option.bind res f of
      Some buf \<Rightarrow> \<exists>m'. leads h subs prog pos m (pos + length (xs @ ys)) m' \<and> out_ctx args base m' \<and> m_buff m' = buf
    | None \<Rightarrow> find_symbol label prog = Some ex \<longrightarrow> pos + length (xs @ ys) \<le> ex \<longrightarrow>
        (\<exists>m'. leads h subs prog pos m ex m' \<and> out_ctx args base m' \<and> m_buff m' = m_buff m)"
  proof (cases res)
    case None
    show ?thesis
    proof (simp add: None, intro impI)
      assume ex: "find_symbol label prog = Some ex" "pos + (length xs + length ys) \<le> ex"
      then have "pos + length xs \<le> ex" by simp
      from computes_NoneE [OF c [unfolded None] at(1) ex(1) this] obtain m1 w
        where "leads h subs prog pos m ex m1" "kept {R8, R9, RFP} m m1" .
      with out_ctx_kept [OF ctx] show "\<exists>m'. leads h subs prog pos m ex m' \<and> out_ctx args base m' \<and> m_buff m' = m_buff m"
        by blast
    qed
  next
    case (Some a)
    with c at(1) obtain m1 where m1: "leads h subs prog pos m (pos + length xs) m1" "kept {R8, R9, RFP} m m1"
      "m_regs m1 r = Some (Scalar a)" by (auto elim: computes_SomeE)
    with out_ctx_kept [OF ctx m1(2)] have "outputs h label args base ys m1 (f a)" "m_buff m1 = m_buff m" by (simp_all add: o)
    have len: "pos + length (xs @ ys) = pos + length xs + length ys" by simp
    show ?thesis
    proof (cases "f a")
      case None
      from \<open>outputs h label args base ys m1 (f a)\<close> at(2) show ?thesis
        unfolding outputs_def Some None bind.bind_lunit len option.case \<open>m_buff m1 = m_buff m\<close>
        using leads_trans [OF m1(1)] by blast
    next
      case (Some buf)
      from \<open>outputs h label args base ys m1 (f a)\<close> at(2) show ?thesis
        unfolding outputs_def Some \<open>res = Some a\<close> bind.bind_lunit len option.case
        using leads_trans [OF m1(1)] by blast
    qed
  qed
qed

section \<open>The generators\<close>

lemma to_R3_block:
  "m_regs m r = Some (Scalar w) \<Longrightarrow>
     block h subs (map plain (to_R3 r)) m = Some (if r \<noteq> R3 then set_reg R3 (Scalar w) m else m)"
  by (simp add: to_R3_def plain_def)

definition probe_data :: "bool \<Rightarrow> helpers \<Rightarrow> u64 \<Rightarrow> nat \<Rightarrow> u8 list" where
  "probe_data isString = (if isString then probe_str else probe_bytes)"

lemma length_probe_data [simp]: "length (probe_data s h a n) = n"
  by (simp add: probe_data_def)

lemma gen_read_block:
  assumes ctx: "out_ctx args base m" and v: "m_regs m R3 = Some (Scalar v)"
    and fit: "base + unat off + unat n \<le> length (m_buff m)" "unat off + unat n \<le> 2 ^ 15"
  shows "\<exists>m'. (\<forall>subs. block h subs (map plain (gen_read isString off n)) m = Some m') \<and> out_ctx args base m' \<and>
    m_buff m' = store (base + unat off) (probe_data isString h v (unat n)) (m_buff m)"
proof -
  have "sint (ucast off :: s32) = int (unat off)" "scast (ucast n :: s32) = n"
    by (rule imm32, use fit(2) in simp)+
  moreover have "off = 0 \<Longrightarrow> unat off = 0" by simp
  ultimately show ?thesis
    using assms unfolding out_ctx_def args_ctx_def gen_read_def outputArgRegBuff_def probe_data_def
    by (cases isString; cases "off = 0") (auto simp: machine_defs nat_int_add nat_int_uint)
qed

lemma outputs_read:
  assumes ctx: "out_ctx args base m" and v: "m_regs m r = Some (Scalar v)"
    and fit: "base + unat off + unat n \<le> length (m_buff m)" "unat off + unat n \<le> 2 ^ 15"
  shows "outputs h label args base (map plain (to_R3 r @ gen_read isString off n)) m
    (Some (store (base + unat off) (probe_data isString h v (unat n)) (m_buff m)))"
proof -
  let ?m = "if r \<noteq> R3 then set_reg R3 (Scalar v) m else m"
  have m: "out_ctx args base ?m" "m_regs ?m R3 = Some (Scalar v)" "m_buff ?m = m_buff m"
    using ctx v by (auto simp: out_ctx_set_reg)
  from gen_read_block [OF m(1,2), unfolded m(3), OF fit, of h isString] obtain m'
    where m': "\<And>subs. block h subs (map plain (gen_read isString off n)) ?m = Some m'" "out_ctx args base m'"
      "m_buff m' = store (base + unat off) (probe_data isString h v (unat n)) (m_buff m)" by blast
  have "block h subs (map plain (to_R3 r)) m = Some ?m" for subs by (rule to_R3_block [OF v])
  from outputs_after_block [OF this m(3) outputs_block [OF m']] show ?thesis by simp
qed

lemma outputs_deref:
  assumes "out_ctx args base m" "m_regs m (res_Reg res) = Some (Scalar w)" "label \<noteq> []"
    and "base + unat off + unat n \<le> length (m_buff m)" "unat off + unat n \<le> 2 ^ 15"
  shows "outputs h label args base (fst (genDerefInsns res off n label)) m
    (if w = 0 then None else Some (store (base + unat off) (probe_data False h w (unat n)) (m_buff m)))"
  unfolding genDerefInsns_def fst_conv
  by (rule outputs_exit [OF assms(1,2,3)], rule outputs_read [OF assms(1,2,4,5)])

lemma outputs_buf:
  assumes ctx: "out_ctx args base m" and r: "m_regs m (res_Reg res) = Some (Scalar w)" "res_Reg res \<notin> {R8, R9, RFP}"
    and label: "label \<noteq> []"
    and fit: "base + unat off + unat (res_Size res) \<le> length (m_buff m)" "unat off + unat (res_Size res) \<le> 2 ^ 15"
  shows "outputs h label args base (fst (genBufInsns res off isString label)) m
    (if w = 0 then None
     else Some (store (base + unat off) (probe_data isString h (w + scast (ucast (res_Off res) :: s32)) (unat (res_Size res))) (m_buff m)))"
proof -
  define a where "a = w + scast (ucast (res_Off res) :: s32)"
  define add where "add = (if res_Off res \<noteq> 0 then [Add_Imm (res_Reg res) (ucast (res_Off res))] else [])"
  define m1 where "m1 = (if res_Off res \<noteq> 0 then set_reg (res_Reg res) (Scalar a) m else m)"
  have b: "block h subs (map plain add) m = Some m1" for subs using r(1) by (cases "res_Off res = 0") (simp_all add: plain_def add_def m1_def a_def)
  have m: "out_ctx args base m1" "m_regs m1 (res_Reg res) = Some (Scalar a)" "m_buff m1 = m_buff m"
    using ctx r by (cases "res_Off res = 0"; simp add: out_ctx_set_reg m1_def a_def)+
  have "outputs h label args base (map plain add @ map plain (to_R3 (res_Reg res) @ gen_read isString off (res_Size res))) m
      (Some (store (base + unat off) (probe_data isString h a (unat (res_Size res))) (m_buff m)))"
    by (rule outputs_after_block [OF b m(3)]) (rule outputs_read [OF m(1,2), of off "res_Size res", unfolded m(3), OF fit])
  from outputs_exit [OF ctx r(1) label this] show ?thesis
    unfolding genBufInsns_def fst_conv map_append add_def [symmetric] a_def [symmetric] .
qed

lemma store_mem_block:
  assumes "out_ctx args base m" "m_regs m r = Some (Scalar w)"
    and "base + unat off + 8 \<le> length (m_buff m)" "unat off + 8 \<le> 2 ^ 15"
  shows "block h subs (map plain [StoreMem outputArgRegBuff (ucast (off :: s64)) r]) m =
    Some (m\<lparr>m_buff := store (base + unat off) (le_bytes 8 w) (m_buff m)\<rparr>)"
  using assms off16 [of off] by (simp add: out_ctx_def outputArgRegBuff_def machine_defs nat_int_add nat_int_uint)

lemma out_ctx_buff: "out_ctx args base (m\<lparr>m_buff := b\<rparr>) = out_ctx args base m"
  by (simp add: out_ctx_def args_ctx_def)

lemma outputs_Some_after_block:
  assumes b: "\<And>subs. block h subs xs m = Some m1" and o: "outputs h label args base ys m1 (Some buf)"
  shows "outputs h label args base (xs @ ys) m (Some buf)"
proof (rule outputs_SomeI)
  fix subs prog pos
  assume "code_at prog pos (xs @ ys)"
  then have at: "code_at prog pos xs" "code_at prog (pos + length xs) ys" by simp_all
  from o at(2) obtain m2 where "leads h subs prog (pos + length xs) m1 (pos + length xs + length ys) m2"
    "out_ctx args base m2" "m_buff m2 = buf" unfolding outputs_def option.case by blast
  with leads_trans [OF leads_block [OF at(1) b]]
  show "\<exists>m'. leads h subs prog pos m (pos + length (xs @ ys)) m' \<and> out_ctx args base m' \<and> m_buff m' = buf"
    unfolding length_append add.assoc [symmetric] by blast
qed

lemma outputs_number_behind:
  assumes ctx: "out_ctx args base m" and r: "m_regs m r = Some (Scalar w)"
    and fit: "base + unat off + 8 \<le> length (m_buff m)" "unat off + 8 \<le> 2 ^ 15" "off \<noteq> 0"
  shows "outputs h label args base (map plain (gen_number_behind r off)) m
    (Some (store (base + unat off) (if w = 0 then le_bytes 8 (0 :: u64) else probe_bytes h w 8) (m_buff m)))"
proof -
  define m1 where "m1 = (if r \<noteq> R3 then set_reg R3 (Scalar w) m else m)"
  have m: "out_ctx args base m1" "m_regs m1 R3 = Some (Scalar w)" "m_buff m1 = m_buff m"
    using ctx r by (cases "r = R3"; simp add: out_ctx_set_reg m1_def)+
  have b: "block h subs (map plain (to_R3 r)) m = Some m1" for subs using to_R3_block [OF r] by (simp add: m1_def)
  let ?store = "StoreMem outputArgRegBuff (ucast off) R3"
  let ?tail = "JmpOff CMP_Eq R3 0 5 # gen_read False off 8 @ [Ja 1, ?store]"
  have code: "gen_number_behind r off = to_R3 r @ ?tail"
    using fit(3) by (simp add: gen_number_behind_def gen_read_def)
  have len: "length (gen_read False off 8) = 4" using fit(3) by (simp add: gen_read_def)
  have "outputs h label args base (map plain ?tail) m1
      (Some (store (base + unat off) (if w = 0 then le_bytes 8 (0 :: u64) else probe_bytes h w 8) (m_buff m)))"
  proof (rule outputs_SomeI)
    fix subs prog pos
    assume "code_at prog pos (map plain ?tail)"
    then have at: "code_at prog pos (map plain [JmpOff CMP_Eq R3 0 5])" "code_at prog (Suc pos) (map plain (gen_read False off 8))"
      "code_at prog (pos + 5) (map plain [Ja 1])" "code_at prog (pos + 6) (map plain [?store])"
      by (simp_all add: len add.commute)
    have end': "pos + length (map plain ?tail) = pos + 7" by (simp add: len)
    show "\<exists>m'. leads h subs prog pos m1 (pos + length (map plain ?tail)) m' \<and> out_ctx args base m' \<and>
        m_buff m' = store (base + unat off) (if w = 0 then le_bytes 8 (0 :: u64) else probe_bytes h w 8) (m_buff m)"
    proof (cases "w = 0")
      case True
      have "leads h subs prog pos m1 (pos + 6) m1"
        by (rule leads_Jump [where off = 5]) (use at(1) m(2) True in \<open>simp_all add: plain_def JmpOff_def the_scalar_def jump_to_def\<close>)
      from leads_trans [OF this leads_block [OF at(4) store_mem_block [OF m(1,2)]]] fit m(3)
      have "leads h subs prog pos m1 (pos + 7) (m1\<lparr>m_buff := store (base + unat off) (le_bytes 8 w) (m_buff m)\<rparr>)"
        by (simp add: add.commute)
      with m(1) True show ?thesis unfolding end' by (auto simp: out_ctx_buff)
    next
      case False
      have j: "leads h subs prog pos m1 (Suc pos) m1"
        by (rule leads_Next) (use at(1) m(2) False in \<open>simp_all add: plain_def JmpOff_def the_scalar_def\<close>)
      have e: "unat (8 :: s64) = 8" by simp
      from gen_read_block [OF m(1,2), of off 8 h False, unfolded m(3) e, OF fit(1,2)] obtain m2
        where m2: "\<And>subs. block h subs (map plain (gen_read False off 8)) m1 = Some m2" "out_ctx args base m2"
          "m_buff m2 = store (base + unat off) (probe_data False h w 8) (m_buff m)" by blast
      have "leads h subs prog (pos + 5) m2 (pos + 7) m2"
        by (rule leads_Jump [where off = 1]) (use at(3) in \<open>simp_all add: plain_def jump_to_def\<close>)
      moreover have "leads h subs prog (Suc pos) m1 (pos + 5) m2"
        using leads_block [OF at(2) m2(1)] by (simp add: len add.commute)
      ultimately have "leads h subs prog pos m1 (pos + 7) m2" using j by (blast intro: leads_trans)
      with m2(2,3) False show ?thesis unfolding end' by (auto simp: probe_data_def)
    qed
  qed
  from outputs_after_block [OF b m(3) this] show ?thesis unfolding code map_append .
qed

text \<open>The bytes in the slot of a value; there are none for a null pointer that is followed.\<close>

definition out_data :: "helpers \<Rightarrow> 't out_lib \<Rightarrow> bool \<Rightarrow> bool \<Rightarrow> 't EvalResult \<Rightarrow> nat \<Rightarrow> u64 \<Rightarrow> u8 list option" where
  "out_data h U isStr isNumPtr res sz w =
     (if res_Type res = Res_Deref then if w = 0 then None else Some (probe_bytes h w (unat (of_nat sz :: s64)))
      else if res_Type res \<in> {Res_Default, Res_Hist, Res_TDigest} then
        if isStr then
          if w = 0 \<and> \<not> is_chars U (res_Btf res) then None else Some (probe_str h w (unat (str_size U (res_Btf res))))
        else Some (le_bytes 8 w @
          (if isNumPtr then if w = 0 then le_bytes 8 (0 :: u64) else probe_bytes h w 8 else []))
      else if w = 0 then None
      else Some (probe_data (res_Type res = Res_String) h (w + scast (ucast (res_Off res) :: s32)) (unat (res_Size res))))"

lemma outputs_default:
  assumes gen: "genDefaultInsns U isStr isNumPtr res off sz label = Inr (code, next', used)"
    and ctx: "out_ctx args base m" and r: "m_regs m (res_Reg res) = Some (Scalar w)" and label: "label \<noteq> []"
    and fit: "base + unat off + unat (next' - off) \<le> length (m_buff m)" "unat off + unat (next' - off) \<le> 2 ^ 15"
    and ty: "res_Type res \<in> {Res_Default, Res_Hist, Res_TDigest}"
  shows "outputs h label args base code m
    (map_option (\<lambda>d. store (base + unat off) d (m_buff m)) (out_data h U isStr isNumPtr res sz w))"
proof -
  have data: "out_data h U isStr isNumPtr res sz w =
      (if isStr then
          if w = 0 \<and> \<not> is_chars U (res_Btf res) then None else Some (probe_str h w (unat (str_size U (res_Btf res))))
        else Some (le_bytes 8 w @
          (if isNumPtr then if w = 0 then le_bytes 8 (0 :: u64) else probe_bytes h w 8 else [])))"
    using ty by (auto simp: out_data_def)
  show ?thesis
  proof (cases isStr)
    case True
    with gen have n: "next' - off = str_size U (res_Btf res)"
      and code: "code = (if is_chars U (res_Btf res) then map plain (to_R3 (res_Reg res) @ gen_read True off (str_size U (res_Btf res)))
        else JEq_Imm_Label (res_Reg res) 0 label # map plain (to_R3 (res_Reg res) @ gen_read True off (str_size U (res_Btf res))))"
      by (auto simp: genDefaultInsns_def Let_def split: if_splits)
    note rd = outputs_read [OF ctx r fit [unfolded n], of h label True]
    show ?thesis
    proof (cases "is_chars U (res_Btf res)")
      case chars: True
      with rd True show ?thesis unfolding data code by (simp add: probe_data_def)
    next
      case False
      from outputs_exit [OF ctx r label rd] False True show ?thesis unfolding data code by (auto simp: probe_data_def)
    qed
  next
    case False
    let ?st = "[StoreMem outputArgRegBuff (ucast off) (res_Reg res)]"
    let ?m = "m\<lparr>m_buff := store (base + unat off) (le_bytes 8 w) (m_buff m)\<rparr>"
    from False gen have n: "next' - off = (if isNumPtr then 16 else 8)"
      and code: "code = map plain (if isNumPtr then ?st @ gen_number_behind (res_Reg res) (off + 8) else ?st)"
      by (auto simp: genDefaultInsns_def Let_def split: if_splits)
    have st: "block h subs (map plain ?st) m = Some ?m" for subs
      by (rule store_mem_block [OF ctx r]) (use fit n in \<open>auto split: if_splits\<close>)
    show ?thesis
    proof (cases isNumPtr)
      case ptr: True
      have off8: "unat (off + 8) = unat off + 8"
        using fit(2) n ptr unat_add_lem [of off 8] by simp
      let ?d = "if w = 0 then le_bytes 8 (0 :: u64) else probe_bytes h w 8"
      have o8: "off + 8 \<noteq> 0" using off8 by auto
      have b: "base + unat (off + 8) + 8 \<le> length (m_buff ?m)" "unat (off + 8) + 8 \<le> 2 ^ 15"
        using fit n ptr off8 by simp_all
      have "outputs h label args base (map plain (gen_number_behind (res_Reg res) (off + 8))) ?m
          (Some (store (base + unat (off + 8)) ?d (m_buff ?m)))"
        by (rule outputs_number_behind [OF _ _ b o8]) (use ctx r in \<open>simp_all add: out_ctx_buff\<close>)
      from outputs_Some_after_block [OF st this]
      have "outputs h label args base code m (Some (store (base + unat (off + 8)) ?d (m_buff ?m)))"
        using ptr unfolding code by simp
      moreover have "store (base + unat (off + 8)) ?d (m_buff ?m) = store (base + unat off) (le_bytes 8 w @ ?d) (m_buff m)"
        using fit(1) n ptr store_append [of "base + unat off" "le_bytes 8 w" ?d "m_buff m"] by (simp add: off8 add.assoc)
      ultimately show ?thesis using False ptr unfolding data by simp
    next
      case num: False
      have "outputs h label args base (map plain ?st) m (Some (store (base + unat off) (le_bytes 8 w) (m_buff m)))"
        by (rule outputs_block [OF st]) (simp_all add: out_ctx_buff ctx)
      with False num show ?thesis unfolding data code by simp
    qed
  qed
qed

lemma outputs_value:
  assumes gen: "gen_value U isStr isNumPtr res off sz label = Inr (code, next', used)"
    and ctx: "out_ctx args base m" and r: "m_regs m (res_Reg res) = Some (Scalar w)" "res_Reg res \<notin> {R8, R9, RFP}"
    and label: "label \<noteq> []"
    and fit: "base + unat off + unat (next' - off) \<le> length (m_buff m)" "unat off + unat (next' - off) \<le> 2 ^ 15"
  shows "outputs h label args base code m
    (map_option (\<lambda>d. store (base + unat off) d (m_buff m)) (out_data h U isStr isNumPtr res sz w))"
proof -
  consider (deref) "res_Type res = Res_Deref" | (default) "res_Type res \<in> {Res_Default, Res_Hist, Res_TDigest}"
    | (buf) "res_Type res \<notin> {Res_Deref, Res_Default, Res_Hist, Res_TDigest}" by blast
  then show ?thesis
  proof cases
    case deref
    with gen have g: "code = fst (genDerefInsns res off (of_nat sz) label)" "next' - off = of_nat sz"
      by (auto simp: gen_value_def genDerefInsns_def)
    from outputs_deref [OF ctx r(1) label fit [unfolded g(2)], of h] deref show ?thesis
      unfolding g(1) by (cases "w = 0") (simp_all add: out_data_def probe_data_def)
  next
    case default
    then have "genDefaultInsns U isStr isNumPtr res off sz label = Inr (code, next', used)"
      using gen by (auto simp: gen_value_def)
    from outputs_default [OF this ctx r(1) label fit default] show ?thesis .
  next
    case buf
    with gen have g: "code = fst (genBufInsns res off (res_Type res = Res_String) label)" "next' - off = res_Size res"
      by (auto simp: gen_value_def genBufInsns_def)
    from outputs_buf [OF ctx r label fit [unfolded g(2)], of h "res_Type res = Res_String"] buf show ?thesis
      unfolding g(1) by (cases "w = 0") (simp_all add: out_data_def)
  qed
qed

lemma unlabelled_gen_value:
  assumes "gen_value U isStr isNumPtr res off sz label = Inr (code, next', used)"
  shows "unlabelled code"
  using assms
  by (auto simp: gen_value_def genDerefInsns_def genBufInsns_def genDefaultInsns_def Let_def JEq_Imm_Label_def
      split: if_splits simp del: map_append)

lemma gen_value_label:
  assumes "gen_value U isStr isNumPtr res off sz label = Inr (code, next', used)" "\<not> used"
  shows "\<not> res_LabelUsed res" "out_data h U isStr isNumPtr res sz w \<noteq> None"
  using assms by (auto simp: gen_value_def genDerefInsns_def genBufInsns_def genDefaultInsns_def out_data_def Let_def
      split: if_splits)

lemma length_out_data:
  assumes "gen_value U isStr isNumPtr res off sz label = Inr (code, next', used)"
    and "out_data h U isStr isNumPtr res sz w = Some d"
  shows "length d = unat (next' - off)"
  using assms by (auto simp: gen_value_def genDerefInsns_def genBufInsns_def genDefaultInsns_def out_data_def Let_def
      split: if_splits)

section \<open>A slot\<close>

lemma store_flag_step:
  assumes "out_ctx args base m" "m_regs m R0 = Some (Scalar b)"
    and "base + unat off + 1 \<le> length (m_buff m)" "unat off < 2 ^ 15"
  shows "step h subs (StoreMem_Byte outputArgRegBuff (ucast (off :: s64)) R0) l m =
    Next (m\<lparr>m_buff := store (base + unat off) (le_bytes 1 b) (m_buff m)\<rparr>)"
  using assms off16 [of off] by (simp add: out_ctx_def outputArgRegBuff_def machine_defs nat_int_add nat_int_uint)

lemma le_bytes_flag: "le_bytes 1 (0 :: u64) = [0]" "le_bytes 1 (1 :: u64) = [1]"
  by (simp_all add: le_bytes_def)

text \<open>The two ways into the code of the flag: from above, and from a jump to the exit label.\<close>

lemma flag_clear:
  assumes at: "code_at prog pos (gen_flag used off label)" and ctx: "out_ctx args base m"
    and fit: "base + unat off + 1 \<le> length (m_buff m)" "unat off < 2 ^ 15"
  shows "\<exists>m'. leads h subs prog pos m (pos + length (gen_flag used off label)) m' \<and> out_ctx args base m' \<and>
    m_buff m' = store (base + unat off) [0] (m_buff m)"
proof -
  let ?m = "set_reg R0 (Scalar 0) m"
  have m: "out_ctx args base ?m" "m_regs ?m R0 = Some (Scalar 0)" "m_buff ?m = m_buff m"
    using ctx by (simp_all add: out_ctx_set_reg)
  note st = store_flag_step [OF m(1,2), unfolded m(3), OF fit, unfolded le_bytes_flag]
  let ?m' = "?m\<lparr>m_buff := store (base + unat off) [0] (m_buff m)\<rparr>"
  have mov: "leads h subs prog pos m (Suc pos) ?m"
    by (rule leads_Next) (use at in \<open>auto simp: gen_flag_def plain_def split: if_splits\<close>)
  have "leads h subs prog pos m (pos + length (gen_flag used off label)) ?m'"
  proof (cases used)
    case True
    have "leads h subs prog (Suc pos) ?m (pos + 3) ?m"
      by (rule leads_Jump [where off = 1]) (use at True in \<open>simp_all add: gen_flag_def plain_def jump_to_def\<close>)
    moreover have "leads h subs prog (pos + 3) ?m (Suc (pos + 3)) ?m'"
      by (rule leads_Next) (use at True st in \<open>simp_all add: gen_flag_def plain_def numeral_3_eq_3\<close>)
    ultimately have "leads h subs prog pos m (Suc (pos + 3)) ?m'" using mov by (blast intro: leads_trans)
    then show ?thesis using True by (simp add: gen_flag_def eval_nat_numeral)
  next
    case False
    have "leads h subs prog (Suc pos) ?m (Suc (Suc pos)) ?m'"
      by (rule leads_Next) (use at False st in \<open>simp_all add: gen_flag_def plain_def\<close>)
    from leads_trans [OF mov this] show ?thesis using False by (simp add: gen_flag_def)
  qed
  moreover have "out_ctx args base ?m'" using m(1) by (simp add: out_ctx_buff)
  ultimately show ?thesis by (intro exI [of _ ?m']) simp
qed

lemma flag_set:
  assumes at: "code_at prog pos (gen_flag True off label)" and ctx: "out_ctx args base m"
    and fit: "base + unat off + 1 \<le> length (m_buff m)" "unat off < 2 ^ 15"
  shows "\<exists>m'. leads h subs prog (pos + 2) m (pos + length (gen_flag True off label)) m' \<and> out_ctx args base m' \<and>
    m_buff m' = store (base + unat off) [1] (m_buff m)"
proof -
  let ?m = "set_reg R0 (Scalar 1) m"
  have m: "out_ctx args base ?m" "m_regs ?m R0 = Some (Scalar 1)" "m_buff ?m = m_buff m"
    using ctx by (simp_all add: out_ctx_set_reg)
  note st = store_flag_step [OF m(1,2), unfolded m(3), OF fit, unfolded le_bytes_flag]
  let ?m' = "?m\<lparr>m_buff := store (base + unat off) [1] (m_buff m)\<rparr>"
  have "leads h subs prog (pos + 2) m (Suc (pos + 2)) ?m"
    by (rule leads_Next) (use at in \<open>simp_all add: gen_flag_def plain_def\<close>)
  moreover have "leads h subs prog (Suc (pos + 2)) ?m (Suc (Suc (pos + 2))) ?m'"
    by (rule leads_Next) (use at st in \<open>simp_all add: gen_flag_def plain_def\<close>)
  ultimately have "leads h subs prog (pos + 2) m (pos + length (gen_flag True off label)) ?m'"
    by (simp add: gen_flag_def eval_nat_numeral) (blast intro: leads_trans)
  moreover have "out_ctx args base ?m'" using m(1) by (simp add: out_ctx_buff)
  ultimately show ?thesis by (intro exI [of _ ?m']) simp
qed

definition slot_store :: "nat \<Rightarrow> nat \<Rightarrow> u8 list option \<Rightarrow> u8 list \<Rightarrow> u8 list" where
  "slot_store pos n d buf = store (pos + n) [if d = None then 1 else 0] (case d of None \<Rightarrow> buf | Some bs \<Rightarrow> store pos bs buf)"

lemma next_offset: "unat off + unat (next' - off) + 1 \<le> 2 ^ 15 \<Longrightarrow> unat next' = unat off + unat (next' - off :: s64)"
  using unat_add_lem [of off "next' - off"] by simp

lemma slot_written:
  assumes c: "computes h label ins {R8, R9, RFP} (res_Reg res) m v"
    and gen: "gen_value U isStr isNumPtr res off sz label = Inr (code, next', used)"
    and ctx: "out_ctx args base m" and r: "res_Reg res \<notin> {R8, R9, RFP}" and label: "label \<noteq> []"
    and used: "\<not> res_LabelUsed res \<Longrightarrow> v \<noteq> None"
    and at: "code_at prog pos (ins @ code @ gen_flag used next' label)"
    and ex: "used \<Longrightarrow> find_symbol label prog = Some (pos + length ins + length code + 2)"
    and fit: "base + unat off + unat (next' - off) + 1 \<le> length (m_buff m)" "unat off + unat (next' - off) + 1 \<le> 2 ^ 15"
  shows "\<exists>m'. leads h subs prog pos m (pos + length (ins @ code @ gen_flag used next' label)) m' \<and> out_ctx args base m' \<and>
    m_buff m' = slot_store (base + unat off) (unat (next' - off)) (Option.bind v (out_data h U isStr isNumPtr res sz)) (m_buff m)"
proof -
  let ?d = "Option.bind v (out_data h U isStr isNumPtr res sz)"
  let ?st = "\<lambda>d. store (base + unat off) d (m_buff m)"
  from at have at': "code_at prog pos (ins @ code)" "code_at prog (pos + length (ins @ code)) (gen_flag used next' label)"
    by (simp_all add: add.assoc)
  note nx = next_offset [OF fit(2)]
  have "outputs h label args base (ins @ code) m (Option.bind v (\<lambda>w. map_option ?st (out_data h U isStr isNumPtr res sz w)))"
  proof (rule outputs_then [OF c ctx])
    fix m' w assume m': "out_ctx args base m'" "m_buff m' = m_buff m" "m_regs m' (res_Reg res) = Some (Scalar w)"
    show "outputs h label args base code m' (map_option ?st (out_data h U isStr isNumPtr res sz w))"
      using outputs_value [OF gen m'(1,3) r label] fit unfolding m'(2) by simp
  qed
  then have o: "outputs h label args base (ins @ code) m (map_option ?st ?d)" by (cases v) simp_all
  have end': "pos + length (ins @ code @ gen_flag used next' label) = pos + length (ins @ code) + length (gen_flag used next' label)"
    by simp
  have fit': "base + unat next' + 1 \<le> length (m_buff m)" "unat next' < 2 ^ 15" using fit nx by simp_all
  show ?thesis
  proof (cases ?d)
    case None
    have u: used
    proof (rule ccontr)
      assume u: "\<not> used"
      with gen_value_label [OF gen] used obtain w where "v = Some w" by auto
      with gen_value_label(2) [OF gen u, of h w] None show False by simp
    qed
    from o at'(1) ex [OF u] obtain m1 where m1: "leads h subs prog pos m (pos + length (ins @ code) + 2) m1"
        "out_ctx args base m1" "m_buff m1 = m_buff m"
      unfolding outputs_def None option.map option.case by (fastforce simp: add.assoc)
    from flag_set [OF _ m1(2), of prog "pos + length (ins @ code)" next' label h subs] at'(2) u m1(3) fit' obtain m2
      where "leads h subs prog (pos + length (ins @ code) + 2) m1 (pos + length (ins @ code) + length (gen_flag used next' label)) m2"
        "out_ctx args base m2" "m_buff m2 = store (base + unat next') [1] (m_buff m)" by auto
    with leads_trans [OF m1(1)] show ?thesis unfolding end' slot_store_def None nx by (auto simp: add.assoc)
  next
    case (Some bs)
    from o at'(1) obtain m1 where m1: "leads h subs prog pos m (pos + length (ins @ code)) m1"
        "out_ctx args base m1" "m_buff m1 = ?st bs"
      unfolding outputs_def Some option.map option.case by blast
    from flag_clear [OF at'(2) m1(2), of h subs] m1(3) fit' obtain m2
      where "leads h subs prog (pos + length (ins @ code)) m1 (pos + length (ins @ code) + length (gen_flag used next' label)) m2"
        "out_ctx args base m2" "m_buff m2 = store (base + unat next') [0] (?st bs)" by auto
    with leads_trans [OF m1(1)] show ?thesis unfolding end' slot_store_def Some nx by (auto simp: add.assoc)
  qed
qed

section \<open>What an expression shows\<close>

text \<open>The evaluated expression and the result's type and size, and the values that are to be printed.\<close>

definition out_plan :: "'t btf_lib \<Rightarrow> 't out_lib \<Rightarrow> 't compiler \<Rightarrow> out_expr \<Rightarrow> cc_error + (expr \<times> 't EvalResult)" where
  "out_plan L U c oe = bind_res (out_front oe empty_result) (\<lambda>(res, e, off, n, fnName).
     bind_res (postCheckFuncCall L U res (reg_value R0 (fst (vtype L c e)) (snd (vtype L c e))) off n fnName) (\<lambda>res. Inr (e, res)))"

definition probed_address :: "'t EvalResult \<Rightarrow> u64 \<Rightarrow> u64" where
  "probed_address res w = w + scast (ucast (res_Off res) :: s32)"

definition shown_value :: "helpers \<Rightarrow> 't btf_lib \<Rightarrow> 't out_lib \<Rightarrow> 't EvalResult \<Rightarrow> u64 \<Rightarrow> attr" where
  "shown_value h L U res w =
     (let t = res_Btf res in
      case res_Type res of
        Res_Default \<Rightarrow>
          if is_str U t then
            if w = 0 \<and> \<not> is_chars U t then Attr_null else Attr_str (NullTerminated (probe_str h w (unat (str_size U t))))
          else Attr_num w (if is_numptr L t \<and> w \<noteq> 0 then probe_word h w 8 else 0)
      | Res_Deref \<Rightarrow> if w = 0 then Attr_null else Attr_bytes (probe_bytes h w (the (Option.bind t (size_of L))))
      | Res_String \<Rightarrow> if w = 0 then Attr_null
          else Attr_str (NullTerminated (probe_str h (probed_address res w) (unat (res_Size res))))
      | _ \<Rightarrow> if w = 0 then Attr_null else Attr_bytes (probe_bytes h (probed_address res w) (unat (res_Size res))))"

definition shown :: "helpers \<Rightarrow> 't btf_lib \<Rightarrow> 't out_lib \<Rightarrow> 't compiler \<Rightarrow> u64 list \<Rightarrow> out_expr \<Rightarrow> attr option" where
  "shown h L U c args oe =
     (case out_plan L U c oe of
        Inl _ \<Rightarrow> None
      | Inr (e, res) \<Rightarrow> Some (case sem h L c args e of None \<Rightarrow> Attr_null | Some w \<Rightarrow> shown_value h L U res w))"

text \<open>The expressions the theorem is about; what is read for a histogram is not printed.\<close>

definition out_fragment :: "'t btf_lib \<Rightarrow> 't compiler \<Rightarrow> out_expr \<Rightarrow> bool" where
  "out_fragment L c oe =
     (case out_front oe (empty_result :: 't EvalResult) of
        Inl _ \<Rightarrow> False
      | Inr (res, e, _) \<Rightarrow> fragment L c e \<and> regs_needed e \<le> 2 \<and> res_Type res \<notin> {Res_Hist, Res_TDigest})"

section \<open>The compiled expression\<close>

definition out_start :: "'t compiler \<Rightarrow> 't compiler" where
  "out_start c = fold MarkUsed [outputArgRegBuff, outputArgRegArgs] c"

lemma out_start_sel:
  assumes "newCompiler params label reserved mode rdonly = Inr c"
  shows "c_insns (out_start c) = []" "\<not> c_labelExitUsed (out_start c)" "c_labelExit (out_start c) = label"
    "c_memMode (out_start c) = mode" "c_regs (out_start c) = (\<lambda>r. r = R8 \<or> r = R9)" "c_vars (out_start c) = map fst params"
    "same_vars c (out_start c)"
  using newCompiler_sel [OF assms]
  by (auto simp: out_start_def MarkUsed_def outputArgRegBuff_def outputArgRegArgs_def same_vars_def fun_eq_iff)

lemma postCheck_reg_like:
  "reg_like v r t mem \<Longrightarrow> postCheckFuncCall L U res v off n f = postCheckFuncCall L U res (reg_value R0 t mem) off n f"
proof -
  assume "reg_like v r t mem"
  then have "v_btf v = t" "v_mem v = mem" "v_btf (reg_value R0 t mem) = t" "v_mem (reg_value R0 t mem) = mem"
    by (simp_all add: reg_like_def reg_value_def)
  then show ?thesis by (simp only: postCheckFuncCall_def)
qed

lemma postCheck_type: "postCheckFuncCall L U res v off n f = Inr res' \<Longrightarrow> res_Type res' = res_Type res"
  by (auto simp: postCheckFuncCall_def Let_def split: EvalResultType.splits if_splits)

lemma CompileEvalExpr_code:
  assumes comp: "CompileEvalExpr L U params label reserved [outputArgRegBuff, outputArgRegArgs] ProbeRead False rdonly oe = Inr res"
    and new: "newCompiler params label reserved ProbeRead rdonly = Inr c"
    and e: "out_fragment L c oe" and L: "lib_ok L"
  obtains e res0 r code used where "out_plan L U c oe = Inr (e, res0)" "r \<in> {R6, R7}" "unlabelled code"
    "res = res0\<lparr>res_Insns := code, res_Reg := r, res_LabelUsed := used\<rparr>" "code_ok L (out_start c) e r code used"
    "res_Type res0 \<notin> {Res_Hist, Res_TDigest}"
proof -
  note start = out_start_sel [OF new]
  from comp obtain res1 e off n f v c1 res0 where fr: "out_front oe empty_result = Inr (res1, e, off, n, f)"
    and ev: "eval L e (out_start c) = Inr (v, c1)" and pc: "postCheckFuncCall L U res1 v off n f = Inr res0"
    and res: "res = res0\<lparr>res_Insns := c_insns c1, res_Reg := v_reg v, res_LabelUsed := c_labelExitUsed c1\<rparr>"
    by (auto simp: CompileEvalExpr_def new bind_res_Inr out_start_def split: if_splits)
  from e fr have fe: "fragment L c e" "regs_needed e \<le> 2" "res_Type res1 \<notin> {Res_Hist, Res_TDigest}"
    by (simp_all add: out_fragment_def)
  have "callers_free (out_start c)" "room (out_start c) = 2"
    using start by (auto simp add: callers_free_def room_def callee_saved_def)
  with eval_correct [OF L ev] fe fragment_same [OF start(7) L] start(4)
  have "eval_ok L (out_start c) e v c1" by simp
  then obtain r code used where r: "r \<in> {R6, R7, R8}" "\<not> c_regs (out_start c) r"
    "reg_like v r (fst (vtype L (out_start c) e)) (snd (vtype L (out_start c) e))"
    and c1: "c1 = emitted ((out_start c)\<lparr>c_regs := (c_regs (out_start c))(r := True)\<rparr>) code used"
    and code: "unlabelled code" "code_ok L (out_start c) e r code used"
    unfolding eval_ok_def by blast
  have "out_plan L U c oe = Inr (e, res0)"
    using pc postCheck_reg_like [OF r(3), of L U res1 off n f] by (simp add: out_plan_def fr vtype_same [OF start(7)])
  moreover have "r \<in> {R6, R7}" using r(1,2) start(5) by auto
  moreover have "res = res0\<lparr>res_Insns := code, res_Reg := r, res_LabelUsed := used\<rparr>"
    using r(3) start(1,2) by (simp add: res c1 reg_like_def)
  moreover have "res_Type res0 \<notin> {Res_Hist, Res_TDigest}" using postCheck_type [OF pc] fe(3) by simp
  ultimately show ?thesis using that code by blast
qed

text \<open>The slot of an expression as the consumer reads it.\<close>

definition attr_of :: "'t funcArgumentOutput \<Rightarrow> u8 list option \<Rightarrow> attr" where
  "attr_of a d = (case d of
     None \<Rightarrow> Attr_null
   | Some bs \<Rightarrow>
       if ao_type a = Res_Default then
         if ao_isStr a then Attr_str (NullTerminated bs)
         else Attr_num (load_le 0 8 bs) (if ao_isNumPtr a then load_le 8 8 bs else 0)
       else if ao_type a = Res_String then Attr_str (NullTerminated bs)
       else Attr_bytes bs)"

lemma output_attr_null:
  assumes "length bs = unat (ao_trueDataSize a)" "unat (ao_size a) = Suc (length bs)"
  shows "output_attr a (bs @ 1 # rest) = Some (Attr_null, rest)"
  using assms by (simp add: output_attr_def slice_from_def Let_def nth_append)

lemma output_attr_some:
  assumes n: "length bs = unat (ao_trueDataSize a)" "unat (ao_size a) = Suc (length bs)"
    and ty: "ao_type a \<notin> {Res_Hist, Res_TDigest}"
    and num: "ao_type a = Res_Default \<Longrightarrow> \<not> ao_isStr a \<Longrightarrow> length bs = (if ao_isNumPtr a then 16 else 8)"
  shows "output_attr a (bs @ 0 # rest) = Some (attr_of a (Some bs), rest)"
proof (cases "ao_type a = Res_Default")
  case True
  show ?thesis
  proof (cases "ao_isStr a")
    case False
    with num [OF True] have l: "length bs = (if ao_isNumPtr a then 16 else 8)" by simp
    have "load_le 0 8 (bs @ 0 # rest) = (load_le 0 8 bs :: u64)"
      "ao_isNumPtr a \<Longrightarrow> load_le 0 8 (drop 8 bs @ 0 # rest) = (load_le 8 8 bs :: u64)"
      using l by (simp_all add: load_le_def bslice_def split: if_splits)
    with l n True False show ?thesis
      by (auto simp: output_attr_def read_default_def attr_of_def readUint64_def getU64_def slice_from_def slice_to_def Let_def
          nth_append split: if_splits)
  qed (use n True in \<open>simp add: output_attr_def read_default_def attr_of_def readStrN_def slice_from_def Let_def nth_append\<close>)
next
  case False
  with n ty show ?thesis
    by (cases "ao_type a") (simp_all add: output_attr_def attr_of_def slice_to_def slice_from_def Let_def nth_append)
qed

lemma attr_of_data:
  assumes a: "ao_type a = res_Type res" "ao_isStr a = is_str U (res_Btf res)" "ao_isNumPtr a = is_numptr L (res_Btf res)"
    and sz: "Option.bind (res_Btf res) (size_of L) = Some sz" "lib_ok L" and ty: "res_Type res \<notin> {Res_Hist, Res_TDigest}"
  shows "attr_of a (out_data h U (ao_isStr a) (ao_isNumPtr a) res sz w) = shown_value h L U res w"
proof -
  have "sz < 2 ^ 31" using sz by (cases "res_Btf res") (auto simp: lib_ok_def)
  then have s: "unat (of_nat sz :: s64) = sz" by (simp add: unat_of_nat)
  have l: "load_le 0 8 (le_bytes 8 w @ xs) = w" for xs by (simp add: load_le_def bslice_def le_word_le_bytes)
  have l8: "load_le 8 8 (le_bytes 8 w @ (if w = 0 then le_bytes 8 (0 :: u64) else probe_bytes h w 8)) =
      (if w = 0 then 0 else probe_word h w 8 :: u64)"
    by (simp add: load_le_def bslice_def le_word_le_bytes probe_word_def)
  show ?thesis
  proof (cases "res_Type res = Res_Default")
    case True
    then show ?thesis
      using a l l8 by (auto simp: attr_of_def out_data_def shown_value_def Let_def split: if_splits)
  next
    case False
    with ty show ?thesis
      by (cases "res_Type res") (simp_all add: a attr_of_def out_data_def shown_value_def probed_address_def probe_data_def s sz Let_def)
  qed
qed

lemma compile_output_code:
  assumes comp: "compile_output L U rdonly spec_rdonly force params a off label = Inr (a', off')"
    and mode: "\<not> spec_rdonly \<or> force" and new: "newCompiler params label argOutputStackOff ProbeRead rdonly = Inr c"
    and e: "out_fragment L c (ao_expr a)" and L: "lib_ok L"
  obtains e res0 res sz ins code next' used where "out_plan L U c (ao_expr a) = Inr (e, res0)"
    "res = res0\<lparr>res_Insns := ins, res_Reg := res_Reg res, res_LabelUsed := res_LabelUsed res\<rparr>"
    "res_Reg res \<in> {R6, R7}" "unlabelled ins" "code_ok L (out_start c) e (res_Reg res) ins (res_LabelUsed res)"
    "Option.bind (res_Btf res) (size_of L) = Some sz" "res_Type res \<notin> {Res_Hist, Res_TDigest}"
    "gen_value U (ao_isStr a') (ao_isNumPtr a') res off sz label = Inr (code, next', used)"
    "ao_insn a' = ins @ code @ gen_flag used next' label" "ao_trueDataSize a' = next' - off" "ao_size a' = next' + 1 - off"
    "off' = next' + 1" "ao_type a' = res_Type res" "ao_isStr a' = is_str U (res_Btf res)"
    "ao_isNumPtr a' = is_numptr L (res_Btf res)"
proof -
  have "output_mode spec_rdonly force = ProbeRead" using mode by (auto simp: output_mode_def)
  with comp obtain res sz code next' used where
    ce: "CompileEvalExpr L U params label argOutputStackOff [outputArgRegBuff, outputArgRegArgs] ProbeRead False rdonly (ao_expr a) = Inr res"
    and sz: "Option.bind (res_Btf res) (size_of L) = Some sz"
    and gen: "gen_value U (is_str U (res_Btf res)) (is_numptr L (res_Btf res)) res off sz label = Inr (code, next', used)"
    and a': "a' = a\<lparr>ao_t := res_Btf res, ao_mem := res_Mem res, ao_isNumPtr := is_numptr L (res_Btf res),
      ao_isStr := is_str U (res_Btf res), ao_type := res_Type res, ao_insn := res_Insns res @ code @ gen_flag used next' label,
      ao_trueDataSize := next' - off, ao_size := next' + 1 - off\<rparr>" "off' = next' + 1"
    by (auto simp: compile_output_def bind_res_Inr Let_def)
  from CompileEvalExpr_code [OF ce new e L] obtain e res0 r ins used'
    where "out_plan L U c (ao_expr a) = Inr (e, res0)" "r \<in> {R6, R7}" "unlabelled ins"
      "res = res0\<lparr>res_Insns := ins, res_Reg := r, res_LabelUsed := used'\<rparr>" "code_ok L (out_start c) e r ins used'"
      "res_Type res0 \<notin> {Res_Hist, Res_TDigest}" by blast
  with that [of e res0 res ins sz code next' used] sz gen a' show ?thesis by simp
qed

lemma slot_store_parts:
  assumes fit: "p + n + 1 \<le> length buf" and d: "\<forall>bs. d = Some bs \<longrightarrow> length bs = n"
  shows "length (slot_store p n d buf) = length buf" "take p (slot_store p n d buf) = take p buf"
    "drop (Suc (p + n)) (slot_store p n d buf) = drop (Suc (p + n)) buf"
    "d = None \<Longrightarrow> drop p (take (Suc (p + n)) (slot_store p n d buf)) = drop p (take (p + n) buf) @ [1]"
    "d = Some bs \<Longrightarrow> drop p (take (Suc (p + n)) (slot_store p n d buf)) = bs @ [0]"
proof -
  let ?b = "case d of None \<Rightarrow> buf | Some bs \<Rightarrow> store p bs buf" and ?s = "slot_store p n d buf"
  show l: "length ?s = length buf" by (simp add: slot_store_def split: option.split)
  have nth: "?s ! i = (if i = p + n then if d = None then 1 else 0 else if p \<le> i \<and> i < p + n \<and> d \<noteq> None then the d ! (i - p) else buf ! i)"
    if "i < length buf" for i
    using that d by (cases d) (auto simp: slot_store_def nth_store)
  show "take p ?s = take p buf" "drop (Suc (p + n)) ?s = drop (Suc (p + n)) buf"
    using fit by (intro nth_equalityI; simp add: l nth)+
  show "drop p (take (Suc (p + n)) ?s) = drop p (take (p + n) buf) @ [1]" if "d = None"
    using fit that by (intro nth_equalityI) (auto simp: l [unfolded that] nth [unfolded that] nth_append)
  show "drop p (take (Suc (p + n)) ?s) = bs @ [0]" if "d = Some bs"
    using fit that d by (intro nth_equalityI) (auto simp: l [unfolded that] nth [unfolded that] nth_append)
qed

text \<open>The flag's code defines the exit label, and the slot holds what the consumer reads.\<close>

lemma exit_label_found:
  assumes "label \<notin> ins_symbol ` set pre" "unlabelled ins" "unlabelled code" "label \<noteq> []"
  shows "find_symbol label (pre @ (ins @ code @ gen_flag True off label) @ post) = Some (length pre + length ins + length code + 2)"
proof -
  let ?before = "pre @ ins @ code @ [plain (Mov_Imm R0 0), plain (Ja 1)]"
  have "label \<notin> ins_symbol ` set ?before" using assms by (auto simp: unlabelled_def list_all_iff plain_def)
  then have "find_symbol label (?before @ (plain (Mov_Imm R0 1))\<lparr>ins_symbol := label\<rparr> # xs) = Some (length ?before)" for xs
    by (subst find_symbol_append) simp_all
  moreover have "pre @ (ins @ code @ gen_flag True off label) @ post = ?before @ (plain (Mov_Imm R0 1))\<lparr>ins_symbol := label\<rparr> #
      plain (StoreMem_Byte outputArgRegBuff (ucast off) R0) # post"
    by (simp add: gen_flag_def)
  ultimately show ?thesis by simp
qed

lemma slot_attr:
  assumes gen: "gen_value U (ao_isStr a) (ao_isNumPtr a) res off sz label = Inr (code, next', used)"
    and a: "ao_type a = res_Type res" "res_Type res \<notin> {Res_Hist, Res_TDigest}" "unat (ao_trueDataSize a) = n" "unat (ao_size a) = Suc n"
    and n: "n = unat (next' - off)" "p + n + 1 \<le> length buf"
    and d: "d = Option.bind v (out_data h U (ao_isStr a) (ao_isNumPtr a) res sz)"
  shows "output_attr a (drop p (take (Suc (p + n)) (slot_store p n d buf)) @ rest) = Some (attr_of a d, rest)"
proof -
  have len: "\<forall>bs. d = Some bs \<longrightarrow> length bs = n" using length_out_data [OF gen] by (cases v) (auto simp: d n(1))
  note parts = slot_store_parts [OF n(2) len]
  show ?thesis
  proof (cases d)
    case None
    let ?junk = "drop p (take (p + n) buf)"
    have "output_attr a (?junk @ 1 # rest) = Some (Attr_null, rest)"
      by (rule output_attr_null) (use n(2) a(3,4) in simp_all)
    with parts(4) [OF None] None show ?thesis by (simp add: attr_of_def)
  next
    case (Some bs)
    with d obtain w where w: "out_data h U (ao_isStr a) (ao_isNumPtr a) res sz w = Some bs" by (cases v) auto
    have "output_attr a (bs @ 0 # rest) = Some (attr_of a (Some bs), rest)"
    proof (rule output_attr_some)
      show "length bs = (if ao_isNumPtr a then 16 else 8)" if "ao_type a = Res_Default" "\<not> ao_isStr a"
        using w that by (auto simp: out_data_def a(1))
    qed (use len Some a in simp_all)
    with parts(5) [OF Some] Some show ?thesis by simp
  qed
qed

lemma output_slot:
  assumes comp: "compile_output L U rdonly spec_rdonly force params a off label = Inr (a', off')"
    and mode: "\<not> spec_rdonly \<or> force" and new: "newCompiler params label argOutputStackOff ProbeRead rdonly = Inr c"
    and e: "out_fragment L c (ao_expr a)" and L: "lib_ok L" and n: "length params \<le> length vals" "length params \<le> 4096"
    and prog: "prog = pre @ ao_insn a' @ post" "label \<notin> ins_symbol ` set pre" and ctx: "out_ctx vals base m"
    and fit: "base + unat off + unat (ao_trueDataSize a') + 1 \<le> length (m_buff m)" "unat off + unat (ao_trueDataSize a') + 1 \<le> 2 ^ 15"
  shows "unat off' = unat off + unat (ao_trueDataSize a') + 1 \<and>
    (\<exists>m' x. leads h subs prog (length pre) m (length pre + length (ao_insn a')) m' \<and> out_ctx vals base m' \<and>
      length (m_buff m') = length (m_buff m) \<and> take (base + unat off) (m_buff m') = take (base + unat off) (m_buff m) \<and>
      drop (base + unat off') (m_buff m') = drop (base + unat off') (m_buff m) \<and> shown h L U c vals (ao_expr a) = Some x \<and>
      (\<forall>rest. output_attr a' (drop (base + unat off) (take (base + unat off') (m_buff m')) @ rest) = Some (x, rest)))"
proof -
  obtain e' res0 res sz ins code next' used
    where plan: "out_plan L U c (ao_expr a) = Inr (e', res0)"
      and res: "res = res0\<lparr>res_Insns := ins, res_Reg := res_Reg res, res_LabelUsed := res_LabelUsed res\<rparr>"
      and r: "res_Reg res \<in> {R6, R7}" "unlabelled ins" and ok: "code_ok L (out_start c) e' (res_Reg res) ins (res_LabelUsed res)"
      and sz: "Option.bind (res_Btf res) (size_of L) = Some sz" and ty: "res_Type res \<notin> {Res_Hist, Res_TDigest}"
      and gen: "gen_value U (ao_isStr a') (ao_isNumPtr a') res off sz label = Inr (code, next', used)"
      and a': "ao_insn a' = ins @ code @ gen_flag used next' label" "ao_trueDataSize a' = next' - off"
        "ao_size a' = next' + 1 - off" "off' = next' + 1" "ao_type a' = res_Type res" "ao_isStr a' = is_str U (res_Btf res)"
        "ao_isNumPtr a' = is_numptr L (res_Btf res)"
    by (rule compile_output_code [OF comp mode new e L])
  let ?n = "unat (next' - off)" and ?v = "sem h L c vals e'"
  let ?d = "Option.bind ?v (out_data h U (ao_isStr a') (ao_isNumPtr a') res sz)"
  note start = out_start_sel [OF new] and fit' = fit [unfolded a'(2)]
  have nx: "unat next' = unat off + ?n" by (rule next_offset [OF fit'(2)])
  then have o': "unat off' = unat off + ?n + 1" using fit'(2) unat_add_lem [of next' 1] by (simp add: a'(4))
  have label: "label \<noteq> []" using newCompiler_sel(4) [OF new] .
  have "computes h (c_labelExit (out_start c)) ins {R8, R9, RFP} (res_Reg res) m (sem h L (out_start c) vals e')"
    using ctx label n
    by (intro code_ok_computes [OF ok]) (auto simp: start(3,5,6) callee_saved_def out_ctx_def)
  then have cp: "computes h label ins {R8, R9, RFP} (res_Reg res) m ?v" by (simp add: start(3) sem_same [OF start(7)])
  have used: "?v \<noteq> None" if "\<not> res_LabelUsed res"
    using code_ok_value [of L "out_start c" e' "res_Reg res" ins vals h] ok that n
    by (simp add: start(6) sem_same [OF start(7)])
  have at: "code_at prog (length pre) (ins @ code @ gen_flag used next' label)"
    unfolding prog(1) a'(1) by (rule code_at_self)
  have ex: "find_symbol label prog = Some (length pre + length ins + length code + 2)" if used
    using exit_label_found [OF prog(2) r(2) unlabelled_gen_value [OF gen] label] that by (simp add: prog(1) a'(1))
  have "res_Reg res \<notin> {R8, R9, RFP}" using r(1) by auto
  from slot_written [OF cp gen ctx this label used at ex fit', of subs] obtain m'
    where m': "leads h subs prog (length pre) m (length pre + length (ao_insn a')) m'" "out_ctx vals base m'"
      "m_buff m' = slot_store (base + unat off) ?n ?d (m_buff m)"
    unfolding a'(1) by blast
  have len: "\<forall>bs. ?d = Some bs \<longrightarrow> length bs = ?n"
    using length_out_data [OF gen] by (cases ?v) auto
  have f: "base + unat off + ?n + 1 \<le> length (m_buff m)" using fit'(1) by simp
  have end': "Suc (base + unat off + ?n) = base + unat off'" by (simp add: o')
  note parts = slot_store_parts [OF f len, folded m'(3), unfolded end']
  define x where "x = (case ?v of None \<Rightarrow> Attr_null | Some w \<Rightarrow> shown_value h L U res0 w)"
  have sh: "shown h L U c vals (ao_expr a) = Some x" by (simp add: shown_def plan x_def)
  have attr: "attr_of a' ?d = x"
  proof (cases ?v)
    case None
    then show ?thesis by (simp add: x_def attr_of_def)
  next
    case (Some w)
    have "res_Type res = res_Type res0" "res_Btf res = res_Btf res0" "res_Size res = res_Size res0" "res_Off res = res_Off res0"
      by (subst res, simp)+
    then have "shown_value h L U res w = shown_value h L U res0 w" by (simp only: shown_value_def probed_address_def)
    with attr_of_data [OF a'(5,6,7) sz L ty, of h w] Some show ?thesis by (simp add: x_def)
  qed
  have size': "unat (ao_size a') = Suc ?n"
  proof -
    have "ao_size a' = (next' - off) + 1" by (simp add: a'(3))
    then show ?thesis using fit'(2) unat_add_lem [of "next' - off" 1] by simp
  qed
  have "output_attr a' (drop (base + unat off) (take (base + unat off') (m_buff m')) @ rest) = Some (x, rest)" for rest
    using slot_attr [OF gen a'(5) ty _ size' refl f refl, of ?v h rest] attr by (simp only: m'(3) end' a'(2))
  with m'(1,2) parts(1-3) sh o' show ?thesis
    by (intro conjI exI [of _ m'] exI [of _ x] allI) (simp_all only: a'(2))
qed

section \<open>Labels\<close>

lemma digit_char_unique: "a < 10 \<Longrightarrow> b < 10 \<Longrightarrow> digit_char a = digit_char b \<Longrightarrow> a = b"
proof -
  assume n: "a < 10" "b < 10" and eq: "digit_char a = digit_char b"
  have "digit_value (digit_char a) = Some a" "digit_value (digit_char b) = Some b" by (rule digit_value_char, use n in simp)+
  then show "a = b" unfolding eq by simp
qed

lemma digits_inj: "digits 10 a = digits 10 b \<Longrightarrow> a = b"
proof (induction a arbitrary: b rule: less_induct)
  case (less a)
  have d: "digits 10 n = (if n < 10 then [digit_char n] else digits 10 (n div 10) @ [digit_char (n mod 10)])" for n
    by (subst digits.simps) simp
  have eq: "(if a < 10 then [digit_char a] else digits 10 (a div 10) @ [digit_char (a mod 10)]) =
      (if b < 10 then [digit_char b] else digits 10 (b div 10) @ [digit_char (b mod 10)])"
    using less.prems by (simp only: d [symmetric])
  show ?case
  proof (cases "a < 10 \<or> b < 10")
    case True
    with eq have "a < 10" "b < 10"
      using digits_not_empty [of 10 "a div 10"] digits_not_empty [of 10 "b div 10"] by (auto split: if_splits)
    with eq show ?thesis by (auto intro: digit_char_unique)
  next
    case False
    with eq have "digits 10 (a div 10) = digits 10 (b div 10)" "digit_char (a mod 10) = digit_char (b mod 10)" by simp_all
    with False less.IH [of "a div 10" "b div 10"] digit_char_unique [of "a mod 10" "b mod 10"]
    have "a div 10 = b div 10" "a mod 10 = b mod 10" by simp_all
    then show ?thesis by (metis div_mult_mod_eq)
  qed
qed

lemma genExitLabel_inj: "genExitLabel a = genExitLabel b \<longleftrightarrow> a = b"
  by (auto simp: genExitLabel_def dest: digits_inj)

lemma genExitLabel_not_empty [simp]: "genExitLabel a \<noteq> []"
  by (simp add: genExitLabel_def)

section \<open>All expressions of a function\<close>

lemma out_fragment_same: "same_vars c c' \<Longrightarrow> lib_ok L \<Longrightarrow> out_fragment L c' oe = out_fragment L c oe"
  by (simp add: out_fragment_def fragment_same split: sum.split)

lemma shown_same: "same_vars c c' \<Longrightarrow> shown h L U c' vals oe = shown h L U c vals oe"
proof -
  assume same: "same_vars c c'"
  show ?thesis unfolding shown_def out_plan_def vtype_same [OF same] sem_same [OF same] ..
qed

lemma newCompiler_label:
  assumes "newCompiler params label reserved mode rdonly = Inr c" "label' \<noteq> []"
  obtains c' where "newCompiler params label' reserved mode rdonly = Inr c'" "same_vars c c'"
  using assms by (auto simp: newCompiler_def same_vars_def split: if_splits)

definition slots_size :: "'t funcArgumentOutput list \<Rightarrow> nat" where
  "slots_size outs = sum_list (map (\<lambda>a. unat (ao_trueDataSize a) + 1) outs)"

lemma drop_split: "p \<le> q \<Longrightarrow> drop p xs = drop p (take q xs) @ drop q xs"
proof -
  assume "p \<le> q"
  then have "drop q xs = drop (q - p) (drop p xs)" by simp
  then show ?thesis by (simp add: drop_take del: drop_drop)
qed

lemma take_less: "take q xs = take q ys \<Longrightarrow> p \<le> q \<Longrightarrow> take p xs = take p ys"
  by (metis min.absorb1 take_take)

lemma drop_more: "drop p xs = drop p ys \<Longrightarrow> p \<le> q \<Longrightarrow> drop q xs = drop q ys"
  by (metis drop_drop le_add_diff_inverse2)

lemma output_symbols:
  assumes "compile_output L U rdonly spec_rdonly force params a off label = Inr (a', off')"
    and "\<not> spec_rdonly \<or> force" "newCompiler params label argOutputStackOff ProbeRead rdonly = Inr c"
    and "out_fragment L c (ao_expr a)" "lib_ok L"
  shows "ins_symbol ` set (ao_insn a') \<subseteq> {[], label}"
proof -
  obtain ins isStr isNumPtr res sz code next' used where "unlabelled ins"
    and gen: "gen_value U isStr isNumPtr res off sz label = Inr (code, next', used)"
    and "ao_insn a' = ins @ code @ gen_flag used next' label"
    by (rule compile_output_code [OF assms]) blast
  with unlabelled_gen_value [OF gen] show ?thesis
    by (auto simp: unlabelled_def list_all_iff gen_flag_def plain_def split: if_splits)
qed

lemma slots_written:
  assumes "matchParams_output L U rdonly spec_rdonly force params as off cnt = Inr (outs, off', cnt')"
    and "\<forall>a\<in>set as. match_output a params \<longrightarrow> out_fragment L c (ao_expr a)"
    and "prog = pre @ concat (map ao_insn outs) @ post" "\<forall>k\<ge>cnt. genExitLabel k \<notin> ins_symbol ` set pre"
    and "out_ctx vals base m" "base + unat off + slots_size outs \<le> length (m_buff m)" "unat off + slots_size outs \<le> 2 ^ 15"
    and mode: "\<not> spec_rdonly \<or> force" and new: "newCompiler params label argOutputStackOff ProbeRead rdonly = Inr c"
    and L: "lib_ok L" and n: "length params \<le> length vals" "length params \<le> 4096"
  shows "unat off' = unat off + slots_size outs \<and>
    (\<exists>m' xs. leads h subs prog (length pre) m (length pre + length (concat (map ao_insn outs))) m' \<and> out_ctx vals base m' \<and>
      length (m_buff m') = length (m_buff m) \<and> take (base + unat off) (m_buff m') = take (base + unat off) (m_buff m) \<and>
      drop (base + unat off') (m_buff m') = drop (base + unat off') (m_buff m) \<and>
      map Some xs = map (\<lambda>a. shown h L U c vals (ao_expr a)) (filter (\<lambda>a. match_output a params) as) \<and>
      outputFuncArgAttrs outs (drop (base + unat off) (m_buff m')) = Some xs)"
  using assms(1-7)
proof (induction as arbitrary: off cnt outs pre m)
  case Nil
  then show ?case by (auto simp: slots_size_def intro!: exI [of _ m])
next
  case (Cons a as)
  show ?case
  proof (cases "match_output a params")
    case False
    then have f: "filter (\<lambda>a. match_output a params) (a # as) = filter (\<lambda>a. match_output a params) as" by simp
    show ?thesis
      unfolding f by (rule Cons.IH [OF _ _ Cons.prems(3-7)]) (use Cons.prems(1,2) False in simp_all)
  next
    case True
    with Cons.prems(1) obtain a1 off1 rest
      where comp: "compile_output L U rdonly spec_rdonly force params a off (genExitLabel cnt) = Inr (a1, off1)"
        and more: "matchParams_output L U rdonly spec_rdonly force params as off1 (Suc cnt) = Inr (rest, off', cnt')"
        and outs: "outs = a1 # rest"
      by (auto simp: bind_res_Inr)
    from newCompiler_label [OF new genExitLabel_not_empty] obtain c1
      where new1: "newCompiler params (genExitLabel cnt) argOutputStackOff ProbeRead rdonly = Inr c1" and same: "same_vars c c1" .
    have e1: "out_fragment L c1 (ao_expr a)" using Cons.prems(2) True out_fragment_same [OF same L] by simp
    have p1: "prog = pre @ ao_insn a1 @ (concat (map ao_insn rest) @ post)" using Cons.prems(3) by (simp add: outs)
    have f1: "base + unat off + unat (ao_trueDataSize a1) + 1 \<le> length (m_buff m)" "unat off + unat (ao_trueDataSize a1) + 1 \<le> 2 ^ 15"
      using Cons.prems(6,7) by (simp_all add: outs slots_size_def)
    have l1: "genExitLabel cnt \<notin> ins_symbol ` set pre" using Cons.prems(4) by simp
    from output_slot [OF comp mode new1 e1 L n p1 l1 Cons.prems(5) f1, of h subs] obtain m1 x
      where o1: "unat off1 = unat off + unat (ao_trueDataSize a1) + 1"
        and m1: "leads h subs prog (length pre) m (length pre + length (ao_insn a1)) m1" "out_ctx vals base m1"
          "length (m_buff m1) = length (m_buff m)" "take (base + unat off) (m_buff m1) = take (base + unat off) (m_buff m)"
          "drop (base + unat off1) (m_buff m1) = drop (base + unat off1) (m_buff m)"
        and x: "shown h L U c vals (ao_expr a) = Some x"
          "\<And>rest. output_attr a1 (drop (base + unat off) (take (base + unat off1) (m_buff m1)) @ rest) = Some (x, rest)"
      unfolding shown_same [OF same] by blast
    have p2: "prog = (pre @ ao_insn a1) @ concat (map ao_insn rest) @ post" using p1 by simp
    have l2: "\<forall>k\<ge>Suc cnt. genExitLabel k \<notin> ins_symbol ` set (pre @ ao_insn a1)"
    proof (intro allI impI)
      fix k assume "Suc cnt \<le> k"
      then have "genExitLabel k \<notin> ins_symbol ` set pre" "genExitLabel k \<notin> {[], genExitLabel cnt}"
        using Cons.prems(4) by (simp_all add: genExitLabel_inj)
      with output_symbols [OF comp mode new1 e1 L] show "genExitLabel k \<notin> ins_symbol ` set (pre @ ao_insn a1)" by auto
    qed
    have f2: "base + unat off1 + slots_size rest \<le> length (m_buff m1)" "unat off1 + slots_size rest \<le> 2 ^ 15"
      using Cons.prems(6,7) o1 m1(3) by (simp_all add: outs slots_size_def)
    have fr: "\<forall>a\<in>set as. match_output a params \<longrightarrow> out_fragment L c (ao_expr a)" using Cons.prems(2) by simp
    from Cons.IH [OF more fr p2 l2 m1(2) f2] obtain m2 xs
      where o2: "unat off' = unat off1 + slots_size rest"
        and m2: "leads h subs prog (length (pre @ ao_insn a1)) m1 (length (pre @ ao_insn a1) + length (concat (map ao_insn rest))) m2"
          "out_ctx vals base m2" "length (m_buff m2) = length (m_buff m1)"
          "take (base + unat off1) (m_buff m2) = take (base + unat off1) (m_buff m1)"
          "drop (base + unat off') (m_buff m2) = drop (base + unat off') (m_buff m1)"
        and xs: "map Some xs = map (\<lambda>a. shown h L U c vals (ao_expr a)) (filter (\<lambda>a. match_output a params) as)"
          "outputFuncArgAttrs rest (drop (base + unat off1) (m_buff m2)) = Some xs"
      by blast
    have "leads h subs prog (length pre) m (length pre + length (concat (map ao_insn outs))) m2"
      using leads_trans [OF m1(1)] m2(1) by (simp add: outs add.assoc)
    moreover have "take (base + unat off) (m_buff m2) = take (base + unat off) (m_buff m)"
      using take_less [OF m2(4), of "base + unat off"] m1(4) o1 by simp
    moreover have "drop (base + unat off') (m_buff m2) = drop (base + unat off') (m_buff m)"
      using drop_more [OF m1(5), of "base + unat off'"] m2(5) o2 by simp
    moreover have "outputFuncArgAttrs outs (drop (base + unat off) (m_buff m2)) = Some (x # xs)"
    proof -
      have "drop (base + unat off) (m_buff m2) =
          drop (base + unat off) (take (base + unat off1) (m_buff m1)) @ drop (base + unat off1) (m_buff m2)"
        unfolding m2(4) [symmetric] by (rule drop_split) (simp add: o1)
      then show ?thesis unfolding outs by (simp only: outputFuncArgAttrs.simps x(2)) (simp add: xs(2))
    qed
    moreover have "unat off' = unat off + slots_size outs" using o1 o2 by (simp add: outs slots_size_def)
    ultimately show ?thesis using m2(2,3) m1(3) x(1) xs(1) True
      by (intro conjI exI [of _ m2] exI [of _ "x # xs"]) simp_all
  qed
qed

section \<open>The routine in its place\<close>

text \<open>A call of \<^verbatim>\<open>output_arg\<close> in a program, with the arguments and a pointer to offset \<open>base\<close> of the record.\<close>

definition output_entry :: "u8 list \<Rightarrow> u64 list \<Rightarrow> nat \<Rightarrow> u8 list \<Rightarrow> machine" where
  "output_entry stack args base buf =
     \<lparr>m_regs = (\<lambda>_. None)(R1 := Some (PtrArgs 0), R2 := Some (PtrBuff (int base)), RFP := Some (PtrFrame 0)), m_args = args,
      m_buff = buf, m_frame = stack\<rparr>"

definition call_output_arg :: "helpers \<Rightarrow> instructions \<Rightarrow> u8 list \<Rightarrow> u64 list \<Rightarrow> nat \<Rightarrow> u8 list \<Rightarrow> u8 list option" where
  "call_output_arg h prog stack args base buf = Option.bind (findStartIndex prog ''output_arg'') (\<lambda>k.
     case exec h (\<lambda>_ _. None) prog (length prog) k (output_entry stack args base buf) of
       Halted m \<Rightarrow> Some (m_buff m)
     | _ \<Rightarrow> None)"

lemma find_symbol_before:
  assumes "find_symbol l prog = Some k"
  shows "l \<notin> ins_symbol ` set (take k prog)"
proof
  assume "l \<in> ins_symbol ` set (take k prog)"
  then obtain j where "j < k" "ins_symbol (prog ! j) = l" by (auto simp: in_set_conv_nth)
  with find_symbol_SomeD [OF assms] show False by blast
qed

lemma genInsns_with_metadata:
  "with_metadata i (genInsns outs) = (plain (Mov_Reg R9 R1))\<lparr>ins_symbol := ins_symbol i, ins_reference := ins_reference i\<rparr> #
     plain (Mov_Reg R8 R2) # concat (map ao_insn outs) @ [plain Return]"
  by (simp add: genInsns_def with_metadata_def)

lemma inject_output_split:
  assumes "findStartIndex prog ''output_arg'' = Some k" "outs \<noteq> []"
  obtains i :: instruction and post where "ins_symbol i = ''output_arg''" "length (take k prog) = k"
    "inject_output prog outs = (take k prog @ [(plain (Mov_Reg R9 R1))\<lparr>ins_symbol := ins_symbol i, ins_reference := ins_reference i\<rparr>,
       plain (Mov_Reg R8 R2)]) @ concat (map ao_insn outs) @ plain Return # post"
proof -
  have stub: "''output_arg'' \<noteq> []" by simp
  from injectInsns_split [OF assms(1) stub] obtain i body post
    where "prog = take k prog @ (i # body) @ post" "ins_symbol i = ''output_arg''" "k < length prog"
      "injectInsns prog ''output_arg'' (genInsns outs) = take k prog @ with_metadata i (genInsns outs) @ post"
    by blast
  then show ?thesis using that [of i post] assms(2) by (simp add: inject_output_def genInsns_with_metadata)
qed

lemma labels_before:
  assumes "list_all (\<lambda>i. \<forall>j. ins_symbol i \<noteq> genExitLabel j) prog" "ins_symbol (i :: instruction) = ''output_arg''" "ins_symbol i2 = []"
  shows "\<forall>j\<ge>cnt. genExitLabel j \<notin> ins_symbol ` set (take k prog @ [i\<lparr>ins_op := c\<rparr>, i2])"
proof (intro allI impI)
  fix j
  have "genExitLabel j \<notin> ins_symbol ` set (take k prog)" using assms(1) by (auto simp: list_all_iff) (metis in_set_takeD)
  moreover have "genExitLabel j \<noteq> ''output_arg''" by (simp add: genExitLabel_def)
  ultimately show "genExitLabel j \<notin> ins_symbol ` set (take k prog @ [i\<lparr>ins_op := c\<rparr>, i2])" using assms(2,3) by simp
qed


end
