(* ===== verification/Out_Witnesses.thy ===== *)
theory Out_Witnesses
  imports Out_Props Cc_Witnesses
begin

text \<open>
  Two expressions, \<^verbatim>\<open>skb->len\<close> and \<^verbatim>\<open>buf(skb->dev, 2)\<close>, on the library and the memory of the filter's example, at which
  the hypotheses of the property of the output routine hold.
\<close>

definition skb_out :: "string out_lib" where
  "skb_out = \<lparr>UnderlyingType = (\<lambda>t. t), array_Nelems = (\<lambda>_. 0), is_const_char_ptr = (\<lambda>_. False), is_char_array = (\<lambda>_. False)\<rparr>"

definition skb_output :: "out_expr \<Rightarrow> string funcArgumentOutput" where
  "skb_output e = \<lparr>ao_expr = e, ao_vars = [''skb''], ao_t = None, ao_mem = None, ao_insn = [], ao_size = 0, ao_trueDataSize = 0,
     ao_isNumPtr = False, ao_isStr = False, ao_type = Res_Default\<rparr>"

definition skb_outputs :: "string funcArgumentOutput list" where
  "skb_outputs =
     [skb_output (Plain_expr (Arrow (Name ''skb'') ''len'')),
      skb_output (Call_expr (Name ''buf'') [Arrow (Name ''skb'') ''dev'', expr.Number ''2''])]"

definition out_comp :: "string compiler" where
  "out_comp = skb_comp\<lparr>c_labelExit := genExitLabel 0, c_reservedStack := 16\<rparr>"

lemma out_new: "newCompiler skb_params (genExitLabel 0) argOutputStackOff ProbeRead None = Inr out_comp"
  by (simp add: newCompiler_def skb_params_def skb_comp_def out_comp_def argOutputStackOff_def)

lemmas out_eval = CompileEvalExpr_def out_front_def empty_result_def compileFuncCall_def call_buf_def positive_size_def
  parseExprNumber_def postCheckFuncCall_def elem_type_def is_ptr_def compile_output_def gen_value_def genDefaultInsns_def
  genBufInsns_def is_numptr_def is_str_def is_chars_def is_number_pointer_def output_mode_def argOutputStackOff_def
  outputArgRegBuff_def outputArgRegArgs_def match_output_def

lemma out_fragments: "list_all (\<lambda>a. match_output a skb_params \<longrightarrow> out_fragment skb_lib out_comp (ao_expr a)) skb_outputs"
  by (simp add: skb_outputs_def skb_output_def out_fragment_def out_comp_def skb_comp_def path_ok_def is_pointer_def
      is_array_def skb_eval out_eval number_of_def cut_ok_def offset_small_def const_ok_def)

lemma out_matched:
  "\<exists>outs. matchParams_output skb_lib skb_out None False False skb_params skb_outputs 0 0 = Inr (outs, 12, 2) \<and>
     map ao_trueDataSize outs = [8, 2]"
  by (simp add: skb_outputs_def skb_output_def skb_eval out_eval skb_out_def)

definition out_prog :: instructions where
  "out_prog =
     [\<lparr>ins_op = Mov_Reg R6 R1, ins_symbol = ''bpfsnoop_fn'', ins_reference = []\<rparr>, Call_Label ''output_arg'', plain Return,
      \<lparr>ins_op = Mov_Imm R0 0, ins_symbol = ''output_arg'', ins_reference = []\<rparr>, plain Return]"

lemma out_prog_simps:
  "findStartIndex out_prog ''output_arg'' = Some 3" "list_all (\<lambda>i. \<forall>j. ins_symbol i \<noteq> genExitLabel j) out_prog"
  by (simp_all add: out_prog_def findStartIndex_def Call_Label_def plain_def genExitLabel_def)

lemmas out_sem_defs = out_comp_def skb_comp_def skb_words number_of_def path_value_def rvalue_def pointer_value_def
  follow_def member_bytes_def member_place_def is_pointer_def is_array_def slices_Index_def cut_def isMemberBitfield_def vsize_def

lemma out_sem:
  "sem skb_h skb_lib out_comp [0x1000] (Arrow (Name ''skb'') ''len'') = Some 100"
  "sem skb_h skb_lib out_comp [0x1000] (Arrow (Name ''skb'') ''dev'') = Some 0x2000"
  by (simp_all add: out_sem_defs)

lemma out_vtype:
  "vtype skb_lib out_comp (Arrow (Name ''skb'') ''len'') = (Some ''u32'', member_of skb_lib ''sk_buff'' ''len'')"
  "vtype skb_lib out_comp (Arrow (Name ''skb'') ''dev'') = (Some ''net_device *'', member_of skb_lib ''sk_buff'' ''dev'')"
  by (simp_all add: out_sem_defs)

lemma out_shown:
  "shown skb_h skb_lib skb_out out_comp [0x1000] (Plain_expr (Arrow (Name ''skb'') ''len'')) = Some (Attr_num 100 0)"
  "shown skb_h skb_lib skb_out out_comp [0x1000] (Call_expr (Name ''buf'') [Arrow (Name ''skb'') ''dev'', expr.Number ''2'']) =
     Some (Attr_bytes (probe_bytes skb_h 0x2000 2))"
  by (simp_all add: shown_def out_plan_def out_vtype out_sem out_front_def empty_result_def compileFuncCall_def call_buf_def
      positive_size_def parseExprNumber_def number_res_def skb_numbers postCheckFuncCall_def elem_type_def is_ptr_def
      reg_value_def isMemberBitfield_def vkind_def shown_value_def probed_address_def is_str_def is_numptr_def
      is_number_pointer_def skb_out_def
      del: sem.simps vtype.simps)

lemma out_all_shown:
  "map (\<lambda>a. shown skb_h skb_lib skb_out out_comp [0x1000] (ao_expr a)) (filter (\<lambda>a. match_output a skb_params) skb_outputs) =
     map Some [Attr_num 100 0, Attr_bytes (probe_bytes skb_h 0x2000 2)]"
  by (simp add: skb_outputs_def skb_output_def match_output_def skb_params_def out_shown)


end
