(* ===== verification/Spec2Isabelle.thy ===== *)
theory Spec2Isabelle
  imports Protocol_Props Interleaving Insn_Tracer Fgraph_Props Pkt_Props Filter_Props Lbr_Props Layout Traceable Tracepoint
    Tracepoint_Module Probes Cleanup Ether Xdp_Crc Ebpf Gen_Args Inject Inject_Filter Loader_Hooks
    Go_Consumer Go_Packet Go_Sessions Fn_Witnesses Walk_Witnesses Packet_Witnesses Probe_Witnesses
    Loader_Witnesses Cc_Number Segments Cc_Compiler Cc_Eval Cc_Code Cc_Path Cc_Read Cc_Filter Cc_Props
    Arg_Filter Cc_Witnesses Cc_Func Gen_Output Out_Props Out_Witnesses
begin

text \<open>
  A verification development for bpfsnoop, a tracer for kernel functions and BPF programs: its BPF
  programs in C, the part of the loader in Go that specialises them, and the part that consumes
  their records.

  \<^bold>\<open>The program.\<close> The C files under \<^verbatim>\<open>bpf/\<close> are compiled to BPF objects, which a loader in Go
  specialises and attaches. Of each traced function the loader attaches an entry and an exit
  program (\<^verbatim>\<open>bpfsnoop.c\<close> with fentry and fexit, \<^verbatim>\<open>bpfsnoop_kprobe.c\<close> with kprobe and kretprobe). An
  entry that passes the filters stores a session under the frame pointer of the caller
  (\<^verbatim>\<open>bpfsnoop_sess.h\<close>, \<^verbatim>\<open>bpfsnoop_stack.h\<close>), the exit takes it out again, and each submits a record
  (\<^verbatim>\<open>bpfsnoop_event.h\<close>, \<^verbatim>\<open>bpfsnoop_cfg.h\<close>) with the printed arguments, the packet's addresses
  (\<^verbatim>\<open>bpfsnoop_pkt_output.h\<close>) and the argument data to a ring buffer. While a session is open,
  programs on functions deeper in the call (\<^verbatim>\<open>bpfsnoop_fgraph.c\<close>) and on single instructions
  (\<^verbatim>\<open>bpfsnoop_insn.c\<close>) find it by walking the stack and report under its id. Before it traces,
  the loader runs one-shot programs that read memory, features, tracepoints and the code at
  function entries (\<^verbatim>\<open>read.c\<close>, \<^verbatim>\<open>feature.c\<close>, \<^verbatim>\<open>tailcall.c\<close>, \<^verbatim>\<open>traceable.c\<close>, \<^verbatim>\<open>tracepoint.c\<close>,
  \<^verbatim>\<open>tracepoint_module.c\<close>). \<^verbatim>\<open>cmd/xdpcrc/xdp.c\<close> is a separate XDP program.

  For each function the loader (\<^verbatim>\<open>internal/bpfsnoop/\<close>) generates the code that copies the arguments
  by their types (\<^verbatim>\<open>func_arg.go\<close>), chooses the packet routines by the signature (\<^verbatim>\<open>bpf_tracing.go\<close>,
  \<^verbatim>\<open>output_pkt.go\<close>, \<^verbatim>\<open>filter_pkt.go\<close>), compiles the user's C expressions over the arguments
  (\<^verbatim>\<open>internal/cc/\<close>) to a filter and to code that reports their values (\<^verbatim>\<open>filter_arg.go\<close>,
  \<^verbatim>\<open>output_arg.go\<close>), and splices all of them into the compiled program (\<^verbatim>\<open>bpf_asm.go\<close>). The
  consumer takes the records out of the ring buffer, keeps what it prints under the sessions' ids
  until the exits come (\<^verbatim>\<open>bpfsnoop.go\<close>, \<^verbatim>\<open>bpfsnoop_sess.go\<close>), and reads arguments and packets back
  (\<^verbatim>\<open>bpfsnoop_func_args.go\<close>, \<^verbatim>\<open>bpfsnoop_arg.go\<close>, \<^verbatim>\<open>bpfsnoop_pkt.go\<close>).

  \<^bold>\<open>The model.\<close> A program is a function from the results of the kernel's helpers (the record
  \<open>helpers\<close>), its read-only data and its state (maps, data sections, submitted records) to its
  return value and the next state. Integers are words of their width, so all arithmetic wraps
  as in C; buffers are byte lists; a pointer into a map is a word, zero for NULL. Kernel code
  is not part of the repository: its helpers and maps are arguments, and what the programs rely
  on is stated by locales, which a reference kernel interprets. The routines the loader
  overwrites with generated code are an argument too (\<open>hooks\<close>, \<open>pcap_hooks\<close>); the bodies the C
  files have for them are modelled as well, and so is the code the loader puts in their place, as
  instructions that a small machine runs. In the Go code a panic is \<open>None\<close>, an error a value.

  \<^bold>\<open>The theories\<close>, with the files under \<^verbatim>\<open>bpf/\<close> they model:
  \<^item> \<^verbatim>\<open>Prelude\<close>: little-endian words, stores into and slices of buffers, the loop that fills an
    array. \<^verbatim>\<open>Errno\<close>: \<^verbatim>\<open>headers/errno.h\<close>.
  \<^item> \<^verbatim>\<open>Bpf_Runtime\<close>: the interface to the kernel; the locales \<open>kernel_memory\<close> (probing reads) and
    \<open>bpf_hash_map\<close> (lookup, update, delete). \<^verbatim>\<open>Ref_Map\<close>: a bounded hash map that satisfies it.
  \<^item> \<^verbatim>\<open>Cfg\<close> (\<^verbatim>\<open>bpfsnoop_cfg.h\<close> and the Go side of it), \<^verbatim>\<open>Event\<close> (\<^verbatim>\<open>bpfsnoop_event.h\<close>), \<^verbatim>\<open>Sess\<close>
    (\<^verbatim>\<open>bpfsnoop_sess.h\<close>, \<^verbatim>\<open>headers/bpf_map_helpers.h\<close>; the locale \<open>session_store\<close>), \<^verbatim>\<open>Lbr\<close>
    (\<^verbatim>\<open>bpfsnoop_lbr.h\<close>), \<^verbatim>\<open>Stack\<close> (\<^verbatim>\<open>bpfsnoop_stack.h\<close>).
  \<^item> \<^verbatim>\<open>Pkt\<close>, \<^verbatim>\<open>Pkt_Filter\<close>, \<^verbatim>\<open>Pkt_Output\<close> (\<^verbatim>\<open>bpfsnoop_pkt.h\<close>, \<^verbatim>\<open>bpfsnoop_pkt_filter.h\<close>,
    \<^verbatim>\<open>bpfsnoop_pkt_output.h\<close>); \<^verbatim>\<open>Pkt_Props\<close> and \<^verbatim>\<open>Filter_Props\<close> compare them with the wire formats.
  \<^item> \<^verbatim>\<open>Tracer\<close>: what the two function tracers share, the record's layout. \<^verbatim>\<open>Fn_Tracer\<close> (\<^verbatim>\<open>bpfsnoop.c\<close>) and
    \<^verbatim>\<open>Kprobe_Tracer\<close> (\<^verbatim>\<open>bpfsnoop_kprobe.c\<close>): one invocation; \<^verbatim>\<open>Fn_Props\<close>, \<^verbatim>\<open>Kprobe_Props\<close>,
    \<^verbatim>\<open>Lbr_Props\<close>: its outcome on every path, and what it keeps of the branch records.
  \<^item> \<^verbatim>\<open>Protocol\<close>: the abstract history of traced calls, and the locale \<open>session_protocol\<close> of what one
    invocation has to satisfy for a whole run to have a history; \<^verbatim>\<open>Protocol_Props\<close>: both tracers
    satisfy it. \<^verbatim>\<open>Interleaving\<close>: invocations on several CPUs, as sequences of map operations that
    take turns, over the locale \<open>stable_hash_map\<close>.
  \<^item> \<^verbatim>\<open>Insn_Tracer\<close> (\<^verbatim>\<open>bpfsnoop_insn.c\<close>), \<^verbatim>\<open>Fgraph\<close> (\<^verbatim>\<open>bpfsnoop_fgraph.c\<close>) and \<^verbatim>\<open>Fgraph_Props\<close>: the
    stack walks against the nearest open session.
  \<^item> \<^verbatim>\<open>Traceable\<close>, \<^verbatim>\<open>Tracepoint\<close>, \<^verbatim>\<open>Tracepoint_Module\<close>, \<^verbatim>\<open>Probes\<close>: the one-shot programs. \<^verbatim>\<open>Cleanup\<close>,
    \<^verbatim>\<open>Ether\<close>: \<^verbatim>\<open>headers/bpf_cleanup.h\<close> and \<^verbatim>\<open>headers/if_ether.h\<close>. \<^verbatim>\<open>Xdp_Crc\<close>: \<^verbatim>\<open>cmd/xdpcrc/xdp.c\<close>.
  \<^item> \<^verbatim>\<open>Ctypes\<close>: the C rules for sizes, alignment and offsets; \<^verbatim>\<open>Vmlinux_Task\<close>, \<^verbatim>\<open>Vmlinux_Module\<close>,
    \<^verbatim>\<open>Vmlinux_Net\<close>: the types of \<^verbatim>\<open>headers/vmlinux-arm64.h\<close> the programs read, with all the types they
    contain; \<^verbatim>\<open>Layout\<close>: their offsets, which the programs' field reads use.
  \<^item> \<^verbatim>\<open>Ebpf\<close>: the instructions the loader generates, and the machine that runs them. \<^verbatim>\<open>Gen_Args\<close>: from
    a signature to the argument routine. \<^verbatim>\<open>Inject\<close>: splicing, and the packet report; \<^verbatim>\<open>Inject_Filter\<close>:
    the packet filter, over the locale \<open>pcap_injector\<close>. \<^verbatim>\<open>Go_Consumer\<close>, \<^verbatim>\<open>Go_Packet\<close>, \<^verbatim>\<open>Go_Sessions\<close>:
    the consumer's side of arguments, packets and sessions. \<^verbatim>\<open>Loader_Hooks\<close>: the tracer with the
    generated routine.
  \<^item> The compiler of C expressions: \<^verbatim>\<open>Cc_Number\<close> (\<^verbatim>\<open>number.go\<close>), \<^verbatim>\<open>Cc_Compiler\<close> (\<^verbatim>\<open>compiler.go\<close>, \<^verbatim>\<open>register.go\<close>,
    \<^verbatim>\<open>insn.go\<close>, \<^verbatim>\<open>bpf_*_read.go\<close>, \<^verbatim>\<open>bpf_btf.go\<close>), \<^verbatim>\<open>Cc_Eval\<close> (\<^verbatim>\<open>eval.go\<close>, \<^verbatim>\<open>memory_access.go\<close>, \<^verbatim>\<open>expr.go\<close>), \<^verbatim>\<open>Cc_Func\<close>
    (\<^verbatim>\<open>expr_func.go\<close>). \<^verbatim>\<open>Segments\<close>: code as part of a larger program. \<^verbatim>\<open>Cc_Code\<close>, \<^verbatim>\<open>Cc_Path\<close>, \<^verbatim>\<open>Cc_Read\<close>,
    \<^verbatim>\<open>Cc_Filter\<close>: what the emitted code computes, operator by operator, the meaning of paths through
    memory, and that of a whole expression; \<^verbatim>\<open>Cc_Props\<close>: filters. \<^verbatim>\<open>Arg_Filter\<close> (\<^verbatim>\<open>filter_arg.go\<close>): the
    filter in its program, and the tracer with it. \<^verbatim>\<open>Gen_Output\<close> (\<^verbatim>\<open>output_arg.go\<close>, \<^verbatim>\<open>bpfsnoop_arg.go\<close>): the
    output of expressions and its consumer; \<^verbatim>\<open>Out_Props\<close>: from the expressions to what is printed.
  \<^item> \<^verbatim>\<open>Fn_Witnesses\<close>, \<^verbatim>\<open>Walk_Witnesses\<close>, \<^verbatim>\<open>Packet_Witnesses\<close>, \<^verbatim>\<open>Probe_Witnesses\<close>, \<^verbatim>\<open>Loader_Witnesses\<close>,
    \<^verbatim>\<open>Cc_Witnesses\<close>, \<^verbatim>\<open>Out_Witnesses\<close>: concrete inputs at which the hypotheses of the properties hold.

  \<^bold>\<open>What is shown.\<close> For whole runs: the open sessions and the records are explained by a history
  of calls in which every exit matches the entry of the same call, and session ids carry the
  lower half of their frame pointer (\<^verbatim>\<open>Protocol_Props\<close>). For several CPUs: the kprobe tracer's
  invocations serialise under every schedule, the function tracer's exits may report another
  call's session (\<^verbatim>\<open>Interleaving\<close>). For one invocation: its effect on the
  sessions and its record, on each path, early returns included. For the stack walks: they
  report the nearest open session within their bounds, and the two implementations agree. For
  packets: the reported tuple and the filter's bounds are those of the packet, or of the packet
  in a VXLAN tunnel, with the cases stated in which they are not. For the one-shot programs:
  what they leave in their arrays after any number of runs. For the loader: the code it generates
  ends, does not fault and writes exactly the serialised arguments, also after it was spliced into
  a program, where nothing else changes; the packet routines it keeps are those of the signature.
  For C expressions: numbers are read back from their digits, the steps found for a path are worth
  what the path is in C, and a compiled filter ends without a fault and returns the value of its
  expression, for all arguments and all memory, null pointers included; in place in the tracer it
  lets through exactly the calls that satisfy it; and the values the consumer prints for the user's
  output expressions are those of the expressions.
  For tracer and consumer together: the printed calls are the completed calls, and the printed
  arguments, return values and packets are those of the traced function. For data: the record's areas do not
  overlap, the loader's options reach the program, and the types have the layouts the code
  relies on.

  \<^bold>\<open>Bounds.\<close> Every loop of the programs is bounded, as the BPF verifier requires, and the model's
  loops recurse over these bounds: twelve arguments, three frames of the instruction tracer,
  ten times a hundred frames of the function-graph tracer, 256 tracepoints or modules and 1024
  addresses in a run. The list of modules is unbounded; \<open>module_runs\<close> has fuel, and the theorem
  about it gives the number of runs that is enough. Generated code never jumps back, so that its
  length is enough fuel to run it; its offsets are 16-bit, which holds the at most 832 bytes of
  twelve parameters and a return value.

  \<^bold>\<open>Not modelled.\<close> Of the Go code: the command line, loading and attaching, and the printing of
  symbols, stacks, histograms and of a value by its type. Libraries are arguments: the parser of C
  expressions (the model starts from syntax trees), the BTF types with their members and sizes, the
  compiler of pcap expressions, and the kernel's helpers. The theorems on compiled expressions are about reads
  with the probing helper and expressions whose values fit into the free callee-saved registers, without
  division by a register, conditionals and casts of numbers; reads for newer kernels and direct reads are modelled as code only.
  The types of the generated header that no program reads are left out.
  Invocations on several CPUs take turns at their session map operations only (\<^verbatim>\<open>Interleaving\<close>); in
  the other theories an invocation is one step.
\<close>

end
